(* ===== verification/Clix_Types.thy ===== *)
theory Clix_Types
  imports Clix_Prelude
begin

text \<open>
  The data of \<open>src/error.rs\<close> and \<open>src/types.rs\<close>: the error type with its message texts,
  grants and their schedules, jobs, requests and peers.  A \<open>BodyId\<close> is its name; a
  \<open>SystemTime\<close> is the number of nanoseconds since the Unix epoch (an integer, since times
  before the epoch exist); a \<open>NaiveTime\<close> is the number of nanoseconds since midnight.
\<close>

section \<open>Errors\<close>

datatype clix_error =
    Usage string
  | Io string
  | Json string
  | GrantBusy string
  | ToolExit int
  | Unreachable
  | Capacity string
  | Protocol string
  | NoDaemon
  | NoSuchTool string
  | NotAdded string string
  | NotAllowed string string string
  | Expired string string
  | NotAddedAtTime string string
  | PinConflict string string string

type_synonym 'a res = "clix_error + 'a"

text \<open>The \<open>Display\<close> text of each variant.\<close>

fun error_text :: "clix_error \<Rightarrow> string" where
  "error_text (Usage m) = m"
| "error_text (Io m) = m"
| "error_text (Json m) = m"
| "error_text (GrantBusy tool) = tool @ '' already has a reserved single-use run''"
| "error_text (ToolExit n) = ''command exited '' @ decimal_int n"
| "error_text Unreachable = ''machine is unreachable''"
| "error_text (Capacity m) = m"
| "error_text (Protocol m) = m"
| "error_text NoDaemon = ''Clix is not running. clix install''"
| "error_text (NoSuchTool tool) = ''no such tool: '' @ tool"
| "error_text (NotAdded tool body) = tool @ '' is not added on '' @ body"
| "error_text (NotAllowed tool who body) = who @ '' is not allowed to use '' @ tool @ '' on '' @ body"
| "error_text (Expired tool body) = tool @ '' grant on '' @ body @ '' has expired''"
| "error_text (NotAddedAtTime tool body) = tool @ '' is not added on '' @ body @ '' at this time''"
| "error_text (PinConflict path a b) =
     ''pin conflict: '' @ path @ '' ('' @ a @ '' and '' @ b @ '' both wrote). Not merging.''"

section \<open>Schedules\<close>

datatype weekday = Mon | Tue | Wed | Thu | Fri | Sat | Sun

type_synonym body_id = string

text \<open>What the code reads of a \<open>DateTime<Local>\<close>: the instant, and on the local calendar the
  weekday, the day of the month and the time of day.\<close>

record local_now =
  now_instant :: int
  now_weekday :: weekday
  now_day :: nat
  now_time :: nat

record schedule =
  s_days :: "weekday list"
  s_dates :: "nat list"
  s_from :: "nat option"
  s_to :: "nat option"

definition calendar_ok :: "schedule \<Rightarrow> local_now \<Rightarrow> bool" where
  "calendar_ok sc now =
     (let days_set = s_days sc \<noteq> []; dates_set = s_dates sc \<noteq> []
      in if \<not> days_set \<and> \<not> dates_set then True
         else (let day_match = days_set \<and> List.member (s_days sc) (now_weekday now);
                   date_match = dates_set \<and> List.member (s_dates sc) (now_day now)
               in day_match \<or> date_match))"

fun time_ok :: "nat option \<Rightarrow> nat option \<Rightarrow> nat \<Rightarrow> bool" where
  "time_ok None None t = True"
| "time_ok (Some f) None t = (f \<le> t)"
| "time_ok None (Some u) t = (t \<le> u)"
| "time_ok (Some f) (Some u) t = (if f \<le> u then f \<le> t \<and> t \<le> u else f \<le> t \<or> t \<le> u)"

definition allows_at :: "schedule \<Rightarrow> local_now \<Rightarrow> bool" where
  "allows_at sc now \<longleftrightarrow> calendar_ok sc now \<and> time_ok (s_from sc) (s_to sc) (now_time now)"

section \<open>Grants, jobs, peers, requests\<close>

record grant =
  g_tool :: string
  g_binary :: string
  g_allow_from :: "body_id list option"
  g_once :: bool
  g_until :: "int option"
  g_schedule :: "schedule option"
  g_reservation :: "string option"
  g_args :: "string list list option"

datatype job_status =
    Queued
  | WaitingBody
  | WaitingCapacity
  | Running
  | Done int
  | Denied string
  | Failed string
  | Uncertain string

record job =
  j_id :: string
  j_body :: body_id
  j_argv :: "string list"
  j_from :: body_id
  j_status :: job_status
  j_stdout :: bytes
  j_stderr :: bytes

record peer =
  p_name :: body_id
  p_owner_pk :: bytes
  p_addr :: "string option"

record request =
  r_id :: string
  r_from :: body_id
  r_tool :: string
  r_once_suggested :: bool

record outbound_request =
  o_id :: string
  o_body :: body_id
  o_tool :: string
  o_waiting :: bool
  o_error :: "string option"

record request_receipt =
  rr_delivery_id :: string
  rr_request :: request

section \<open>Stored expiry times\<close>

text \<open>The serde adapter of \<open>Grant.until\<close>: whole seconds since the epoch, times before it as 0.
  Reading back adds the seconds to the epoch; the addition panics (\<open>None\<close>) when the seconds do
  not fit the signed 64-bit seconds of a Unix \<open>SystemTime\<close>.\<close>

definition ns_per_sec :: int where
  "ns_per_sec = 1000000000"

definition system_time_ser :: "int option \<Rightarrow> nat option" where
  "system_time_ser t = map_option (\<lambda>st. if st < 0 then 0 else nat (st div ns_per_sec)) t"

definition system_time_de :: "nat option \<Rightarrow> int option option" where
  "system_time_de secs = (case secs of
       None \<Rightarrow> Some None
     | Some n \<Rightarrow> if n < 2 ^ 63 then Some (Some (int n * ns_per_sec)) else None)"

section \<open>Status classes\<close>

fun is_terminal :: "job_status \<Rightarrow> bool" where
  "is_terminal (Done _) = True"
| "is_terminal (Denied _) = True"
| "is_terminal (Failed _) = True"
| "is_terminal (Uncertain _) = True"
| "is_terminal _ = False"

text \<open>The states in which an admitted job has not been started on this machine.\<close>

fun is_queued :: "job_status \<Rightarrow> bool" where
  "is_queued Queued = True"
| "is_queued WaitingCapacity = True"
| "is_queued _ = False"

lemma terminal_not_queued: "is_terminal st \<Longrightarrow> \<not> is_queued st"
  by (cases st) auto

section \<open>Properties of schedules and expiry\<close>

lemma calendar_ok_iff:
  "calendar_ok sc now \<longleftrightarrow>
     (s_days sc = [] \<and> s_dates sc = []) \<or> now_weekday now \<in> set (s_days sc) \<or> now_day now \<in> set (s_dates sc)"
  by (auto simp: calendar_ok_def Let_def)

lemma system_time_roundtrip:
  assumes "0 \<le> t" and "t < 2 ^ 63 * ns_per_sec"
  shows "\<exists>u. system_time_de (system_time_ser (Some t)) = Some (Some u) \<and> u \<le> t \<and> t - u < ns_per_sec"
proof -
  have "t div ns_per_sec < 2 ^ 63" using assms by (simp add: ns_per_sec_def)
  moreover have "0 \<le> t div ns_per_sec" using assms by (simp add: ns_per_sec_def)
  ultimately have "nat (t div ns_per_sec) < 2 ^ 63" by (simp add: nat_less_iff)
  with assms have "system_time_de (system_time_ser (Some t)) = Some (Some (t div ns_per_sec * ns_per_sec))"
    by (simp add: system_time_ser_def system_time_de_def ns_per_sec_def)
  moreover have "t div ns_per_sec * ns_per_sec \<le> t \<and> t - t div ns_per_sec * ns_per_sec < ns_per_sec"
    using assms by (simp add: ns_per_sec_def minus_div_mult_eq_mod)
  ultimately show ?thesis by blast
qed

end
