(* ===== verification/Clix_State.thy ===== *)
theory Clix_State
  imports Clix_Types
begin

text \<open>
  The durable state of one machine: the data types of \<open>src/history.rs\<close> and the \<open>Store\<close> of
  \<open>src/store.rs\<close>.  \<open>history.entries\<close> is kept in key order because the code iterates over it;
  maps the code only looks up and inserts into are HOL maps, and sets of identifiers are sets.
\<close>

section \<open>Signed history\<close>

record invocation =
  i_id :: string
  i_from :: body_id
  i_origin_key :: bytes
  i_body :: body_id
  i_runner_key :: bytes
  i_argv :: "string list"
  i_retry_of :: "string option"
  i_legacy_observer :: "body_id option"

record certificate =
  c_invocation :: invocation
  c_signature :: bytes

datatype role = Origin | Runner | LegacyObserver

record output_ref =
  or_bytes :: nat
  or_sha256 :: string

record fact =
  f_invocation :: string
  f_role :: role
  f_revision :: nat
  f_status :: job_status
  f_stdout :: output_ref
  f_stderr :: output_ref

record signed_fact =
  sf_fact :: fact
  sf_signature :: bytes

record hrecord =
  rec_certificate :: certificate
  rec_origin :: "signed_fact option"
  rec_runner :: "signed_fact option"

record captured_output =
  co_stdout :: bytes
  co_stderr :: bytes

record entry =
  e_record :: hrecord
  e_change :: nat
  e_output :: "captured_output option"

record progress =
  pg_epoch :: string
  pg_cursor :: nat
  pg_high :: nat
  pg_complete :: bool
  pg_unknown_authors :: bool
  pg_last_contact :: "nat option"
  pg_error :: "string option"

record history =
  hs_initialized :: bool
  hs_epoch :: string
  hs_clock :: nat
  hs_trust :: string
  hs_entries :: "(string, entry) btree"
  hs_peers :: "string \<rightharpoonup> progress"

record published =
  pub_record :: hrecord
  pub_output :: "captured_output option"
  pub_change :: nat

record page =
  page_epoch :: string
  page_reset :: bool
  page_high :: nat
  page_next :: nat
  page_complete :: bool
  page_entries :: "published list"

definition default_progress :: progress where
  "default_progress = \<lparr>pg_epoch = [], pg_cursor = 0, pg_high = 0, pg_complete = False,
     pg_unknown_authors = False, pg_last_contact = None, pg_error = None\<rparr>"

definition default_history :: history where
  "default_history = \<lparr>hs_initialized = False, hs_epoch = [], hs_clock = 0, hs_trust = [],
     hs_entries = [], hs_peers = Map.empty\<rparr>"

section \<open>The store\<close>

record fingerprint =
  fp_hash :: string
  fp_mode :: "32 word"

type_synonym manifest = "(string, fingerprint) btree"

record pin_index =
  pi_peers :: "string \<rightharpoonup> manifest"
  pi_last_sync :: "nat option"
  pi_hashes :: "(string, string) btree"
  pi_last_error :: "string option"

definition default_pin_index :: pin_index where
  "default_pin_index = \<lparr>pi_peers = Map.empty, pi_last_sync = None, pi_hashes = [], pi_last_error = None\<rparr>"

definition FORMAT_VERSION :: nat where
  "FORMAT_VERSION = 2"

record store =
  st_dir :: string
  st_write_error :: "string option"
  st_body_name :: string
  st_owner_sk :: bytes
  st_peers :: "peer list"
  st_grants :: "grant list"
  st_jobs :: "job list"
  st_requests :: "request list"
  st_outbound_requests :: "outbound_request list"
  st_request_receipts :: "request_receipt list"
  st_pin_index :: pin_index
  st_history :: history
  st_retry_links :: "string \<rightharpoonup> string"
  st_job_certificates :: "string \<rightharpoonup> string"
  st_legacy_jobs :: "string set"
  st_output_pruned :: "string set"
  st_history_pruned :: "string set"
  st_format_version :: nat
  st_pin_enabled :: bool
  st_pin_dir :: "string option"

definition ensure_writable :: "store \<Rightarrow> unit res" where
  "ensure_writable s = (case st_write_error s of
     Some reason \<Rightarrow> Inl (Io (''Clix storage is unavailable: '' @ reason @
                           ''. Repair storage and restart the sidecar.''))
   | None \<Rightarrow> Inr ())"

definition storage_error :: "store \<Rightarrow> string option" where
  "storage_error s = st_write_error s"

lemma ensure_writable_ok [result_simps]: "ensure_writable s = Inr u \<longleftrightarrow> st_write_error s = None"
  by (auto simp: ensure_writable_def split: option.splits)

text \<open>Fields of the selected record.  A runner fact wins over an origin observation.\<close>

definition selected :: "hrecord \<Rightarrow> signed_fact option" where
  "selected r = (case rec_runner r of Some f \<Rightarrow> Some f | None \<Rightarrow> rec_origin r)"

text \<open>Lookups the code repeats: a job, a peer, a grant by its key.\<close>

definition find_job :: "store \<Rightarrow> string \<Rightarrow> job option" where
  "find_job s i = List.find (\<lambda>j. j_id j = i) (st_jobs s)"

definition find_peer :: "store \<Rightarrow> body_id \<Rightarrow> peer option" where
  "find_peer s n = List.find (\<lambda>p. p_name p = n) (st_peers s)"

definition find_grant :: "store \<Rightarrow> string \<Rightarrow> grant option" where
  "find_grant s t = List.find (\<lambda>g. g_tool g = t) (st_grants s)"

lemma find_job_Some: "find_job s i = Some j \<Longrightarrow> j \<in> set (st_jobs s) \<and> j_id j = i"
  unfolding find_job_def by (rule find_Some_set)

lemma find_job_None [simp]: "find_job s i = None \<longleftrightarrow> i \<notin> j_id ` set (st_jobs s)"
  by (auto simp: find_job_def find_None_set)

lemma find_grant_Some: "find_grant s t = Some g \<Longrightarrow> g \<in> set (st_grants s) \<and> g_tool g = t"
  unfolding find_grant_def by (rule find_Some_set)

lemma find_grant_None [simp]: "find_grant s t = None \<longleftrightarrow> t \<notin> g_tool ` set (st_grants s)"
  by (auto simp: find_grant_def find_None_set)

lemma find_peer_Some: "find_peer s n = Some p \<Longrightarrow> p \<in> set (st_peers s) \<and> p_name p = n"
  unfolding find_peer_def by (rule find_Some_set)

text \<open>Output bytes retained with a job.\<close>

definition job_bytes :: "job \<Rightarrow> nat" where
  "job_bytes j = length (j_stdout j) + length (j_stderr j)"

definition co_bytes :: "captured_output option \<Rightarrow> nat" where
  "co_bytes o' = (case o' of None \<Rightarrow> 0 | Some c \<Rightarrow> length (co_stdout c) + length (co_stderr c))"

end
