(* ===== verification/Clix_Limits.thy ===== *)
theory Clix_Limits
  imports Clix_Types
begin

text \<open>
  \<open>src/limits.rs\<close>: the admission limits, the permit pools (a tokio semaphore is its number of
  free permits), the validation of identifiers, argument vectors and results, and the bounded
  line reader of the owner socket.
\<close>

section \<open>Constants\<close>

definition CHILDREN :: nat where "CHILDREN = 4"
definition DISPATCH :: nat where "DISPATCH = 8"
definition MESH_CONNECTIONS :: nat where "MESH_CONNECTIONS = 16"
definition MESH_EXEC_REQUESTS :: nat where "MESH_EXEC_REQUESTS = 4"
definition OWNER_CONNECTIONS :: nat where "OWNER_CONNECTIONS = 32"
definition OWNER_WAITERS :: nat where "OWNER_WAITERS = 8"
definition ARGV_COUNT :: nat where "ARGV_COUNT = 256"
definition ARGV_BYTES :: nat where "ARGV_BYTES = 64 * 1024"
definition ID_BYTES :: nat where "ID_BYTES = 128"
definition TOOL_BYTES :: nat where "TOOL_BYTES = 4096"
definition STATUS_REASON_BYTES :: nat where "STATUS_REASON_BYTES = 64 * 1024"
definition OUTPUT_STREAM_BYTES :: nat where "OUTPUT_STREAM_BYTES = 4 * 1024 * 1024"
definition MESH_FRAME_BYTES :: nat where "MESH_FRAME_BYTES = 64 * 1024 * 1024"
definition OWNER_REQUEST_BYTES :: nat where "OWNER_REQUEST_BYTES = 128 * 1024"

lemmas limit_defs = CHILDREN_def DISPATCH_def MESH_CONNECTIONS_def MESH_EXEC_REQUESTS_def
  OWNER_CONNECTIONS_def OWNER_WAITERS_def ARGV_COUNT_def ARGV_BYTES_def ID_BYTES_def TOOL_BYTES_def
  STATUS_REASON_BYTES_def OUTPUT_STREAM_BYTES_def MESH_FRAME_BYTES_def OWNER_REQUEST_BYTES_def

section \<open>Permit pools\<close>

record limits =
  l_children :: nat
  l_mesh :: nat
  l_mesh_exec :: nat
  l_owner :: nat
  l_waiters :: nat

definition default_limits :: limits where
  "default_limits = \<lparr>l_children = CHILDREN, l_mesh = MESH_CONNECTIONS,
     l_mesh_exec = MESH_EXEC_REQUESTS, l_owner = OWNER_CONNECTIONS, l_waiters = OWNER_WAITERS\<rparr>"

text \<open>\<open>try_acquire_owned\<close>: a permit, or the pool's capacity error.\<close>

definition try_permit :: "nat \<Rightarrow> string \<Rightarrow> nat res" where
  "try_permit n msg = (if n = 0 then Inl (Capacity msg) else Inr (n - 1))"

definition acquire_mesh_exec :: "limits \<Rightarrow> limits res" where
  "acquire_mesh_exec l = rbind (try_permit (l_mesh_exec l) ''execution admission is busy; waiting for capacity'')
     (\<lambda>n. Inr (l\<lparr>l_mesh_exec := n\<rparr>))"

definition acquire_child :: "limits \<Rightarrow> limits res" where
  "acquire_child l = rbind (try_permit (l_children l) ''execution slots are busy; waiting for capacity'')
     (\<lambda>n. Inr (l\<lparr>l_children := n\<rparr>))"

definition acquire_waiter :: "limits \<Rightarrow> limits res" where
  "acquire_waiter l = rbind (try_permit (l_waiters l)
       ''too many clients are waiting; inspect the saved job by ID'')
     (\<lambda>n. Inr (l\<lparr>l_waiters := n\<rparr>))"

text \<open>The awaiting acquisitions: \<open>None\<close> is a caller that still waits.\<close>

definition acquire_mesh :: "limits \<Rightarrow> limits option" where
  "acquire_mesh l = (if l_mesh l = 0 then None else Some (l\<lparr>l_mesh := l_mesh l - 1\<rparr>))"

definition acquire_owner :: "limits \<Rightarrow> limits option" where
  "acquire_owner l = (if l_owner l = 0 then None else Some (l\<lparr>l_owner := l_owner l - 1\<rparr>))"

text \<open>Dropping a permit returns it.\<close>

definition release_mesh_exec :: "limits \<Rightarrow> limits" where
  "release_mesh_exec l = l\<lparr>l_mesh_exec := Suc (l_mesh_exec l)\<rparr>"

definition release_child :: "limits \<Rightarrow> limits" where
  "release_child l = l\<lparr>l_children := Suc (l_children l)\<rparr>"

definition release_waiter :: "limits \<Rightarrow> limits" where
  "release_waiter l = l\<lparr>l_waiters := Suc (l_waiters l)\<rparr>"

text \<open>
  The contract of a pool: an acquisition succeeds exactly when a permit is free and takes one,
  a release returns one.  A history of the pool is a list of outcomes (\<open>True\<close>: acquire,
  \<open>False\<close>: release); the permits held never exceed the size of the pool.
\<close>

locale permit_pool =
  fixes avail :: "'s \<Rightarrow> nat" and acquire :: "'s \<Rightarrow> 's res" and release :: "'s \<Rightarrow> 's"
  assumes acquire_ok: "acquire s = Inr t \<Longrightarrow> 0 < avail s \<and> avail t = avail s - 1"
    and acquire_err: "acquire s = Inl e \<Longrightarrow> avail s = 0"
    and release_avail: "avail (release s) = Suc (avail s)"
begin

lemma acquire_iff: "0 < avail s \<longleftrightarrow> (\<exists>t. acquire s = Inr t)"
  by (cases "acquire s") (auto dest: acquire_ok acquire_err)

lemma acquire_conserves: "acquire s = Inr t \<Longrightarrow> avail t + Suc held = avail s + held"
  by (auto dest: acquire_ok)

lemma acquire_held_bound:
  "acquire s = Inr t \<Longrightarrow> avail s + held = cap \<Longrightarrow> Suc held \<le> cap"
  by (auto dest: acquire_ok)

lemma release_conserves: "0 < held \<Longrightarrow> avail (release s) + (held - 1) = avail s + held"
  by (simp add: release_avail)

lemma acquire_after_release: "\<exists>t. acquire (release s) = Inr t"
  by (simp flip: acquire_iff add: release_avail)

end

interpretation children: permit_pool l_children acquire_child release_child
  by unfold_locales
    (auto simp: acquire_child_def release_child_def try_permit_def result_simps split: if_splits)

interpretation mesh_exec: permit_pool l_mesh_exec acquire_mesh_exec release_mesh_exec
  by unfold_locales
    (auto simp: acquire_mesh_exec_def release_mesh_exec_def try_permit_def result_simps split: if_splits)

interpretation waiters: permit_pool l_waiters acquire_waiter release_waiter
  by unfold_locales
    (auto simp: acquire_waiter_def release_waiter_def try_permit_def result_simps split: if_splits)

lemma acquire_child_error: "acquire_child l = Inl e \<Longrightarrow> \<exists>m. e = Capacity m"
  by (auto simp: acquire_child_def try_permit_def result_simps split: if_splits)

section \<open>Validation\<close>

definition has_nul :: "string \<Rightarrow> bool" where
  "has_nul s = List.member s (char_of (0 :: nat))"

definition limits_identifier :: "string \<Rightarrow> unit res" where
  "limits_identifier i = (if i = [] \<or> ID_BYTES < length i \<or> has_nul i
     then Inl (Usage ''identifier requires 1 to 128 bytes and no NUL'') else Inr ())"

definition limits_tool :: "string \<Rightarrow> unit res" where
  "limits_tool v = (if v = [] \<or> TOOL_BYTES < length v \<or> has_nul v
     then Inl (Usage ''tool must contain 1 to 4096 bytes and no NUL'') else Inr ())"

text \<open>The loop over the arguments, with the running byte count.  \<open>checked_add\<close> on \<open>usize\<close>
  fails exactly where the sum leaves 64 bits.\<close>

fun argv_scan :: "string list \<Rightarrow> nat \<Rightarrow> unit res" where
  "argv_scan [] n = Inr ()"
| "argv_scan (a # as) n =
     (if has_nul a then Inl (Usage ''command arguments must not contain NUL'')
      else if u64_max < n + length a then Inl (Usage ''command arguments exceed 64 KiB'')
      else if ARGV_BYTES < n + length a then Inl (Usage ''command arguments exceed 64 KiB'')
      else argv_scan as (n + length a))"

definition limits_invocation :: "string \<Rightarrow> string list \<Rightarrow> unit res" where
  "limits_invocation i argv =
     rbind (limits_identifier i) (\<lambda>_.
     if argv = [] \<or> ARGV_COUNT < length argv
     then Inl (Usage ''command requires between 1 and 256 arguments'')
     else rbind (limits_tool (hd argv)) (\<lambda>_. argv_scan argv 0))"

fun limits_status :: "job_status \<Rightarrow> unit res" where
  "limits_status (Denied reason) = (if STATUS_REASON_BYTES < length reason
     then Inl (Protocol ''job reason exceeds 64 KiB'') else Inr ())"
| "limits_status (Failed reason) = (if STATUS_REASON_BYTES < length reason
     then Inl (Protocol ''job reason exceeds 64 KiB'') else Inr ())"
| "limits_status (Uncertain reason) = (if STATUS_REASON_BYTES < length reason
     then Inl (Protocol ''job reason exceeds 64 KiB'') else Inr ())"
| "limits_status _ = Inr ()"

definition limits_result :: "job \<Rightarrow> unit res" where
  "limits_result j =
     rbind (limits_invocation (j_id j) (j_argv j)) (\<lambda>_.
     rbind (limits_status (j_status j)) (\<lambda>_.
     if OUTPUT_STREAM_BYTES < length (j_stdout j) \<or> OUTPUT_STREAM_BYTES < length (j_stderr j)
     then Inl (Protocol ''job output exceeds 4 MiB per stream'') else Inr ()))"

lemma argv_scan_ok_iff:
  "argv_scan as n = Inr u \<longleftrightarrow>
     list_all (\<lambda>a. \<not> has_nul a) as \<and> (as = [] \<or> n + sum_list (map length as) \<le> ARGV_BYTES)"
  by (induction as n rule: argv_scan.induct) (auto simp: ARGV_BYTES_def u64_max_def)

lemma limits_invocation_ok_iff:
  "limits_invocation i argv = Inr u \<longleftrightarrow>
     i \<noteq> [] \<and> length i \<le> ID_BYTES \<and> \<not> has_nul i \<and>
     argv \<noteq> [] \<and> length argv \<le> ARGV_COUNT \<and>
     hd argv \<noteq> [] \<and> length (hd argv) \<le> TOOL_BYTES \<and>
     (\<forall>a \<in> set argv. \<not> has_nul a) \<and> sum_list (map length argv) \<le> ARGV_BYTES"
  by (cases argv)
    (auto simp: limits_invocation_def limits_identifier_def limits_tool_def result_simps argv_scan_ok_iff
      list_all_iff simp del: argv_scan.simps)

lemma limits_status_ok_iff:
  "limits_status st = Inr u \<longleftrightarrow>
     (\<forall>r. st = Denied r \<or> st = Failed r \<or> st = Uncertain r \<longrightarrow> length r \<le> STATUS_REASON_BYTES)"
  by (cases st) auto

section \<open>The owner socket's line reader\<close>

text \<open>\<open>String::from_utf8\<close>: the well-formed byte sequences of the Unicode standard.\<close>

definition cont_byte :: "nat \<Rightarrow> bool" where
  "cont_byte b \<longleftrightarrow> 128 \<le> b \<and> b \<le> 191"

fun utf8_ok :: "nat list \<Rightarrow> bool" where
  "utf8_ok [] = True"
| "utf8_ok (a # xs) =
     (if a < 128 then utf8_ok xs
      else case xs of
        [] \<Rightarrow> False
      | b # ys \<Rightarrow>
          if 194 \<le> a \<and> a \<le> 223 then cont_byte b \<and> utf8_ok ys
          else (case ys of
            [] \<Rightarrow> False
          | c # zs \<Rightarrow>
              if 224 \<le> a \<and> a \<le> 239
              then cont_byte b \<and> cont_byte c \<and> (a = 224 \<longrightarrow> 160 \<le> b) \<and> (a = 237 \<longrightarrow> b \<le> 159) \<and> utf8_ok zs
              else (case zs of
                [] \<Rightarrow> False
              | d # ws \<Rightarrow> 240 \<le> a \<and> a \<le> 244 \<and> cont_byte b \<and> cont_byte c \<and> cont_byte d \<and>
                  (a = 240 \<longrightarrow> 144 \<le> b) \<and> (a = 244 \<longrightarrow> b \<le> 143) \<and> utf8_ok ws)))"

definition string_of_bytes :: "bytes \<Rightarrow> string" where
  "string_of_bytes bs = map (\<lambda>b. char_of (unat b)) bs"

datatype line_error = TimedOut | TooLong | Incomplete | NotUtf8

text \<open>\<open>read_until\<close> on the reader limited by \<open>take\<close>: the bytes up to and including the first
  newline, and what is left on the reader.\<close>

fun read_until_nl :: "nat \<Rightarrow> bytes \<Rightarrow> bytes \<times> bytes" where
  "read_until_nl 0 bs = ([], bs)"
| "read_until_nl (Suc n) [] = ([], [])"
| "read_until_nl (Suc n) (b # bs) =
     (if b = 10 then ([b], bs) else (let (l, r) = read_until_nl n bs in (b # l, r)))"

text \<open>\<open>late\<close>: the deadline passed before the line was complete.\<close>

definition limited_line :: "nat \<Rightarrow> bool \<Rightarrow> bytes \<Rightarrow> (line_error + string option) \<times> bytes" where
  "limited_line limit late input =
     (if late then (Inl TimedOut, input)
      else let (bs, rest) = read_until_nl (limit + 1) input in
        if bs = [] then (Inr None, rest)
        else if limit < length bs then (Inl TooLong, rest)
        else if last bs \<noteq> 10 then (Inl Incomplete, rest)
        else let line = butlast bs in
          if utf8_ok (map unat line) then (Inr (Some (string_of_bytes line)), rest)
          else (Inl NotUtf8, rest))"

definition owner_line :: "bool \<Rightarrow> bytes \<Rightarrow> (line_error + string option) \<times> bytes" where
  "owner_line late input = limited_line OWNER_REQUEST_BYTES late input"

lemma read_until_nl_split: "read_until_nl n bs = (l, r) \<Longrightarrow> l @ r = bs \<and> length l \<le> n"
  by (induction n bs arbitrary: l r rule: read_until_nl.induct) (auto split: if_splits prod.splits)

lemma read_until_nl_inner: "read_until_nl n bs = (l, r) \<Longrightarrow> 10 \<notin> set (butlast l)"
  by (induction n bs arbitrary: l r rule: read_until_nl.induct) (auto split: if_splits prod.splits)

lemma limited_line_ok:
  assumes "limited_line limit late input = (Inr (Some line), rest)"
  shows "\<exists>bs. input = bs @ 10 # rest \<and> 10 \<notin> set bs \<and> length bs < limit \<and> line = string_of_bytes bs
    \<and> utf8_ok (map unat bs)"
proof -
  obtain bs r where eq: "read_until_nl (limit + 1) input = (bs, r)" by fastforce
  from assms eq have *: "\<not> late" "bs \<noteq> []" "length bs \<le> limit" "last bs = 10" "r = rest"
    "line = string_of_bytes (butlast bs)" "utf8_ok (map unat (butlast bs))"
    by (auto simp: limited_line_def Let_def split: if_splits)
  have "bs = butlast bs @ [10]" using * by (metis append_butlast_last_id)
  moreover from * have "length (butlast bs) < limit"
    by (metis length_butlast diff_less le_trans length_greater_0_conv less_le_trans linorder_not_le zero_less_one)
  moreover have "input = bs @ rest" using read_until_nl_split [OF eq] * by simp
  ultimately show ?thesis
    using * read_until_nl_inner [OF eq] by (metis append_Cons append_Nil append_assoc)
qed

end
