(* ===== verification/Clix_Grant.thy ===== *)
theory Clix_Grant
  imports Clix_State Clix_Limits
begin

text \<open>
  \<open>src/grant.rs\<close>: resolving a tool to an executable, building, committing and removing grants,
  and the authority check a run has to pass.  The operating system's answers (the search path,
  the working directory, file metadata) are the fields of a \<open>host\<close>; the path arithmetic of
  \<open>std::path\<close> is written out.
\<close>

record host =
  host_path :: string
  host_cwd :: "string res"
  host_metadata :: "string \<Rightarrow> (bool \<times> 32 word) option"

section \<open>Paths\<close>

abbreviation slash :: char where "slash \<equiv> CHR ''/''"

definition is_absolute :: "string \<Rightarrow> bool" where
  "is_absolute p \<longleftrightarrow> p \<noteq> [] \<and> hd p = slash"

text \<open>\<open>Path::components\<close>: empty pieces and \<open>.\<close> disappear, except a leading \<open>.\<close> of a
  relative path.  Two paths are equal when their components are.\<close>

definition path_comps :: "string \<Rightarrow> bool \<times> string list" where
  "path_comps p =
     (let ps = filter (\<lambda>x. x \<noteq> []) (split_char slash p)
      in (is_absolute p,
          if \<not> is_absolute p \<and> ps \<noteq> [] \<and> hd ps = ''.''
          then ''.'' # filter (\<lambda>x. x \<noteq> ''.'') (tl ps)
          else filter (\<lambda>x. x \<noteq> ''.'') ps))"

definition path_eq :: "string \<Rightarrow> string \<Rightarrow> bool" where
  "path_eq a b \<longleftrightarrow> path_comps a = path_comps b"

definition path_join :: "string \<Rightarrow> string \<Rightarrow> string" where
  "path_join base part =
     (if base = [] \<or> last base = slash then base @ part else base @ [slash] @ part)"

text \<open>\<open>std::path::absolute\<close>: purely lexical; a trailing slash and a leading pair of slashes are
  kept, an empty path is an error.\<close>

definition normal_parts :: "string \<Rightarrow> string list" where
  "normal_parts p = filter (\<lambda>x. x \<noteq> [] \<and> x \<noteq> ''.'') (split_char slash p)"

definition double_slash :: "string \<Rightarrow> bool" where
  "double_slash p \<longleftrightarrow> take 2 p = [slash, slash] \<and> take 3 p \<noteq> [slash, slash, slash]"

definition path_absolute :: "host \<Rightarrow> string \<Rightarrow> string res" where
  "path_absolute h p =
     (if p = [] then Inl (Io ''cannot make an empty path absolute'')
      else rbind (if is_absolute p then Inr (if double_slash p then [slash, slash] else [slash])
                  else host_cwd h)
        (\<lambda>base. let q = foldl path_join base (normal_parts p)
                in Inr (if last p = slash then path_join q [] else q)))"

section \<open>Resolving a tool\<close>

definition is_executable_file :: "host \<Rightarrow> string \<Rightarrow> bool" where
  "is_executable_file h p = (case host_metadata h p of
       Some (is_file, mode) \<Rightarrow> is_file \<and> mode AND 73 \<noteq> 0
     | None \<Rightarrow> False)"

definition existing_executable :: "host \<Rightarrow> string \<Rightarrow> string \<Rightarrow> string res" where
  "existing_executable h p name =
     (if is_executable_file h p then path_absolute h p else Inl (NoSuchTool name))"

fun search_path :: "host \<Rightarrow> string list \<Rightarrow> string \<Rightarrow> string res" where
  "search_path h [] name = Inl (NoSuchTool name)"
| "search_path h (dir # dirs) name =
     (let candidate = path_join dir name
      in if is_executable_file h candidate then path_absolute h candidate
         else search_path h dirs name)"

definition resolve_tool :: "host \<Rightarrow> string \<Rightarrow> string res" where
  "resolve_tool h name =
     (if is_absolute name \<or> List.member name slash then existing_executable h name name
      else search_path h (split_char CHR '':'' (host_path h)) name)"

definition tool_key :: "string \<Rightarrow> string" where
  "tool_key name = (let ps = snd (path_comps name)
     in if ps = [] \<or> last ps = ''.'' \<or> last ps = ''..'' then name else last ps)"

section \<open>Building and committing a grant\<close>

definition build_args_ok :: "string \<Rightarrow> string list list \<Rightarrow> unit res" where
  "build_args_ok tool patterns =
     (if patterns = [] then Inl (Usage ''an argument allowlist needs at least one entry'')
      else fold_r (\<lambda>p _. limits_invocation ''allowlist'' (tool_key tool # p)) patterns ())"

definition build_allow_ok :: "store \<Rightarrow> string list \<Rightarrow> unit res" where
  "build_allow_ok s allow =
     fold_r (\<lambda>name _. if name \<noteq> st_body_name s \<and> \<not> list_ex (\<lambda>p. p_name p = name) (st_peers s)
                 then Inl (Usage (name @ '' is not a paired machine'')) else Inr ()) allow ()"

definition build_grant :: "host \<Rightarrow> store \<Rightarrow> string \<Rightarrow> string list \<Rightarrow> bool \<Rightarrow> int option \<Rightarrow> schedule option
    \<Rightarrow> string list list option \<Rightarrow> grant res" where
  "build_grant h s tool allow once until sched args =
     rbind (limits_tool tool) (\<lambda>_.
     if once \<and> sched \<noteq> None then Inl (Usage ''use --once or a schedule, not both'')
     else rbind (case args of None \<Rightarrow> Inr () | Some patterns \<Rightarrow> build_args_ok tool patterns) (\<lambda>_.
     rbind (resolve_tool h tool) (\<lambda>binary.
     rbind (build_allow_ok s allow) (\<lambda>_.
     Inr \<lparr>g_tool = tool_key tool, g_binary = binary,
          g_allow_from = (if allow = [] then None else Some allow),
          g_once = once, g_until = until, g_schedule = sched,
          g_reservation = None, g_args = args\<rparr>))))"

definition invalidate_requests :: "string \<Rightarrow> store \<Rightarrow> store" where
  "invalidate_requests key s =
     s\<lparr>st_requests := filter (\<lambda>r. tool_key (r_tool r) \<noteq> key) (st_requests s)\<rparr>"

definition commit_grant :: "grant \<Rightarrow> store \<Rightarrow> store" where
  "commit_grant g s = invalidate_requests (g_tool g)
     (s\<lparr>st_grants := filter (\<lambda>x. g_tool x \<noteq> g_tool g) (st_grants s) @ [g]\<rparr>)"

definition add_with_args :: "host \<Rightarrow> string \<Rightarrow> string list \<Rightarrow> bool \<Rightarrow> int option \<Rightarrow> schedule option
    \<Rightarrow> string list list option \<Rightarrow> store \<Rightarrow> (grant \<times> store) res" where
  "add_with_args h tool allow once until sched args s =
     rbind (build_grant h s tool allow once until sched args) (\<lambda>g. Inr (g, commit_grant g s))"

definition add_grant :: "host \<Rightarrow> string \<Rightarrow> string list \<Rightarrow> bool \<Rightarrow> int option \<Rightarrow> schedule option
    \<Rightarrow> store \<Rightarrow> (grant \<times> store) res" where
  "add_grant h tool allow once until sched s = add_with_args h tool allow once until sched None s"

definition same_permission :: "grant \<Rightarrow> grant \<Rightarrow> bool" where
  "same_permission a b \<longleftrightarrow> g_tool a = g_tool b \<and> path_eq (g_binary a) (g_binary b) \<and>
     g_allow_from a = g_allow_from b \<and> g_once a = g_once b \<and> g_until a = g_until b \<and>
     g_schedule a = g_schedule b \<and> g_args a = g_args b"

section \<open>Removing a grant\<close>

definition removal_target :: "host \<Rightarrow> string \<Rightarrow> string res" where
  "removal_target h tool = (if List.member tool slash then path_absolute h tool else Inr tool)"

definition remove_grant :: "host \<Rightarrow> string \<Rightarrow> store \<Rightarrow> (unit \<times> store) res" where
  "remove_grant h tool s =
     rbind (removal_target h tool) (\<lambda>target.
     let p = (\<lambda>g. if is_absolute target then path_eq (g_binary g) target else g_tool g = tool)
     in case List.find p (st_grants s) of
          None \<Rightarrow> Inl (NotAdded tool (st_body_name s))
        | Some removed \<Rightarrow>
            Inr ((), invalidate_requests (g_tool removed)
                       (s\<lparr>st_grants := remove_first p (st_grants s)\<rparr>)))"

definition hands :: "store \<Rightarrow> grant list" where
  "hands s = st_grants s"

section \<open>Checking\<close>

definition show_args :: "string list list \<Rightarrow> string" where
  "show_args patterns =
     join_with '' | '' (map (\<lambda>p. if p = [] then ''(no arguments)'' else join_with '' '' p) patterns)"

definition check_args :: "grant \<Rightarrow> string list \<Rightarrow> unit res" where
  "check_args g argv = (case g_args g of
       None \<Rightarrow> Inr ()
     | Some patterns \<Rightarrow>
         if list_ex (\<lambda>p. p = tl argv) patterns then Inr ()
         else Inl (Usage (g_tool g @ '' is granted only with these arguments: '' @ show_args patterns)))"

definition check_at :: "store \<Rightarrow> string \<Rightarrow> body_id \<Rightarrow> local_now \<Rightarrow> grant res" where
  "check_at s tool who now =
     rbind (ok_or (find_grant s tool) (NotAdded tool (st_body_name s))) (\<lambda>g.
     if g_reservation g \<noteq> None then Inl (GrantBusy (g_tool g))
     else if (case g_allow_from g of Some allowed \<Rightarrow> \<not> list_ex (\<lambda>b. b = who) allowed | None \<Rightarrow> False)
     then Inl (NotAllowed (g_tool g) who (st_body_name s))
     else if (case g_until g of Some u \<Rightarrow> u < now_instant now | None \<Rightarrow> False)
     then Inl (Expired (g_tool g) (st_body_name s))
     else if (case g_schedule g of Some sc \<Rightarrow> \<not> allows_at sc now | None \<Rightarrow> False)
     then Inl (NotAddedAtTime (g_tool g) (st_body_name s))
     else Inr g)"

text \<open>The line \<open>clix hands\<close> prints.  \<open>when\<close> is chrono's local rendering of the expiry.\<close>

definition describe_grant :: "(int \<Rightarrow> string) \<Rightarrow> grant \<Rightarrow> string" where
  "describe_grant when g =
     g_tool g @ ''  '' @ arrow @ '' '' @
     (case g_allow_from g of None \<Rightarrow> ''all machines''
       | Some bodies \<Rightarrow> if bodies = [] then ''no machines'' else join_with '', '' bodies) @
     (if g_once g then ''  once'' else []) @
     (case g_until g of None \<Rightarrow> []
       | Some u \<Rightarrow> ''  until '' @ when u @ '' ('' @
           decimal (if u < 0 then 0 else nat (u div ns_per_sec)) @ '')'') @
     (if g_schedule g \<noteq> None then ''  schedule'' else []) @
     (case g_args g of None \<Rightarrow> [] | Some patterns \<Rightarrow> ''  only: '' @ show_args patterns) @
     (if g_reservation g \<noteq> None then ''  [reserved for a running job]'' else [])"

section \<open>Path lemmas\<close>

lemma split_char_no_sep: "c \<notin> set s \<Longrightarrow> split_char c s = [s]"
  by (induction s) auto

lemma split_char_pieces: "p \<in> set (split_char c s) \<Longrightarrow> c \<notin> set p"
  by (induction s arbitrary: p) (auto split: if_splits list.splits)

lemma split_char_append: "split_char c (a @ c # b) = split_char c a @ split_char c b"
  by (induction a) (auto split: list.splits)

text \<open>A path piece that survives normalisation.\<close>

definition piece :: "string \<Rightarrow> bool" where
  "piece p \<longleftrightarrow> p \<noteq> [] \<and> p \<noteq> ''.'' \<and> slash \<notin> set p"

lemma normal_parts_pieces: "list_all piece (normal_parts p)"
  by (auto simp: normal_parts_def piece_def list_all_iff dest: split_char_pieces)

definition slashed :: "string list \<Rightarrow> string" where
  "slashed ps = concat (map (\<lambda>p. slash # p) ps)"

lemma slashed_snoc: "slashed (ps @ [p]) = slashed ps @ slash # p"
  by (simp add: slashed_def)

lemma last_slashed: "list_all piece ps \<Longrightarrow> ps \<noteq> [] \<Longrightarrow> last (slashed ps) \<noteq> slash"
  by (induction ps rule: rev_induct) (auto simp: slashed_snoc piece_def, metis last_in_set)

lemma foldl_join_root:
  assumes "list_all piece ps" and "b = [slash] \<or> b = [slash, slash]"
  shows "foldl path_join b ps = (if ps = [] then b else butlast b @ slashed ps)"
  using assms
proof (induction ps rule: rev_induct)
  case (snoc p ps)
  then have IH: "foldl path_join b ps = (if ps = [] then b else butlast b @ slashed ps)" by simp
  show ?case
  proof (cases "ps = []")
    case True
    with snoc.prems show ?thesis by (auto simp: path_join_def slashed_def)
  next
    case False
    with snoc.prems have "last (slashed ps) \<noteq> slash" by (simp add: last_slashed)
    moreover from False have "slashed ps \<noteq> []" by (cases ps) (simp_all add: slashed_def)
    ultimately have "path_join (butlast b @ slashed ps) p = butlast b @ slashed (ps @ [p])"
      by (simp add: path_join_def slashed_snoc)
    with False IH show ?thesis by simp
  qed
qed simp

lemma normal_parts_slashed:
  "list_all piece ps \<Longrightarrow> normal_parts (slashed ps) = ps"
proof (induction ps rule: rev_induct)
  case (snoc p ps)
  then show ?case
    by (simp add: slashed_snoc normal_parts_def split_char_append split_char_no_sep piece_def)
qed (simp add: slashed_def normal_parts_def)

lemma normal_parts_lead: "normal_parts (slash # p) = normal_parts p"
  by (simp add: normal_parts_def)

lemma normal_parts_trail: "normal_parts (p @ [slash]) = normal_parts p"
  by (simp add: normal_parts_def split_char_append)

lemma absolute_has_slash: "is_absolute q \<Longrightarrow> List.member q slash"
  by (cases q) (auto simp: is_absolute_def)

text \<open>The canonical form of the result: a root, pieces, and a slash kept from the input.\<close>

definition canonical :: "string \<Rightarrow> bool" where
  "canonical q \<longleftrightarrow> (\<exists>b ps. list_all piece ps \<and> (b = [slash] \<or> b = [slash, slash]) \<and>
     (q = foldl path_join b ps \<or> q = path_join (foldl path_join b ps) []))"

definition cwd_canonical :: "host \<Rightarrow> bool" where
  "cwd_canonical h \<longleftrightarrow> (\<forall>c. host_cwd h = Inr c \<longrightarrow>
     (\<exists>ps. list_all piece ps \<and> c = foldl path_join [slash] ps))"

lemma path_absolute_canonical:
  assumes "cwd_canonical h" and "path_absolute h p = Inr q"
  shows "canonical q"
proof -
  from assms(2) obtain base where base: "(if is_absolute p
      then Inr (if double_slash p then [slash, slash] else [slash]) else host_cwd h) = Inr base"
    and q: "q = foldl path_join base (normal_parts p) \<or>
      q = path_join (foldl path_join base (normal_parts p)) []"
    by (auto simp: path_absolute_def Let_def result_simps split: if_splits)
  have "\<exists>b cs. list_all piece cs \<and> (b = [slash] \<or> b = [slash, slash]) \<and> base = foldl path_join b cs"
  proof (cases "is_absolute p")
    case True
    with base have "base = [slash] \<or> base = [slash, slash]" by (auto split: if_splits)
    then show ?thesis by (intro exI [of _ base] exI [of _ "[]"]) simp
  next
    case False
    with base assms(1) show ?thesis by (auto simp: cwd_canonical_def)
  qed
  then obtain b cs where cs: "list_all piece cs" "b = [slash] \<or> b = [slash, slash]"
    and "base = foldl path_join b cs" by blast
  then have fold: "foldl path_join base (normal_parts p) = foldl path_join b (cs @ normal_parts p)"
    by simp
  have pieces: "list_all piece (cs @ normal_parts p)"
    using cs(1) normal_parts_pieces [of p] by simp
  show ?thesis
    unfolding canonical_def using cs(2) pieces q unfolding fold by blast
qed

lemma path_absolute_of_canonical:
  assumes "canonical q"
  shows "path_absolute h q = Inr q \<and> is_absolute q \<and> List.member q slash"
proof -
  from assms obtain b ps where ps: "list_all piece ps" and b: "b = [slash] \<or> b = [slash, slash]"
    and q: "q = foldl path_join b ps \<or> q = path_join (foldl path_join b ps) []"
    unfolding canonical_def by blast
  let ?r = "foldl path_join b ps"
  have r: "?r = (if ps = [] then b else butlast b @ slashed ps)"
    using foldl_join_root [OF ps b] .
  have r_last: "last ?r = slash \<longleftrightarrow> ps = []"
    using b r last_slashed [OF ps] by (auto simp: slashed_def)
  have nonempty: "?r \<noteq> []" using r b by (auto simp: slashed_def)
  have absr: "is_absolute ?r" using r b by (cases ps) (auto simp: is_absolute_def slashed_def)
  have parts: "normal_parts ?r = ps"
  proof (cases "ps = []")
    case True
    with r b show ?thesis by (auto simp: normal_parts_def)
  next
    case False
    with r b normal_parts_slashed [OF ps] show ?thesis by (auto simp: normal_parts_lead)
  qed
  have dbl: "double_slash (?r @ t) \<longleftrightarrow> b = [slash, slash]" if "ps \<noteq> [] \<or> t = []" for t
  proof (cases ps)
    case Nil
    with that r b show ?thesis by (auto simp: double_slash_def)
  next
    case (Cons p qs)
    with ps obtain x xs where "p = x # xs" "x \<noteq> slash" by (cases p) (auto simp: piece_def)
    with Cons r b show ?thesis by (auto simp: double_slash_def slashed_def)
  qed
  have base: "(if double_slash (?r @ t) then [slash, slash] else [slash]) = b"
    if "ps \<noteq> [] \<or> t = []" for t
    using dbl [OF that] b by auto
  show ?thesis
  proof (cases "q = ?r")
    case True
    have "path_absolute h ?r = Inr (if last ?r = slash then path_join ?r [] else ?r)"
      using nonempty absr base [of "[]"] parts by (simp add: path_absolute_def Let_def)
    also have "\<dots> = Inr ?r" using nonempty by (simp add: path_join_def)
    finally show ?thesis using True absr absolute_has_slash [OF absr] by simp
  next
    case False
    with q nonempty have q': "q = ?r @ [slash]" and "ps \<noteq> []"
      using r_last by (auto simp: path_join_def split: if_splits)
    have "path_absolute h q = Inr (path_join ?r [])"
      using nonempty absr base [of "[slash]"] parts \<open>ps \<noteq> []\<close> q'
      by (simp add: path_absolute_def Let_def is_absolute_def normal_parts_trail)
    with q' nonempty r_last \<open>ps \<noteq> []\<close> absr show ?thesis
      by (auto simp: path_join_def is_absolute_def)
  qed
qed

section \<open>Tool keys\<close>

lemma path_comps_piece: "piece p \<Longrightarrow> path_comps p = (False, [p])"
  by (cases p) (auto simp: path_comps_def piece_def split_char_no_sep is_absolute_def Let_def)

lemma path_comps_last:
  assumes "snd (path_comps n) \<noteq> []" "last (snd (path_comps n)) \<noteq> ''.''"
  shows "piece (last (snd (path_comps n)))"
proof -
  have "last (snd (path_comps n)) \<in> set (snd (path_comps n))" using assms(1) by simp
  then have "last (snd (path_comps n)) = ''.'' \<or>
      last (snd (path_comps n)) \<in> set (filter (\<lambda>x. x \<noteq> []) (split_char slash n))"
    unfolding path_comps_def Let_def by (auto split: if_splits dest: list.set_sel(2))
  with assms(2) show ?thesis by (auto simp: piece_def dest: split_char_pieces)
qed

lemma tool_key_idem: "tool_key (tool_key n) = tool_key n"
proof (cases "snd (path_comps n) = [] \<or> last (snd (path_comps n)) = ''.'' \<or> last (snd (path_comps n)) = ''..''")
  case True
  then have "tool_key n = n" by (auto simp: tool_key_def Let_def)
  then show ?thesis by simp
next
  case False
  then have "piece (last (snd (path_comps n)))" by (intro path_comps_last) auto
  with False show ?thesis by (simp add: tool_key_def Let_def path_comps_piece)
qed

section \<open>The grant table\<close>

text \<open>
  The contract between the grant table and its clients: committing fills the slot of the
  grant's tool and no other, and keeps one grant per tool.
\<close>

locale slot_table =
  fixes slot :: "'s \<Rightarrow> 'k \<Rightarrow> 'g option" and put :: "'g \<Rightarrow> 's \<Rightarrow> 's"
    and key :: "'g \<Rightarrow> 'k" and wf :: "'s \<Rightarrow> bool"
  assumes wf_put: "wf s \<Longrightarrow> wf (put g s)"
    and slot_put: "wf s \<Longrightarrow> slot (put g s) k = (if k = key g then Some g else slot s k)"
begin

lemma put_overwrites: "wf s \<Longrightarrow> key g = key g' \<Longrightarrow> slot (put g (put g' s)) k = slot (put g s) k"
  by (simp add: slot_put wf_put)

lemma put_commutes:
  "wf s \<Longrightarrow> key g \<noteq> key g' \<Longrightarrow> slot (put g (put g' s)) k = slot (put g' (put g s)) k"
  by (simp add: slot_put wf_put)

lemma put_other: "wf s \<Longrightarrow> k \<noteq> key g \<Longrightarrow> slot (put g s) k = slot s k"
  by (simp add: slot_put)

lemma wf_puts: "wf s \<Longrightarrow> wf (foldr put gs s)"
  by (induction gs) (simp_all add: wf_put)

end

definition grants_wf :: "store \<Rightarrow> bool" where
  "grants_wf s \<longleftrightarrow> distinct (map g_tool (st_grants s))"

lemma find_filter_key:
  "List.find (\<lambda>x. k x = t) (filter (\<lambda>x. k x \<noteq> t') xs) = (if t = t' then None else List.find (\<lambda>x. k x = t) xs)"
  by (induction xs) auto

lemma commit_find:
  "find_grant (commit_grant g s) t = (if t = g_tool g then Some g else find_grant s t)"
  by (auto simp: find_grant_def commit_grant_def invalidate_requests_def find_append_none
      find_filter_key split: option.splits)

lemma commit_wf: "grants_wf s \<Longrightarrow> grants_wf (commit_grant g s)"
  by (auto simp: grants_wf_def commit_grant_def invalidate_requests_def distinct_map_filter)

interpretation gt: slot_table find_grant commit_grant g_tool grants_wf
  by unfold_locales (auto simp: commit_wf commit_find)

lemma commit_frame [frame_simps]:
  "st_jobs (commit_grant g s) = st_jobs s" "st_peers (commit_grant g s) = st_peers s"
  "st_body_name (commit_grant g s) = st_body_name s" "st_history (commit_grant g s) = st_history s"
  "st_owner_sk (commit_grant g s) = st_owner_sk s"
  "st_request_receipts (commit_grant g s) = st_request_receipts s"
  by (simp_all add: commit_grant_def invalidate_requests_def)

text \<open>An owner decision (\<open>add\<close>, approval) leaves exactly one grant for its tool, the new
  one, does not touch the grant of any other tool, and leaves no pending request for that tool
  that could later supersede it.\<close>

theorem commit_replaces_one_slot:
  assumes "grants_wf s"
  shows "grants_wf (commit_grant g s) \<and>
    find_grant (commit_grant g s) (g_tool g) = Some g \<and>
    (\<forall>t. t \<noteq> g_tool g \<longrightarrow> find_grant (commit_grant g s) t = find_grant s t) \<and>
    (\<forall>r \<in> set (st_requests (commit_grant g s)). tool_key (r_tool r) \<noteq> g_tool g)"
  using gt.slot_put [OF assms] gt.wf_put [OF assms] gt.put_other [OF assms]
  by (auto simp: commit_grant_def invalidate_requests_def)

section \<open>Building\<close>

lemma build_grant_ok:
  assumes "build_grant h s tool allow once until sched args = Inr g"
  shows "g_tool g = tool_key tool \<and> resolve_tool h tool = Inr (g_binary g) \<and>
    g_allow_from g = (if allow = [] then None else Some allow) \<and> g_once g = once \<and>
    g_until g = until \<and> g_schedule g = sched \<and> g_reservation g = None \<and> g_args g = args \<and>
    \<not> (once \<and> sched \<noteq> None)"
  using assms by (auto simp: build_grant_def result_simps split: if_splits)

lemma build_allow_ok_iff:
  "build_allow_ok s allow = Inr u \<longleftrightarrow>
     (\<forall>n \<in> set allow. n = st_body_name s \<or> n \<in> p_name ` set (st_peers s))"
  unfolding build_allow_ok_def
  by (induction allow) (auto simp: result_simps list_ex_iff)

lemma search_path_exec:
  "search_path h dirs name = Inr b \<Longrightarrow>
     \<exists>d \<in> set dirs. is_executable_file h (path_join d name) \<and> path_absolute h (path_join d name) = Inr b"
  by (induction dirs) (auto simp: Let_def split: if_splits)

lemma resolve_tool_exec:
  "resolve_tool h name = Inr b \<Longrightarrow> \<exists>p. is_executable_file h p \<and> path_absolute h p = Inr b"
  by (auto simp: resolve_tool_def existing_executable_def split: if_splits dest: search_path_exec)

text \<open>A grant that \<open>clix add\<close> or an approval builds names an executable file by an absolute
  path, names only this machine or paired machines, is never both single-use and scheduled,
  starts unreserved, and its argument lists are all runnable invocations.\<close>

theorem build_grant_sound:
  assumes "build_grant h s tool allow once until sched args = Inr g"
  shows "(\<exists>p. is_executable_file h p \<and> path_absolute h p = Inr (g_binary g)) \<and>
    (\<forall>bs. g_allow_from g = Some bs \<longrightarrow>
       bs \<noteq> [] \<and> set bs \<subseteq> insert (st_body_name s) (p_name ` set (st_peers s))) \<and>
    \<not> (g_once g \<and> g_schedule g \<noteq> None) \<and> g_reservation g = None \<and>
    (\<forall>ps. g_args g = Some ps \<longrightarrow> ps \<noteq> [] \<and>
       (\<forall>p \<in> set ps. limits_invocation ''allowlist'' (g_tool g # p) = Inr ()))"
proof -
  have args: "\<forall>p \<in> set ps. limits_invocation ''allowlist'' (tool_key tool # p) = Inr ()"
    if "fold_r (\<lambda>p _. limits_invocation ''allowlist'' (tool_key tool # p)) ps () = Inr ()" for ps
    using that by (induction ps) (auto simp: result_simps)
  have "build_allow_ok s allow = Inr ()"
    "\<forall>ps. args = Some ps \<longrightarrow> build_args_ok tool ps = Inr ()"
    using assms by (auto simp: build_grant_def result_simps)
  with build_grant_ok [OF assms] resolve_tool_exec args show ?thesis
    by (auto simp: build_allow_ok_iff build_args_ok_def result_simps)
qed

section \<open>Removing\<close>

text \<open>A path the command line resolved for \<open>clix remove\<close> means the same path to the
  service: resolving a removal target again changes nothing.\<close>

theorem removal_target_idem:
  assumes "cwd_canonical h" and "removal_target h tool = Inr target" and "List.member tool slash"
  shows "removal_target h target = Inr target \<and> is_absolute target"
proof -
  from assms(2,3) have "path_absolute h tool = Inr target" by (simp add: removal_target_def)
  with assms(1) have "canonical target" by (rule path_absolute_canonical)
  then show ?thesis using path_absolute_of_canonical by (simp add: removal_target_def)
qed

text \<open>Removing a grant revokes exactly the grant that was named: afterwards a check for its
  tool fails with \<open>NotAdded\<close> for every machine at every time, every other tool's grant is
  unchanged, and no request for the tool stays pending.\<close>

theorem remove_grant_revokes:
  assumes "grants_wf s" and "remove_grant h tool s = Inr ((), s')"
  shows "\<exists>g \<in> set (st_grants s).
    (\<forall>who now. check_at s' (g_tool g) who now = Inl (NotAdded (g_tool g) (st_body_name s))) \<and>
    (\<forall>t. t \<noteq> g_tool g \<longrightarrow> find_grant s' t = find_grant s t) \<and>
    (\<forall>r \<in> set (st_requests s'). tool_key (r_tool r) \<noteq> g_tool g)"
proof -
  from assms(2) obtain p g where p: "List.find p (st_grants s) = Some g"
    and s': "s' = invalidate_requests (g_tool g) (s\<lparr>st_grants := remove_first p (st_grants s)\<rparr>)"
    by (auto simp: remove_grant_def Let_def result_simps split: option.splits)
  have "find_grant s' t = (if t = g_tool g then None else find_grant s t)" for t
    using find_remove_first_key [where k = g_tool and t = t, OF _ p] assms(1)
    by (simp add: s' find_grant_def grants_wf_def invalidate_requests_def)
  moreover have "g \<in> set (st_grants s)" using find_Some_set [OF p] by simp
  moreover have "st_body_name s' = st_body_name s" by (simp add: s' invalidate_requests_def)
  ultimately show ?thesis
    by (intro bexI [of _ g]) (auto simp: check_at_def s' invalidate_requests_def simp del: find_grant_None)
qed

section \<open>The authority check\<close>

text \<open>A run is authorised exactly when this machine holds a grant for the tool that is not
  reserved by another run, names the requesting machine or every machine, has not expired and
  is inside its schedule; the check hands back that grant.\<close>

theorem check_at_ok_iff:
  "check_at s tool who now = Inr g \<longleftrightarrow>
     find_grant s tool = Some g \<and> g_reservation g = None \<and>
     (\<forall>bs. g_allow_from g = Some bs \<longrightarrow> who \<in> set bs) \<and>
     (\<forall>u. g_until g = Some u \<longrightarrow> now_instant now \<le> u) \<and>
     (\<forall>sc. g_schedule g = Some sc \<longrightarrow> allows_at sc now)"
  by (auto simp: check_at_def result_simps list_ex_iff)

text \<open>An argument list limits a run to one of the listed vectors, compared exactly: no prefix
  and no extra option passes.\<close>

theorem check_args_exact:
  "check_args g argv = Inr u \<longleftrightarrow> (\<forall>ps. g_args g = Some ps \<longrightarrow> tl argv \<in> set ps)"
  by (auto simp: check_args_def list_ex_iff split: option.splits)

end
