(* ===== verification/Clix_Request.thy ===== *)
theory Clix_Request
  imports Clix_Grant
begin

text \<open>
  \<open>src/request.rs\<close>: a paired machine asks for a tool, the owner decides.  Every function here runs
  inside \<open>Store::update\<close>, which drops the edited copy when it fails, so an error returns no
  state.  A fresh identifier (\<open>job::new_id\<close> reads the system's random source) is an argument.
\<close>

section \<open>Recording requests\<close>

definition upsert :: "string res \<Rightarrow> body_id \<Rightarrow> string \<Rightarrow> store \<Rightarrow> (request \<times> store) res" where
  "upsert nid who tool s =
     rbind (limits_tool tool) (\<lambda>_.
     if tool = [] then Inl (Usage ''usage: clix request <machine> <tool>'')
     else let p = (\<lambda>r. r_from r = who \<and> r_tool r = tool) in
       case List.find p (rev (st_requests s)) of
         Some existing \<Rightarrow>
           let touch = (\<lambda>r. r\<lparr>r_once_suggested := True\<rparr>)
           in Inr (touch existing, s\<lparr>st_requests := rev (update_first p touch (rev (st_requests s)))\<rparr>)
       | None \<Rightarrow>
           rbind nid (\<lambda>i.
           let req = \<lparr>r_id = i, r_from = who, r_tool = tool, r_once_suggested = True\<rparr>
           in Inr (req, s\<lparr>st_requests := st_requests s @ [req]\<rparr>)))"

definition receive :: "string res \<Rightarrow> body_id \<Rightarrow> string \<Rightarrow> string option \<Rightarrow> store \<Rightarrow> (request \<times> store) res" where
  "receive nid who tool delivery s =
     rbind (limits_tool tool) (\<lambda>_.
     rbind (case delivery of None \<Rightarrow> Inr () | Some i \<Rightarrow> limits_identifier i) (\<lambda>_.
     case (case delivery of None \<Rightarrow> None
           | Some i \<Rightarrow> List.find (\<lambda>r. rr_delivery_id r = i \<and> r_from (rr_request r) = who) (st_request_receipts s)) of
       Some receipt \<Rightarrow>
         if r_tool (rr_request receipt) \<noteq> tool
         then Inl (Protocol ''request ID belongs to a different tool'')
         else Inr (rr_request receipt, s)
     | None \<Rightarrow>
         rbind (upsert nid who tool s) (\<lambda>(req, s').
         Inr (req, case delivery of None \<Rightarrow> s'
           | Some i \<Rightarrow> s'\<lparr>st_request_receipts := st_request_receipts s' @
               [\<lparr>rr_delivery_id = i, rr_request = req\<rparr>]\<rparr>))))"

definition pending :: "store \<Rightarrow> request list" where
  "pending s = st_requests s"

section \<open>Decisions\<close>

datatype scope = Requester | Bodies "string list"

datatype decision =
    Allow scope bool "int option" "schedule option"
  | Deny

definition from_action :: "string \<Rightarrow> decision res" where
  "from_action action =
     (if action = ''default'' \<or> action = ''once'' then Inr (Allow Requester True None None)
      else if action = ''allow'' then Inr (Allow Requester False None None)
      else if action = ''deny'' then Inr Deny
      else Inl (Usage ''unknown request action''))"

definition decide :: "host \<Rightarrow> string \<Rightarrow> decision \<Rightarrow> store \<Rightarrow> (grant option \<times> store) res" where
  "decide h i d s =
     (case (if i = [] then None else List.find (\<lambda>r. r_id r = i) (st_requests s)) of
        None \<Rightarrow> Inl (Usage ''request is no longer pending; run clix pending'')
      | Some req \<Rightarrow>
        (case d of
           Allow sc once until sched \<Rightarrow>
             rbind (case sc of Requester \<Rightarrow> Inr [r_from req]
                    | Bodies bs \<Rightarrow> if bs = [] then Inl (Usage ''approval body list must not be empty'')
                                  else Inr bs) (\<lambda>allow.
             rbind (build_grant h s (r_tool req) allow once until sched None) (\<lambda>g.
             if (case find_grant s (g_tool g) of Some existing \<Rightarrow> \<not> same_permission existing g
                 | None \<Rightarrow> False)
             then Inl (Usage (g_tool g @ '' already has a grant on '' @ st_body_name s @
               ''; change it with clix add / clix remove rather than approving this request''))
             else Inr (Some g, commit_grant g s)))
         | Deny \<Rightarrow> Inr (None, s\<lparr>st_requests := remove_first (\<lambda>r. r_id r = i) (st_requests s)\<rparr>)))"

section \<open>Recording: one row per requester and tool\<close>

definition request_key :: "request \<Rightarrow> body_id \<times> string" where
  "request_key r = (r_from r, r_tool r)"

definition requests_wf :: "store \<Rightarrow> bool" where
  "requests_wf s \<longleftrightarrow> distinct (map request_key (st_requests s))"

lemma upsert_cases:
  assumes "upsert nid who tool s = Inr (req, s')"
  obtains (touch) "s' = s\<lparr>st_requests := rev (update_first (\<lambda>r. r_from r = who \<and> r_tool r = tool)
        (\<lambda>r. r\<lparr>r_once_suggested := True\<rparr>) (rev (st_requests s)))\<rparr>"
      "request_key req = (who, tool)" "req \<in> set (st_requests s')" "tool \<noteq> []"
  | (fresh) i where "nid = Inr i" "s' = s\<lparr>st_requests := st_requests s @ [req]\<rparr>"
      "req = \<lparr>r_id = i, r_from = who, r_tool = tool, r_once_suggested = True\<rparr>" "tool \<noteq> []"
      "(who, tool) \<notin> request_key ` set (st_requests s)"
proof (cases "List.find (\<lambda>r. r_from r = who \<and> r_tool r = tool) (rev (st_requests s))")
  case None
  with assms show thesis
    by (auto simp: upsert_def Let_def result_simps find_None_set request_key_def intro!: fresh)
next
  case (Some e)
  have "request_key e = (who, tool)" using find_Some_set [OF Some] by (simp add: request_key_def)
  with assms Some show thesis
    using update_first_member [OF Some, of "\<lambda>r. r\<lparr>r_once_suggested := True\<rparr>"]
    by (auto simp: upsert_def Let_def result_simps request_key_def intro!: touch)
qed

lemma upsert_key: "upsert nid who tool s = Inr (req, s') \<Longrightarrow> r_from req = who \<and> r_tool req = tool"
  by (erule upsert_cases) (auto simp: request_key_def)

lemma upsert_member: "upsert nid who tool s = Inr (req, s') \<Longrightarrow> req \<in> set (st_requests s')"
  by (erule upsert_cases) auto

lemma upsert_only_requests:
  "upsert nid who tool s = Inr (req, s') \<Longrightarrow> \<exists>rs. s' = s\<lparr>st_requests := rs\<rparr>"
  by (erule upsert_cases) auto

lemma upsert_wf: "upsert nid who tool s = Inr (req, s') \<Longrightarrow> requests_wf s \<Longrightarrow> requests_wf s'"
proof (erule upsert_cases)
  let ?p = "\<lambda>r. r_from r = who \<and> r_tool r = tool"
  assume "requests_wf s"
    and "s' = s\<lparr>st_requests := rev (update_first ?p (\<lambda>r. r\<lparr>r_once_suggested := True\<rparr>) (rev (st_requests s)))\<rparr>"
  moreover have "map request_key (update_first ?p (\<lambda>r. r\<lparr>r_once_suggested := True\<rparr>) (rev (st_requests s)))
      = map request_key (rev (st_requests s))"
    by (rule map_update_first) (simp add: request_key_def)
  ultimately show "requests_wf s'" by (simp add: requests_wf_def flip: rev_map)
qed (auto simp: requests_wf_def request_key_def)

lemma receive_frame:
  assumes "receive nid who tool delivery s = Inr (req, s')"
  shows "s'\<lparr>st_requests := [], st_request_receipts := []\<rparr> = s\<lparr>st_requests := [], st_request_receipts := []\<rparr>"
  using assms by (auto simp: receive_def result_simps split: option.splits if_splits
      dest!: upsert_only_requests)

lemma receive_same [frame_simps]:
  assumes "receive nid who tool delivery s = Inr (req, s')"
  shows "st_grants s' = st_grants s" "st_jobs s' = st_jobs s" "st_peers s' = st_peers s"
    "st_body_name s' = st_body_name s" "st_history s' = st_history s" "st_owner_sk s' = st_owner_sk s"
    "st_job_certificates s' = st_job_certificates s"
  using receive_frame [OF assms] by (auto dest: arg_cong [where f = st_grants] arg_cong [where f = st_jobs]
      arg_cong [where f = st_peers] arg_cong [where f = st_body_name] arg_cong [where f = st_history]
      arg_cong [where f = st_owner_sk] arg_cong [where f = st_job_certificates])

text \<open>Receiving a permission request keeps one pending row per requesting machine and tool,
  records the row, and touches nothing but the pending rows and the delivery receipts: no grant,
  job or pairing changes.\<close>

theorem receive_keeps_one_row:
  assumes "requests_wf s" and "receive nid who tool delivery s = Inr (req, s')"
  shows "requests_wf s' \<and> r_from req = who \<and> r_tool req = tool \<and>
    st_grants s' = st_grants s \<and> st_jobs s' = st_jobs s \<and> st_peers s' = st_peers s"
proof -
  have "requests_wf s' \<and> r_from req = who \<and> r_tool req = tool"
    using assms by (auto simp: receive_def result_simps requests_wf_def
        split: option.splits if_splits dest!: find_Some_set
        dest: upsert_wf [unfolded requests_wf_def] upsert_key)
  with receive_same [OF assms(2)] show ?thesis by simp
qed

section \<open>Delivery is idempotent\<close>

text \<open>
  The contract of an at-least-once delivery: once a message with an identifier was accepted,
  the same message returns the recorded answer and changes nothing.
\<close>

locale idempotent_delivery =
  fixes accept :: "'i \<Rightarrow> 'm \<Rightarrow> 's \<Rightarrow> ('r \<times> 's) res" and recorded :: "'i \<Rightarrow> 'm \<Rightarrow> 's \<Rightarrow> 'r option"
  assumes accept_records: "accept i m s = Inr (r, s') \<Longrightarrow> recorded i m s' = Some r"
    and recorded_accept: "recorded i m s = Some r \<Longrightarrow> accept i m s = Inr (r, s)"
begin

lemma redelivery: "accept i m s = Inr (r, s') \<Longrightarrow> accept i m s' = Inr (r, s')"
  by (blast dest: accept_records recorded_accept)

lemma redeliveries: "accept i m s = Inr (r, s') \<Longrightarrow>
    foldr (\<lambda>_ st. case accept i m st of Inr (_, t) \<Rightarrow> t | Inl _ \<Rightarrow> st) (replicate n ()) s' = s'"
  by (induction n) (auto dest: redelivery)

end

definition receipt_of :: "string \<Rightarrow> body_id \<times> string \<Rightarrow> store \<Rightarrow> request option" where
  "receipt_of i m s =
     (if limits_tool (snd m) = Inr () \<and> limits_identifier i = Inr () then
        (case List.find (\<lambda>r. rr_delivery_id r = i \<and> r_from (rr_request r) = fst m) (st_request_receipts s) of
           Some rc \<Rightarrow> if r_tool (rr_request rc) = snd m then Some (rr_request rc) else None
         | None \<Rightarrow> None)
      else None)"

interpretation requests: idempotent_delivery "\<lambda>i m s. receive nid (fst m) (snd m) (Some i) s" receipt_of
proof unfold_locales
  fix i :: string and m :: "body_id \<times> string" and s s' and r
  show "receipt_of i m s = Some r \<Longrightarrow> receive nid (fst m) (snd m) (Some i) s = Inr (r, s)"
    by (auto simp: receipt_of_def receive_def split: if_splits option.splits)
  assume acc: "receive nid (fst m) (snd m) (Some i) s = Inr (r, s')"
  then have lim: "limits_tool (snd m) = Inr ()" "limits_identifier i = Inr ()"
    by (auto simp: receive_def result_simps)
  let ?p = "\<lambda>r. rr_delivery_id r = i \<and> r_from (rr_request r) = fst m"
  show "receipt_of i m s' = Some r"
  proof (cases "List.find ?p (st_request_receipts s)")
    case (Some rc)
    with acc lim show ?thesis by (auto simp: receive_def receipt_of_def split: if_splits)
  next
    case None
    with acc lim obtain s1 where up: "upsert nid (fst m) (snd m) s = Inr (r, s1)"
      and s': "s' = s1\<lparr>st_request_receipts := st_request_receipts s1 @ [\<lparr>rr_delivery_id = i, rr_request = r\<rparr>]\<rparr>"
      by (auto simp: receive_def result_simps)
    from upsert_only_requests [OF up] have "st_request_receipts s1 = st_request_receipts s" by auto
    with None upsert_key [OF up] lim show ?thesis by (simp add: receipt_of_def s' find_append_none)
  qed
qed

text \<open>A permission request delivered again under its delivery identifier (a lost
  acknowledgement) returns the recorded request and changes nothing, whatever the owner decided
  in between as long as the receipt is kept: a decided request is never revived.\<close>

theorem redelivered_request_changes_nothing:
  assumes "receive nid who tool (Some i) s = Inr (req, s1)"
    and "st_request_receipts s2 = st_request_receipts s1"
  shows "receive nid' who tool (Some i) s2 = Inr (req, s2)"
proof -
  have "receipt_of i (who, tool) s1 = Some req"
    using requests.accept_records [of nid "(who, tool)" i s req s1] assms(1) by simp
  moreover have "receipt_of i m s2 = receipt_of i m s1" for m by (simp add: receipt_of_def assms(2))
  ultimately have "receipt_of i (who, tool) s2 = Some req" by simp
  then show ?thesis using requests.recorded_accept [of i "(who, tool)" s2 req] by simp
qed

section \<open>Deciding\<close>

lemma decide_allow:
  assumes "decide h i (Allow sc once until sched) s = Inr (out, s')"
  obtains req allow g where "i \<noteq> []" "req \<in> set (st_requests s)" "r_id req = i"
    "build_grant h s (r_tool req) allow once until sched None = Inr g"
    "allow = (case sc of Requester \<Rightarrow> [r_from req] | Bodies bs \<Rightarrow> bs)" "allow \<noteq> []"
    "\<And>old. find_grant s (g_tool g) = Some old \<Longrightarrow> same_permission old g"
    "out = Some g" "s' = commit_grant g s"
proof -
  from assms obtain req where f: "i \<noteq> []" "List.find (\<lambda>r. r_id r = i) (st_requests s) = Some req"
    by (auto simp: decide_def split: option.splits if_splits)
  with find_Some_set [OF f(2)] assms show thesis
    by (auto simp: decide_def result_simps split: scope.splits intro!: that)
qed

lemma same_permission_refl [simp]: "same_permission g g"
  by (simp add: same_permission_def path_eq_def)

text \<open>Approving a request never silently changes another decision of the owner: whatever grant
  any tool had before is still there afterwards with the same machines, expiry, schedule and
  arguments, and the only grant that can appear is for the requested tool, for the machines the
  decision named (the requester, when it named none).\<close>

theorem approval_preserves_grants:
  assumes "decide h i (Allow sc once until sched) s = Inr (out, s')"
  shows "(\<forall>t old. find_grant s t = Some old \<longrightarrow>
            (\<exists>new. find_grant s' t = Some new \<and> same_permission old new)) \<and>
    (\<exists>req \<in> set (st_requests s). r_id req = i \<and>
       (\<forall>t new. find_grant s' t = Some new \<and> find_grant s t = None \<longrightarrow>
          t = tool_key (r_tool req) \<and>
          g_allow_from new = Some (case sc of Requester \<Rightarrow> [r_from req] | Bodies bs \<Rightarrow> bs) \<and>
          g_once new = once \<and> g_reservation new = None))"
  using assms
proof (rule decide_allow)
  fix req allow g
  assume req: "req \<in> set (st_requests s)" "r_id req = i"
    and b: "build_grant h s (r_tool req) allow once until sched None = Inr g"
    and al: "allow = (case sc of Requester \<Rightarrow> [r_from req] | Bodies bs \<Rightarrow> bs)" "allow \<noteq> []"
    and old: "\<And>old. find_grant s (g_tool g) = Some old \<Longrightarrow> same_permission old g"
    and s': "s' = commit_grant g s"
  show ?thesis
    using old build_grant_ok [OF b] req al
    by (auto simp: s' commit_find simp del: find_grant_None split: if_splits intro!: bexI [of _ req])
qed

text \<open>Denying a request removes that one pending row and changes no grant.\<close>

theorem denial_changes_no_grant:
  assumes "decide h i Deny s = Inr (out, s')"
  shows "out = None \<and> st_grants s' = st_grants s \<and> i \<in> r_id ` set (st_requests s) \<and>
    st_requests s' = remove_first (\<lambda>r. r_id r = i) (st_requests s)"
  using assms by (auto simp: decide_def split: option.splits if_splits dest!: find_Some_set)

text \<open>Every action a notification or the tray can send is scoped to the requesting machine:
  none of them grants a tool to any other machine.\<close>

theorem native_actions_scope_requester:
  assumes "from_action action = Inr d" and "decide h i d s = Inr (Some g, s')"
  shows "\<exists>req \<in> set (st_requests s). r_id req = i \<and> g_allow_from g = Some [r_from req] \<and>
    g_tool g = tool_key (r_tool req) \<and> (g_once g \<longleftrightarrow> action \<noteq> ''allow'')"
proof -
  from assms(1) have "d = Allow Requester (action \<noteq> ''allow'') None None \<or> d = Deny"
    by (auto simp: from_action_def split: if_splits)
  then have "d = Allow Requester (action \<noteq> ''allow'') None None"
    using assms(2) by (auto simp: decide_def split: option.splits if_splits)
  with assms(2) have "decide h i (Allow Requester (action \<noteq> ''allow'') None None) s = Inr (Some g, s')"
    by simp
  then show ?thesis
    by (rule decide_allow) (auto dest!: build_grant_ok intro!: bexI)
qed

end
