(* ===== verification/Clix_Json.thy ===== *)
theory Clix_Json
  imports Clix_State
begin

text \<open>
  JSON values (\<open>serde_json::Value\<close>) and what serde's derive makes of the structs of
  \<open>src/types.rs\<close> and \<open>src/history.rs\<close> that cross the network: struct fields in declaration order,
  newtypes as their content, unit variants as strings, struct variants as one-field objects.
  The text encoding of a value is a parameter elsewhere; here are the values, the readers
  (\<open>from_value\<close>, \<open>None\<close> for a serde error) and the round trips.
\<close>

datatype json =
    JNull
  | JBool bool
  | JInt int
  | JFloat string
  | JStr string
  | JArr "json list"
  | JObj "(string \<times> json) list"

fun jget :: "json \<Rightarrow> string \<Rightarrow> json option" where
  "jget (JObj kvs) k = map_of kvs k"
| "jget _ k = None"

text \<open>Indexing \<open>v[k]\<close> gives \<open>Null\<close> where \<open>get\<close> gives nothing.\<close>

definition jindex :: "json \<Rightarrow> string \<Rightarrow> json" where
  "jindex v k = (case jget v k of Some x \<Rightarrow> x | None \<Rightarrow> JNull)"

fun as_str :: "json \<Rightarrow> string option" where
  "as_str (JStr s) = Some s"
| "as_str _ = None"

fun as_u64 :: "json \<Rightarrow> nat option" where
  "as_u64 (JInt i) = (if 0 \<le> i \<and> i \<le> int u64_max then Some (nat i) else None)"
| "as_u64 _ = None"

fun as_bool :: "json \<Rightarrow> bool option" where
  "as_bool (JBool b) = Some b"
| "as_bool _ = None"

definition jstr :: "json \<Rightarrow> string \<Rightarrow> string option" where
  "jstr v k = Option.bind (jget v k) as_str"

definition ju64 :: "json \<Rightarrow> string \<Rightarrow> nat option" where
  "ju64 v k = Option.bind (jget v k) as_u64"

section \<open>Readers\<close>

fun as_arr :: "json \<Rightarrow> json list option" where
  "as_arr (JArr xs) = Some xs"
| "as_arr _ = None"

fun as_byte :: "json \<Rightarrow> byte option" where
  "as_byte (JInt i) = (if 0 \<le> i \<and> i < 256 then Some (word_of_int i) else None)"
| "as_byte _ = None"

fun as_i32 :: "json \<Rightarrow> int option" where
  "as_i32 (JInt i) = (if - (2 ^ 31) \<le> i \<and> i < 2 ^ 31 then Some i else None)"
| "as_i32 _ = None"

fun collect :: "('a \<Rightarrow> 'b option) \<Rightarrow> 'a list \<Rightarrow> 'b list option" where
  "collect f [] = Some []"
| "collect f (x # xs) = Option.bind (f x) (\<lambda>y. Option.bind (collect f xs) (\<lambda>ys. Some (y # ys)))"

definition as_list :: "(json \<Rightarrow> 'a option) \<Rightarrow> json \<Rightarrow> 'a list option" where
  "as_list f v = Option.bind (as_arr v) (collect f)"

definition as_opt :: "(json \<Rightarrow> 'a option) \<Rightarrow> json \<Rightarrow> 'a option option" where
  "as_opt f v = (if v = JNull then Some None else map_option Some (f v))"

text \<open>A derived struct is read from an object by field name, or from an array by position; at
  least \<open>n\<close> positions have to be present (fields with a default come last).\<close>

definition fields :: "nat \<Rightarrow> string list \<Rightarrow> json \<Rightarrow> (string \<Rightarrow> json option) option" where
  "fields n ks v = (case v of
       JObj kvs \<Rightarrow> Some (map_of kvs)
     | JArr xs \<Rightarrow> if n \<le> length xs \<and> length xs \<le> length ks then Some (map_of (zip ks xs)) else None
     | _ \<Rightarrow> None)"

definition fld :: "(string \<Rightarrow> json option) \<Rightarrow> string \<Rightarrow> (json \<Rightarrow> 'a option) \<Rightarrow> 'a option" where
  "fld m k f = Option.bind (m k) f"

definition fld_default :: "(string \<Rightarrow> json option) \<Rightarrow> string \<Rightarrow> (json \<Rightarrow> 'a option) \<Rightarrow> 'a \<Rightarrow> 'a option" where
  "fld_default m k f d = (case m k of None \<Rightarrow> Some d | Some v \<Rightarrow> f v)"

definition fld_opt :: "(string \<Rightarrow> json option) \<Rightarrow> string \<Rightarrow> (json \<Rightarrow> 'a option) \<Rightarrow> 'a option option" where
  "fld_opt m k f = (case m k of None \<Rightarrow> Some None | Some v \<Rightarrow> as_opt f v)"

definition bytes_json :: "bytes \<Rightarrow> json" where
  "bytes_json bs = JArr (map (\<lambda>b. JInt (uint b)) bs)"

definition strs_json :: "string list \<Rightarrow> json" where
  "strs_json ss = JArr (map JStr ss)"

definition opt_json :: "('a \<Rightarrow> json) \<Rightarrow> 'a option \<Rightarrow> json" where
  "opt_json f x = (case x of None \<Rightarrow> JNull | Some a \<Rightarrow> f a)"

definition nat_json :: "nat \<Rightarrow> json" where
  "nat_json n = JInt (int n)"

lemma collect_map: "(\<And>x. x \<in> set xs \<Longrightarrow> f (g x) = Some x) \<Longrightarrow> collect f (map g xs) = Some xs"
  by (induction xs) auto

lemma as_byte_uint: "as_byte (JInt (uint (b :: byte))) = Some b"
proof -
  have "uint b < 2 ^ LENGTH(8)" by (rule unsigned_less)
  then show ?thesis by simp
qed

named_theorems json_round \<open>a reader inverts a writer\<close>

lemma bytes_round [json_round]: "as_list as_byte (bytes_json bs) = Some bs"
  unfolding as_list_def bytes_json_def as_arr.simps Option.bind.bind_lunit
  by (rule collect_map) (rule as_byte_uint)

lemma strs_round [json_round]: "as_list as_str (strs_json ss) = Some ss"
  by (simp add: as_list_def strs_json_def collect_map)

lemma nat_round [json_round]: "n \<le> u64_max \<Longrightarrow> as_u64 (nat_json n) = Some n"
  by (simp add: nat_json_def)

lemma opt_round [json_round]:
  "f x \<noteq> JNull \<Longrightarrow> g (f x) = Some x \<Longrightarrow> as_opt g (opt_json f (Some x)) = Some (Some x)"
  "as_opt g (opt_json f None) = Some None"
  by (simp_all add: as_opt_def opt_json_def)

section \<open>Jobs\<close>

fun status_json :: "job_status \<Rightarrow> json" where
  "status_json Queued = JStr ''Queued''"
| "status_json WaitingBody = JStr ''WaitingBody''"
| "status_json WaitingCapacity = JStr ''WaitingCapacity''"
| "status_json Running = JStr ''Running''"
| "status_json (Done n) = JObj [(''Done'', JObj [(''exit'', JInt n)])]"
| "status_json (Denied r) = JObj [(''Denied'', JObj [(''reason'', JStr r)])]"
| "status_json (Failed r) = JObj [(''Failed'', JObj [(''reason'', JStr r)])]"
| "status_json (Uncertain r) = JObj [(''Uncertain'', JObj [(''reason'', JStr r)])]"

definition unit_status :: "string \<Rightarrow> job_status option" where
  "unit_status t = (if t = ''Queued'' then Some Queued else if t = ''WaitingBody'' then Some WaitingBody
     else if t = ''WaitingCapacity'' then Some WaitingCapacity else if t = ''Running'' then Some Running
     else None)"

definition reason_of :: "json \<Rightarrow> string option" where
  "reason_of v = Option.bind (fields 1 [''reason''] v) (\<lambda>m. fld m ''reason'' as_str)"

fun status_of_json :: "json \<Rightarrow> job_status option" where
  "status_of_json (JStr t) = unit_status t"
| "status_of_json (JObj [(t, v)]) =
     (if v = JNull then unit_status t
      else if t = ''Done'' then
        Option.bind (fields 1 [''exit''] v) (\<lambda>m. map_option Done (fld m ''exit'' as_i32))
      else if t = ''Denied'' then map_option Denied (reason_of v)
      else if t = ''Failed'' then map_option Failed (reason_of v)
      else if t = ''Uncertain'' then map_option Uncertain (reason_of v)
      else None)"
| "status_of_json _ = None"

fun exit_fits :: "job_status \<Rightarrow> bool" where
  "exit_fits (Done n) \<longleftrightarrow> - (2 ^ 31) \<le> n \<and> n < 2 ^ 31"
| "exit_fits _ = True"

lemma status_round [json_round]: "exit_fits st \<Longrightarrow> status_of_json (status_json st) = Some st"
  by (cases st) (simp_all add: unit_status_def reason_of_def fields_def fld_def)

definition job_json :: "job \<Rightarrow> json" where
  "job_json j = JObj [(''id'', JStr (j_id j)), (''body'', JStr (j_body j)), (''argv'', strs_json (j_argv j)),
     (''from'', JStr (j_from j)), (''status'', status_json (j_status j)),
     (''stdout'', bytes_json (j_stdout j)), (''stderr'', bytes_json (j_stderr j))]"

definition job_of_json :: "json \<Rightarrow> job option" where
  "job_of_json v =
     Option.bind (fields 5 [''id'', ''body'', ''argv'', ''from'', ''status'', ''stdout'', ''stderr''] v) (\<lambda>m.
     Option.bind (fld m ''id'' as_str) (\<lambda>i.
     Option.bind (fld m ''body'' as_str) (\<lambda>b.
     Option.bind (fld m ''argv'' (as_list as_str)) (\<lambda>a.
     Option.bind (fld m ''from'' as_str) (\<lambda>f.
     Option.bind (fld m ''status'' status_of_json) (\<lambda>st.
     Option.bind (fld_default m ''stdout'' (as_list as_byte) []) (\<lambda>so.
     Option.bind (fld_default m ''stderr'' (as_list as_byte) []) (\<lambda>se.
     Some \<lparr>j_id = i, j_body = b, j_argv = a, j_from = f, j_status = st, j_stdout = so, j_stderr = se\<rparr>))))))))"

lemma job_round [json_round]: "exit_fits (j_status j) \<Longrightarrow> job_of_json (job_json j) = Some j"
  by (simp add: job_of_json_def job_json_def fields_def fld_def fld_default_def json_round)

text \<open>\<open>request\<close> as the acknowledgement of a permission request carries it.\<close>

definition request_json :: "request \<Rightarrow> json" where
  "request_json r = JObj [(''id'', JStr (r_id r)), (''from'', JStr (r_from r)), (''tool'', JStr (r_tool r)),
     (''once_suggested'', JBool (r_once_suggested r))]"

section \<open>Signed history\<close>

definition invocation_json :: "invocation \<Rightarrow> json" where
  "invocation_json i = JObj [(''id'', JStr (i_id i)), (''from'', JStr (i_from i)),
     (''origin_key'', bytes_json (i_origin_key i)), (''body'', JStr (i_body i)),
     (''runner_key'', bytes_json (i_runner_key i)), (''argv'', strs_json (i_argv i)),
     (''retry_of'', opt_json JStr (i_retry_of i)),
     (''legacy_observer'', opt_json JStr (i_legacy_observer i))]"

definition invocation_of_json :: "json \<Rightarrow> invocation option" where
  "invocation_of_json v =
     Option.bind (fields 8 [''id'', ''from'', ''origin_key'', ''body'', ''runner_key'', ''argv'', ''retry_of'',
       ''legacy_observer''] v) (\<lambda>m.
     Option.bind (fld m ''id'' as_str) (\<lambda>i.
     Option.bind (fld m ''from'' as_str) (\<lambda>f.
     Option.bind (fld m ''origin_key'' (as_list as_byte)) (\<lambda>ok.
     Option.bind (fld m ''body'' as_str) (\<lambda>b.
     Option.bind (fld m ''runner_key'' (as_list as_byte)) (\<lambda>rk.
     Option.bind (fld m ''argv'' (as_list as_str)) (\<lambda>a.
     Option.bind (fld_opt m ''retry_of'' as_str) (\<lambda>ro.
     Option.bind (fld_opt m ''legacy_observer'' as_str) (\<lambda>lo.
     Some \<lparr>i_id = i, i_from = f, i_origin_key = ok, i_body = b, i_runner_key = rk, i_argv = a,
           i_retry_of = ro, i_legacy_observer = lo\<rparr>)))))))))"

lemma invocation_round [json_round]: "invocation_of_json (invocation_json i) = Some i"
  by (cases "i_retry_of i"; cases "i_legacy_observer i")
    (simp_all add: invocation_of_json_def invocation_json_def fields_def fld_def fld_opt_def json_round)

lemma invocation_json_inj: "invocation_json i = invocation_json i' \<Longrightarrow> i = i'"
  by (metis invocation_round option.inject)

definition certificate_json :: "certificate \<Rightarrow> json" where
  "certificate_json c = JObj [(''invocation'', invocation_json (c_invocation c)),
     (''signature'', bytes_json (c_signature c))]"

definition certificate_of_json :: "json \<Rightarrow> certificate option" where
  "certificate_of_json v =
     Option.bind (fields 2 [''invocation'', ''signature''] v) (\<lambda>m.
     Option.bind (fld m ''invocation'' invocation_of_json) (\<lambda>i.
     Option.bind (fld m ''signature'' (as_list as_byte)) (\<lambda>s.
     Some \<lparr>c_invocation = i, c_signature = s\<rparr>)))"

lemma certificate_round [json_round]: "certificate_of_json (certificate_json c) = Some c"
  by (simp add: certificate_of_json_def certificate_json_def fields_def fld_def json_round)

fun role_json :: "role \<Rightarrow> json" where
  "role_json Origin = JStr ''origin''"
| "role_json Runner = JStr ''runner''"
| "role_json LegacyObserver = JStr ''legacy_observer''"

definition role_name :: "string \<Rightarrow> role option" where
  "role_name t = (if t = ''origin'' then Some Origin else if t = ''runner'' then Some Runner
     else if t = ''legacy_observer'' then Some LegacyObserver else None)"

fun role_of_json :: "json \<Rightarrow> role option" where
  "role_of_json (JStr t) = role_name t"
| "role_of_json (JObj [(t, JNull)]) = role_name t"
| "role_of_json _ = None"

lemma role_round [json_round]: "role_of_json (role_json r) = Some r"
  by (cases r) (simp_all add: role_name_def)

definition output_ref_json :: "output_ref \<Rightarrow> json" where
  "output_ref_json r = JObj [(''bytes'', nat_json (or_bytes r)), (''sha256'', JStr (or_sha256 r))]"

definition output_ref_of_json :: "json \<Rightarrow> output_ref option" where
  "output_ref_of_json v =
     Option.bind (fields 2 [''bytes'', ''sha256''] v) (\<lambda>m.
     Option.bind (fld m ''bytes'' as_u64) (\<lambda>n.
     Option.bind (fld m ''sha256'' as_str) (\<lambda>h. Some \<lparr>or_bytes = n, or_sha256 = h\<rparr>)))"

lemma output_ref_round [json_round]: "or_bytes r \<le> u64_max \<Longrightarrow> output_ref_of_json (output_ref_json r) = Some r"
  by (simp add: output_ref_of_json_def output_ref_json_def fields_def fld_def json_round)

definition fact_json :: "fact \<Rightarrow> json" where
  "fact_json f = JObj [(''invocation'', JStr (f_invocation f)), (''role'', role_json (f_role f)),
     (''revision'', nat_json (f_revision f)), (''status'', status_json (f_status f)),
     (''stdout'', output_ref_json (f_stdout f)), (''stderr'', output_ref_json (f_stderr f))]"

definition fact_of_json :: "json \<Rightarrow> fact option" where
  "fact_of_json v =
     Option.bind (fields 6 [''invocation'', ''role'', ''revision'', ''status'', ''stdout'', ''stderr''] v) (\<lambda>m.
     Option.bind (fld m ''invocation'' as_str) (\<lambda>i.
     Option.bind (fld m ''role'' role_of_json) (\<lambda>r.
     Option.bind (fld m ''revision'' as_u64) (\<lambda>n.
     Option.bind (fld m ''status'' status_of_json) (\<lambda>st.
     Option.bind (fld m ''stdout'' output_ref_of_json) (\<lambda>so.
     Option.bind (fld m ''stderr'' output_ref_of_json) (\<lambda>se.
     Some \<lparr>f_invocation = i, f_role = r, f_revision = n, f_status = st, f_stdout = so, f_stderr = se\<rparr>)))))))"

definition fact_fits :: "fact \<Rightarrow> bool" where
  "fact_fits f \<longleftrightarrow> exit_fits (f_status f) \<and> f_revision f \<le> u64_max \<and>
     or_bytes (f_stdout f) \<le> u64_max \<and> or_bytes (f_stderr f) \<le> u64_max"

lemma fact_round [json_round]: "fact_fits f \<Longrightarrow> fact_of_json (fact_json f) = Some f"
  by (simp add: fact_of_json_def fact_json_def fields_def fld_def json_round fact_fits_def)

lemma status_json_inj: "status_json a = status_json b \<Longrightarrow> a = b"
  by (cases a; cases b) auto

lemma role_json_inj: "role_json a = role_json b \<Longrightarrow> a = b"
  by (metis role_round option.inject)

lemma fact_json_inj: "fact_json f = fact_json f' \<Longrightarrow> f = f'"
  by (cases f; cases f') (simp add: fact_json_def output_ref_json_def nat_json_def output_ref.equality
      status_json_inj role_json_inj)

definition signed_fact_json :: "signed_fact \<Rightarrow> json" where
  "signed_fact_json s = JObj [(''fact'', fact_json (sf_fact s)), (''signature'', bytes_json (sf_signature s))]"

definition signed_fact_of_json :: "json \<Rightarrow> signed_fact option" where
  "signed_fact_of_json v =
     Option.bind (fields 2 [''fact'', ''signature''] v) (\<lambda>m.
     Option.bind (fld m ''fact'' fact_of_json) (\<lambda>f.
     Option.bind (fld m ''signature'' (as_list as_byte)) (\<lambda>s.
     Some \<lparr>sf_fact = f, sf_signature = s\<rparr>)))"

lemma signed_fact_round [json_round]:
  "fact_fits (sf_fact s) \<Longrightarrow> signed_fact_of_json (signed_fact_json s) = Some s"
  by (simp add: signed_fact_of_json_def signed_fact_json_def fields_def fld_def json_round)

definition record_json :: "hrecord \<Rightarrow> json" where
  "record_json r = JObj [(''certificate'', certificate_json (rec_certificate r)),
     (''origin'', opt_json signed_fact_json (rec_origin r)),
     (''runner'', opt_json signed_fact_json (rec_runner r))]"

definition record_of_json :: "json \<Rightarrow> hrecord option" where
  "record_of_json v =
     Option.bind (fields 3 [''certificate'', ''origin'', ''runner''] v) (\<lambda>m.
     Option.bind (fld m ''certificate'' certificate_of_json) (\<lambda>c.
     Option.bind (fld_opt m ''origin'' signed_fact_of_json) (\<lambda>og.
     Option.bind (fld_opt m ''runner'' signed_fact_of_json) (\<lambda>rn.
     Some \<lparr>rec_certificate = c, rec_origin = og, rec_runner = rn\<rparr>))))"

definition record_fits :: "hrecord \<Rightarrow> bool" where
  "record_fits r \<longleftrightarrow> pred_option (\<lambda>s. fact_fits (sf_fact s)) (rec_origin r) \<and>
     pred_option (\<lambda>s. fact_fits (sf_fact s)) (rec_runner r)"

lemma signed_opt_round [json_round]:
  "pred_option (\<lambda>s. fact_fits (sf_fact s)) x \<Longrightarrow>
     as_opt signed_fact_of_json (opt_json signed_fact_json x) = Some x"
  by (cases x) (simp_all add: as_opt_def opt_json_def json_round, simp add: signed_fact_json_def)

lemma record_round [json_round]: "record_fits r \<Longrightarrow> record_of_json (record_json r) = Some r"
  by (simp add: record_of_json_def record_json_def fields_def fld_def fld_opt_def json_round record_fits_def)

definition output_json :: "captured_output \<Rightarrow> json" where
  "output_json c = JObj [(''stdout'', bytes_json (co_stdout c)), (''stderr'', bytes_json (co_stderr c))]"

definition output_of_json :: "json \<Rightarrow> captured_output option" where
  "output_of_json v =
     Option.bind (fields 2 [''stdout'', ''stderr''] v) (\<lambda>m.
     Option.bind (fld m ''stdout'' (as_list as_byte)) (\<lambda>so.
     Option.bind (fld m ''stderr'' (as_list as_byte)) (\<lambda>se. Some \<lparr>co_stdout = so, co_stderr = se\<rparr>)))"

lemma output_round [json_round]: "as_opt output_of_json (opt_json output_json x) = Some x"
  by (cases x) (simp_all add: as_opt_def opt_json_def output_json_def output_of_json_def fields_def fld_def
      json_round)

definition published_json :: "published \<Rightarrow> json" where
  "published_json p = JObj [(''record'', record_json (pub_record p)),
     (''output'', opt_json output_json (pub_output p)), (''change'', nat_json (pub_change p))]"

definition published_of_json :: "json \<Rightarrow> published option" where
  "published_of_json v =
     Option.bind (fields 3 [''record'', ''output'', ''change''] v) (\<lambda>m.
     Option.bind (fld m ''record'' record_of_json) (\<lambda>r.
     Option.bind (fld_opt m ''output'' output_of_json) (\<lambda>out.
     Option.bind (fld m ''change'' as_u64) (\<lambda>n.
     Some \<lparr>pub_record = r, pub_output = out, pub_change = n\<rparr>))))"

definition published_fits :: "published \<Rightarrow> bool" where
  "published_fits p \<longleftrightarrow> record_fits (pub_record p) \<and> pub_change p \<le> u64_max"

lemma published_round [json_round]: "published_fits p \<Longrightarrow> published_of_json (published_json p) = Some p"
  by (simp add: published_of_json_def published_json_def fields_def fld_def fld_opt_def json_round
      published_fits_def)

definition page_json :: "page \<Rightarrow> json" where
  "page_json p = JObj [(''epoch'', JStr (page_epoch p)), (''reset'', JBool (page_reset p)),
     (''high'', nat_json (page_high p)), (''next'', nat_json (page_next p)),
     (''complete'', JBool (page_complete p)), (''entries'', JArr (map published_json (page_entries p)))]"

definition page_of_json :: "json \<Rightarrow> page option" where
  "page_of_json v =
     Option.bind (fields 6 [''epoch'', ''reset'', ''high'', ''next'', ''complete'', ''entries''] v) (\<lambda>m.
     Option.bind (fld m ''epoch'' as_str) (\<lambda>e.
     Option.bind (fld m ''reset'' as_bool) (\<lambda>r.
     Option.bind (fld m ''high'' as_u64) (\<lambda>h.
     Option.bind (fld m ''next'' as_u64) (\<lambda>n.
     Option.bind (fld m ''complete'' as_bool) (\<lambda>c.
     Option.bind (fld m ''entries'' (as_list published_of_json)) (\<lambda>es.
     Some \<lparr>page_epoch = e, page_reset = r, page_high = h, page_next = n, page_complete = c,
           page_entries = es\<rparr>)))))))"

definition page_fits :: "page \<Rightarrow> bool" where
  "page_fits p \<longleftrightarrow> page_high p \<le> u64_max \<and> page_next p \<le> u64_max \<and>
     list_all published_fits (page_entries p)"

lemma page_roundtrip_fits:
  assumes "page_fits p"
  shows "page_of_json (page_json p) = Some p"
proof -
  have "as_list published_of_json (JArr (map published_json (page_entries p))) = Some (page_entries p)"
    using assms by (simp add: as_list_def page_fits_def list_all_iff collect_map json_round)
  with assms show ?thesis
    by (simp add: page_of_json_def page_json_def fields_def fld_def json_round page_fits_def)
qed

text \<open>A history page and everything inside it (signed records, facts, outputs) survives the
  trip to a paired machine: what the receiver decodes is what the sender built, as long as the
  numbers are the 64-bit and 32-bit integers the structs hold.\<close>

theorem page_roundtrip:
  assumes "page_fits p"
  shows "page_of_json (page_json p) = Some p"
  using assms by (rule page_roundtrip_fits)

end
