(* ===== verification/Clix_History.thy ===== *)
theory Clix_History
  imports Clix_Json Clix_Limits
begin

text \<open>
  \<open>src/history.rs\<close>, the signed history: certificates for admitted invocations, signed facts
  about them, the checks a record has to pass, what this machine publishes about its own jobs
  (\<open>refresh_owned\<close>), how it merges what paired machines relay (\<open>ingest\<close>), and the pages it
  serves.  SHA-256, Ed25519 and the JSON text encoding are third-party code: the fields of a
  \<open>crypto\<close>; \<open>crypto_ok\<close> states what their documentation promises.
\<close>

record crypto =
  cr_sha256 :: "bytes \<Rightarrow> bytes"
  cr_to_vec :: "json \<Rightarrow> bytes"
  cr_public :: "bytes \<Rightarrow> bytes"
  cr_key_ok :: "bytes \<Rightarrow> bool"
  cr_sign :: "bytes \<Rightarrow> bytes \<Rightarrow> bytes"
  cr_verify :: "bytes \<Rightarrow> bytes \<Rightarrow> bytes \<Rightarrow> bool"

definition crypto_ok :: "crypto \<Rightarrow> bool" where
  "crypto_ok cr \<longleftrightarrow>
     (\<forall>m. length (cr_sha256 cr m) = 32) \<and> inj (cr_to_vec cr) \<and>
     (\<forall>sk. length sk = 32 \<longrightarrow> length (cr_public cr sk) = 32 \<and> cr_key_ok cr (cr_public cr sk)) \<and>
     (\<forall>sk m. length sk = 32 \<longrightarrow>
        length (cr_sign cr sk m) = 64 \<and> cr_verify cr (cr_public cr sk) m (cr_sign cr sk m))"

definition PAGE_ROWS :: nat where "PAGE_ROWS = 16"
definition PAGE_BYTES :: nat where "PAGE_BYTES = 48 * 1024 * 1024"
definition STREAM_BYTES :: nat where "STREAM_BYTES = 4 * 1024 * 1024"

section \<open>Hashes and keys\<close>

definition str_bytes :: "string \<Rightarrow> bytes" where
  "str_bytes s = map (\<lambda>c. of_nat (of_char c)) s"

definition DOMAIN :: bytes where
  "DOMAIN = str_bytes ''Clix history v1'' @ [0]"

definition hash :: "crypto \<Rightarrow> bytes \<Rightarrow> string" where
  "hash cr bs = hex (cr_sha256 cr bs)"

definition hist_bytes :: "crypto \<Rightarrow> string \<Rightarrow> json \<Rightarrow> bytes" where
  "hist_bytes cr kind v = DOMAIN @ str_bytes kind @ [0] @ cr_to_vec cr v"

definition output_ref_of :: "crypto \<Rightarrow> bytes \<Rightarrow> output_ref" where
  "output_ref_of cr bs = \<lparr>or_bytes = length bs, or_sha256 = hash cr bs\<rparr>"

definition signing_key :: "store \<Rightarrow> bytes res" where
  "signing_key s = (if length (st_owner_sk s) = 32 then Inr (st_owner_sk s)
     else Inl (Protocol ''invalid local history identity''))"

definition public_key :: "crypto \<Rightarrow> store \<Rightarrow> bytes res" where
  "public_key cr s = rbind (signing_key s) (\<lambda>sk. Inr (cr_public cr sk))"

definition known_key :: "crypto \<Rightarrow> store \<Rightarrow> body_id \<Rightarrow> bytes res" where
  "known_key cr s name =
     (if name = st_body_name s then public_key cr s
      else ok_or (map_option p_owner_pk (find_peer s name))
             (Protocol ''history includes an author that is not explicitly paired''))"

definition verify :: "crypto \<Rightarrow> string \<Rightarrow> json \<Rightarrow> bytes \<Rightarrow> bytes \<Rightarrow> unit res" where
  "verify cr kind v sig key =
     (if length key \<noteq> 32 \<or> \<not> cr_key_ok cr key then Inl (Protocol ''invalid history public key'')
      else if length sig \<noteq> 64 then Inl (Protocol ''invalid history signature length'')
      else if \<not> cr_verify cr key (hist_bytes cr kind v) sig
      then Inl (Protocol ''history signature did not verify'')
      else Inr ())"

definition invocation_hash :: "crypto \<Rightarrow> certificate \<Rightarrow> string" where
  "invocation_hash cr c = hash cr (hist_bytes cr ''invocation'' (invocation_json (c_invocation c)))"

section \<open>Certificates\<close>

definition invocation_signer :: "crypto \<Rightarrow> store \<Rightarrow> invocation \<Rightarrow> bytes res" where
  "invocation_signer cr s i = (case i_legacy_observer i of
       Some observer \<Rightarrow>
         if observer = i_from i \<or> observer = i_body i then
           rbind (known_key cr s observer) (\<lambda>key.
           if (if observer = i_from i then i_origin_key i else i_runner_key i) \<noteq> key
           then Inl (Protocol ''legacy observer identity differs from its paired key'')
           else Inr key)
         else Inl (Protocol ''legacy observer was not a job participant'')
     | None \<Rightarrow>
         rbind (known_key cr s (i_from i)) (\<lambda>fk.
         if fk \<noteq> i_origin_key i then Inl (Protocol ''history identity differs from the paired key'')
         else rbind (known_key cr s (i_body i)) (\<lambda>bk.
         if bk \<noteq> i_runner_key i then Inl (Protocol ''history identity differs from the paired key'')
         else Inr (i_origin_key i))))"

definition validate_invocation :: "crypto \<Rightarrow> store \<Rightarrow> certificate \<Rightarrow> unit res" where
  "validate_invocation cr s c =
     (let i = c_invocation c in
      rbind (limits_invocation (i_id i) (i_argv i)) (\<lambda>_.
      rbind (case i_retry_of i of
          None \<Rightarrow> Inr ()
        | Some r \<Rightarrow> rbind (limits_identifier r) (\<lambda>_.
            if r = i_id i then Inl (Protocol ''a retry must have a new job ID'') else Inr ())) (\<lambda>_.
      rbind (invocation_signer cr s i) (\<lambda>signer.
      verify cr ''invocation'' (invocation_json i) (c_signature c) signer))))"

definition authorize_execution :: "crypto \<Rightarrow> store \<Rightarrow> peer \<Rightarrow> certificate \<Rightarrow> unit res" where
  "authorize_execution cr s peer c =
     rbind (validate_invocation cr s c) (\<lambda>_.
     let i = c_invocation c;
         relay = Inl (Protocol ''history relay is not execution authority'')
     in if i_legacy_observer i \<noteq> None \<or> i_from i \<noteq> p_name peer \<or> i_origin_key i \<noteq> p_owner_pk peer \<or>
           i_body i \<noteq> st_body_name s then relay
        else rbind (public_key cr s) (\<lambda>pk. if i_runner_key i \<noteq> pk then relay else Inr ()))"

definition next_change :: "history \<Rightarrow> (nat \<times> history) res" where
  "next_change h = (case checked_succ (hs_clock h) of
       None \<Rightarrow> Inl (Protocol ''history sequence exhausted'')
     | Some n \<Rightarrow> Inr (n, h\<lparr>hs_clock := n\<rparr>))"

definition blank_record :: "certificate \<Rightarrow> hrecord" where
  "blank_record c = \<lparr>rec_certificate = c, rec_origin = None, rec_runner = None\<rparr>"

text \<open>A new entry for a certificate, as admission and publication insert it.\<close>

definition open_entry :: "string \<Rightarrow> certificate \<Rightarrow> history \<Rightarrow> history res" where
  "open_entry key c h = rbind (next_change h) (\<lambda>(change, h').
     Inr (h'\<lparr>hs_entries := bt_insert key
       \<lparr>e_record = blank_record c, e_change = change, e_output = None\<rparr> (hs_entries h')\<rparr>))"

definition bind_admission :: "crypto \<Rightarrow> certificate \<Rightarrow> store \<Rightarrow> store res" where
  "bind_admission cr c s =
     (let key = invocation_hash cr c; i = i_id (c_invocation c) in
      rbind (case st_job_certificates s i of
          Some old \<Rightarrow> if old \<noteq> key then Inl (Protocol ''job ID is already bound to a different invocation'')
                     else Inr ()
        | None \<Rightarrow> if list_ex (\<lambda>j. j_id j = i) (st_jobs s)
                  then Inl (Protocol ''job ID belongs to an earlier unsigned admission'') else Inr ()) (\<lambda>_.
      rbind (if bt_get (hs_entries (st_history s)) key = None then open_entry key c (st_history s)
             else Inr (st_history s)) (\<lambda>h.
      Inr (s\<lparr>st_history := h, st_job_certificates := (st_job_certificates s)(i \<mapsto> key),
             st_retry_links := (case i_retry_of (c_invocation c) of None \<Rightarrow> st_retry_links s
               | Some old \<Rightarrow> (st_retry_links s)(i \<mapsto> old))\<rparr>))))"

definition matches_job :: "certificate \<Rightarrow> job \<Rightarrow> bool" where
  "matches_job c j \<longleftrightarrow> (let i = c_invocation c in
     i_id i = j_id j \<and> i_from i = j_from j \<and> i_body i = j_body j \<and> i_argv i = j_argv j)"

section \<open>Facts and records\<close>

definition digest_ok :: "output_ref \<Rightarrow> bool" where
  "digest_ok o' \<longleftrightarrow> or_bytes o' \<le> STREAM_BYTES \<and> length (or_sha256 o') = 64 \<and> list_all is_hex_char (or_sha256 o')"

definition origin_status :: "job_status \<Rightarrow> bool" where
  "origin_status st = (case st of Queued \<Rightarrow> True | WaitingBody \<Rightarrow> True | WaitingCapacity \<Rightarrow> True
     | Failed _ \<Rightarrow> True | _ \<Rightarrow> False)"

definition runner_status :: "job_status \<Rightarrow> bool" where
  "runner_status st = (case st of Queued \<Rightarrow> False | WaitingBody \<Rightarrow> False | WaitingCapacity \<Rightarrow> False | _ \<Rightarrow> True)"

definition fact_signer :: "crypto \<Rightarrow> store \<Rightarrow> invocation \<Rightarrow> fact \<Rightarrow> role \<Rightarrow> bytes res" where
  "fact_signer cr s i f r = (case r of
       Origin \<Rightarrow> if i_legacy_observer i \<noteq> None \<or> \<not> origin_status (f_status f) \<or>
                   or_bytes (f_stdout f) \<noteq> 0 \<or> or_bytes (f_stderr f) \<noteq> 0
                then Inl (Protocol ''origin cannot publish a runner outcome'')
                else Inr (i_origin_key i)
     | Runner \<Rightarrow> if i_legacy_observer i \<noteq> None \<or> \<not> runner_status (f_status f)
                then Inl (Protocol ''invalid runner fact'') else Inr (i_runner_key i)
     | LegacyObserver \<Rightarrow> rbind (ok_or (i_legacy_observer i) (Protocol ''missing legacy observer'')) (known_key cr s))"

definition validate_fact :: "crypto \<Rightarrow> store \<Rightarrow> certificate \<Rightarrow> signed_fact \<Rightarrow> role \<Rightarrow> unit res" where
  "validate_fact cr s c sd r =
     (let f = sf_fact sd in
      if f_role f \<noteq> r \<or> f_invocation f \<noteq> invocation_hash cr c \<or> f_revision f = 0
      then Inl (Protocol ''history fact is bound to a different invocation or role'')
      else if \<not> list_all digest_ok [f_stdout f, f_stderr f]
      then Inl (Protocol ''invalid history output digest or size'')
      else rbind (fact_signer cr s (c_invocation c) f r) (\<lambda>key.
           rbind (limits_status (f_status f)) (\<lambda>_.
           verify cr ''fact'' (fact_json f) (sf_signature sd) key)))"

definition validate_opt :: "crypto \<Rightarrow> store \<Rightarrow> certificate \<Rightarrow> signed_fact option \<Rightarrow> role \<Rightarrow> unit res" where
  "validate_opt cr s c f r = (case f of None \<Rightarrow> Inr () | Some sf \<Rightarrow> validate_fact cr s c sf r)"

definition validate_record :: "crypto \<Rightarrow> store \<Rightarrow> hrecord \<Rightarrow> unit res" where
  "validate_record cr s r =
     (let c = rec_certificate r in
      rbind (validate_invocation cr s c) (\<lambda>_.
      if i_legacy_observer (c_invocation c) \<noteq> None then
        if rec_runner r \<noteq> None
        then Inl (Protocol ''legacy history is an observation, not a runner signature'')
        else validate_opt cr s c (rec_origin r) LegacyObserver
      else rbind (validate_opt cr s c (rec_origin r) Origin) (\<lambda>_.
           validate_opt cr s c (rec_runner r) Runner)))"

definition certificate_for :: "crypto \<Rightarrow> store \<Rightarrow> job \<Rightarrow> bool \<Rightarrow> certificate res" where
  "certificate_for cr s j legacy =
     (let key = (\<lambda>name. if legacy then (case known_key cr s name of Inr k \<Rightarrow> Inr k | Inl _ \<Rightarrow> Inr [])
                        else known_key cr s name) in
      rbind (key (j_from j)) (\<lambda>ok.
      rbind (key (j_body j)) (\<lambda>rk.
      let i = \<lparr>i_id = j_id j, i_from = j_from j, i_origin_key = ok, i_body = j_body j, i_runner_key = rk,
               i_argv = j_argv j, i_retry_of = st_retry_links s (j_id j),
               i_legacy_observer = (if legacy then Some (st_body_name s) else None)\<rparr>
      in rbind (signing_key s) (\<lambda>sk.
         Inr \<lparr>c_invocation = i, c_signature = cr_sign cr sk (hist_bytes cr ''invocation'' (invocation_json i))\<rparr>))))"

section \<open>Publishing owned facts\<close>

text \<open>\<open>trust\<close>: the digest of the paired keys, in name order.\<close>

definition trust_hash :: "crypto \<Rightarrow> store \<Rightarrow> string" where
  "trust_hash cr s = hash cr (cr_to_vec cr (JArr (map (\<lambda>p. JArr [JStr (p_name p), bytes_json (p_owner_pk p)])
     (sort_key p_name (st_peers s)))))"

text \<open>The start of \<open>refresh_owned\<close>: label records of an older release, name the history, and
  restart every neighbour's scan when the paired keys changed.\<close>

definition refresh_start :: "crypto \<Rightarrow> string res \<Rightarrow> store \<Rightarrow> store res" where
  "refresh_start cr nid s =
     (let s1 = (if \<not> hs_initialized (st_history s)
                then s\<lparr>st_legacy_jobs := st_legacy_jobs s \<union> set (map j_id (st_jobs s))\<rparr> else s)
      in rbind (if hs_epoch (st_history s1) = []
                then rbind nid (\<lambda>e. Inr (s1\<lparr>st_history := (st_history s1)\<lparr>hs_epoch := e\<rparr>\<rparr>)) else Inr s1) (\<lambda>s2.
      let trust = trust_hash cr s2
      in Inr (if trust \<noteq> hs_trust (st_history s2)
              then s2\<lparr>st_history := (st_history s2)\<lparr>hs_peers := Map.empty, hs_trust := trust\<rparr>\<rparr> else s2)))"

text \<open>The previous state's row of a job: the last one, as collecting into a map keeps it.\<close>

definition old_job :: "job list \<Rightarrow> string \<Rightarrow> job option" where
  "old_job olds i = List.find (\<lambda>j. j_id j = i) (rev olds)"

definition changed_jobs :: "bool \<Rightarrow> job list \<Rightarrow> store \<Rightarrow> job list" where
  "changed_jobs legacy olds s = filter (\<lambda>j. legacy \<or> old_job olds (j_id j) \<noteq> Some j) (st_jobs s)"

text \<open>The history key of a job; a job without one gets a certificate and an entry.\<close>

definition admitted_key :: "crypto \<Rightarrow> job list \<Rightarrow> job \<Rightarrow> store \<Rightarrow> (string \<times> store) res" where
  "admitted_key cr olds j s = (case st_job_certificates s (j_id j) of
       Some key \<Rightarrow> Inr (key, s)
     | None \<Rightarrow>
         let legacy = j_id j \<in> st_legacy_jobs s \<or> j_from j \<noteq> st_body_name s \<or> old_job olds (j_id j) \<noteq> None;
             s1 = (if legacy then s\<lparr>st_legacy_jobs := insert (j_id j) (st_legacy_jobs s)\<rparr> else s)
         in rbind (certificate_for cr s1 j legacy) (\<lambda>c.
            let key = invocation_hash cr c
            in rbind (open_entry key c (st_history s1)) (\<lambda>h.
               Inr (key, s1\<lparr>st_history := h,
                            st_job_certificates := (st_job_certificates s1)(j_id j \<mapsto> key)\<rparr>))))"

text \<open>Which fact this machine owns about the job, and the status it states.\<close>

definition own_role :: "store \<Rightarrow> hrecord \<Rightarrow> job \<Rightarrow> (role \<times> signed_fact option \<times> job_status) option" where
  "own_role s r j =
     (if i_legacy_observer (c_invocation (rec_certificate r)) \<noteq> None
      then Some (LegacyObserver, rec_origin r, j_status j)
      else if j_body j = st_body_name s \<and> \<not> is_queued (j_status j)
      then Some (Runner, rec_runner r, j_status j)
      else if j_from j = st_body_name s \<and> origin_status (j_status j)
      then Some (Origin, rec_origin r, j_status j)
      else None)"

definition own_outputs :: "crypto \<Rightarrow> store \<Rightarrow> role \<Rightarrow> signed_fact option \<Rightarrow> job \<Rightarrow> (output_ref \<times> output_ref) res" where
  "own_outputs cr s r previous j =
     (if r = Origin then Inr (output_ref_of cr [], output_ref_of cr [])
      else if j_id j \<in> st_output_pruned s then
        (case previous of Some f \<Rightarrow> Inr (f_stdout (sf_fact f), f_stderr (sf_fact f))
         | None \<Rightarrow> Inl (Protocol ''pruned job is missing its output digests''))
      else Inr (output_ref_of cr (j_stdout j), output_ref_of cr (j_stderr j)))"

definition output_matches :: "crypto \<Rightarrow> captured_output \<Rightarrow> fact \<Rightarrow> bool" where
  "output_matches cr o' f \<longleftrightarrow> output_ref_of cr (co_stdout o') = f_stdout f \<and>
     output_ref_of cr (co_stderr o') = f_stderr f"

definition set_fact :: "role \<Rightarrow> signed_fact \<Rightarrow> hrecord \<Rightarrow> hrecord" where
  "set_fact r f rc = (if r = Runner then rc\<lparr>rec_runner := Some f\<rparr> else rc\<lparr>rec_origin := Some f\<rparr>)"

text \<open>The entry after its new fact: a payload the job itself holds, or that the selected fact no
  longer describes, is dropped.\<close>

definition publish_entry :: "crypto \<Rightarrow> store \<Rightarrow> job \<Rightarrow> role \<Rightarrow> signed_fact \<Rightarrow> nat \<Rightarrow> entry \<Rightarrow> entry" where
  "publish_entry cr s j r f change e =
     (let e' = e\<lparr>e_record := set_fact r f (e_record e), e_change := change\<rparr>
      in case selected (e_record e') of
           None \<Rightarrow> e'
         | Some sel \<Rightarrow>
             let local_has_output = j_id j \<notin> st_output_pruned s \<and>
                   output_ref_of cr (j_stdout j) = f_stdout (sf_fact sel) \<and>
                   output_ref_of cr (j_stderr j) = f_stderr (sf_fact sel)
             in if local_has_output \<or>
                   (case e_output e' of Some out \<Rightarrow> \<not> output_matches cr out (sf_fact sel) | None \<Rightarrow> False)
                then e'\<lparr>e_output := None\<rparr> else e')"

definition next_revision :: "signed_fact option \<Rightarrow> nat res" where
  "next_revision previous = (case previous of
       None \<Rightarrow> Inr 1
     | Some p \<Rightarrow> ok_or (checked_succ (f_revision (sf_fact p))) (Protocol ''fact revision exhausted''))"

definition same_fact :: "signed_fact option \<Rightarrow> job_status \<Rightarrow> output_ref \<Rightarrow> output_ref \<Rightarrow> bool" where
  "same_fact previous st so se = (case previous of None \<Rightarrow> False
     | Some p \<Rightarrow> f_status (sf_fact p) = st \<and> f_stdout (sf_fact p) = so \<and> f_stderr (sf_fact p) = se)"

definition settled :: "signed_fact option \<Rightarrow> bool" where
  "settled previous = (case previous of None \<Rightarrow> False | Some p \<Rightarrow> is_terminal (f_status (sf_fact p)))"

definition publish_fact :: "crypto \<Rightarrow> string \<Rightarrow> job \<Rightarrow> role \<Rightarrow> signed_fact option \<Rightarrow> job_status \<Rightarrow> store \<Rightarrow> store res" where
  "publish_fact cr key j r previous st s =
     rbind (own_outputs cr s r previous j) (\<lambda>(so, se).
     if same_fact previous st so se then Inr s
     else if settled previous then Inr s
     else rbind (next_revision previous) (\<lambda>revision.
     let f = \<lparr>f_invocation = key, f_role = r, f_revision = revision, f_status = st, f_stdout = so, f_stderr = se\<rparr>
     in rbind (signing_key s) (\<lambda>sk.
        let sf = \<lparr>sf_fact = f, sf_signature = cr_sign cr sk (hist_bytes cr ''fact'' (fact_json f))\<rparr>
        in rbind (next_change (st_history s)) (\<lambda>(change, h).
           Inr (s\<lparr>st_history := h\<lparr>hs_entries := bt_adjust key (publish_entry cr s j r sf change) (hs_entries h)\<rparr>\<rparr>)))))"

text \<open>The body of the loop over the changed jobs.\<close>

definition publish_job :: "crypto \<Rightarrow> job list \<Rightarrow> job \<Rightarrow> store \<Rightarrow> store res" where
  "publish_job cr olds j s =
     (if j_from j \<noteq> st_body_name s \<and> j_body j \<noteq> st_body_name s then Inr s
      else rbind (admitted_key cr olds j s) (\<lambda>(key, s1).
      rbind (ok_or (bt_get (hs_entries (st_history s1)) key) (Protocol ''admitted job lost its certificate'')) (\<lambda>e.
      let r = e_record e
      in if \<not> matches_job (rec_certificate r) j then Inl (Protocol ''admitted job invocation changed'')
         else case own_role s1 r j of
                None \<Rightarrow> Inr s1
              | Some (rl, previous, st) \<Rightarrow> publish_fact cr key j rl previous st s1)))"

definition refresh_owned :: "crypto \<Rightarrow> string res \<Rightarrow> job list \<Rightarrow> store \<Rightarrow> store res" where
  "refresh_owned cr nid olds s =
     rbind (refresh_start cr nid s) (\<lambda>s1.
     rbind (fold_r (publish_job cr olds) (changed_jobs (\<not> hs_initialized (st_history s)) olds s1) s1) (\<lambda>s2.
     Inr (s2\<lparr>st_history := (st_history s2)\<lparr>hs_initialized := True\<rparr>\<rparr>)))"

section \<open>Merging relayed records\<close>

definition merge_fact :: "signed_fact option \<Rightarrow> signed_fact option \<Rightarrow> (bool \<times> signed_fact option) res" where
  "merge_fact existing incoming = (case incoming of
       None \<Rightarrow> Inr (False, existing)
     | Some inc \<Rightarrow> (case existing of
         None \<Rightarrow> Inr (True, Some inc)
       | Some cur \<Rightarrow>
           if f_revision (sf_fact inc) < f_revision (sf_fact cur) then Inr (False, existing)
           else if f_revision (sf_fact inc) = f_revision (sf_fact cur) then
             (if inc \<noteq> cur then Inl (Protocol ''conflicting history facts at the same revision'')
              else Inr (False, existing))
           else if is_terminal (f_status (sf_fact cur))
           then Inl (Protocol ''history cannot rewrite a terminal fact'')
           else Inr (True, Some inc)))"

text \<open>Whether an admitted job of this machine already holds the payload of the selected fact.\<close>

definition holds_output :: "crypto \<Rightarrow> store \<Rightarrow> string \<Rightarrow> hrecord \<Rightarrow> signed_fact \<Rightarrow> job \<Rightarrow> bool" where
  "holds_output cr s key r f j \<longleftrightarrow>
     st_job_certificates s (j_id j) = Some key \<and> matches_job (rec_certificate r) j \<and>
     j_id j \<notin> st_output_pruned s \<and>
     output_ref_of cr (j_stdout j) = f_stdout (sf_fact f) \<and> output_ref_of cr (j_stderr j) = f_stderr (sf_fact f)"

definition local_output :: "crypto \<Rightarrow> store \<Rightarrow> string \<Rightarrow> hrecord \<Rightarrow> bool" where
  "local_output cr s key r = (case selected r of None \<Rightarrow> False
     | Some f \<Rightarrow> list_ex (holds_output cr s key r f) (st_jobs s))"

text \<open>The payload the entry keeps, and whether that is a change worth publishing.\<close>

definition merge_output :: "crypto \<Rightarrow> store \<Rightarrow> string \<Rightarrow> hrecord \<Rightarrow> captured_output option
    \<Rightarrow> captured_output option \<Rightarrow> captured_output option \<times> bool" where
  "merge_output cr s key r kept offered =
     (if local_output cr s key r then (None, False)
      else case selected r of
        None \<Rightarrow> (kept, False)
      | Some sel \<Rightarrow>
          let (o1, c1) = (case (if key \<in> st_history_pruned s then None else offered) of
                 Some out \<Rightarrow> if output_matches cr out (sf_fact sel) \<and> kept \<noteq> Some out
                            then (Some out, True) else (kept, False)
               | None \<Rightarrow> (kept, False))
          in case o1 of
               Some out \<Rightarrow> if \<not> output_matches cr out (sf_fact sel) then (None, True) else (o1, c1)
             | None \<Rightarrow> (o1, c1))"

definition output_checked :: "crypto \<Rightarrow> published \<Rightarrow> unit res" where
  "output_checked cr p = (case pub_output p of
       None \<Rightarrow> Inr ()
     | Some out \<Rightarrow> rbind (ok_or (selected (pub_record p)) (Protocol ''output has no history fact'')) (\<lambda>f.
         if output_matches cr out (sf_fact f) then Inr ()
         else Inl (Protocol ''history output differs from its signed digest'')))"

definition ingest :: "crypto \<Rightarrow> published \<Rightarrow> store \<Rightarrow> (bool \<times> store) res" where
  "ingest cr p s =
     rbind (validate_record cr s (pub_record p)) (\<lambda>_.
     rbind (output_checked cr p) (\<lambda>_.
     let key = invocation_hash cr (rec_certificate (pub_record p));
         found = bt_get (hs_entries (st_history s)) key;
         e = (case found of Some e \<Rightarrow> e
              | None \<Rightarrow> \<lparr>e_record = blank_record (rec_certificate (pub_record p)), e_change = 0, e_output = None\<rparr>);
         r = e_record e
     in if rec_certificate r \<noteq> rec_certificate (pub_record p)
        then Inl (Protocol ''different certificate for the same invocation'')
        else rbind (merge_fact (rec_origin r) (rec_origin (pub_record p))) (\<lambda>(c1, og).
        rbind (merge_fact (rec_runner r) (rec_runner (pub_record p))) (\<lambda>(c2, rn).
        let r' = r\<lparr>rec_origin := og, rec_runner := rn\<rparr>;
            (out, c3) = merge_output cr s key r' (e_output e) (pub_output p)
        in if c1 \<or> c2 \<or> c3 \<or> found = None then
             rbind (next_change (st_history s)) (\<lambda>(change, h).
             Inr (True, s\<lparr>st_history := h\<lparr>hs_entries := bt_insert key
                \<lparr>e_record = r', e_change = change, e_output = out\<rparr> (hs_entries h)\<rparr>\<rparr>))
           else Inr (False, s)))))"

section \<open>Payloads\<close>

definition drop_pruned :: "string set \<Rightarrow> (string, entry) btree \<Rightarrow> (string, entry) btree" where
  "drop_pruned pruned es = map (\<lambda>(k, e). (k, if k \<in> pruned then e\<lparr>e_output := None\<rparr> else e)) es"

text \<open>One step of the loop of \<open>normalize_output\<close> over the jobs: the job, the entries and the
  output receipts after it.\<close>

definition normalize_job :: "(string \<rightharpoonup> string) \<Rightarrow> string set \<Rightarrow> job \<Rightarrow> (string, entry) btree \<times> string set
    \<Rightarrow> job \<times> (string, entry) btree \<times> string set" where
  "normalize_job certs pruned j st = (case st of (es, op) \<Rightarrow>
     (case certs (j_id j) of
        None \<Rightarrow> (j, es, op)
      | Some key \<Rightarrow>
        (case bt_get es key of
           None \<Rightarrow> (j, es, op)
         | Some e \<Rightarrow>
           if \<not> matches_job (rec_certificate (e_record e)) j then (j, es, op)
           else if key \<in> pruned then
             (j\<lparr>j_stdout := [], j_stderr := []\<rparr>, es,
              if (case selected (e_record e) of None \<Rightarrow> False
                  | Some f \<Rightarrow> or_bytes (f_stdout (sf_fact f)) \<noteq> 0 \<or> or_bytes (f_stderr (sf_fact f)) \<noteq> 0)
              then insert (j_id j) op else op)
           else if j_id j \<notin> op \<and>
             (case e_output e of Some out \<Rightarrow> co_stdout out = j_stdout j \<and> co_stderr out = j_stderr j
              | None \<Rightarrow> False)
           then (j, bt_adjust key (\<lambda>x. x\<lparr>e_output := None\<rparr>) es, op)
           else (j, es, op))))"

fun normalize_jobs :: "(string \<rightharpoonup> string) \<Rightarrow> string set \<Rightarrow> job list \<Rightarrow> (string, entry) btree \<times> string set
    \<Rightarrow> job list \<times> (string, entry) btree \<times> string set" where
  "normalize_jobs certs pruned [] (es, op) = ([], es, op)"
| "normalize_jobs certs pruned (j # js) (es, op) =
     (case normalize_job certs pruned j (es, op) of (j', es', op') \<Rightarrow>
      case normalize_jobs certs pruned js (es', op') of (js', es'', op'') \<Rightarrow> (j' # js', es'', op''))"

definition normalize_output :: "store \<Rightarrow> store" where
  "normalize_output s =
     (case normalize_jobs (st_job_certificates s) (st_history_pruned s) (st_jobs s)
             (drop_pruned (st_history_pruned s) (hs_entries (st_history s)), st_output_pruned s) of
        (js, es, op) \<Rightarrow>
          s\<lparr>st_jobs := js, st_history := (st_history s)\<lparr>hs_entries := es\<rparr>, st_output_pruned := op\<rparr>)"

definition for_job :: "store \<Rightarrow> job \<Rightarrow> entry option" where
  "for_job s j =
     Option.bind (st_job_certificates s (j_id j)) (\<lambda>key.
     Option.bind (bt_get (hs_entries (st_history s)) key) (\<lambda>e.
     let c = rec_certificate (e_record e)
     in if i_legacy_observer (c_invocation c) = None \<and> matches_job c j then Some e else None))"

text \<open>The bytes a view or a page may show: never of a pruned entry, and only bytes whose digest
  the selected fact states.\<close>

definition selected_output :: "crypto \<Rightarrow> store \<Rightarrow> entry \<Rightarrow> job option \<Rightarrow> (bytes \<times> bytes) option" where
  "selected_output cr s e local =
     Option.bind (selected (e_record e)) (\<lambda>sel.
     let key = invocation_hash cr (rec_certificate (e_record e))
     in if key \<in> st_history_pruned s then None
        else let from_job = Option.bind local (\<lambda>j.
                   if holds_output cr s key (e_record e) sel j then Some (j_stdout j, j_stderr j) else None)
        in case from_job of
             Some b \<Rightarrow> Some b
           | None \<Rightarrow> Option.bind (e_output e) (\<lambda>out.
               if output_matches cr out (sf_fact sel) then Some (co_stdout out, co_stderr out) else None))"

definition export_entry :: "crypto \<Rightarrow> store \<Rightarrow> entry \<Rightarrow> published" where
  "export_entry cr s e =
     (let local = find_job s (i_id (c_invocation (rec_certificate (e_record e))))
      in \<lparr>pub_record = e_record e,
          pub_output = map_option (\<lambda>(so, se). \<lparr>co_stdout = so, co_stderr = se\<rparr>) (selected_output cr s e local),
          pub_change = e_change e\<rparr>)"

section \<open>Pages\<close>

definition page_bytes :: "crypto \<Rightarrow> published \<Rightarrow> nat" where
  "page_bytes cr p = length (cr_to_vec cr (published_json p))"

text \<open>The loop over the matching entries: rows taken so far, their size, the next cursor.\<close>

fun page_rows :: "crypto \<Rightarrow> store \<Rightarrow> entry list \<Rightarrow> published list \<Rightarrow> nat \<Rightarrow> nat \<Rightarrow> (published list \<times> nat) res" where
  "page_rows cr s [] acc used next = Inr (acc, next)"
| "page_rows cr s (e # es) acc used next =
     (let p = export_entry cr s e; n = page_bytes cr p
      in if PAGE_BYTES < n then Inl (Protocol ''one history record exceeds the page budget'')
         else if length acc = PAGE_ROWS \<or> PAGE_BYTES < used + n then Inr (acc, next)
         else page_rows cr s es (acc @ [p]) (used + n) (e_change e))"

definition page_window :: "store \<Rightarrow> nat \<Rightarrow> nat \<Rightarrow> entry list" where
  "page_window s after high = sort_key e_change
     (filter (\<lambda>e. after < e_change e \<and> e_change e \<le> high) (bt_values (hs_entries (st_history s))))"

definition page :: "crypto \<Rightarrow> store \<Rightarrow> string \<Rightarrow> nat \<Rightarrow> nat option \<Rightarrow> page res" where
  "page cr s epoch after0 high0 =
     (let clock = hs_clock (st_history s);
          reset = epoch \<noteq> hs_epoch (st_history s) \<or> clock < after0;
          after = (if reset then 0 else after0);
          high = (if reset then clock else min (case high0 of None \<Rightarrow> clock | Some h \<Rightarrow> h) clock)
      in if high < after then Inl (Protocol ''history cursor is beyond the scan boundary'')
         else let es = page_window s after high
         in rbind (page_rows cr s es [] 0 after) (\<lambda>(rows, next).
            let complete = length rows = length es
            in Inr \<lparr>page_epoch = hs_epoch (st_history s), page_reset = reset, page_high = high,
                    page_next = (if complete then high else next), page_complete = complete,
                    page_entries = rows\<rparr>))"

section \<open>Replies about one admission\<close>

definition execution_reply :: "crypto \<Rightarrow> store \<Rightarrow> certificate \<Rightarrow> json res" where
  "execution_reply cr s c =
     (let key = invocation_hash cr c
      in case find_job s (i_id (c_invocation c)) of
           None \<Rightarrow> Inr (JObj [(''job'', JNull)])
         | Some j \<Rightarrow>
             if \<not> matches_job c j \<or> st_job_certificates s (j_id j) \<noteq> Some key
             then Inl (Protocol ''job ID is bound to a different admitted invocation'')
             else rbind (ok_or (bt_get (hs_entries (st_history s)) key) (Protocol ''admission is missing history''))
               (\<lambda>e. Inr (JObj [(''job'', job_json j), (''history'', published_json (export_entry cr s e))])))"

text \<open>The origin takes the runner's answer: the record is merged, and an unsettled job takes the
  signed status and the payload (unless pruned here).\<close>

definition runner_job :: "invocation \<Rightarrow> signed_fact \<Rightarrow> captured_output \<Rightarrow> job" where
  "runner_job i sd out = \<lparr>j_id = i_id i, j_body = i_body i, j_argv = i_argv i, j_from = i_from i,
     j_status = f_status (sf_fact sd), j_stdout = co_stdout out, j_stderr = co_stderr out\<rparr>"

definition accept_runner_reply :: "crypto \<Rightarrow> body_id \<Rightarrow> published \<Rightarrow> store \<Rightarrow> (job option \<times> store) res" where
  "accept_runner_reply cr peer p s =
     rbind (validate_record cr s (pub_record p)) (\<lambda>_.
     let c = rec_certificate (pub_record p); i = c_invocation c; key = invocation_hash cr c
     in if i_legacy_observer i \<noteq> None \<or> i_body i \<noteq> peer
        then Inl (Protocol ''response has no modern runner authority'')
        else rbind (ok_or (rec_runner (pub_record p)) (Protocol ''runner response is missing its signed result''))
          (\<lambda>sd. case find_job s (i_id i) of
             None \<Rightarrow> Inr (None, s)
           | Some j \<Rightarrow>
             if st_job_certificates s (i_id i) \<noteq> Some key \<or> \<not> matches_job c j
             then Inl (Protocol ''runner result belongs to a different admission'')
             else rbind (ingest cr p s) (\<lambda>(_, s1).
               if is_terminal (j_status j) then Inr (None, s1)
               else let pruned = key \<in> st_history_pruned s1 \<or> i_id i \<in> st_output_pruned s1;
                        retained = (if pruned then None else pub_output p);
                        out = (case retained of Some out \<Rightarrow> out | None \<Rightarrow> \<lparr>co_stdout = [], co_stderr = []\<rparr>);
                        s2 = (if retained = None \<and>
                                 (or_bytes (f_stdout (sf_fact sd)) \<noteq> 0 \<or> or_bytes (f_stderr (sf_fact sd)) \<noteq> 0)
                              then s1\<lparr>st_output_pruned := insert (i_id i) (st_output_pruned s1)\<rparr> else s1);
                        incoming = runner_job i sd out
                    in Inr (Some incoming,
                         s2\<lparr>st_jobs := update_first (\<lambda>x. j_id x = i_id i) (\<lambda>_. incoming) (st_jobs s2)\<rparr>))))"

definition authors_known :: "crypto \<Rightarrow> store \<Rightarrow> certificate \<Rightarrow> bool" where
  "authors_known cr s c = (let i = c_invocation c; ok = (\<lambda>n. case known_key cr s n of Inr _ \<Rightarrow> True | Inl _ \<Rightarrow> False)
     in case i_legacy_observer i of Some observer \<Rightarrow> ok observer | None \<Rightarrow> ok (i_from i) \<and> ok (i_body i))"

section \<open>Diagnostics\<close>

definition peer_diagnostics :: "store \<Rightarrow> peer \<Rightarrow> json" where
  "peer_diagnostics s p =
     (let g = hs_peers (st_history s) (p_name p)
      in JObj [(''body'', JStr (p_name p)),
        (''complete'', JBool (case g of None \<Rightarrow> False | Some g' \<Rightarrow> pg_complete g' \<and> \<not> pg_unknown_authors g' \<and>
            pg_error g' = None \<and> pg_last_contact g' \<noteq> None)),
        (''last_contact'', opt_json nat_json (Option.bind g pg_last_contact)),
        (''error'', opt_json JStr (Option.bind g pg_error)),
        (''unknown_authors'', JBool (case g of None \<Rightarrow> False | Some g' \<Rightarrow> pg_unknown_authors g'))])"

definition diagnostics :: "store \<Rightarrow> json" where
  "diagnostics s =
     (let es = hs_entries (st_history s)
      in JObj [(''peers'', JArr (map (peer_diagnostics s) (st_peers s))),
        (''records'', nat_json (length es)),
        (''local_sequence'', nat_json (hs_clock (st_history s))),
        (''unpublished_local_records'', nat_json (length (filter (\<lambda>j. case st_job_certificates s (j_id j) of
            Some key \<Rightarrow> bt_get es key = None | None \<Rightarrow> True) (st_jobs s)))),
        (''legacy_records'', nat_json (length (filter (\<lambda>e.
            i_legacy_observer (c_invocation (rec_certificate (e_record e))) \<noteq> None) (bt_values es))))])"

end
