(* ===== verification/Clix_Ledger.thy ===== *)
theory Clix_Ledger
  imports Clix_History
begin

text \<open>
  The invariant of the signed history and what every operation on it keeps: entries are filed
  under the hash of their certificate, each has its own place in the change sequence, and signed
  facts are only ever added or superseded by a higher revision of an unsettled one.
\<close>

section \<open>Well-formed histories and their order\<close>

definition hist_wf :: "crypto \<Rightarrow> history \<Rightarrow> bool" where
  "hist_wf cr h \<longleftrightarrow> bt_ok (hs_entries h) \<and>
     (\<forall>k e. bt_get (hs_entries h) k = Some e \<longrightarrow>
        k = invocation_hash cr (rec_certificate (e_record e)) \<and> 0 < e_change e \<and> e_change e \<le> hs_clock h) \<and>
     (\<forall>k e k' e'. bt_get (hs_entries h) k = Some e \<longrightarrow> bt_get (hs_entries h) k' = Some e' \<longrightarrow>
        e_change e = e_change e' \<longrightarrow> k = k')"

definition fact_le :: "signed_fact option \<Rightarrow> signed_fact option \<Rightarrow> bool" where
  "fact_le a b \<longleftrightarrow> (case a of None \<Rightarrow> True
     | Some x \<Rightarrow> b = a \<or> (\<exists>y. b = Some y \<and> f_revision (sf_fact x) < f_revision (sf_fact y) \<and>
                          \<not> is_terminal (f_status (sf_fact x))))"

definition record_le :: "hrecord \<Rightarrow> hrecord \<Rightarrow> bool" where
  "record_le a b \<longleftrightarrow> rec_certificate a = rec_certificate b \<and>
     fact_le (rec_origin a) (rec_origin b) \<and> fact_le (rec_runner a) (rec_runner b)"

definition hist_le :: "history \<Rightarrow> history \<Rightarrow> bool" where
  "hist_le h h' \<longleftrightarrow> hs_clock h \<le> hs_clock h' \<and>
     (\<forall>k e. bt_get (hs_entries h) k = Some e \<longrightarrow>
        (\<exists>e'. bt_get (hs_entries h') k = Some e' \<and> record_le (e_record e) (e_record e') \<and>
              e_change e \<le> e_change e'))"

lemma fact_le_refl [simp]: "fact_le a a"
  by (auto simp: fact_le_def split: option.splits)

lemma fact_le_None [simp]: "fact_le None b"
  by (simp add: fact_le_def)

lemma fact_le_trans: "fact_le a b \<Longrightarrow> fact_le b c \<Longrightarrow> fact_le a c"
  by (cases a; cases b) (auto simp: fact_le_def)

lemma fact_le_terminal:
  "fact_le (Some x) b \<Longrightarrow> is_terminal (f_status (sf_fact x)) \<Longrightarrow> b = Some x"
  by (auto simp: fact_le_def)

lemma record_le_refl [simp]: "record_le r r"
  by (simp add: record_le_def)

lemma record_le_trans: "record_le a b \<Longrightarrow> record_le b c \<Longrightarrow> record_le a c"
  by (auto simp: record_le_def intro: fact_le_trans)

lemma hist_le_refl [simp]: "hist_le h h"
  by (auto simp: hist_le_def)

lemma hist_le_trans: "hist_le a b \<Longrightarrow> hist_le b c \<Longrightarrow> hist_le a c"
  unfolding hist_le_def by (meson le_trans record_le_trans)

text \<open>
  The contract of the operations on an append-only state: they keep its invariant and only move
  it upwards.  What a sequence of them does follows once, for every loop that runs them.
\<close>

locale growing =
  fixes wf :: "'s \<Rightarrow> bool" and le :: "'s \<Rightarrow> 's \<Rightarrow> bool"
  assumes le_refl: "le s s" and le_trans: "le a b \<Longrightarrow> le b c \<Longrightarrow> le a c"
begin

lemma fold_grows:
  assumes "fold_r f xs s = Inr t" and "wf s"
    and "\<And>x s s'. x \<in> set xs \<Longrightarrow> wf s \<Longrightarrow> f x s = Inr s' \<Longrightarrow> wf s' \<and> le s s'"
  shows "wf t \<and> le s t"
proof -
  have "wf t \<and> le s t" if "wf s" "le s s"
    using fold_r_invariant [where P = "\<lambda>u. wf u \<and> le s u", OF assms(1)] that assms(3) le_trans by blast
  then show ?thesis using assms(2) le_refl by blast
qed

lemma then_grows: "wf b \<and> le a b \<Longrightarrow> wf c \<and> le b c \<Longrightarrow> wf c \<and> le a c"
  using le_trans by blast

end

definition ledger_wf :: "crypto \<Rightarrow> store \<Rightarrow> bool" where
  "ledger_wf cr s \<longleftrightarrow> hist_wf cr (st_history s)"

definition ledger_le :: "store \<Rightarrow> store \<Rightarrow> bool" where
  "ledger_le s s' \<longleftrightarrow> hist_le (st_history s) (st_history s')"

interpretation ledger: growing "ledger_wf cr" ledger_le for cr
  by unfold_locales (auto simp: ledger_le_def intro: hist_le_trans)

section \<open>Changes to one entry\<close>

lemma bt_adjust_insert:
  "bt_ok m \<Longrightarrow> bt_get m k = Some v \<Longrightarrow> bt_adjust k f m = bt_insert k (f v) m"
proof (induction m)
  case (Cons x m)
  obtain k' v' where x: "x = (k', v')" by fastforce
  show ?case
  proof (cases "k = k'")
    case True
    with Cons.prems x have "k \<notin> fst ` set m" by (auto simp: bt_ok_def)
    then have "bt_adjust k f m = m" by (force simp: bt_adjust_def intro: map_idI)
    with True Cons.prems x show ?thesis by (simp add: bt_adjust_def)
  next
    case False
    with Cons.prems x have get: "bt_get m k = Some v" "bt_ok m" by (auto simp: bt_ok_def)
    then have "(k, v) \<in> set m" by (simp add: bt_get_Some_set)
    with Cons.prems x False have "k' < k" by (force simp: bt_ok_def)
    with False x Cons.IH [OF get(2,1)] show ?thesis by (auto simp: bt_adjust_def)
  qed
qed simp

text \<open>The one way an entry enters or changes: at the next place of the change sequence.\<close>

definition file_entry :: "string \<Rightarrow> entry \<Rightarrow> history \<Rightarrow> history" where
  "file_entry k e h = h\<lparr>hs_clock := e_change e, hs_entries := bt_insert k e (hs_entries h)\<rparr>"

lemma hist_wf_file:
  assumes h: "hist_wf cr h" and k: "k = invocation_hash cr (rec_certificate (e_record e))"
    and change: "e_change e = Suc (hs_clock h)"
  shows "hist_wf cr (file_entry k e h)"
proof -
  have ok: "bt_ok (hs_entries h)" using h by (simp add: hist_wf_def)
  have old: "e_change x \<le> hs_clock h" if "bt_get (hs_entries h) k' = Some x" for k' x
    using h that by (auto simp: hist_wf_def)
  show ?thesis
    using h change k old
    by (auto simp: hist_wf_def file_entry_def bt.get_ins [OF ok] bt_ok_insert le_SucI split: if_splits)
      (metis Suc_n_not_le_n)+
qed

lemma hist_le_file:
  assumes h: "hist_wf cr h" and change: "e_change e = Suc (hs_clock h)"
    and old: "\<And>x. bt_get (hs_entries h) k = Some x \<Longrightarrow> record_le (e_record x) (e_record e)"
  shows "hist_le h (file_entry k e h)"
proof -
  have ok: "bt_ok (hs_entries h)" using h by (simp add: hist_wf_def)
  have "e_change x \<le> hs_clock h" if "bt_get (hs_entries h) k' = Some x" for k' x
    using h that by (auto simp: hist_wf_def)
  with change old show ?thesis
    by (auto simp: hist_le_def file_entry_def bt.get_ins [OF ok] le_SucI)
qed

lemma next_change_ok [result_simps]:
  "next_change h = Inr (n, h') \<longleftrightarrow> hs_clock h < u64_max \<and> n = Suc (hs_clock h) \<and> h' = h\<lparr>hs_clock := n\<rparr>"
  by (auto simp: next_change_def split: option.splits)

lemma open_entry_file:
  "open_entry key c h = Inr h' \<Longrightarrow>
     h' = file_entry key \<lparr>e_record = blank_record c, e_change = Suc (hs_clock h), e_output = None\<rparr> h"
  by (auto simp: open_entry_def result_simps file_entry_def)

lemma open_entry_grows:
  assumes "open_entry (invocation_hash cr c) c h = Inr h'" and "hist_wf cr h"
    and "bt_get (hs_entries h) (invocation_hash cr c) = None"
  shows "hist_wf cr h' \<and> hist_le h h'"
  unfolding open_entry_file [OF assms(1)]
  using assms(2,3) by (auto intro!: hist_wf_file hist_le_file simp: blank_record_def)

text \<open>Changes that keep every record and its place: clearing payloads, renaming the epoch.\<close>

lemma hist_same_records:
  assumes "hist_wf cr h" and "hs_clock h' = hs_clock h" and "bt_ok (hs_entries h')"
    and "\<And>k. map_option (\<lambda>e. (e_record e, e_change e)) (bt_get (hs_entries h') k) =
           map_option (\<lambda>e. (e_record e, e_change e)) (bt_get (hs_entries h) k)"
  shows "hist_wf cr h' \<and> hist_le h h'"
proof -
  have bwd: "\<exists>e. bt_get (hs_entries h) k = Some e \<and> e_record e = e_record e' \<and> e_change e = e_change e'"
    if "bt_get (hs_entries h') k = Some e'" for k e'
    using assms(4) [of k] that by (cases "bt_get (hs_entries h) k") auto
  have fwd: "\<exists>e'. bt_get (hs_entries h') k = Some e' \<and> e_record e' = e_record e \<and> e_change e' = e_change e"
    if "bt_get (hs_entries h) k = Some e" for k e
    using assms(4) [of k] that by (cases "bt_get (hs_entries h') k") auto
  have wf: "\<And>k e. bt_get (hs_entries h) k = Some e \<Longrightarrow>
        k = invocation_hash cr (rec_certificate (e_record e)) \<and> 0 < e_change e \<and> e_change e \<le> hs_clock h"
    "\<And>k e k' e'. bt_get (hs_entries h) k = Some e \<Longrightarrow> bt_get (hs_entries h) k' = Some e' \<Longrightarrow>
        e_change e = e_change e' \<Longrightarrow> k = k'"
    using assms(1) by (auto simp: hist_wf_def)
  have "hist_wf cr h'"
    unfolding hist_wf_def
  proof (intro conjI allI impI)
    fix k e assume "bt_get (hs_entries h') k = Some e"
    from bwd [OF this] show "k = invocation_hash cr (rec_certificate (e_record e))" "0 < e_change e"
      "e_change e \<le> hs_clock h'"
      using wf(1) assms(2) by metis+
  next
    fix k e k' e'
    assume "bt_get (hs_entries h') k = Some e" "bt_get (hs_entries h') k' = Some e'" "e_change e = e_change e'"
    then show "k = k'" using wf(2) bwd by metis
  qed (rule assms(3))
  moreover have "hist_le h h'"
    using assms(2) fwd unfolding hist_le_def by (metis order_refl record_le_refl)
  ultimately show ?thesis ..
qed

section \<open>Admission\<close>

lemma bind_admission_grows:
  assumes "bind_admission cr c s = Inr s'" and "ledger_wf cr s"
  shows "ledger_wf cr s' \<and> ledger_le s s'"
proof -
  from assms(1) obtain h where h: "st_history s' = h"
    and step: "(if bt_get (hs_entries (st_history s)) (invocation_hash cr c) = None
       then open_entry (invocation_hash cr c) c (st_history s) else Inr (st_history s)) = Inr h"
    by (auto simp: bind_admission_def Let_def result_simps)
  from step show ?thesis
    using assms(2) open_entry_grows [of cr c "st_history s" h]
    by (auto simp: ledger_wf_def ledger_le_def h split: if_splits)
qed

text \<open>What admission leaves alone, and what it leaves behind.\<close>

lemma bind_admission_frame:
  assumes "bind_admission cr c s = Inr s'"
  shows "st_jobs s' = st_jobs s" "st_grants s' = st_grants s" "st_requests s' = st_requests s"
    "st_peers s' = st_peers s" "st_body_name s' = st_body_name s" "st_owner_sk s' = st_owner_sk s"
    "st_write_error s' = st_write_error s" "st_request_receipts s' = st_request_receipts s"
    "st_job_certificates s' = (st_job_certificates s)(i_id (c_invocation c) \<mapsto> invocation_hash cr c)"
  using assms by (auto simp: bind_admission_def Let_def result_simps)

text \<open>Admission binds a job identifier to one signed invocation: it succeeds only if the
  identifier is unbound and unused, or bound to this very invocation; afterwards the identifier
  is bound to it and the history holds an entry for it.  Jobs, grants and requests do not change.\<close>

theorem admission_binds_once:
  assumes "bind_admission cr c s = Inr s'" and "ledger_wf cr s"
  shows "(case st_job_certificates s (i_id (c_invocation c)) of
            Some old \<Rightarrow> old = invocation_hash cr c
          | None \<Rightarrow> i_id (c_invocation c) \<notin> j_id ` set (st_jobs s)) \<and>
    st_job_certificates s' (i_id (c_invocation c)) = Some (invocation_hash cr c) \<and>
    bt_get (hs_entries (st_history s')) (invocation_hash cr c) \<noteq> None \<and>
    st_jobs s' = st_jobs s \<and> st_grants s' = st_grants s \<and> st_requests s' = st_requests s"
proof -
  let ?k = "invocation_hash cr c"
  from assms(1) obtain h where h: "st_history s' = h"
    and step: "(if bt_get (hs_entries (st_history s)) ?k = None
       then open_entry ?k c (st_history s) else Inr (st_history s)) = Inr h"
    and bound: "case st_job_certificates s (i_id (c_invocation c)) of
            Some old \<Rightarrow> old = ?k | None \<Rightarrow> \<not> list_ex (\<lambda>j. j_id j = i_id (c_invocation c)) (st_jobs s)"
    by (auto simp: bind_admission_def Let_def result_simps split: option.splits if_splits)
  have "bt_ok (hs_entries (st_history s))" using assms(2) by (simp add: ledger_wf_def hist_wf_def)
  with step have "bt_get (hs_entries h) ?k \<noteq> None"
    by (auto simp: file_entry_def bt.get_ins dest!: open_entry_file split: if_splits)
  with bound h bind_admission_frame [OF assms(1)] show ?thesis
    by (auto simp: list_ex_iff split: option.splits)
qed

section \<open>Publication\<close>

lemma publish_fact_history:
  assumes "publish_fact cr key j r previous st s = Inr s'"
  obtains (same) "s' = s"
  | (new) so se revision sk f where "own_outputs cr s r previous j = Inr (so, se)"
      "\<not> settled previous" "next_revision previous = Inr revision" "signing_key s = Inr sk"
      "f = \<lparr>f_invocation = key, f_role = r, f_revision = revision, f_status = st, f_stdout = so, f_stderr = se\<rparr>"
      "s' = s\<lparr>st_history := (st_history s)\<lparr>hs_clock := Suc (hs_clock (st_history s)),
         hs_entries := bt_adjust key (publish_entry cr s j r
           \<lparr>sf_fact = f, sf_signature = cr_sign cr sk (hist_bytes cr ''fact'' (fact_json f))\<rparr>
           (Suc (hs_clock (st_history s)))) (hs_entries (st_history s))\<rparr>\<rparr>"
proof -
  from assms obtain so se where out: "own_outputs cr s r previous j = Inr (so, se)"
    by (auto simp: publish_fact_def result_simps)
  show thesis
  proof (cases "same_fact previous st so se \<or> settled previous")
    case True
    with assms out same show thesis by (auto simp: publish_fact_def split: if_splits)
  next
    case False
    with assms out show thesis
      by (auto simp: publish_fact_def Let_def result_simps intro!: new)
  qed
qed

lemma publish_entry_record [simp]:
  "e_record (publish_entry cr s j r f n e) = set_fact r f (e_record e)"
  "e_change (publish_entry cr s j r f n e) = n"
  by (auto simp: publish_entry_def Let_def split: option.splits)

lemma set_fact_le:
  assumes "fact_le (if r = Runner then rec_runner rc else rec_origin rc) (Some f)"
  shows "record_le rc (set_fact r f rc)"
  using assms by (auto simp: record_le_def set_fact_def)

lemma next_revision_le:
  assumes "next_revision previous = Inr n" and "\<not> settled previous" and "f_revision (sf_fact f) = n"
  shows "fact_le previous (Some f)"
  using assms by (auto simp: next_revision_def settled_def fact_le_def result_simps split: option.splits)

lemma own_role_previous:
  "own_role s rc j = Some (r, previous, st) \<Longrightarrow>
     previous = (if r = Runner then rec_runner rc else rec_origin rc) \<and> st = j_status j"
  by (auto simp: own_role_def split: if_splits)

lemma publish_fact_grows:
  assumes pub: "publish_fact cr key j r previous st s = Inr s'" and wf: "ledger_wf cr s"
    and e: "bt_get (hs_entries (st_history s)) key = Some e"
    and prev: "previous = (if r = Runner then rec_runner (e_record e) else rec_origin (e_record e))"
  shows "ledger_wf cr s' \<and> ledger_le s s'"
  using pub
proof (cases rule: publish_fact_history)
  case same
  with wf show ?thesis by (simp add: ledger_le_def)
next
  case (new so se revision sk f)
  let ?sf = "\<lparr>sf_fact = f, sf_signature = cr_sign cr sk (hist_bytes cr ''fact'' (fact_json f))\<rparr>"
  let ?h = "st_history s"
  let ?e = "publish_entry cr s j r ?sf (Suc (hs_clock ?h)) e"
  have h: "hist_wf cr ?h" using wf by (simp add: ledger_wf_def)
  then have "bt_ok (hs_entries ?h)" and k: "key = invocation_hash cr (rec_certificate (e_record e))"
    using e by (auto simp: hist_wf_def)
  with new(6) e have s': "st_history s' = file_entry key ?e ?h"
    by (simp add: file_entry_def bt_adjust_insert)
  have "fact_le previous (Some ?sf)"
    by (rule next_revision_le [OF new(3,2)]) (simp add: new(5))
  then have "record_le (e_record e) (e_record ?e)" by (simp add: set_fact_le flip: prev)
  moreover have "rec_certificate (e_record ?e) = rec_certificate (e_record e)" by (simp add: set_fact_def)
  ultimately show ?thesis
    unfolding ledger_wf_def ledger_le_def s'
    using h k e by (auto intro!: hist_wf_file hist_le_file)
qed

section \<open>Distinct keys for distinct invocations\<close>

text \<open>The invocations a machine handles: those it has filed and those its own jobs would get.  The
  append-only result below needs SHA-256 to tell these apart (\<open>collision_free\<close>), and every filed
  invocation this machine published to be bound to its job (\<open>published_bound\<close>).\<close>

definition own_invocation :: "body_id \<Rightarrow> invocation \<Rightarrow> bool" where
  "own_invocation me i \<longleftrightarrow> (case i_legacy_observer i of Some b \<Rightarrow> b = me | None \<Rightarrow> i_from i = me)"

definition filed_certificates :: "history \<Rightarrow> certificate set" where
  "filed_certificates h = set (map (\<lambda>(k, e). rec_certificate (e_record e)) (hs_entries h))"

definition published_bound :: "store \<Rightarrow> bool" where
  "published_bound s \<longleftrightarrow> (\<forall>c \<in> filed_certificates (st_history s).
     own_invocation (st_body_name s) (c_invocation c) \<longrightarrow> st_job_certificates s (i_id (c_invocation c)) \<noteq> None)"

definition fresh_certificates :: "crypto \<Rightarrow> store \<Rightarrow> certificate list" where
  "fresh_certificates cr s = concat (map (\<lambda>j. concat (map (\<lambda>legacy.
     case certificate_for cr s j legacy of Inr c \<Rightarrow> [c] | Inl _ \<Rightarrow> []) [True, False])) (st_jobs s))"

definition known_certificates :: "crypto \<Rightarrow> store \<Rightarrow> certificate set" where
  "known_certificates cr s = filed_certificates (st_history s) \<union> set (fresh_certificates cr s)"

definition collision_free :: "crypto \<Rightarrow> certificate set \<Rightarrow> bool" where
  "collision_free cr C \<longleftrightarrow> (\<forall>c \<in> C. \<forall>c' \<in> C. invocation_hash cr c = invocation_hash cr c' \<longrightarrow>
     c_invocation c = c_invocation c')"

lemma fresh_certificate_known:
  "j \<in> set (st_jobs s) \<Longrightarrow> certificate_for cr s j legacy = Inr c \<Longrightarrow> c \<in> known_certificates cr s"
  by (cases legacy) (force simp: known_certificates_def fresh_certificates_def)+

lemma known_key_cong:
  assumes "st_body_name s' = st_body_name s" "st_peers s' = st_peers s" "st_owner_sk s' = st_owner_sk s"
  shows "known_key cr s' name = known_key cr s name" "signing_key s' = signing_key s"
    "public_key cr s' = public_key cr s"
  using assms by (simp_all add: known_key_def public_key_def signing_key_def find_peer_def)

lemma certificate_for_cong:
  assumes "st_body_name s' = st_body_name s" "st_peers s' = st_peers s" "st_owner_sk s' = st_owner_sk s"
    "st_retry_links s' = st_retry_links s"
  shows "certificate_for cr s' j legacy = certificate_for cr s j legacy"
  using assms by (simp add: certificate_for_def known_key_cong [OF assms(1-3)] Let_def)

lemma certificate_for_invocation:
  assumes "certificate_for cr s j legacy = Inr c"
  shows "i_id (c_invocation c) = j_id j" "i_from (c_invocation c) = j_from j"
    "i_body (c_invocation c) = j_body j" "i_argv (c_invocation c) = j_argv j"
    "i_legacy_observer (c_invocation c) = (if legacy then Some (st_body_name s) else None)"
  using assms by (auto simp: certificate_for_def Let_def result_simps)

text \<open>What publishing may touch.\<close>

definition publish_frame :: "store \<Rightarrow> store" where
  "publish_frame s = s\<lparr>st_history := default_history, st_job_certificates := Map.empty, st_legacy_jobs := {}\<rparr>"

lemma publish_frame_sel:
  "st_body_name (publish_frame s) = st_body_name s"
  "st_peers (publish_frame s) = st_peers s"
  "st_owner_sk (publish_frame s) = st_owner_sk s"
  "st_retry_links (publish_frame s) = st_retry_links s"
  "st_jobs (publish_frame s) = st_jobs s"
  "st_grants (publish_frame s) = st_grants s"
  "st_requests (publish_frame s) = st_requests s"
  "st_output_pruned (publish_frame s) = st_output_pruned s"
  "st_history_pruned (publish_frame s) = st_history_pruned s"
  "st_write_error (publish_frame s) = st_write_error s"
  "st_request_receipts (publish_frame s) = st_request_receipts s"
  "st_outbound_requests (publish_frame s) = st_outbound_requests s"
  by (simp_all add: publish_frame_def)

lemma publish_frameD:
  assumes "publish_frame s' = publish_frame s"
  shows "st_body_name s' = st_body_name s"
    "st_peers s' = st_peers s"
    "st_owner_sk s' = st_owner_sk s"
    "st_retry_links s' = st_retry_links s"
    "st_jobs s' = st_jobs s"
    "st_grants s' = st_grants s"
    "st_requests s' = st_requests s"
    "st_output_pruned s' = st_output_pruned s"
    "st_history_pruned s' = st_history_pruned s"
    "st_write_error s' = st_write_error s"
    "st_request_receipts s' = st_request_receipts s"
    "st_outbound_requests s' = st_outbound_requests s"
  using assms by (metis publish_frame_sel)+

lemma admitted_key_frame:
  assumes "admitted_key cr olds j s = Inr (key, s')"
  shows "publish_frame s' = publish_frame s"
  using assms by (auto simp: admitted_key_def publish_frame_def Let_def result_simps split: option.splits)

lemma publish_fact_frame:
  assumes "publish_fact cr key j r previous st s = Inr s'"
  shows "publish_frame s' = publish_frame s" "st_job_certificates s' = st_job_certificates s"
proof -
  have "publish_frame s' = publish_frame s \<and> st_job_certificates s' = st_job_certificates s"
    using assms by (cases rule: publish_fact_history) (simp_all add: publish_frame_def)
  then show "publish_frame s' = publish_frame s" "st_job_certificates s' = st_job_certificates s"
    by simp_all
qed

lemma publish_job_steps:
  assumes "publish_job cr olds j s = Inr s'"
  obtains (foreign) "s' = s" "j_from j \<noteq> st_body_name s" "j_body j \<noteq> st_body_name s"
  | (own) key s1 e where "admitted_key cr olds j s = Inr (key, s1)"
      "bt_get (hs_entries (st_history s1)) key = Some e" "matches_job (rec_certificate (e_record e)) j"
      "case own_role s1 (e_record e) j of None \<Rightarrow> s' = s1
       | Some (rl, previous, st) \<Rightarrow> publish_fact cr key j rl previous st s1 = Inr s'"
proof (cases "j_from j \<noteq> st_body_name s \<and> j_body j \<noteq> st_body_name s")
  case True
  with assms foreign show thesis by (simp add: publish_job_def)
next
  case False
  with assms obtain key s1 where a: "admitted_key cr olds j s = Inr (key, s1)"
    by (auto simp: publish_job_def rbind_Inr_iff)
  with False assms obtain e where "bt_get (hs_entries (st_history s1)) key = Some e"
    by (auto simp: publish_job_def rbind_Inr_iff ok_or_Inr_iff)
  with False a assms show thesis
    by (intro own [of key s1 e]) (auto simp: publish_job_def Let_def split: if_splits option.splits)
qed

lemma publish_job_frame:
  assumes "publish_job cr olds j s = Inr s'"
  shows "publish_frame s' = publish_frame s"
  using assms
proof (cases rule: publish_job_steps)
  case (own key s1 e)
  then show ?thesis
    by (auto split: option.splits dest!: admitted_key_frame publish_fact_frame(1))
qed simp

lemma filed_get: "bt_get (hs_entries h) k = Some e \<Longrightarrow> rec_certificate (e_record e) \<in> filed_certificates h"
  by (force simp: filed_certificates_def dest: bt_get_Some_set)

lemma set_bt_insert_subset: "set (bt_insert k v m) \<subseteq> insert (k, v) (set m)"
  by (induction k v m rule: bt_insert.induct) auto

lemma filed_file_entry:
  "filed_certificates (file_entry k e h) \<subseteq> insert (rec_certificate (e_record e)) (filed_certificates h)"
  using set_bt_insert_subset [of k e "hs_entries h"] by (force simp: filed_certificates_def file_entry_def)

lemma filed_adjust:
  assumes "hs_entries h' = bt_adjust k f (hs_entries h)"
    and "\<And>e. rec_certificate (e_record (f e)) = rec_certificate (e_record e)"
  shows "filed_certificates h' = filed_certificates h"
proof -
  have "map (\<lambda>(k, e). rec_certificate (e_record e)) (bt_adjust k f m) =
      map (\<lambda>(k, e). rec_certificate (e_record e)) m" for m
    using assms(2) by (induction m) (auto simp: bt_adjust_def)
  then show ?thesis by (simp only: filed_certificates_def assms(1))
qed

lemma fresh_certificates_cong:
  assumes "publish_frame s' = publish_frame s"
  shows "fresh_certificates cr s' = fresh_certificates cr s"
  using publish_frameD [OF assms] certificate_for_cong [of s' s] by (simp add: fresh_certificates_def)

definition publishing :: "crypto \<Rightarrow> certificate set \<Rightarrow> store \<Rightarrow> bool" where
  "publishing cr C s \<longleftrightarrow> ledger_wf cr s \<and> published_bound s \<and> known_certificates cr s \<subseteq> C"

interpretation publication: growing "publishing cr C" ledger_le for cr C
  by unfold_locales (auto simp: ledger.le_refl intro: ledger.le_trans)

lemma admitted_key_grows:
  assumes adm: "admitted_key cr olds j s = Inr (key, s')" and inv: "publishing cr C s"
    and C: "collision_free cr C" and j: "j \<in> set (st_jobs s)"
  shows "publishing cr C s' \<and> ledger_le s s'"
proof (cases "st_job_certificates s (j_id j)")
  case (Some k)
  with adm inv show ?thesis by (auto simp: admitted_key_def ledger_le_def)
next
  case None
  define legacy where "legacy \<longleftrightarrow> j_id j \<in> st_legacy_jobs s \<or> j_from j \<noteq> st_body_name s \<or> old_job olds (j_id j) \<noteq> None"
  define s1 where "s1 = (if legacy then s\<lparr>st_legacy_jobs := insert (j_id j) (st_legacy_jobs s)\<rparr> else s)"
  from adm None obtain c h where c: "certificate_for cr s1 j legacy = Inr c" and key: "key = invocation_hash cr c"
    and h: "open_entry key c (st_history s1) = Inr h"
    and s': "s' = s1\<lparr>st_history := h, st_job_certificates := (st_job_certificates s1)(j_id j \<mapsto> key)\<rparr>"
    unfolding admitted_key_def legacy_def [symmetric] Let_def s1_def [symmetric]
    by (auto simp: result_simps)
  have s1: "st_history s1 = st_history s" "st_job_certificates s1 = st_job_certificates s"
    "st_body_name s1 = st_body_name s" "certificate_for cr s1 j legacy = certificate_for cr s j legacy"
    using certificate_for_cong [of s1 s] by (simp_all add: s1_def)
  have own: "own_invocation (st_body_name s) (c_invocation c)" "i_id (c_invocation c) = j_id j"
    using certificate_for_invocation [OF c] by (auto simp: own_invocation_def legacy_def s1)
  have known: "c \<in> C"
    using fresh_certificate_known [OF j, of cr legacy c] c s1 inv by (auto simp: publishing_def)
  have fresh: "bt_get (hs_entries (st_history s)) key = None"
  proof (rule ccontr)
    assume "bt_get (hs_entries (st_history s)) key \<noteq> None"
    then obtain e where e: "bt_get (hs_entries (st_history s)) key = Some e" by auto
    then have "key = invocation_hash cr (rec_certificate (e_record e))"
      using inv by (auto simp: publishing_def ledger_wf_def hist_wf_def)
    moreover have filed: "rec_certificate (e_record e) \<in> filed_certificates (st_history s)"
      using e by (rule filed_get)
    then have "rec_certificate (e_record e) \<in> C" using inv by (auto simp: publishing_def known_certificates_def)
    ultimately have same: "c_invocation (rec_certificate (e_record e)) = c_invocation c"
      using C known key unfolding collision_free_def by metis
    have "published_bound s" using inv by (simp add: publishing_def)
    with filed own same have "st_job_certificates s (j_id j) \<noteq> None"
      unfolding published_bound_def by metis
    with None show False by simp
  qed
  have hist: "hist_wf cr h \<and> hist_le (st_history s) h"
    using open_entry_grows [of cr c "st_history s" h] h fresh inv
    by (simp add: key s1 publishing_def ledger_wf_def)
  have filed: "filed_certificates h \<subseteq> insert c (filed_certificates (st_history s))"
    unfolding open_entry_file [OF h] s1 using filed_file_entry by (force simp: blank_record_def)
  have "known_certificates cr s' \<subseteq> C"
    using filed known inv fresh_certificates_cong [OF admitted_key_frame [OF adm], of cr]
    by (auto simp: known_certificates_def publishing_def s')
  moreover have "published_bound s'"
    using filed own inv by (auto simp: published_bound_def s' s1 publishing_def)
  ultimately show ?thesis using hist by (auto simp: publishing_def ledger_wf_def ledger_le_def s')
qed

lemma publish_job_grows:
  assumes pub: "publish_job cr olds j s = Inr s'" and inv: "publishing cr C s"
    and C: "collision_free cr C" and j: "j \<in> set (st_jobs s)"
  shows "publishing cr C s' \<and> ledger_le s s'"
  using pub
proof (cases rule: publish_job_steps)
  case foreign
  with inv show ?thesis by (simp add: ledger_le_def)
next
  case (own key s1 e)
  have adm: "publishing cr C s1 \<and> ledger_le s s1" using admitted_key_grows [OF own(1) inv C j] .
  show ?thesis
  proof (cases "own_role s1 (e_record e) j")
    case None
    with own adm show ?thesis by simp
  next
    case (Some rps)
    then obtain rl previous st where role: "own_role s1 (e_record e) j = Some (rl, previous, st)"
      by (cases rps) auto
    with own have pf: "publish_fact cr key j rl previous st s1 = Inr s'" by simp
    have grows: "ledger_wf cr s' \<and> ledger_le s1 s'"
      using publish_fact_grows [OF pf _ own(2)] own_role_previous [OF role] adm by (auto simp: publishing_def)
    have filed: "filed_certificates (st_history s') = filed_certificates (st_history s1)"
      using pf
    proof (cases rule: publish_fact_history)
      case (new so se revision sk f)
      show ?thesis by (rule filed_adjust, simp add: new(6), simp add: set_fact_def)
    qed simp
    have "publishing cr C s'"
      using adm grows filed publish_fact_frame [OF pf] publish_frameD(1) [OF publish_fact_frame(1) [OF pf]]
        fresh_certificates_cong [OF publish_fact_frame(1) [OF pf], of cr]
      by (simp add: publishing_def published_bound_def known_certificates_def)
    with adm grows show ?thesis using ledger.le_trans by blast
  qed
qed

text \<open>Well-formedness alone needs no assumption about the hash.\<close>

lemma admitted_key_wf:
  assumes "admitted_key cr olds j s = Inr (key, s')" and "ledger_wf cr s"
  shows "ledger_wf cr s'"
  using assms
  by (auto simp: admitted_key_def Let_def result_simps ledger_wf_def blank_record_def
      split: option.splits dest!: open_entry_file intro!: hist_wf_file)

lemma publish_job_wf:
  assumes "publish_job cr olds j s = Inr s'" and "ledger_wf cr s"
  shows "ledger_wf cr s'"
  using assms(1)
proof (cases rule: publish_job_steps)
  case foreign
  with assms(2) show ?thesis by simp
next
  case (own key s1 e)
  then have s1: "ledger_wf cr s1" using assms(2) admitted_key_wf by blast
  with own show ?thesis
    using publish_fact_grows own_role_previous by (fastforce split: option.splits)
qed

lemma refresh_start_frame:
  assumes "refresh_start cr nid s = Inr s'"
  shows "publish_frame s' = publish_frame s" "st_job_certificates s' = st_job_certificates s"
    "hs_entries (st_history s') = hs_entries (st_history s)" "hs_clock (st_history s') = hs_clock (st_history s)"
  using assms by (auto simp: refresh_start_def Let_def result_simps publish_frame_def split: if_splits)

lemma hist_same_entries:
  assumes "hs_entries h' = hs_entries h" and "hs_clock h' = hs_clock h"
  shows "hist_wf cr h' = hist_wf cr h" "hist_le h h'" "filed_certificates h' = filed_certificates h"
  using assms by (auto simp: hist_wf_def hist_le_def filed_certificates_def)

lemma refresh_steps:
  assumes "refresh_owned cr nid olds s = Inr s'"
  obtains s1 s2 where "refresh_start cr nid s = Inr s1"
    "fold_r (publish_job cr olds) (changed_jobs (\<not> hs_initialized (st_history s)) olds s1) s1 = Inr s2"
    "s' = s2\<lparr>st_history := (st_history s2)\<lparr>hs_initialized := True\<rparr>\<rparr>"
  using assms by (auto simp: refresh_owned_def result_simps)

lemma refresh_owned_frame:
  assumes "refresh_owned cr nid olds s = Inr s'"
  shows "publish_frame s' = publish_frame s"
  using assms
proof (rule refresh_steps)
  fix s1 s2
  assume 1: "refresh_start cr nid s = Inr s1"
    and 2: "fold_r (publish_job cr olds) (changed_jobs (\<not> hs_initialized (st_history s)) olds s1) s1 = Inr s2"
    and 3: "s' = s2\<lparr>st_history := (st_history s2)\<lparr>hs_initialized := True\<rparr>\<rparr>"
  have "publish_frame s2 = publish_frame s1"
    by (rule fold_r_invariant [OF 2]) (simp_all add: publish_job_frame)
  moreover have "publish_frame s' = publish_frame s2" by (simp add: 3 publish_frame_def)
  ultimately show ?thesis using refresh_start_frame [OF 1] by simp
qed

lemma refresh_owned_wf:
  assumes "refresh_owned cr nid olds s = Inr s'" and "ledger_wf cr s"
  shows "ledger_wf cr s'"
  using assms(1)
proof (rule refresh_steps)
  fix s1 s2
  assume 1: "refresh_start cr nid s = Inr s1"
    and 2: "fold_r (publish_job cr olds) (changed_jobs (\<not> hs_initialized (st_history s)) olds s1) s1 = Inr s2"
    and 3: "s' = s2\<lparr>st_history := (st_history s2)\<lparr>hs_initialized := True\<rparr>\<rparr>"
  have "ledger_wf cr s1"
    using assms(2) hist_same_entries(1) [OF refresh_start_frame(3,4) [OF 1]] by (simp add: ledger_wf_def)
  then have "ledger_wf cr s2"
    by (rule fold_r_invariant [OF 2]) (rule publish_job_wf)
  then show ?thesis
    using hist_same_entries(1) [of "st_history s'" "st_history s2" cr] by (simp add: ledger_wf_def 3)
qed

lemma refresh_owned_grows:
  assumes "refresh_owned cr nid olds s = Inr s'"
    and "ledger_wf cr s" and "published_bound s" and "collision_free cr (known_certificates cr s)"
  shows "ledger_wf cr s' \<and> published_bound s' \<and> ledger_le s s' \<and> publish_frame s' = publish_frame s"
  using assms(1)
proof (rule refresh_steps)
  fix s1 s2
  assume 1: "refresh_start cr nid s = Inr s1"
    and 2: "fold_r (publish_job cr olds) (changed_jobs (\<not> hs_initialized (st_history s)) olds s1) s1 = Inr s2"
    and 3: "s' = s2\<lparr>st_history := (st_history s2)\<lparr>hs_initialized := True\<rparr>\<rparr>"
  let ?C = "known_certificates cr s"
  note f1 = refresh_start_frame [OF 1]
  have s1: "publishing cr ?C s1"
    using assms(2,3) f1 hist_same_entries [OF f1(3,4)] publish_frameD(1) [OF f1(1)]
      fresh_certificates_cong [OF f1(1), of cr]
    by (simp add: publishing_def ledger_wf_def published_bound_def known_certificates_def)
  have P: "publishing cr ?C u \<and> st_jobs u = st_jobs s1 \<and> ledger_le s1 u"
    if "u = s2" for u
    unfolding that
  proof (rule fold_r_invariant [OF 2, where P = "\<lambda>u. publishing cr ?C u \<and> st_jobs u = st_jobs s1 \<and> ledger_le s1 u"])
    fix j u u'
    assume j: "j \<in> set (changed_jobs (\<not> hs_initialized (st_history s)) olds s1)"
      and u: "publishing cr ?C u \<and> st_jobs u = st_jobs s1 \<and> ledger_le s1 u" and step: "publish_job cr olds j u = Inr u'"
    from j u have "j \<in> set (st_jobs u)" by (auto simp: changed_jobs_def)
    with publish_job_grows [OF step _ assms(4)] u publish_frameD(5) [OF publish_job_frame [OF step]]
    show "publishing cr ?C u' \<and> st_jobs u' = st_jobs s1 \<and> ledger_le s1 u'"
      using ledger.le_trans by auto
  qed (simp add: s1 ledger.le_refl)
  have s': "hs_entries (st_history s') = hs_entries (st_history s2)" "hs_clock (st_history s') = hs_clock (st_history s2)"
    by (simp_all add: 3)
  have "ledger_le s s'"
    using P [OF refl] hist_same_entries(2) [OF f1(3,4)] hist_same_entries(2) [OF s'] hist_le_trans
    unfolding ledger_le_def by blast
  moreover have "ledger_wf cr s' \<and> published_bound s'"
    using P [OF refl] hist_same_entries [OF s'] by (simp add: publishing_def ledger_wf_def published_bound_def 3)
  ultimately show ?thesis using refresh_owned_frame [OF assms(1)] by simp
qed

text \<open>Publishing is append-only: when this machine signs facts about its changed jobs, every
  record it had stays filed under the same certificate, no settled fact changes, an unsettled fact
  is only replaced by one of a higher revision, and the change sequence only grows.  Nothing but
  the history, its bindings and the labels of old records changes.\<close>

theorem publication_append_only:
  assumes "refresh_owned cr nid olds s = Inr s'"
    and "ledger_wf cr s" and "published_bound s" and "collision_free cr (known_certificates cr s)"
  shows "ledger_wf cr s' \<and> published_bound s' \<and> ledger_le s s' \<and> publish_frame s' = publish_frame s"
  using refresh_owned_grows [OF assms] .

section \<open>Normalising payloads\<close>

definition marks :: "(string, entry) btree \<Rightarrow> (string \<times> hrecord \<times> nat) list" where
  "marks es = map (\<lambda>(k, e). (k, e_record e, e_change e)) es"

text \<open>A job without its payload: what pruning and normalising never change.\<close>

definition job_core :: "job \<Rightarrow> job" where
  "job_core j = j\<lparr>j_stdout := [], j_stderr := []\<rparr>"

lemma job_coreD:
  assumes "job_core j = job_core j'"
  shows "j_id j = j_id j'" "j_status j = j_status j'" "j_from j = j_from j'" "j_body j = j_body j'"
    "j_argv j = j_argv j'"
  using assms by (cases j; cases j'; simp add: job_core_def)+

lemma marks_adjust:
  "(\<And>e. e_record (f e) = e_record e \<and> e_change (f e) = e_change e) \<Longrightarrow> marks (bt_adjust k f es) = marks es"
  by (auto simp: marks_def bt_adjust_def)

lemma marks_keys: "marks es = marks es' \<Longrightarrow> map fst es = map fst es'"
  by (drule arg_cong [where f = "map fst"]) (simp add: marks_def comp_def case_prod_beta)

lemma marks_get:
  "marks es = marks es' \<Longrightarrow> map_option (\<lambda>e. (e_record e, e_change e)) (bt_get es k) =
     map_option (\<lambda>e. (e_record e, e_change e)) (bt_get es' k)"
proof (induction es arbitrary: es')
  case (Cons x es)
  then obtain y es'' where es': "es' = y # es''" by (cases es') (auto simp: marks_def)
  with Cons show ?case by (cases x; cases y) (auto simp: marks_def)
qed (simp add: marks_def)

lemma hist_same_marks:
  assumes "hist_wf cr h" and "hs_clock h' = hs_clock h" and "marks (hs_entries h') = marks (hs_entries h)"
  shows "hist_wf cr h' \<and> hist_le h h'"
proof (rule hist_same_records [OF assms(1,2)])
  have "bt_ok (hs_entries h)" using assms(1) by (simp add: hist_wf_def)
  then show "bt_ok (hs_entries h')" by (simp add: bt_ok_def marks_keys [OF assms(3)])
qed (rule marks_get [OF assms(3)])

lemma normalize_job_core:
  assumes "normalize_job certs pruned j (es, op) = (j', es', op')"
  shows "job_core j' = job_core j \<and> marks es' = marks es \<and> op \<subseteq> op' \<and>
    job_bytes j' \<le> job_bytes j"
  using assms
  by (auto simp: normalize_job_def job_core_def job_bytes_def marks_adjust split: option.splits if_splits)

lemma normalize_jobs_core:
  assumes "normalize_jobs certs pruned js (es, op) = (js', es', op')"
  shows "map job_core js' = map job_core js \<and> marks es' = marks es \<and> op \<subseteq> op'"
  using assms
proof (induction js arbitrary: es op js' es' op')
  case (Cons j js)
  obtain j1 es1 op1 where 1: "normalize_job certs pruned j (es, op) = (j1, es1, op1)"
    by (cases "normalize_job certs pruned j (es, op)") auto
  obtain js2 es2 op2 where 2: "normalize_jobs certs pruned js (es1, op1) = (js2, es2, op2)"
    by (cases "normalize_jobs certs pruned js (es1, op1)") auto
  from Cons.prems 1 2 have "js' = j1 # js2" "es' = es2" "op' = op2" by simp_all
  with normalize_job_core [OF 1] Cons.IH [OF 2] show ?case by auto
qed simp

lemma marks_drop_pruned: "marks (drop_pruned pruned es) = marks es"
  by (auto simp: marks_def drop_pruned_def)

text \<open>Normalising touches payloads and the receipts of pruned ones, nothing else.\<close>

definition payload_frame :: "store \<Rightarrow> store" where
  "payload_frame s = s\<lparr>st_jobs := map job_core (st_jobs s), st_output_pruned := {},
     st_history := (st_history s)\<lparr>hs_entries := map (\<lambda>(k, e). (k, e\<lparr>e_output := None\<rparr>)) (hs_entries (st_history s))\<rparr>\<rparr>"

lemma marks_no_output:
  "marks es = marks es' \<Longrightarrow> map (\<lambda>(k, e). (k, e\<lparr>e_output := None\<rparr>)) es = map (\<lambda>(k, e :: entry). (k, e\<lparr>e_output := None\<rparr>)) es'"
proof (induction es arbitrary: es')
  case (Cons x es)
  then obtain y es'' where "es' = y # es''" by (cases es') (auto simp: marks_def)
  with Cons show ?case by (cases x; cases y) (auto simp: marks_def)
qed (simp add: marks_def)

lemma normalize_frame: "payload_frame (normalize_output s) = payload_frame s"
proof -
  obtain js es op where n: "normalize_jobs (st_job_certificates s) (st_history_pruned s) (st_jobs s)
      (drop_pruned (st_history_pruned s) (hs_entries (st_history s)), st_output_pruned s) = (js, es, op)"
    by (metis prod_cases3)
  have "marks es = marks (hs_entries (st_history s))" and jobs: "map job_core js = map job_core (st_jobs s)"
    using normalize_jobs_core [OF n] by (simp_all add: marks_drop_pruned)
  from marks_no_output [OF this(1)] jobs show ?thesis
    by (simp add: normalize_output_def n payload_frame_def)
qed

lemma payload_frame_history:
  assumes "payload_frame s' = payload_frame s"
  shows "hs_clock (st_history s') = hs_clock (st_history s)" (is ?c)
    "marks (hs_entries (st_history s')) = marks (hs_entries (st_history s))" (is ?m)
proof -
  from assms have h: "st_history (payload_frame s') = st_history (payload_frame s)" by simp
  then show ?c by (auto simp: payload_frame_def dest: arg_cong [where f = hs_clock])
  from h have "map (\<lambda>(k, e :: entry). (k, e\<lparr>e_output := None\<rparr>)) (hs_entries (st_history s')) =
      map (\<lambda>(k, e). (k, e\<lparr>e_output := None\<rparr>)) (hs_entries (st_history s))"
    by (auto simp: payload_frame_def dest: arg_cong [where f = hs_entries])
  then have "marks (map (\<lambda>(k, e :: entry). (k, e\<lparr>e_output := None\<rparr>)) (hs_entries (st_history s'))) =
      marks (map (\<lambda>(k, e). (k, e\<lparr>e_output := None\<rparr>)) (hs_entries (st_history s)))" by simp
  then show ?m by (simp add: marks_def comp_def case_prod_unfold)
qed

lemma normalize_grows:
  assumes "ledger_wf cr s"
  shows "ledger_wf cr (normalize_output s) \<and> ledger_le s (normalize_output s)"
  using assms hist_same_marks payload_frame_history [OF normalize_frame]
  unfolding ledger_wf_def ledger_le_def by blast

section \<open>Facts this machine publishes are accepted\<close>

lemma verify_own:
  assumes "crypto_ok cr" and "length sk = 32"
  shows "verify cr kind v (cr_sign cr sk (hist_bytes cr kind v)) (cr_public cr sk) = Inr ()"
  using assms by (simp add: verify_def crypto_ok_def)

lemma digest_ok_of: "crypto_ok cr \<Longrightarrow> length bs \<le> STREAM_BYTES \<Longrightarrow> digest_ok (output_ref_of cr bs)"
  by (simp add: digest_ok_def output_ref_of_def hash_def crypto_ok_def hex_all_hex)

text \<open>What the runner signs about its own job is what every other machine's checks accept: if the
  certificate names this machine's key as the runner's, and the payloads and the reason keep their
  limits, the new fact passes \<open>validate_fact\<close> on any store.\<close>

theorem runner_fact_validates:
  assumes "crypto_ok cr" and "length (st_owner_sk s) = 32"
    and "publish_fact cr key j Runner previous st s = Inr s'" and "s' \<noteq> s"
    and "bt_get (hs_entries (st_history s)) key = Some e"
    and "key = invocation_hash cr (rec_certificate (e_record e))"
    and "i_runner_key (c_invocation (rec_certificate (e_record e))) = cr_public cr (st_owner_sk s)"
    and "i_legacy_observer (c_invocation (rec_certificate (e_record e))) = None"
    and "runner_status st" and "limits_status st = Inr ()"
    and "length (j_stdout j) \<le> STREAM_BYTES" and "length (j_stderr j) \<le> STREAM_BYTES"
    and "j_id j \<notin> st_output_pruned s"
  shows "\<exists>e' f. bt_get (hs_entries (st_history s')) key = Some e' \<and> rec_runner (e_record e') = Some f \<and>
    (\<forall>s''. validate_fact cr s'' (rec_certificate (e_record e')) f Runner = Inr ())"
  using assms(3)
proof (cases rule: publish_fact_history)
  case (new so se revision sk f)
  let ?sf = "\<lparr>sf_fact = f, sf_signature = cr_sign cr sk (hist_bytes cr ''fact'' (fact_json f))\<rparr>"
  let ?e = "publish_entry cr s j Runner ?sf (Suc (hs_clock (st_history s))) e"
  have sk: "sk = st_owner_sk s" using new(4) assms(2) by (simp add: signing_key_def)
  have out: "so = output_ref_of cr (j_stdout j)" "se = output_ref_of cr (j_stderr j)"
    using new(1) assms(13) by (auto simp: own_outputs_def)
  have rev: "revision \<noteq> 0" using new(3) by (auto simp: next_revision_def result_simps split: option.splits)
  have get: "bt_get (hs_entries (st_history s')) key = Some ?e"
    using assms(5) by (simp add: new(6) bt_get_adjust)
  have "digest_ok so" "digest_ok se" using assms(1,11,12) by (simp_all add: out digest_ok_of)
  then have "validate_fact cr s'' (rec_certificate (e_record e)) ?sf Runner = Inr ()" for s''
    using assms(2,6-10) rev verify_own [OF assms(1,2)]
    by (simp add: validate_fact_def new(5) fact_signer_def result_simps sk)
  with get show ?thesis by (intro exI [of _ ?e] exI [of _ ?sf]) (simp add: set_fact_def)
qed (use assms(4) in simp)

end
