(* ===== verification/Clix_Replica.thy ===== *)
theory Clix_Replica
  imports Clix_Ledger
begin

text \<open>
  Replicated history: what \<open>ingest\<close> accepts from a paired machine and what it may change, the
  pages a machine serves and the boundary checks of the machine that reads them
  (\<open>history::sync_peer\<close>), and the origin's acceptance of the runner's answer.
\<close>

section \<open>Validation reads only the identities\<close>

lemma validate_cong:
  assumes "st_body_name s' = st_body_name s" "st_peers s' = st_peers s" "st_owner_sk s' = st_owner_sk s"
  shows "validate_invocation cr s' c = validate_invocation cr s c"
    "validate_fact cr s' c f r = validate_fact cr s c f r"
    "validate_record cr s' rc = validate_record cr s rc"
proof -
  note k = known_key_cong [OF assms]
  have kf: "known_key cr s' = known_key cr s" using k(1) by (simp add: fun_eq_iff)
  show i: "validate_invocation cr s' c = validate_invocation cr s c" for c
    by (simp only: validate_invocation_def invocation_signer_def kf)
  show f: "validate_fact cr s' c f r = validate_fact cr s c f r" for c f r
    by (simp only: validate_fact_def fact_signer_def kf)
  show "validate_record cr s' rc = validate_record cr s rc"
    by (simp only: validate_record_def validate_opt_def i f)
qed

lemma verify_ok:
  "verify cr kind v sig key = Inr u \<longleftrightarrow>
     length key = 32 \<and> cr_key_ok cr key \<and> length sig = 64 \<and> cr_verify cr key (hist_bytes cr kind v) sig"
  by (auto simp: verify_def)

lemma validate_record_runner:
  assumes "validate_record cr s r = Inr ()" and "rec_runner r = Some f"
  shows "validate_fact cr s (rec_certificate r) f Runner = Inr () \<and>
    i_legacy_observer (c_invocation (rec_certificate r)) = None"
  using assms by (auto simp: validate_record_def validate_opt_def Let_def result_simps split: if_splits)

lemma validate_invocation_keys:
  assumes "validate_invocation cr s c = Inr ()" and "i_legacy_observer (c_invocation c) = None"
  shows "known_key cr s (i_from (c_invocation c)) = Inr (i_origin_key (c_invocation c))"
    "known_key cr s (i_body (c_invocation c)) = Inr (i_runner_key (c_invocation c))"
    "verify cr ''invocation'' (invocation_json (c_invocation c)) (c_signature c) (i_origin_key (c_invocation c)) = Inr ()"
    "limits_invocation (i_id (c_invocation c)) (i_argv (c_invocation c)) = Inr ()"
  using assms by (auto simp: validate_invocation_def invocation_signer_def Let_def result_simps split: if_splits)

lemma validate_record_invocation:
  "validate_record cr s r = Inr () \<Longrightarrow> validate_invocation cr s (rec_certificate r) = Inr ()"
  by (auto simp: validate_record_def Let_def result_simps)


text \<open>A signature is bound to what it was made for: the bytes signed for an invocation are never
  the bytes signed for a fact, and two different invocations (or facts) never give the same bytes.\<close>

theorem signed_bytes_separate:
  assumes "inj (cr_to_vec cr)"
  shows "hist_bytes cr ''invocation'' v \<noteq> hist_bytes cr ''fact'' w \<and>
    (hist_bytes cr ''invocation'' (invocation_json i) = hist_bytes cr ''invocation'' (invocation_json i') \<longrightarrow> i = i') \<and>
    (hist_bytes cr ''fact'' (fact_json f) = hist_bytes cr ''fact'' (fact_json f') \<longrightarrow> f = f')"
proof -
  have "v1 = v2" if "hist_bytes cr k v1 = hist_bytes cr k v2" for k v1 v2
    using that assms by (auto simp: hist_bytes_def dest: injD)
  then show ?thesis
    by (auto dest!: invocation_json_inj fact_json_inj)
      (auto simp: hist_bytes_def str_bytes_def)
qed

section \<open>Ingesting\<close>

lemma merge_fact_le:
  "merge_fact a b = Inr (c, r) \<Longrightarrow> fact_le a r \<and> (r = a \<or> r = b) \<and> (\<not> c \<longrightarrow> r = a)"
  by (auto simp: merge_fact_def fact_le_def split: option.splits if_splits)

lemma merge_fact_again:
  "merge_fact a b = Inr (c, r) \<Longrightarrow> merge_fact r b = Inr (False, r)"
  by (auto simp: merge_fact_def split: option.splits if_splits)

lemma ingest_steps:
  assumes "ingest cr p s = Inr (b, s')"
  obtains (same) "b = False" "s' = s" "validate_record cr s (pub_record p) = Inr ()"
  | (new) old og rn out c1 c2 c3 where "b = True" "validate_record cr s (pub_record p) = Inr ()"
      "output_checked cr p = Inr ()"
      "old = (case bt_get (hs_entries (st_history s)) (invocation_hash cr (rec_certificate (pub_record p))) of
          Some e \<Rightarrow> e | None \<Rightarrow> \<lparr>e_record = blank_record (rec_certificate (pub_record p)), e_change = 0, e_output = None\<rparr>)"
      "rec_certificate (e_record old) = rec_certificate (pub_record p)"
      "merge_fact (rec_origin (e_record old)) (rec_origin (pub_record p)) = Inr (c1, og)"
      "merge_fact (rec_runner (e_record old)) (rec_runner (pub_record p)) = Inr (c2, rn)"
      "merge_output cr s (invocation_hash cr (rec_certificate (pub_record p)))
         ((e_record old)\<lparr>rec_origin := og, rec_runner := rn\<rparr>) (e_output old) (pub_output p) = (out, c3)"
      "s' = s\<lparr>st_history := file_entry (invocation_hash cr (rec_certificate (pub_record p)))
         \<lparr>e_record = (e_record old)\<lparr>rec_origin := og, rec_runner := rn\<rparr>, e_change = Suc (hs_clock (st_history s)),
          e_output = out\<rparr> (st_history s)\<rparr>"
proof -
  let ?key = "invocation_hash cr (rec_certificate (pub_record p))"
  define old where "old = (case bt_get (hs_entries (st_history s)) ?key of Some e \<Rightarrow> e
    | None \<Rightarrow> \<lparr>e_record = blank_record (rec_certificate (pub_record p)), e_change = 0, e_output = None\<rparr>)"
  from assms have v: "validate_record cr s (pub_record p) = Inr ()" and oc: "output_checked cr p = Inr ()"
    and cert: "rec_certificate (e_record old) = rec_certificate (pub_record p)"
    by (auto simp: ingest_def Let_def rbind_Inr_iff old_def split: if_splits)
  with assms obtain c1 og c2 rn where m1: "merge_fact (rec_origin (e_record old)) (rec_origin (pub_record p)) = Inr (c1, og)"
    and m2: "merge_fact (rec_runner (e_record old)) (rec_runner (pub_record p)) = Inr (c2, rn)"
    unfolding ingest_def Let_def old_def [symmetric] by (auto simp: rbind_Inr_iff)
  obtain out c3 where mo: "merge_output cr s ?key ((e_record old)\<lparr>rec_origin := og, rec_runner := rn\<rparr>)
      (e_output old) (pub_output p) = (out, c3)" by fastforce
  show thesis
  proof (cases "c1 \<or> c2 \<or> c3 \<or> bt_get (hs_entries (st_history s)) ?key = None")
    case True
    with assms v oc cert m1 m2 mo show thesis
      unfolding ingest_def Let_def old_def [symmetric]
      by (intro new [OF _ v oc old_def cert m1 m2 mo]) (auto simp: result_simps file_entry_def)
  next
    case False
    with assms v oc cert m1 m2 mo show thesis
      unfolding ingest_def Let_def old_def [symmetric]
      by (intro same) auto
  qed
qed

lemma ingest_grows:
  assumes "ingest cr p s = Inr (b, s')" and "ledger_wf cr s"
  shows "ledger_wf cr s' \<and> ledger_le s s'"
  using assms(1)
proof (cases rule: ingest_steps)
  case same
  with assms(2) show ?thesis by (simp add: ledger_le_def)
next
  case (new old og rn out c1 c2 c3)
  let ?key = "invocation_hash cr (rec_certificate (pub_record p))"
  have "record_le (e_record x) ((e_record old)\<lparr>rec_origin := og, rec_runner := rn\<rparr>)"
    if "bt_get (hs_entries (st_history s)) ?key = Some x" for x
    using that new(4) merge_fact_le [OF new(6)] merge_fact_le [OF new(7)] by (simp add: record_le_def)
  then show ?thesis
    using assms(2) new(5) by (auto simp: new(9) ledger_wf_def ledger_le_def intro!: hist_wf_file hist_le_file)
qed

lemma ingest_only_history:
  assumes "ingest cr p s = Inr (b, s')"
  obtains h where "s' = s\<lparr>st_history := h\<rparr>"
  using assms
proof (cases rule: ingest_steps)
  case same
  then show thesis using that [of "st_history s"] by simp
next
  case new
  then show thesis using that by blast
qed

text \<open>Importing history is read-only for this machine's own state: no job, grant, request,
  receipt or pairing changes, only the replica; records are kept under their certificate, settled
  facts are never rewritten, and revisions only grow.\<close>

theorem ingest_append_only:
  assumes "ingest cr p s = Inr (b, s')" and "ledger_wf cr s"
  shows "ledger_wf cr s' \<and> ledger_le s s' \<and> (\<exists>h. s' = s\<lparr>st_history := h\<rparr>)"
  using ingest_grows [OF assms] ingest_only_history [OF assms(1)] by metis

lemma merge_output_again:
  assumes "merge_output cr s key r kept offered = (out, c)"
    and "st_jobs s' = st_jobs s" "st_job_certificates s' = st_job_certificates s"
    "st_output_pruned s' = st_output_pruned s" "st_history_pruned s' = st_history_pruned s"
  shows "merge_output cr s' key r out offered = (out, False)"
proof -
  have "holds_output cr s' key r = holds_output cr s key r"
    by (simp add: fun_eq_iff holds_output_def assms(2-5))
  then have "local_output cr s' key r = local_output cr s key r"
    by (simp add: local_output_def assms(2) split: option.split)
  then show ?thesis
    using assms(1,5) by (auto simp: merge_output_def split: option.splits if_splits)
qed

lemma ingest_again:
  assumes "ingest cr p s = Inr (b, s')" and "ledger_wf cr s"
  shows "ingest cr p s' = Inr (False, s')"
  using assms(1)
proof (cases rule: ingest_steps)
  case same
  with assms(1) show ?thesis by simp
next
  case (new old og rn out c1 c2 c3)
  let ?key = "invocation_hash cr (rec_certificate (pub_record p))"
  let ?r = "(e_record old)\<lparr>rec_origin := og, rec_runner := rn\<rparr>"
  have "bt_ok (hs_entries (st_history s))" using assms(2) by (simp add: ledger_wf_def hist_wf_def)
  then have get: "bt_get (hs_entries (st_history s')) ?key =
      Some \<lparr>e_record = ?r, e_change = Suc (hs_clock (st_history s)), e_output = out\<rparr>"
    by (simp add: new(9) file_entry_def bt.get_ins)
  have "validate_record cr s' (pub_record p) = Inr ()"
    using new(2) validate_cong(3) [of s' s cr] by (simp add: new(9))
  moreover have "merge_output cr s' ?key ?r out (pub_output p) = (out, False)"
    by (rule merge_output_again [OF new(8)]) (simp_all add: new(9))
  ultimately show ?thesis
    using new(3,5) merge_fact_again [OF new(6)] merge_fact_again [OF new(7)]
    by (simp add: ingest_def get Let_def)
qed

text \<open>Receiving the same record twice is the same as receiving it once: the second time nothing
  changes and no new change number is spent, so relays cannot loop.\<close>

theorem ingest_idempotent:
  assumes "ingest cr p s = Inr (b, s')" and "ledger_wf cr s"
  shows "ingest cr p s' = Inr (False, s')"
  using assms by (rule ingest_again)

section \<open>Pages\<close>

text \<open>The reader's checks on a page (\<open>sync_peer\<close>), before anything of it is used.\<close>

definition page_boundary_ok :: "progress \<Rightarrow> page \<Rightarrow> bool" where
  "page_boundary_ok g p \<longleftrightarrow> \<not> (PAGE_ROWS < length (page_entries p) \<or> page_high p < page_next p \<or>
     page_epoch p = [] \<or> (\<not> page_reset p \<and> page_epoch p \<noteq> pg_epoch g) \<or>
     (\<not> page_reset p \<and> page_next p < pg_cursor g) \<or> (page_complete p \<and> page_next p \<noteq> page_high p))"

fun page_ordered :: "nat \<Rightarrow> nat \<Rightarrow> published list \<Rightarrow> bool" where
  "page_ordered previous next [] = True"
| "page_ordered previous next (e # es) =
     (if pub_change e \<le> previous \<or> next < pub_change e then False
      else page_ordered (pub_change e) next es)"

lemma page_ordered_append:
  "page_ordered a n (xs @ [x]) \<longleftrightarrow> page_ordered a n xs \<and>
     (if xs = [] then a else pub_change (last xs)) < pub_change x \<and> pub_change x \<le> n"
  by (induction a n xs rule: page_ordered.induct) auto

lemma page_ordered_mono: "page_ordered a n xs \<Longrightarrow> n \<le> m \<Longrightarrow> page_ordered a m xs"
  by (induction a n xs rule: page_ordered.induct) (auto split: if_splits)

lemma page_ordered_last:
  "page_ordered a n xs \<Longrightarrow> xs \<noteq> [] \<Longrightarrow> a < pub_change (last xs) \<and> pub_change (last xs) \<le> n"
  by (induction a n xs rule: page_ordered.induct) (auto split: if_splits)

lemma export_change [simp]: "pub_change (export_entry cr s e) = e_change e"
  by (simp add: export_entry_def Let_def)

lemma export_record [simp]: "pub_record (export_entry cr s e) = e_record e"
  by (simp add: export_entry_def Let_def)

text \<open>The rows of a page are a prefix of the window, each within the budget, and the cursor is the
  change of the last one.\<close>

lemma page_rows_spec:
  assumes "page_rows cr s es acc used next = Inr (rows, n)"
    and "sorted_wrt (<) (map e_change es)" and "length acc \<le> PAGE_ROWS" and "used \<le> PAGE_BYTES"
    and "used = sum_list (map (page_bytes cr) acc)"
    and "page_ordered after next acc" and "next = (if acc = [] then after else pub_change (last acc))"
    and "\<forall>e \<in> set es. next < e_change e"
  shows "length rows \<le> PAGE_ROWS \<and> sum_list (map (page_bytes cr) rows) \<le> PAGE_BYTES \<and>
    page_ordered after n rows \<and> n = (if rows = [] then after else pub_change (last rows)) \<and>
    (\<exists>k. rows = acc @ map (export_entry cr s) (take k es) \<and> k \<le> length es \<and>
       (es \<noteq> [] \<and> acc = [] \<longrightarrow> 0 < k))"
  using assms
proof (induction cr s es acc used "next" rule: page_rows.induct)
  case (1 cr s acc used "next")
  then show ?case by auto
next
  case (2 cr s e es acc used "next")
  let ?p = "export_entry cr s e"
  show ?case
  proof (cases "length acc = PAGE_ROWS \<or> PAGE_BYTES < used + page_bytes cr ?p")
    case True
    with "2.prems" have stop: "rows = acc" "n = next" "page_bytes cr ?p \<le> PAGE_BYTES"
      by (auto simp: Let_def split: if_splits)
    moreover have "acc \<noteq> []"
      using True stop(3) "2.prems"(5) by (auto simp: PAGE_ROWS_def)
    ultimately show ?thesis using "2.prems" by (auto intro!: exI [of _ 0])
  next
    case False
    with "2.prems"(1) have rec: "page_rows cr s es (acc @ [?p]) (used + page_bytes cr ?p) (e_change e) = Inr (rows, n)"
      and fits: "\<not> PAGE_BYTES < page_bytes cr ?p"
      by (auto simp: Let_def split: if_splits)
    have "page_ordered after (e_change e) (acc @ [?p])"
      using "2.prems"(6,7,8) by (auto simp: page_ordered_append intro: page_ordered_mono)
    then have "length rows \<le> PAGE_ROWS \<and> sum_list (map (page_bytes cr) rows) \<le> PAGE_BYTES \<and>
        page_ordered after n rows \<and> n = (if rows = [] then after else pub_change (last rows)) \<and>
        (\<exists>k. rows = (acc @ [?p]) @ map (export_entry cr s) (take k es) \<and> k \<le> length es \<and>
           (es \<noteq> [] \<and> acc @ [?p] = [] \<longrightarrow> 0 < k))"
      using False fits "2.prems" by (intro "2.IH" [OF refl refl _ _ rec]) (auto simp: PAGE_ROWS_def)
    then obtain k where "rows = acc @ map (export_entry cr s) (take (Suc k) (e # es))" "Suc k \<le> length (e # es)"
      and "length rows \<le> PAGE_ROWS \<and> sum_list (map (page_bytes cr) rows) \<le> PAGE_BYTES \<and>
        page_ordered after n rows \<and> n = (if rows = [] then after else pub_change (last rows))"
      by auto
    then show ?thesis by (auto intro!: exI [of _ "Suc k"])
  qed
qed

lemma page_window_sorted:
  assumes "ledger_wf cr s"
  shows "sorted_wrt (<) (map e_change (page_window s after high))"
proof -
  let ?es = "hs_entries (st_history s)"
  have ok: "bt_ok ?es" using assms by (simp add: ledger_wf_def hist_wf_def)
  have "inj_on (\<lambda>(k, e). e_change e) (set ?es)"
  proof (rule inj_onI, clarify)
    fix k e k' e'
    assume "(k, e) \<in> set ?es" "(k', e') \<in> set ?es" "e_change e = e_change e'"
    then have "bt_get ?es k = Some e" "bt_get ?es k' = Some e'" "k = k'"
      using assms bt.items_get [OF ok] by (auto simp: ledger_wf_def hist_wf_def)
    then show "k = k' \<and> e = e'" by simp
  qed
  moreover have "distinct ?es" using ok by (auto simp: bt_ok_def distinct_map)
  ultimately have "distinct (map e_change (bt_values ?es))"
    by (simp add: bt_values_def comp_def distinct_map case_prod_unfold)
  then have "distinct (map e_change (page_window s after high))"
    by (auto simp: page_window_def distinct_map intro: inj_on_subset)
  then show ?thesis by (simp add: page_window_def strict_sorted_iff)
qed

lemma page_window_lower: "e \<in> set (page_window s after high) \<Longrightarrow> after < e_change e \<and> e_change e \<le> high"
  by (simp add: page_window_def)

lemma page_rows_window:
  assumes "page_rows cr s (page_window s after high) [] 0 after = Inr (rows, n)" and "ledger_wf cr s"
  obtains k where "length rows \<le> PAGE_ROWS" "sum_list (map (page_bytes cr) rows) \<le> PAGE_BYTES"
    "page_ordered after n rows" "n = (if rows = [] then after else pub_change (last rows))"
    "rows = map (export_entry cr s) (take k (page_window s after high))"
    "k \<le> length (page_window s after high)" "page_window s after high \<noteq> [] \<Longrightarrow> 0 < k"
proof -
  have "length rows \<le> PAGE_ROWS \<and> sum_list (map (page_bytes cr) rows) \<le> PAGE_BYTES \<and>
    page_ordered after n rows \<and> n = (if rows = [] then after else pub_change (last rows)) \<and>
    (\<exists>k. rows = [] @ map (export_entry cr s) (take k (page_window s after high)) \<and>
       k \<le> length (page_window s after high) \<and>
       (page_window s after high \<noteq> [] \<and> [] = ([] :: published list) \<longrightarrow> 0 < k))"
    by (rule page_rows_spec [OF assms(1) page_window_sorted [OF assms(2)]])
      (auto dest: page_window_lower simp: PAGE_ROWS_def PAGE_BYTES_def)
  then obtain k where "rows = map (export_entry cr s) (take k (page_window s after high))"
    "k \<le> length (page_window s after high)" "page_window s after high \<noteq> [] \<longrightarrow> 0 < k"
    and "length rows \<le> PAGE_ROWS" "sum_list (map (page_bytes cr) rows) \<le> PAGE_BYTES"
    "page_ordered after n rows" "n = (if rows = [] then after else pub_change (last rows))"
    by auto
  then show thesis by (intro that [of k]) simp_all
qed

lemma page_steps:
  assumes "page cr s epoch after0 high0 = Inr p"
  obtains after rows n where
    "page_reset p \<longleftrightarrow> epoch \<noteq> hs_epoch (st_history s) \<or> hs_clock (st_history s) < after0"
    "after = (if page_reset p then 0 else after0)" "page_epoch p = hs_epoch (st_history s)"
    "page_high p \<le> hs_clock (st_history s)" "after \<le> page_high p"
    "page_rows cr s (page_window s after (page_high p)) [] 0 after = Inr (rows, n)"
    "page_entries p = rows" "page_complete p \<longleftrightarrow> length rows = length (page_window s after (page_high p))"
    "page_next p = (if page_complete p then page_high p else n)"
  using assms by (auto simp: page_def Let_def result_simps intro!: that)

text \<open>A page a machine serves passes the boundary checks of the machine that asked for it: at
  most 16 rows, changes strictly increasing from the reader's cursor to the next cursor, which stays
  within the scan; a complete page ends exactly at the scan boundary, and an incomplete one always
  contains a row, so the reader makes progress.\<close>

theorem page_accepted_by_reader:
  assumes "ledger_wf cr s" and "hs_epoch (st_history s) \<noteq> []"
    and "page cr s (pg_epoch g) (pg_cursor g) high0 = Inr p"
  shows "page_boundary_ok g p \<and>
    page_ordered (if page_reset p then 0 else pg_cursor g) (page_next p) (page_entries p) \<and>
    sum_list (map (page_bytes cr) (page_entries p)) \<le> PAGE_BYTES \<and>
    (page_complete p \<or> page_entries p \<noteq> [])"
  using assms(3)
proof (rule page_steps)
  fix after rows n
  assume reset: "page_reset p \<longleftrightarrow> pg_epoch g \<noteq> hs_epoch (st_history s) \<or> hs_clock (st_history s) < pg_cursor g"
    and after: "after = (if page_reset p then 0 else pg_cursor g)" and ep: "page_epoch p = hs_epoch (st_history s)"
    and high: "page_high p \<le> hs_clock (st_history s)" "after \<le> page_high p"
    and rows: "page_rows cr s (page_window s after (page_high p)) [] 0 after = Inr (rows, n)"
    and es: "page_entries p = rows"
    and compl: "page_complete p \<longleftrightarrow> length rows = length (page_window s after (page_high p))"
    and nxt: "page_next p = (if page_complete p then page_high p else n)"
  let ?w = "page_window s after (page_high p)"
  from page_rows_window [OF rows assms(1)]
  obtain k where len: "length rows \<le> PAGE_ROWS" and sum: "sum_list (map (page_bytes cr) rows) \<le> PAGE_BYTES"
    and ord: "page_ordered after n rows" and last: "n = (if rows = [] then after else pub_change (last rows))"
    and k: "rows = map (export_entry cr s) (take k ?w)" "?w \<noteq> [] \<longrightarrow> 0 < k"
    by (metis (no_types))
  have "pub_change (last rows) \<le> page_high p" if "rows \<noteq> []"
  proof -
    have "last rows \<in> set rows" using that by simp
    then obtain e where "last rows = export_entry cr s e" "e \<in> set ?w"
      using k(1) by (auto dest: in_set_takeD)
    then show ?thesis using page_window_lower by fastforce
  qed
  then have n: "n \<le> page_high p" "after \<le> n"
    using last high page_ordered_last [OF ord] by (auto split: if_splits)
  then have "n \<le> page_next p" "page_next p \<le> page_high p" by (simp_all add: nxt)
  moreover have "page_complete p \<or> rows \<noteq> []" using k compl by (cases "?w = []") auto
  moreover have "page_ordered after (page_next p) rows" using ord calculation(1) by (rule page_ordered_mono)
  ultimately show ?thesis
    using n len sum assms(2) after reset
    by (auto simp: page_boundary_ok_def es ep nxt split: if_splits)
qed

lemma sorted_take_covers:
  assumes "sorted_wrt (<) (map (f :: 'a \<Rightarrow> nat) xs)" and "x \<in> set xs" and "k \<le> length xs" and "0 < k"
    and "f x \<le> f (xs ! (k - 1))"
  shows "x \<in> set (take k xs)"
proof -
  from assms(2) obtain i where i: "i < length xs" "x = xs ! i" by (auto simp: in_set_conv_nth)
  have "i < k"
  proof (rule ccontr)
    assume "\<not> i < k"
    with assms(4) have "k - 1 < i" by simp
    with assms(1) i have "f (xs ! (k - 1)) < f (xs ! i)"
      by (auto simp: sorted_wrt_iff_nth_less)
    with assms(5) i show False by simp
  qed
  with i assms(3) show ?thesis by (auto simp: in_set_conv_nth intro!: exI [of _ i])
qed

text \<open>Reading page after page skips nothing: every entry whose change lies between the reader's cursor
  and the next cursor the page hands out is on the page.\<close>

lemma page_covers:
  assumes "ledger_wf cr s" and "page cr s epoch cursor high0 = Inr p"
    and "e \<in> set (bt_values (hs_entries (st_history s)))"
    and "(if page_reset p then 0 else cursor) < e_change e" and "e_change e \<le> page_next p"
  shows "export_entry cr s e \<in> set (page_entries p)"
  using assms(2)
proof (rule page_steps)
  fix after rows n
  assume after: "after = (if page_reset p then 0 else cursor)"
    and high: "page_high p \<le> hs_clock (st_history s)" "after \<le> page_high p"
    and rows: "page_rows cr s (page_window s after (page_high p)) [] 0 after = Inr (rows, n)"
    and es: "page_entries p = rows"
    and compl: "page_complete p \<longleftrightarrow> length rows = length (page_window s after (page_high p))"
    and nxt: "page_next p = (if page_complete p then page_high p else n)"
  let ?w = "page_window s after (page_high p)"
  note sorted = page_window_sorted [OF assms(1), of after "page_high p"]
  from page_rows_window [OF rows assms(1)]
  obtain k where spec: "n = (if rows = [] then after else pub_change (last rows))"
    and k: "rows = map (export_entry cr s) (take k ?w)" "k \<le> length ?w"
    by (metis (no_types))
  have le: "e_change e \<le> page_high p"
  proof (cases "rows = []")
    case True
    with spec assms(4,5) after nxt show ?thesis by (auto split: if_splits)
  next
    case False
    then have "last rows \<in> set rows" by simp
    then have "last rows \<in> export_entry cr s ` set ?w" using k(1) by (auto dest: in_set_takeD)
    then have "pub_change (last rows) \<le> page_high p" using page_window_lower by fastforce
    with False spec assms(5) nxt show ?thesis by (auto split: if_splits)
  qed
  with assms(3,4) after have w: "e \<in> set ?w" by (simp add: page_window_def)
  have "e \<in> set (take k ?w)"
  proof (cases "page_complete p")
    case True
    with compl k have "take k ?w = ?w" by simp
    with w show ?thesis by simp
  next
    case False
    with assms(4,5) spec nxt after have "rows \<noteq> []" by (auto split: if_splits)
    with k have pos: "0 < k" "take k ?w \<noteq> []" by auto
    then have "last rows = export_entry cr s (?w ! (k - 1))"
      using k by (simp add: last_map last_conv_nth min_def)
    with False spec nxt assms(5) \<open>rows \<noteq> []\<close> have "e_change e \<le> e_change (?w ! (k - 1))" by simp
    with sorted w k(2) pos(1) show ?thesis by (intro sorted_take_covers)
  qed
  with k(1) es show ?thesis by auto
qed

section \<open>The runner's answer\<close>

lemma runner_reply_steps:
  assumes "accept_runner_reply cr peer p s = Inr (Some j', s')"
  obtains j s1 b sd out where
    "validate_record cr s (pub_record p) = Inr ()"
    "i_legacy_observer (c_invocation (rec_certificate (pub_record p))) = None"
    "i_body (c_invocation (rec_certificate (pub_record p))) = peer"
    "rec_runner (pub_record p) = Some sd"
    "find_job s (i_id (c_invocation (rec_certificate (pub_record p)))) = Some j"
    "st_job_certificates s (j_id j) = Some (invocation_hash cr (rec_certificate (pub_record p)))"
    "matches_job (rec_certificate (pub_record p)) j" "\<not> is_terminal (j_status j)"
    "ingest cr p s = Inr (b, s1)" "pub_output p = Some out \<or> out = \<lparr>co_stdout = [], co_stderr = []\<rparr>"
    "j' = runner_job (c_invocation (rec_certificate (pub_record p))) sd out"
    "s'\<lparr>st_output_pruned := {}\<rparr> = s1\<lparr>st_output_pruned := {},
       st_jobs := update_first (\<lambda>x. j_id x = i_id (c_invocation (rec_certificate (pub_record p)))) (\<lambda>_. j') (st_jobs s1)\<rparr>"
proof -
  let ?c = "rec_certificate (pub_record p)"
  from assms obtain sd where 1: "validate_record cr s (pub_record p) = Inr ()"
    "i_legacy_observer (c_invocation ?c) = None" "i_body (c_invocation ?c) = peer"
    and sd: "rec_runner (pub_record p) = Some sd"
    by (auto simp: accept_runner_reply_def Let_def rbind_Inr_iff ok_or_Inr_iff split: if_splits)
  with assms obtain j where j: "find_job s (i_id (c_invocation ?c)) = Some j"
    by (auto simp: accept_runner_reply_def Let_def split: option.splits)
  with assms 1 sd obtain b s1 where 2: "st_job_certificates s (i_id (c_invocation ?c)) = Some (invocation_hash cr ?c)"
    "matches_job ?c j" and i: "ingest cr p s = Inr (b, s1)" and t: "\<not> is_terminal (j_status j)"
    by (auto simp: accept_runner_reply_def Let_def rbind_Inr_iff split: if_splits)
  define out where "out = (case (if invocation_hash cr ?c \<in> st_history_pruned s1 \<or>
      i_id (c_invocation ?c) \<in> st_output_pruned s1 then None else pub_output p) of Some out \<Rightarrow> out
    | None \<Rightarrow> \<lparr>co_stdout = [], co_stderr = []\<rparr>)"
  have "j_id j = i_id (c_invocation ?c)" using find_job_Some [OF j] by simp
  moreover have "pub_output p = Some out \<or> out = \<lparr>co_stdout = [], co_stderr = []\<rparr>"
    by (auto simp: out_def split: option.splits)
  moreover from assms 1 sd j 2 i t have "j' = runner_job (c_invocation ?c) sd out"
    "s'\<lparr>st_output_pruned := {}\<rparr> = s1\<lparr>st_output_pruned := {},
       st_jobs := update_first (\<lambda>x. j_id x = i_id (c_invocation ?c)) (\<lambda>_. j') (st_jobs s1)\<rparr>"
    by (auto simp: accept_runner_reply_def Let_def out_def)
  ultimately show thesis using 1 sd j 2 i t that by simp
qed

text \<open>The runner's answer settles exactly one job of the origin: the one bound to the answered
  invocation, whose outcome was still open.  It takes the status the runner signed; every other job,
  every grant, request and pairing is as before, and a settled job is never reopened.\<close>

theorem runner_reply_settles_one_job:
  assumes "accept_runner_reply cr peer p s = Inr (Some j', s')"
  shows "\<exists>j sd. find_job s (j_id j') = Some j \<and> \<not> is_terminal (j_status j) \<and>
    rec_runner (pub_record p) = Some sd \<and> j_status j' = f_status (sf_fact sd) \<and>
    j_body j' = peer \<and> j_from j' = j_from j \<and> j_argv j' = j_argv j \<and>
    st_job_certificates s (j_id j') = Some (f_invocation (sf_fact sd)) \<and>
    st_jobs s' = update_first (\<lambda>x. j_id x = j_id j') (\<lambda>_. j') (st_jobs s) \<and>
    st_grants s' = st_grants s \<and> st_requests s' = st_requests s \<and> st_peers s' = st_peers s"
  using assms
proof (rule runner_reply_steps)
  let ?c = "rec_certificate (pub_record p)"
  fix j s1 b sd out
  assume v: "validate_record cr s (pub_record p) = Inr ()" and body: "i_body (c_invocation ?c) = peer"
    and sd: "rec_runner (pub_record p) = Some sd"
    and j: "find_job s (i_id (c_invocation ?c)) = Some j"
    and cert: "st_job_certificates s (j_id j) = Some (invocation_hash cr ?c)"
    and m: "matches_job ?c j" and open': "\<not> is_terminal (j_status j)"
    and i: "ingest cr p s = Inr (b, s1)" and j': "j' = runner_job (c_invocation ?c) sd out"
    and s': "s'\<lparr>st_output_pruned := {}\<rparr> = s1\<lparr>st_output_pruned := {},
       st_jobs := update_first (\<lambda>x. j_id x = i_id (c_invocation ?c)) (\<lambda>_. j') (st_jobs s1)\<rparr>"
  from i obtain h where s1: "s1 = s\<lparr>st_history := h\<rparr>" by (rule ingest_only_history)
  have id: "j_id j' = i_id (c_invocation ?c)" "j_body j' = i_body (c_invocation ?c)"
    "j_from j' = i_from (c_invocation ?c)" "j_argv j' = i_argv (c_invocation ?c)" "j_status j' = f_status (sf_fact sd)"
    by (simp_all add: j' runner_job_def)
  have "f_invocation (sf_fact sd) = invocation_hash cr ?c"
    using validate_record_runner [OF v sd]
    by (auto simp: validate_fact_def Let_def split: if_splits)
  moreover have "st_jobs s' = update_first (\<lambda>x. j_id x = j_id j') (\<lambda>_. j') (st_jobs s)"
    "st_grants s' = st_grants s" "st_requests s' = st_requests s" "st_peers s' = st_peers s"
    using arg_cong [OF s', of st_jobs] arg_cong [OF s', of st_grants] arg_cong [OF s', of st_requests]
      arg_cong [OF s', of st_peers] by (simp_all add: s1 id)
  ultimately show ?thesis
    using j m open' sd cert body find_job_Some [OF j] by (auto simp: id matches_job_def Let_def)
qed

end
