(* ===== verification/Clix_Storage.thy ===== *)
theory Clix_Storage
  imports Clix_Replica
begin

text \<open>
  \<open>src/storage.rs\<close>: the size of the state on disk, the budget for retained output and its
  pruning, the admission caps and the capacity reserved for jobs that have not finished.  The
  text serde_json writes for a store is a parameter: the chunks it hands to the writer
  (\<open>io_chunks\<close>) and the text of a string (\<open>io_string\<close>).
\<close>

record host_io =
  io_chunks :: "store \<Rightarrow> bytes list"
  io_string :: "string \<Rightarrow> bytes"

definition STATE_BYTES :: nat where "STATE_BYTES = 128 * 1024 * 1024"
definition OUTPUT_BYTES :: nat where "OUTPUT_BYTES = 16 * 1024 * 1024"
definition COMPLETION_RESERVE :: nat where "COMPLETION_RESERVE = 2 * 1024 * 1024"
definition MAX_JOBS :: nat where "MAX_JOBS = 10000"
definition MAX_HISTORY :: nat where "MAX_HISTORY = 30000"
definition MAX_REQUEST_RECEIPTS :: nat where "MAX_REQUEST_RECEIPTS = 10000"
definition MAX_PENDING_REQUESTS :: nat where "MAX_PENDING_REQUESTS = 1024"
definition MAX_OUTBOUND_REQUESTS :: nat where "MAX_OUTBOUND_REQUESTS = 1024"
definition MAX_PEERS :: nat where "MAX_PEERS = 64"
definition MAX_GRANTS :: nat where "MAX_GRANTS = 256"

section \<open>Encoding\<close>

text \<open>The bounded writer: \<open>None\<close> once a chunk would pass the limit.\<close>

fun bounded_write :: "bytes \<Rightarrow> bytes list \<Rightarrow> bytes option" where
  "bounded_write buf [] = Some buf"
| "bounded_write buf (c # cs) =
     (if STATE_BYTES < sat_add (length buf) (length c) then None else bounded_write (buf @ c) cs)"

definition encode :: "host_io \<Rightarrow> store \<Rightarrow> bytes res" where
  "encode io s = ok_or (bounded_write [] (io_chunks io s))
     (Capacity ''Clix state exceeds 128 MiB; new work is refused'')"

lemma bounded_write_iff:
  "bounded_write buf cs = Some out \<longleftrightarrow>
     out = buf @ concat cs \<and> (cs = [] \<or> length (buf @ concat cs) \<le> STATE_BYTES)"
proof (induction cs arbitrary: buf)
  case (Cons c cs)
  have "STATE_BYTES < sat_add n m \<longleftrightarrow> STATE_BYTES < n + m" for n m
    by (auto simp: sat_add_def STATE_BYTES_def u64_max_def)
  then show ?case by (auto simp: Cons.IH)
qed auto

lemma encode_ok_iff [result_simps]:
  "encode io s = Inr bs \<longleftrightarrow> bs = concat (io_chunks io s) \<and> length bs \<le> STATE_BYTES"
  by (auto simp: encode_def result_simps bounded_write_iff)

section \<open>Retained output\<close>

definition output_bytes :: "store \<Rightarrow> nat" where
  "output_bytes s = sum_list (map job_bytes (st_jobs s)) +
     sum_list (map (\<lambda>e. co_bytes (e_output e)) (bt_values (hs_entries (st_history s))))"

datatype payload = Local string | Replica string

type_synonym candidate = "nat \<times> payload \<times> nat"

text \<open>Whether pruning may take a job's payload: it has some, the job is settled, and a signed fact
  keeps its digests.\<close>

definition local_candidate :: "store \<Rightarrow> job \<Rightarrow> (string \<times> candidate) option" where
  "local_candidate s j =
     (if job_bytes j = 0 \<or> \<not> is_terminal (j_status j) then None
      else Option.bind (st_job_certificates s (j_id j)) (\<lambda>key.
           Option.bind (bt_get (hs_entries (st_history s)) key) (\<lambda>e.
           if selected (e_record e) = None then None
           else Some (key, (e_change e, Local (j_id j), job_bytes j)))))"

fun local_candidates :: "store \<Rightarrow> job list \<Rightarrow> (string, candidate) btree \<Rightarrow> (string, candidate) btree" where
  "local_candidates s [] m = m"
| "local_candidates s (j # js) m = local_candidates s js
     (case local_candidate s j of None \<Rightarrow> m | Some (key, c) \<Rightarrow> bt_insert key c m)"

definition settled_entry :: "entry \<Rightarrow> bool" where
  "settled_entry e = (case selected (e_record e) of None \<Rightarrow> False | Some f \<Rightarrow> is_terminal (f_status (sf_fact f)))"

fun replica_candidates :: "(string, entry) btree \<Rightarrow> (string, candidate) btree \<Rightarrow> (string, candidate) btree" where
  "replica_candidates [] m = m"
| "replica_candidates ((key, e) # es) m = replica_candidates es
     (if 0 < co_bytes (e_output e) \<and> settled_entry e then
        (case bt_get m key of
           Some (age, p, n) \<Rightarrow> bt_insert key (age, p, n + co_bytes (e_output e)) m
         | None \<Rightarrow> bt_insert key (e_change e, Replica key, co_bytes (e_output e)) m)
      else m)"

definition candidates :: "store \<Rightarrow> candidate list" where
  "candidates s = sort_key fst (bt_values (replica_candidates (hs_entries (st_history s))
     (local_candidates s (st_jobs s) [])))"

definition clear_job :: "job \<Rightarrow> job" where
  "clear_job j = j\<lparr>j_stdout := [], j_stderr := []\<rparr>"

definition forget_payload :: "string \<Rightarrow> store \<Rightarrow> store res" where
  "forget_payload key s = (case checked_succ (hs_clock (st_history s)) of
       None \<Rightarrow> Inl (Protocol ''history sequence exhausted'')
     | Some change \<Rightarrow> Inr (s\<lparr>st_history := (st_history s)\<lparr>hs_clock := change,
           hs_entries := bt_adjust key (\<lambda>e. e\<lparr>e_output := None, e_change := change\<rparr>) (hs_entries (st_history s))\<rparr>,
         st_history_pruned := insert key (st_history_pruned s)\<rparr>))"

definition remove_payload :: "payload \<Rightarrow> store \<Rightarrow> store res" where
  "remove_payload p s = (case p of
       Local i \<Rightarrow>
         rbind (ok_or (st_job_certificates s i) (Protocol ''output has no admission record'')) (\<lambda>key.
         if find_job s i = None then Inl (Protocol ''output job disappeared'')
         else forget_payload key (s\<lparr>st_jobs := update_first (\<lambda>j. j_id j = i) clear_job (st_jobs s),
                                   st_output_pruned := insert i (st_output_pruned s)\<rparr>))
     | Replica key \<Rightarrow> forget_payload key s)"

text \<open>The owner's \<open>clix prune\<close>: the oldest payloads go until \<open>keep\<close> of them are left.\<close>

definition prune :: "nat \<Rightarrow> store \<Rightarrow> (nat \<times> store) res" where
  "prune keep s =
     (let cs = candidates s
      in rbind (fold_r (\<lambda>(_, p, _). remove_payload p) (take (length cs - keep) cs) s) (\<lambda>s'.
         Inr (output_bytes s - output_bytes s', s')))"

section \<open>Preparing an update\<close>

definition count_limit :: "string \<Rightarrow> nat \<Rightarrow> nat \<Rightarrow> nat \<Rightarrow> unit res" where
  "count_limit name new old mx =
     (if mx < new \<and> old < new
      then Inl (Capacity (name @ '' limit ('' @ decimal mx @
             '') reached; new admissions are refused, existing records are preserved''))
      else Inr ())"

definition count_limits :: "store \<Rightarrow> store \<Rightarrow> unit res" where
  "count_limits new old =
     rbind (count_limit ''execution receipt'' (length (st_jobs new)) (length (st_jobs old)) MAX_JOBS) (\<lambda>_.
     rbind (count_limit ''history record'' (length (hs_entries (st_history new)))
              (length (hs_entries (st_history old))) MAX_HISTORY) (\<lambda>_.
     rbind (count_limit ''request delivery receipt'' (length (st_request_receipts new))
              (length (st_request_receipts old)) MAX_REQUEST_RECEIPTS) (\<lambda>_.
     rbind (count_limit ''pending request'' (length (st_requests new)) (length (st_requests old))
              MAX_PENDING_REQUESTS) (\<lambda>_.
     rbind (count_limit ''outbound request'' (length (st_outbound_requests new))
              (length (st_outbound_requests old)) MAX_OUTBOUND_REQUESTS) (\<lambda>_.
     rbind (count_limit ''paired machine'' (length (st_peers new)) (length (st_peers old)) MAX_PEERS) (\<lambda>_.
     count_limit ''grant'' (length (st_grants new)) (length (st_grants old)) MAX_GRANTS))))))"

fun shrink :: "candidate list \<Rightarrow> store \<Rightarrow> store res" where
  "shrink [] s = Inr s"
| "shrink ((_, p, _) # cs) s =
     (if output_bytes s \<le> OUTPUT_BYTES then Inr s else rbind (remove_payload p s) (shrink cs))"

definition prepare :: "store \<Rightarrow> store \<Rightarrow> store res" where
  "prepare new old =
     rbind (count_limits new old) (\<lambda>_.
     if OUTPUT_BYTES < output_bytes new then
       rbind (shrink (candidates new) new) (\<lambda>s.
       if OUTPUT_BYTES < output_bytes s
       then Inl (Capacity ''retained output budget is full; active or unverified data was preserved'')
       else Inr s)
     else Inr new)"

section \<open>Capacity reserved for completions\<close>

definition digits_of_byte :: "byte \<Rightarrow> nat" where
  "digits_of_byte b = (if 100 \<le> unat b then 3 else if 10 \<le> unat b then 2 else 1)"

definition payload_json_bytes :: "bytes \<Rightarrow> nat" where
  "payload_json_bytes bs = (if bs = [] then 0 else sum_list (map digits_of_byte bs) + length bs - 1)"

fun ilog10 :: "nat \<Rightarrow> nat" where
  "ilog10 n = (if n < 10 then 0 else Suc (ilog10 (n div 10)))"

declare ilog10.simps [simp del]

definition sequence_headroom :: "nat \<Rightarrow> nat" where
  "sequence_headroom n = 20 - (if n = 0 then 1 else ilog10 n + 1)"

definition payload_charge :: "store \<Rightarrow> nat" where
  "payload_charge s =
     sum_list (map (\<lambda>j. payload_json_bytes (j_stdout j) + payload_json_bytes (j_stderr j)) (st_jobs s)) +
     sum_list (map (\<lambda>e. case e_output e of None \<Rightarrow> 0
         | Some c \<Rightarrow> payload_json_bytes (co_stdout c) + payload_json_bytes (co_stderr c))
       (bt_values (hs_entries (st_history s))))"

definition receipt_charge :: "host_io \<Rightarrow> store \<Rightarrow> nat" where
  "receipt_charge io s =
     sum_list (map (\<lambda>j. length (io_string io (j_id j)) + 1)
       (filter (\<lambda>j. j_id j \<notin> st_output_pruned s) (st_jobs s))) +
     sum_list (map (\<lambda>k. length (io_string io k) + 1)
       (filter (\<lambda>k. k \<notin> st_history_pruned s) (bt_keys (hs_entries (st_history s)))))"

definition sequence_charge :: "store \<Rightarrow> nat" where
  "sequence_charge s = sequence_headroom (hs_clock (st_history s)) +
     sum_list (map (\<lambda>e. sequence_headroom (e_change e)) (bt_values (hs_entries (st_history s))))"

definition pending_jobs :: "store \<Rightarrow> nat" where
  "pending_jobs s = length (filter (\<lambda>j. \<not> is_terminal (j_status j)) (st_jobs s))"

definition completion_charge :: "host_io \<Rightarrow> store \<Rightarrow> nat \<Rightarrow> nat" where
  "completion_charge io s encoded =
     sat_add (sat_add (sat_add (sat_add (encoded - payload_charge s) (receipt_charge io s))
       (sequence_charge s)) (OUTPUT_BYTES * 4)) (min (pending_jobs s * COMPLETION_RESERVE) u64_max)"

definition reserve_completion :: "host_io \<Rightarrow> store \<Rightarrow> store \<Rightarrow> nat \<Rightarrow> unit res" where
  "reserve_completion io s old encoded =
     (let charge = completion_charge io s encoded
      in if charge \<le> STATE_BYTES then Inr ()
         else rbind (encode io old) (\<lambda>bs.
              if charge \<le> completion_charge io old (length bs) then Inr ()
              else Inl (Capacity ''state capacity is reserved for admitted job outcomes; new work is refused'')))"

definition storage_status :: "store \<Rightarrow> json" where
  "storage_status s = JObj [(''state_limit_bytes'', nat_json STATE_BYTES),
     (''retained_output_limit_bytes'', nat_json OUTPUT_BYTES),
     (''retained_output_bytes'', nat_json (output_bytes s)),
     (''admitted_job_records'', nat_json (length (st_jobs s))),
     (''execution_receipt_limit'', nat_json MAX_JOBS),
     (''request_receipts'', nat_json (length (st_request_receipts s))),
     (''request_receipt_limit'', nat_json MAX_REQUEST_RECEIPTS),
     (''history_records'', nat_json (length (hs_entries (st_history s)))),
     (''history_record_limit'', nat_json MAX_HISTORY),
     (''storage_error'', opt_json JStr (storage_error s)),
     (''running_children_limit'', nat_json CHILDREN),
     (''outbound_attempt_limit'', nat_json DISPATCH),
     (''pruning'', JStr ''Only saved output is pruned; invocation and delivery receipts remain to reject replays.'')]"

section \<open>What removing payloads keeps\<close>

text \<open>A store without its payloads: everything pruning has to keep.\<close>

definition bare_entry :: "entry \<Rightarrow> entry" where
  "bare_entry e = e\<lparr>e_output := None, e_change := 0\<rparr>"

definition retained :: "store \<Rightarrow> store" where
  "retained s = s\<lparr>st_jobs := map job_core (st_jobs s), st_output_pruned := {}, st_history_pruned := {},
     st_history := (st_history s)\<lparr>hs_clock := 0,
       hs_entries := map (\<lambda>(k, e). (k, bare_entry e)) (hs_entries (st_history s))\<rparr>\<rparr>"

definition active_jobs :: "store \<Rightarrow> job list" where
  "active_jobs s = filter (\<lambda>j. \<not> is_terminal (j_status j)) (st_jobs s)"

definition jobs_wf :: "store \<Rightarrow> bool" where
  "jobs_wf s \<longleftrightarrow> distinct (map j_id (st_jobs s))"

lemma clear_core [simp]: "job_core (clear_job j) = job_core j"
  by (simp add: clear_job_def job_core_def)

lemma core_sel [simp]: "j_id (job_core j) = j_id j" "j_status (job_core j) = j_status j"
  by (simp_all add: job_core_def)

lemma clear_sel [simp]: "j_id (clear_job j) = j_id j" "j_status (clear_job j) = j_status j"
  by (simp_all add: clear_job_def)

lemma core_keys:
  assumes "map job_core xs = map job_core ys"
  shows "map j_id xs = map j_id ys" "map (\<lambda>j. (j_id j, j_status j)) xs = map (\<lambda>j. (j_id j, j_status j)) ys"
proof -
  have "map j_id xs = map j_id (map job_core xs)" "map (\<lambda>j. (j_id j, j_status j)) xs =
      map (\<lambda>j. (j_id j, j_status j)) (map job_core xs)" for xs
    by simp_all
  with assms show "map j_id xs = map j_id ys"
    "map (\<lambda>j. (j_id j, j_status j)) xs = map (\<lambda>j. (j_id j, j_status j)) ys" by metis+
qed

lemma retained_jobs: "retained s' = retained s \<Longrightarrow> map job_core (st_jobs s') = map job_core (st_jobs s)"
  by (drule arg_cong [where f = st_jobs]) (simp add: retained_def)

lemma retained_wf:
  assumes "retained s' = retained s"
  shows "jobs_wf s' = jobs_wf s"
  by (simp only: jobs_wf_def core_keys(1) [OF retained_jobs [OF assms]])

lemma forget_payload_retained:
  assumes "forget_payload key s = Inr s'"
  shows "retained s' = retained s" "st_jobs s' = st_jobs s" "key \<in> st_history_pruned s'"
    "st_history_pruned s \<subseteq> st_history_pruned s'" "st_output_pruned s' = st_output_pruned s"
  using assms by (auto simp: forget_payload_def retained_def bt_adjust_def bare_entry_def comp_def
      split: option.splits prod.splits)

lemma forget_payload_grows:
  assumes f: "forget_payload key s = Inr s'" and wf: "ledger_wf cr s"
  shows "ledger_wf cr s' \<and> ledger_le s s'"
proof -
  let ?h = "st_history s"
  let ?f = "\<lambda>e. e\<lparr>e_output := None, e_change := Suc (hs_clock ?h)\<rparr>"
  from f have h: "st_history s' = ?h\<lparr>hs_clock := Suc (hs_clock ?h), hs_entries := bt_adjust key ?f (hs_entries ?h)\<rparr>"
    by (auto simp: forget_payload_def split: option.splits)
  have hw: "hist_wf cr ?h" and ok: "bt_ok (hs_entries ?h)" using wf by (simp_all add: ledger_wf_def hist_wf_def)
  show ?thesis
  proof (cases "bt_get (hs_entries ?h) key")
    case None
    then have "bt_adjust key ?f (hs_entries ?h) = hs_entries ?h"
      by (force simp: bt_adjust_def bt_get_def map_of_eq_None_iff intro: map_idI)
    with h hw show ?thesis
      by (auto simp: ledger_wf_def ledger_le_def hist_wf_def hist_le_def le_SucI intro: record_le_refl)
  next
    case (Some e)
    with h ok have "st_history s' = file_entry key (?f e) ?h" by (simp add: file_entry_def bt_adjust_insert)
    moreover have "key = invocation_hash cr (rec_certificate (e_record e))" using hw Some by (simp add: hist_wf_def)
    ultimately show ?thesis
      using hw Some by (auto simp: ledger_wf_def ledger_le_def intro!: hist_wf_file hist_le_file)
  qed
qed

lemma remove_payload_steps:
  assumes "remove_payload p s = Inr s'"
  obtains (replica) key where "p = Replica key" "forget_payload key s = Inr s'"
  | (loc) i key where "p = Local i" "st_job_certificates s i = Some key" "i \<in> j_id ` set (st_jobs s)"
      "forget_payload key (s\<lparr>st_jobs := update_first (\<lambda>j. j_id j = i) clear_job (st_jobs s),
         st_output_pruned := insert i (st_output_pruned s)\<rparr>) = Inr s'"
  using assms by (cases p) (auto simp: remove_payload_def result_simps image_iff)

lemma remove_payload_retained:
  assumes "remove_payload p s = Inr s'"
  shows "retained s' = retained s"
  using assms
proof (cases rule: remove_payload_steps)
  case (loc i key)
  have "map job_core (update_first (\<lambda>j. j_id j = i) clear_job (st_jobs s)) = map job_core (st_jobs s)"
    by (rule map_update_first) simp
  with forget_payload_retained(1) [OF loc(4)] show ?thesis by (simp add: retained_def)
qed (rule forget_payload_retained)

lemma remove_payload_grows:
  assumes "remove_payload p s = Inr s'" and "ledger_wf cr s"
  shows "ledger_wf cr s' \<and> ledger_le s s'"
  using assms(1)
proof (cases rule: remove_payload_steps)
  case (loc i key)
  with forget_payload_grows [OF loc(4)] assms(2) show ?thesis by (simp add: ledger_wf_def ledger_le_def)
qed (use forget_payload_grows assms(2) in blast)

definition spared :: "payload \<Rightarrow> store \<Rightarrow> bool" where
  "spared p s \<longleftrightarrow> (case p of Replica _ \<Rightarrow> True
     | Local i \<Rightarrow> \<forall>j \<in> set (st_jobs s). j_id j = i \<longrightarrow> is_terminal (j_status j))"

lemma remove_payload_active:
  assumes "remove_payload p s = Inr s'" and "spared p s"
  shows "active_jobs s' = active_jobs s"
  using assms(1)
proof (cases rule: remove_payload_steps)
  case (loc i key)
  then have "st_jobs s' = update_first (\<lambda>j. j_id j = i) clear_job (st_jobs s)"
    using forget_payload_retained(2) by force
  with loc(1) assms(2) show ?thesis
    by (simp add: active_jobs_def) (rule filter_update_first, auto simp: spared_def)
next
  case replica
  then show ?thesis by (simp add: active_jobs_def forget_payload_retained(2))
qed

lemma spared_alt:
  "spared p s \<longleftrightarrow> (case p of Replica _ \<Rightarrow> True
     | Local i \<Rightarrow> \<forall>(a, st) \<in> set (map (\<lambda>j. (j_id j, j_status j)) (st_jobs s)). a = i \<longrightarrow> is_terminal st)"
  by (simp add: spared_def split: payload.split)

lemma spared_retained:
  assumes "retained s' = retained s"
  shows "spared p s' = spared p s"
  by (simp only: spared_alt core_keys(2) [OF retained_jobs [OF assms]])

lemma local_candidates_spared:
  assumes "(k, a, Local i, n) \<in> set (local_candidates s js m)"
  shows "(k, a, Local i, n) \<in> set m \<or> (\<exists>j \<in> set js. j_id j = i \<and> is_terminal (j_status j))"
  using assms
proof (induction js arbitrary: m)
  case (Cons j js)
  let ?m = "case local_candidate s j of None \<Rightarrow> m | Some (key, c) \<Rightarrow> bt_insert key c m"
  have "(k, a, Local i, n) \<in> set m \<or> (j_id j = i \<and> is_terminal (j_status j))" if "(k, a, Local i, n) \<in> set ?m"
    using that subsetD [OF set_bt_insert_subset]
    by (fastforce simp: local_candidate_def bind_eq_Some_conv split: option.splits if_splits)
  with Cons show ?case by fastforce
qed simp

lemma replica_candidates_local:
  assumes "(k, a, Local i, n) \<in> set (replica_candidates es m)"
  shows "\<exists>k' a' n'. (k', a', Local i, n') \<in> set m"
  using assms
proof (induction es m rule: replica_candidates.induct)
  case (2 key e es m)
  let ?m = "if 0 < co_bytes (e_output e) \<and> settled_entry e then
        (case bt_get m key of
           Some (age, p, n) \<Rightarrow> bt_insert key (age, p, n + co_bytes (e_output e)) m
         | None \<Rightarrow> bt_insert key (e_change e, Replica key, co_bytes (e_output e)) m)
      else m"
  from 2 obtain k' a' n' where "(k', a', Local i, n') \<in> set ?m" by auto
  then show ?case
    using subsetD [OF set_bt_insert_subset] bt_get_Some_set
    by (fastforce split: if_splits option.splits)
qed auto

lemma candidates_spared:
  assumes "jobs_wf s" and "(a, p, n) \<in> set (candidates s)"
  shows "spared p s"
proof (cases p)
  case (Local i)
  with assms(2) obtain k where "(k, a, Local i, n) \<in> set (replica_candidates (hs_entries (st_history s))
      (local_candidates s (st_jobs s) []))"
    by (auto simp: candidates_def bt_values_def)
  from replica_candidates_local [OF this] obtain k' a' n' where
    "(k', a', Local i, n') \<in> set (local_candidates s (st_jobs s) [])" by blast
  from local_candidates_spared [OF this]
  obtain j where "j \<in> set (st_jobs s)" "j_id j = i" "is_terminal (j_status j)" by auto
  with assms(1) Local show ?thesis
    by (auto simp: spared_def jobs_wf_def distinct_map dest: inj_onD)
qed (simp add: spared_def)

text \<open>One law for every sequence of removals: the frame, the active jobs and the ledger.\<close>

definition pruned_from :: "crypto \<Rightarrow> store \<Rightarrow> store \<Rightarrow> bool" where
  "pruned_from cr s s' \<longleftrightarrow> retained s' = retained s \<and> active_jobs s' = active_jobs s \<and>
     (ledger_wf cr s \<longrightarrow> ledger_wf cr s' \<and> ledger_le s s')"

lemma pruned_from_refl: "pruned_from cr s s"
  by (simp add: pruned_from_def ledger.le_refl)

lemma pruned_from_step:
  assumes "remove_payload p s' = Inr s''" and "spared p s" and "pruned_from cr s s'"
  shows "pruned_from cr s s''"
proof -
  have ret: "retained s' = retained s" and act: "active_jobs s' = active_jobs s"
    and grow: "ledger_wf cr s \<Longrightarrow> ledger_wf cr s' \<and> ledger_le s s'"
    using assms(3) by (simp_all add: pruned_from_def)
  have "spared p s'" using assms(2) spared_retained [OF ret] by simp
  then show ?thesis
    unfolding pruned_from_def
    using ret act grow remove_payload_retained [OF assms(1)] remove_payload_active [OF assms(1)]
      remove_payload_grows [OF assms(1), of cr] ledger.le_trans by metis
qed

lemma shrink_from:
  assumes "shrink cs s' = Inr s''" and "\<forall>(a, p, n) \<in> set cs. spared p s" and "pruned_from cr s s'"
  shows "pruned_from cr s s''"
  using assms
  by (induction cs s' rule: shrink.induct) (auto simp: result_simps intro: pruned_from_step split: if_splits)

lemma prune_from:
  assumes "fold_r (\<lambda>(_, p, _). remove_payload p) cs s' = Inr s''" and "\<forall>(a, p, n) \<in> set cs. spared p s"
    and "pruned_from cr s s'"
  shows "pruned_from cr s s''"
  using assms(1,3)
  by (rule fold_r_invariant [where P = "pruned_from cr s"]) (use assms(2) in \<open>auto intro: pruned_from_step\<close>)

lemma prepare_steps:
  assumes "prepare new old = Inr s'"
  shows "count_limits new old = Inr ()" "output_bytes s' \<le> OUTPUT_BYTES"
    "s' = new \<or> shrink (candidates new) new = Inr s'"
  using assms by (auto simp: prepare_def result_simps split: if_splits)

lemma prepare_from:
  assumes "prepare new old = Inr s'" and "jobs_wf new"
  shows "pruned_from cr new s'"
proof -
  have "\<forall>(a, p, n) \<in> set (candidates new). spared p new" using candidates_spared [OF assms(2)] by auto
  with prepare_steps(3) [OF assms(1)] show ?thesis
    using shrink_from pruned_from_refl by blast
qed

text \<open>Payload bytes only go down.\<close>

lemma forget_output_le: "forget_payload key s = Inr s' \<Longrightarrow> output_bytes s' \<le> output_bytes s"
proof -
  assume f: "forget_payload key s = Inr s'"
  have "sum_list (map (\<lambda>e. co_bytes (e_output e)) (bt_values (bt_adjust key (\<lambda>e. e\<lparr>e_output := None, e_change := c\<rparr>) es)))
      \<le> sum_list (map (\<lambda>e. co_bytes (e_output e)) (bt_values es))" for c and es :: "(string, entry) btree"
    by (induction es) (auto simp: bt_adjust_def bt_values_def co_bytes_def)
  with f show ?thesis by (auto simp: forget_payload_def output_bytes_def split: option.splits)
qed

lemma remove_output_le: "remove_payload p s = Inr s' \<Longrightarrow> output_bytes s' \<le> output_bytes s"
proof (erule remove_payload_steps)
  fix i key
  let ?s = "s\<lparr>st_jobs := update_first (\<lambda>j. j_id j = i) clear_job (st_jobs s),
         st_output_pruned := insert i (st_output_pruned s)\<rparr>"
  have "sum_list (map job_bytes (update_first (\<lambda>j. j_id j = i) clear_job (st_jobs s))) \<le> sum_list (map job_bytes (st_jobs s))"
    by (rule sum_list_update_first_le) (simp add: job_bytes_def clear_job_def)
  then have "output_bytes ?s \<le> output_bytes s" by (simp add: output_bytes_def)
  moreover assume "forget_payload key ?s = Inr s'"
  ultimately show ?thesis using forget_output_le le_trans by blast
qed (rule forget_output_le)

section \<open>Pruning and the output budget\<close>

text \<open>C35: The owner's pruning removes only payloads: every job row, status, signed fact, certificate
  binding and delivery receipt survives, a job that has not finished keeps its output, the reported
  number is what was freed, and a pruned entry is never exported with output again.\<close>

theorem prune_keeps_receipts:
  assumes "prune keep s = Inr (freed, s')" and "jobs_wf s" and "ledger_wf cr s"
  shows "retained s' = retained s \<and> active_jobs s' = active_jobs s \<and> ledger_wf cr s' \<and> ledger_le s s' \<and>
    output_bytes s' + freed = output_bytes s \<and>
    (\<forall>e. invocation_hash cr (rec_certificate (e_record e)) \<in> st_history_pruned s' \<longrightarrow>
       pub_output (export_entry cr s' e) = None)"
proof -
  let ?cs = "take (length (candidates s) - keep) (candidates s)"
  from assms(1) have fold: "fold_r (\<lambda>(_, p, _). remove_payload p) ?cs s = Inr s'"
    and freed: "freed = output_bytes s - output_bytes s'"
    by (auto simp: prune_def Let_def result_simps)
  have "\<forall>(a, p, n) \<in> set ?cs. spared p s"
    using candidates_spared [OF assms(2)] by (auto dest: in_set_takeD)
  then have "pruned_from cr s s'" by (rule prune_from [OF fold _ pruned_from_refl])
  moreover have "output_bytes s' \<le> output_bytes s"
    by (rule fold_r_invariant [OF fold, where P = "\<lambda>u. output_bytes u \<le> output_bytes s"])
      (auto dest: remove_output_le)
  moreover have "pub_output (export_entry cr s' e) = None"
    if "invocation_hash cr (rec_certificate (e_record e)) \<in> st_history_pruned s'" for e
    using that by (cases "selected (e_record e)") (simp_all add: export_entry_def selected_output_def Let_def)
  ultimately show ?thesis using assms(3) freed by (simp add: pruned_from_def)
qed

definition within_cap :: "nat \<Rightarrow> nat \<Rightarrow> nat \<Rightarrow> bool" where
  "within_cap new old mx \<longleftrightarrow> new \<le> mx \<or> new \<le> old"

lemma count_limit_ok: "count_limit name new old mx = Inr u \<longleftrightarrow> within_cap new old mx"
  by (auto simp: count_limit_def within_cap_def)


section \<open>The widths the charge counts\<close>

lemma length_decimal: "length (decimal n) = ilog10 n + 1"
proof (induction n rule: decimal.induct)
  case (1 n)
  then show ?case by (subst decimal.simps, subst ilog10.simps) simp
qed

lemma ilog10_bound: "n < 10 ^ Suc k \<Longrightarrow> ilog10 n \<le> k"
proof (induction k arbitrary: n)
  case 0
  then show ?case by (subst ilog10.simps) simp
next
  case (Suc k)
  then have "n div 10 < 10 ^ Suc k" by (simp add: div_less_iff_less_mult mult.commute)
  with Suc.IH show ?case by (subst ilog10.simps) auto
qed

lemma digits_of_byte_decimal: "digits_of_byte b = length (decimal (unat b))"
proof -
  have "unat b < 2 ^ LENGTH(8)" by (rule unsigned_less)
  then have "unat b < 1000" by simp
  moreover have "ilog10 n = (if n < 10 then 0 else if n < 100 then 1 else 2)" if "n < 1000" for n
    using that by (subst ilog10.simps, subst ilog10.simps, subst ilog10.simps) auto
  ultimately show ?thesis by (simp add: digits_of_byte_def length_decimal)
qed

lemma length_join: "xs \<noteq> [] \<Longrightarrow> length (join_with [c] xs) + 1 = sum_list (map length xs) + length xs"
  by (induction "[c]" xs rule: join_with.induct) auto

text \<open>The reserved capacity counts exact JSON widths: a payload is charged what its array of
  numbers takes between the brackets, and every sequence number is charged up to the 20 digits a
  64-bit number can grow to.\<close>

theorem charge_counts_json_widths:
  "payload_json_bytes bs = length (join_with '','' (map (\<lambda>b. decimal (unat b)) bs)) \<and>
   (n \<le> u64_max \<longrightarrow> length (decimal n) + sequence_headroom n = 20)"
proof -
  have "payload_json_bytes bs = length (join_with '','' (map (\<lambda>b. decimal (unat b)) bs))"
  proof (cases "bs = []")
    case False
    have "digits_of_byte = (\<lambda>b. length (decimal (unat b)))" by (simp add: fun_eq_iff digits_of_byte_decimal)
    with False have "length (join_with '','' (map (\<lambda>b. decimal (unat b)) bs)) + 1 = sum_list (map digits_of_byte bs) + length bs"
      by (subst length_join) (simp_all add: comp_def)
    with False show ?thesis by (simp add: payload_json_bytes_def)
  qed (simp add: payload_json_bytes_def)
  moreover have "length (decimal n) + sequence_headroom n = 20" if "n \<le> u64_max"
  proof -
    have "ilog10 n \<le> 19" using that by (intro ilog10_bound) (simp add: u64_max_def)
    moreover have "ilog10 0 = 0" by (subst ilog10.simps) simp
    ultimately show ?thesis by (simp add: sequence_headroom_def length_decimal)
  qed
  ultimately show ?thesis by blast
qed

end
