(* ===== verification/Clix_Store.thy ===== *)
theory Clix_Store
  imports Clix_Storage
begin

text \<open>
  \<open>src/store.rs\<close>: the durable state.  A node is the store in memory and the one the state file
  holds.  The outcomes of the system calls of one save (\<open>save_env\<close>), the fresh identifier and the
  third-party code are the fields of a \<open>ctx\<close>.  Serialising drops the skipped fields and rounds
  expiry times to seconds (\<open>durable\<close>).
\<close>

record save_env =
  sv_private_dir :: "unit res"
  sv_tmp_id :: "string res"
  sv_create :: "unit res"
  sv_write :: "unit res"
  sv_sync :: "unit res"
  sv_rename :: "unit res"
  sv_sync_dir :: "unit res"

record ctx =
  cx_crypto :: crypto
  cx_io :: host_io
  cx_new_id :: "string res"
  cx_save :: save_env

type_synonym node = "store \<times> store option"

section \<open>The state file\<close>

definition durable_grant :: "grant \<Rightarrow> grant" where
  "durable_grant g = g\<lparr>g_until := map_option (\<lambda>n. int n * ns_per_sec) (system_time_ser (g_until g))\<rparr>"

definition durable_progress :: "progress \<Rightarrow> progress" where
  "durable_progress g = g\<lparr>pg_last_contact := None, pg_error := None\<rparr>"

definition durable :: "store \<Rightarrow> store" where
  "durable s = s\<lparr>st_dir := [], st_write_error := None, st_pin_dir := None,
     st_grants := map durable_grant (st_grants s),
     st_history := (st_history s)\<lparr>hs_peers := map_option durable_progress \<circ> hs_peers (st_history s)\<rparr>\<rparr>"

text \<open>\<open>save_encoded\<close>: the temporary file replaces the state file by a rename.  A failure after the
  rename (syncing the directory) is reported although the file was replaced.\<close>

definition save_encoded :: "save_env \<Rightarrow> store \<Rightarrow> store option \<Rightarrow> unit res \<times> store option" where
  "save_encoded sv s disk =
     (let before = rbind (sv_private_dir sv) (\<lambda>_. rbind (sv_tmp_id sv) (\<lambda>_. rbind (sv_create sv) (\<lambda>_.
            rbind (sv_write sv) (\<lambda>_. rbind (sv_sync sv) (\<lambda>_. sv_rename sv)))))
      in case before of
           Inl e \<Rightarrow> (Inl e, disk)
         | Inr _ \<Rightarrow> (sv_sync_dir sv, Some (durable s)))"

definition save :: "ctx \<Rightarrow> store \<Rightarrow> store option \<Rightarrow> unit res \<times> store option" where
  "save cx s disk = (case encode (cx_io cx) s of
       Inl e \<Rightarrow> (Inl e, disk)
     | Inr _ \<Rightarrow> save_encoded (cx_save cx) s disk)"

section \<open>Updating\<close>

text \<open>Everything \<open>update\<close> does to its copy before it is written.\<close>

definition update_next :: "ctx \<Rightarrow> (store \<Rightarrow> ('a \<times> store) res) \<Rightarrow> store \<Rightarrow> ('a \<times> store) res" where
  "update_next cx edit s =
     rbind (ensure_writable s) (\<lambda>_.
     rbind (edit s) (\<lambda>(v, n1).
     rbind (refresh_owned (cx_crypto cx) (cx_new_id cx) (st_jobs s) n1) (\<lambda>n2.
     rbind (prepare (normalize_output (n2\<lparr>st_format_version := FORMAT_VERSION\<rparr>)) s) (\<lambda>n3.
     rbind (encode (cx_io cx) n3) (\<lambda>bs.
     rbind (reserve_completion (cx_io cx) n3 s (length bs)) (\<lambda>_. Inr (v, n3)))))))"

definition update :: "ctx \<Rightarrow> (store \<Rightarrow> ('a \<times> store) res) \<Rightarrow> node \<Rightarrow> 'a res \<times> node" where
  "update cx edit nd = (case nd of (s, disk) \<Rightarrow>
     (case update_next cx edit s of
        Inl e \<Rightarrow> (Inl e, s, disk)
      | Inr (v, n) \<Rightarrow>
          (case save_encoded (cx_save cx) n disk of
             (Inl e, disk') \<Rightarrow> (Inl e, s\<lparr>st_write_error := Some (error_text e)\<rparr>, disk')
           | (Inr _, disk') \<Rightarrow> (Inr v, n, disk'))))"

section \<open>Opening\<close>

definition fresh_store :: "string \<Rightarrow> string \<Rightarrow> bytes \<Rightarrow> store" where
  "fresh_store dir hostname sk = \<lparr>st_dir = dir, st_write_error = None, st_body_name = hostname, st_owner_sk = sk,
     st_peers = [], st_grants = [], st_jobs = [], st_requests = [], st_outbound_requests = [],
     st_request_receipts = [], st_pin_index = default_pin_index, st_history = default_history,
     st_retry_links = Map.empty, st_job_certificates = Map.empty, st_legacy_jobs = {}, st_output_pruned = {},
     st_history_pruned = {}, st_format_version = FORMAT_VERSION, st_pin_enabled = False, st_pin_dir = None\<rparr>"

text \<open>The state file as found: its size and what serde reads from it.\<close>

record state_file =
  sf_size :: nat
  sf_parsed :: "store res"

definition open_named :: "ctx \<Rightarrow> string \<Rightarrow> store \<Rightarrow> store option \<Rightarrow> node res" where
  "open_named cx hostname s disk =
     (if st_body_name s = [] \<and> st_peers s = [] \<and> st_jobs s = [] \<and> st_grants s = [] then
        let s' = s\<lparr>st_body_name := hostname\<rparr>
        in case save cx s' disk of (Inl e, _) \<Rightarrow> Inl e | (Inr _, disk') \<Rightarrow> Inr (s', disk')
      else Inr (s, disk))"

definition open_keyed :: "ctx \<Rightarrow> bytes res \<Rightarrow> store \<Rightarrow> store option \<Rightarrow> node res" where
  "open_keyed cx new_sk s disk =
     (if st_owner_sk s = [] then
        rbind new_sk (\<lambda>sk. let s' = s\<lparr>st_owner_sk := sk\<rparr>
        in case save cx s' disk of (Inl e, _) \<Rightarrow> Inl e | (Inr _, disk') \<Rightarrow> Inr (s', disk'))
      else Inr (s, disk))"

definition open_store :: "ctx \<Rightarrow> unit res \<Rightarrow> string \<Rightarrow> string \<Rightarrow> bytes res \<Rightarrow> state_file option \<Rightarrow> node res" where
  "open_store cx private_dir dir hostname new_sk file =
     rbind private_dir (\<lambda>_.
     case file of
       Some f \<Rightarrow>
         if STATE_BYTES < sf_size f
         then Inl (Capacity ''saved Clix state exceeds the supported 128 MiB limit; file preserved'')
         else rbind (sf_parsed f) (\<lambda>parsed.
           if FORMAT_VERSION < st_format_version parsed then Inl (Usage ''this state needs a newer Clix binary'')
           else rbind (open_named cx hostname (parsed\<lparr>st_dir := dir\<rparr>) (Some parsed)) (\<lambda>(s, disk).
                open_keyed cx new_sk s disk))
     | None \<Rightarrow>
         rbind new_sk (\<lambda>sk.
         rbind (refresh_owned (cx_crypto cx) (cx_new_id cx) [] (fresh_store dir hostname sk)) (\<lambda>s.
         case save cx s None of (Inl e, _) \<Rightarrow> Inl e | (Inr _, disk') \<Rightarrow> Inr (s, disk'))))"

section \<open>Recovery and job rows\<close>

definition local_running :: "store \<Rightarrow> job \<Rightarrow> bool" where
  "local_running s j \<longleftrightarrow> j_body j = st_body_name s \<and> j_status j = Running"

definition mark_uncertain :: "string \<Rightarrow> store \<Rightarrow> store" where
  "mark_uncertain reason s =
     s\<lparr>st_jobs := map (\<lambda>j. if local_running s j then j\<lparr>j_status := Uncertain reason\<rparr> else j) (st_jobs s)\<rparr>"

definition recover_jobs :: "ctx \<Rightarrow> node \<Rightarrow> unit res \<times> node" where
  "recover_jobs cx nd =
     (if hs_initialized (st_history (fst nd)) \<and> \<not> list_ex (local_running (fst nd)) (st_jobs (fst nd))
      then (Inr (), nd)
      else update cx (\<lambda>s. Inr ((), mark_uncertain ''sidecar restarted during execution; the command may have taken effect. Not rerunning.'' s)) nd)"

definition recovery_failed :: "clix_error \<Rightarrow> store \<Rightarrow> store" where
  "recovery_failed e s = mark_uncertain
     ''sidecar restarted during execution and could not save recovery; the command may have taken effect. Not rerunning.''
     (s\<lparr>st_write_error := (case st_write_error s of None \<Rightarrow> Some (error_text e) | Some r \<Rightarrow> Some r)\<rparr>)"

text \<open>Replace the row of a job, or add it.\<close>

definition set_job :: "job \<Rightarrow> store \<Rightarrow> store" where
  "set_job j s = (if find_job s (j_id j) \<noteq> None
     then s\<lparr>st_jobs := update_first (\<lambda>x. j_id x = j_id j) (\<lambda>_. j) (st_jobs s)\<rparr>
     else s\<lparr>st_jobs := st_jobs s @ [j]\<rparr>)"

definition put_job :: "ctx \<Rightarrow> job \<Rightarrow> node \<Rightarrow> unit res \<times> node" where
  "put_job cx j nd = update cx (\<lambda>s. Inr ((), set_job j s)) nd"

definition append_job :: "ctx \<Rightarrow> job \<Rightarrow> node \<Rightarrow> unit res \<times> node" where
  "append_job cx j nd = put_job cx j nd"

section \<open>An update commits or leaves the state alone\<close>

text \<open>
  The contract every operation of the program relies on: a successful run is on disk before it is
  visible, a failed one changes no data, and after a failed write nothing is accepted any more.
\<close>

locale durable_commit =
  fixes run :: "'e \<Rightarrow> 's \<Rightarrow> 'r res \<times> 's" and data :: "'s \<Rightarrow> 'd" and disk :: "'s \<Rightarrow> 'd option"
    and failed :: "'s \<Rightarrow> bool"
  assumes commit: "\<not> failed s \<Longrightarrow> run e s = (Inr r, s') \<Longrightarrow> disk s' = Some (data s')"
    and reject: "run e s = (Inl x, s') \<Longrightarrow> data s' = data s \<and> (s' = s \<or> failed s')"
    and stopped: "failed s \<Longrightarrow> \<exists>x. run e s = (Inl x, s)"
begin

definition synced :: "'s \<Rightarrow> bool" where
  "synced s \<longleftrightarrow> failed s \<or> disk s = Some (data s)"

definition runs :: "'e list \<Rightarrow> 's \<Rightarrow> 's" where
  "runs es s = foldl (\<lambda>u e. snd (run e u)) s es"

lemma run_synced: "synced s \<Longrightarrow> synced (snd (run e s))"
proof (cases "run e s")
  case (Pair r s')
  assume s: "synced s"
  show ?thesis
  proof (cases r)
    case (Inl x)
    with Pair s reject [of e s x s'] show ?thesis by (auto simp: synced_def)
  next
    case (Inr v)
    have "\<not> failed s" using stopped [of s e] Pair Inr by auto
    with Pair Inr commit [of s e v s'] show ?thesis by (simp add: synced_def)
  qed
qed

lemma runs_synced: "synced s \<Longrightarrow> synced (runs es s)"
  unfolding runs_def by (induction es arbitrary: s) (simp_all add: run_synced)

lemma runs_stopped: "failed s \<Longrightarrow> runs es s = s"
  unfolding runs_def
proof (induction es)
  case (Cons e es)
  with stopped [of s e] show ?case by auto
qed simp

end

text \<open>The stored content of a node: its durable part.\<close>

definition node_failed :: "node \<Rightarrow> bool" where
  "node_failed nd \<longleftrightarrow> st_write_error (fst nd) \<noteq> None"

lemma save_encoded_ok: "save_encoded sv s disk = (Inr u, disk') \<Longrightarrow> disk' = Some (durable s)"
  by (auto simp: save_encoded_def Let_def split: sum.splits)

lemma save_encoded_disk: "save_encoded sv s disk = (r, disk') \<Longrightarrow> disk' = disk \<or> disk' = Some (durable s)"
  by (auto simp: save_encoded_def Let_def split: sum.splits)

lemma update_steps:
  assumes "update cx edit (s, disk) = (r, s', disk')"
  obtains (refused) e where "r = Inl e" "s' = s" "disk' = disk" "update_next cx edit s = Inl e"
  | (unsaved) e v n where "r = Inl e" "update_next cx edit s = Inr (v, n)"
      "s' = s\<lparr>st_write_error := Some (error_text e)\<rparr>" "disk' = disk \<or> disk' = Some (durable n)"
  | (saved) v where "r = Inr v" "update_next cx edit s = Inr (v, s')" "disk' = Some (durable s')"
proof (cases "update_next cx edit s")
  case (Inl e)
  with assms refused show thesis by (auto simp: update_def)
next
  case (Inr vn)
  obtain v n where vn: "vn = (v, n)" by fastforce
  obtain sr sd where sv: "save_encoded (cx_save cx) n disk = (sr, sd)" by fastforce
  show thesis
  proof (cases sr)
    case (Inl e)
    with assms Inr vn sv save_encoded_disk [OF sv] unsaved show thesis by (auto simp: update_def)
  next
    case (Inr u)
    with assms \<open>update_next cx edit s = Inr vn\<close> vn sv save_encoded_ok saved show thesis
      by (auto simp: update_def)
  qed
qed

lemma update_next_writable: "update_next cx edit s = Inr (v, n) \<Longrightarrow> st_write_error s = None"
  by (auto simp: update_next_def result_simps)

lemma update_stopped: "node_failed nd \<Longrightarrow> \<exists>x. update cx edit nd = (Inl x, nd)"
  by (cases nd) (auto simp: node_failed_def update_def update_next_def ensure_writable_def)

lemma durable_write_error [simp]: "durable (s\<lparr>st_write_error := w\<rparr>) = durable s"
  by (simp add: durable_def)

interpretation node_commit: durable_commit "\<lambda>edit nd. update cx edit nd" "\<lambda>nd. durable (fst nd)" snd node_failed
  for cx :: ctx
proof unfold_locales
  fix edit :: "store \<Rightarrow> ('a \<times> store) res" and nd nd' :: node and x and v :: 'a
  obtain s d s' d' where nd: "nd = (s, d)" "nd' = (s', d')" by (cases nd; cases nd') auto
  show "update cx edit nd = (Inr v, nd') \<Longrightarrow> snd nd' = Some (durable (fst nd'))"
    unfolding nd by (erule update_steps) auto
  show "update cx edit nd = (Inl x, nd') \<Longrightarrow> durable (fst nd') = durable (fst nd) \<and> (nd' = nd \<or> node_failed nd')"
    unfolding nd by (erule update_steps) (auto simp: node_failed_def)
  show "node_failed nd \<Longrightarrow> \<exists>x. update cx edit nd = (Inl x, nd)"
    by (rule update_stopped)
qed

text \<open>C9: Whatever sequence of updates a machine runs, with any failure of any system call in any of
  them, either its memory is exactly what the state file holds or it has stopped accepting work;
  once stopped nothing changes any more.\<close>

theorem memory_matches_disk:
  assumes "node_failed nd \<or> snd nd = Some (durable (fst nd))"
  shows "let nd' = foldl (\<lambda>u edit. snd (update cx edit u)) nd edits in
    (node_failed nd' \<or> snd nd' = Some (durable (fst nd'))) \<and> (node_failed nd \<longrightarrow> nd' = nd)"
  using node_commit.runs_synced [of nd cx edits] node_commit.runs_stopped [of nd cx edits] assms
  by (auto simp: node_commit.synced_def node_commit.runs_def Let_def)

text \<open>A failed update changes no data in memory: the store is the old one, except that a failed
  write is remembered, and the state file holds the old state or the complete new one, never a mix.\<close>

theorem failed_update_changes_nothing:
  assumes "update cx edit (s, disk) = (Inl e, s', disk')"
  shows "(s' = s \<or> s' = s\<lparr>st_write_error := Some (error_text e)\<rparr>) \<and>
    (disk' = disk \<or> (\<exists>v n. update_next cx edit s = Inr (v, n) \<and> disk' = Some (durable n)))"
  using assms by (cases rule: update_steps) auto

section \<open>What an update does beyond its edit\<close>

text \<open>The part of a store that publication, normalisation and pruning never touch.\<close>

definition outcome :: "store \<Rightarrow> store" where
  "outcome s = s\<lparr>st_jobs := map job_core (st_jobs s), st_output_pruned := {}, st_history_pruned := {},
     st_history := default_history, st_job_certificates := Map.empty, st_legacy_jobs := {},
     st_format_version := 0\<rparr>"

lemma core_idem [simp]: "job_core (job_core j) = job_core j"
  by (simp add: job_core_def)

lemma outcome_of:
  "outcome (publish_frame s) = outcome s" "outcome (payload_frame s) = outcome s"
  "outcome (retained s) = outcome s" "outcome (s\<lparr>st_format_version := v\<rparr>) = outcome s"
  by (simp_all add: outcome_def publish_frame_def payload_frame_def retained_def comp_def)

lemma outcome_sel:
  shows "st_body_name (outcome s) = st_body_name s"
    "st_peers (outcome s) = st_peers s"
    "st_owner_sk (outcome s) = st_owner_sk s"
    "st_retry_links (outcome s) = st_retry_links s"
    "st_grants (outcome s) = st_grants s"
    "st_requests (outcome s) = st_requests s"
    "st_write_error (outcome s) = st_write_error s"
    "st_request_receipts (outcome s) = st_request_receipts s"
    "st_outbound_requests (outcome s) = st_outbound_requests s"
    "map job_core (st_jobs (outcome s)) = map job_core (st_jobs s)"
  by (simp_all add: outcome_def comp_def)

lemma outcomeD:
  assumes "outcome s' = outcome s"
  shows "st_body_name s' = st_body_name s"
    "st_peers s' = st_peers s"
    "st_owner_sk s' = st_owner_sk s"
    "st_retry_links s' = st_retry_links s"
    "st_grants s' = st_grants s"
    "st_requests s' = st_requests s"
    "st_write_error s' = st_write_error s"
    "st_request_receipts s' = st_request_receipts s"
    "st_outbound_requests s' = st_outbound_requests s"
    "map job_core (st_jobs s') = map job_core (st_jobs s)"
  using assms by (metis outcome_sel)+

lemma remove_shrink_retained: "shrink cs s = Inr s' \<Longrightarrow> retained s' = retained s"
  by (induction cs s rule: shrink.induct) (auto simp: result_simps dest: remove_payload_retained split: if_splits)

lemma remove_shrink_grows: "shrink cs s = Inr s' \<Longrightarrow> ledger_wf cr s \<Longrightarrow> ledger_wf cr s' \<and> ledger_le s s'"
proof (induction cs s rule: shrink.induct)
  case (2 a p n cs s)
  show ?case
  proof (cases "output_bytes s \<le> OUTPUT_BYTES")
    case True
    with 2 show ?thesis by (simp add: ledger.le_refl)
  next
    case False
    with 2 obtain u where "remove_payload p s = Inr u" "shrink cs u = Inr s'" by (auto simp: result_simps)
    with 2 False remove_payload_grows [of p s u cr] show ?thesis using ledger.le_trans by blast
  qed
qed (simp add: ledger.le_refl)

lemma prepare_retained: "prepare new old = Inr s' \<Longrightarrow> retained s' = retained new"
  using prepare_steps(3) remove_shrink_retained by blast

lemma prepare_grows: "prepare new old = Inr s' \<Longrightarrow> ledger_wf cr new \<Longrightarrow> ledger_wf cr s' \<and> ledger_le new s'"
  using prepare_steps(3) remove_shrink_grows ledger.le_refl by blast

lemma update_next_steps:
  assumes "update_next cx edit s = Inr (v, n)"
  obtains n1 n2 where "st_write_error s = None" "edit s = Inr (v, n1)"
    "refresh_owned (cx_crypto cx) (cx_new_id cx) (st_jobs s) n1 = Inr n2"
    "prepare (normalize_output (n2\<lparr>st_format_version := FORMAT_VERSION\<rparr>)) s = Inr n"
    "length (concat (io_chunks (cx_io cx) n)) \<le> STATE_BYTES"
    "reserve_completion (cx_io cx) n s (length (concat (io_chunks (cx_io cx) n))) = Inr ()"
  using assms by (auto simp: update_next_def result_simps)

lemma update_next_outcome:
  assumes "update_next cx edit s = Inr (v, n)"
  obtains n1 where "edit s = Inr (v, n1)" "outcome n = outcome n1"
  using assms
proof (rule update_next_steps)
  fix n1 n2
  assume 1: "edit s = Inr (v, n1)" and 2: "refresh_owned (cx_crypto cx) (cx_new_id cx) (st_jobs s) n1 = Inr n2"
    and 3: "prepare (normalize_output (n2\<lparr>st_format_version := FORMAT_VERSION\<rparr>)) s = Inr n"
  have "outcome n = outcome (normalize_output (n2\<lparr>st_format_version := FORMAT_VERSION\<rparr>))"
    using prepare_retained [OF 3] by (metis outcome_of(3))
  also have "\<dots> = outcome n2" by (metis normalize_frame outcome_of(2,4))
  also have "\<dots> = outcome n1" using refresh_owned_frame [OF 2] by (metis outcome_of(1))
  finally show thesis using that 1 by blast
qed

text \<open>A successful update returned what its edit returned, on a state that differs from the edited
  one in nothing but history and payloads.\<close>

lemma update_ok:
  assumes "update cx edit (s, disk) = (Inr v, s', disk')"
  obtains n1 where "edit s = Inr (v, n1)" "outcome s' = outcome n1" "st_write_error s = None"
    "disk' = Some (durable s')"
  using assms
proof (cases rule: update_steps)
  case (saved v')
  then show thesis
    using that update_next_outcome [of cx edit s v' s'] update_next_writable by (metis sum.inject(2))
qed simp_all

lemma update_next_ledger:
  assumes "update_next cx edit s = Inr (v, n)"
    and "\<And>n1. edit s = Inr (v, n1) \<Longrightarrow> ledger_wf (cx_crypto cx) n1"
  shows "ledger_wf (cx_crypto cx) n"
  using assms(1)
proof (rule update_next_steps)
  fix n1 n2
  assume 1: "edit s = Inr (v, n1)" and 2: "refresh_owned (cx_crypto cx) (cx_new_id cx) (st_jobs s) n1 = Inr n2"
    and 3: "prepare (normalize_output (n2\<lparr>st_format_version := FORMAT_VERSION\<rparr>)) s = Inr n"
  have "ledger_wf (cx_crypto cx) n2" using refresh_owned_wf [OF 2] assms(2) [OF 1] .
  then have "ledger_wf (cx_crypto cx) (n2\<lparr>st_format_version := FORMAT_VERSION\<rparr>)" by (simp add: ledger_wf_def)
  with normalize_grows prepare_grows [OF 3] show ?thesis by blast
qed

text \<open>An update whose edit keeps the history well-formed and only adds to it commits a history
  that only grew: no settled fact of the old state is lost or rewritten by anything an update does
  on top of its edit (publication, normalisation, pruning).\<close>

theorem update_append_only:
  assumes "update cx edit (s, disk) = (Inr v, s', disk')" and "edit s = Inr (v, n1)"
    and "ledger_wf (cx_crypto cx) n1" and "ledger_le s n1" and "published_bound n1"
    and "collision_free (cx_crypto cx) (known_certificates (cx_crypto cx) n1)"
  shows "ledger_wf (cx_crypto cx) s' \<and> ledger_le s s' \<and> disk' = Some (durable s') \<and>
    output_bytes s' \<le> OUTPUT_BYTES"
  using assms(1)
proof (cases rule: update_steps)
  case (saved v')
  then show ?thesis
  proof (elim update_next_steps)
    fix m n2
    assume "edit s = Inr (v', m)"
    with assms(2) have m: "m = n1" by simp
    assume 2: "refresh_owned (cx_crypto cx) (cx_new_id cx) (st_jobs s) m = Inr n2"
      and 3: "prepare (normalize_output (n2\<lparr>st_format_version := FORMAT_VERSION\<rparr>)) s = Inr s'"
    let ?f = "n2\<lparr>st_format_version := FORMAT_VERSION\<rparr>"
    have "ledger_wf (cx_crypto cx) n2 \<and> ledger_le n1 n2"
      using refresh_owned_grows [OF 2 [unfolded m] assms(3,5,6)] by simp
    then have "ledger_wf (cx_crypto cx) ?f \<and> ledger_le s ?f"
      using assms(4) ledger.le_trans by (auto simp: ledger_wf_def ledger_le_def intro: hist_le_trans)
    with normalize_grows [of "cx_crypto cx" ?f] prepare_grows [OF 3]
    have "ledger_wf (cx_crypto cx) s' \<and> ledger_le s s'" using ledger.le_trans by blast
    with prepare_steps(2) [OF 3] saved show ?thesis by simp
  qed
qed simp_all

section \<open>Recovery\<close>

text \<open>The recovery step of the sidecar's start (\<open>src/daemon.rs\<close>).\<close>

definition start_recovery :: "ctx \<Rightarrow> node \<Rightarrow> unit res \<times> node" where
  "start_recovery cx nd = (case recover_jobs cx nd of
       (Inl e, s, disk) \<Rightarrow> (Inl e, recovery_failed e s, disk)
     | (Inr u, nd') \<Rightarrow> (Inr u, nd'))"

text \<open>The statuses after a restart: what was running here is uncertain, all else is as it was.\<close>

definition recovered_status :: "store \<Rightarrow> job \<Rightarrow> job \<Rightarrow> bool" where
  "recovered_status s j j' \<longleftrightarrow> j_id j' = j_id j \<and> j_body j' = j_body j \<and>
     (if local_running s j then \<exists>r. j_status j' = Uncertain r else j_status j' = j_status j)"

lemma mark_uncertain_jobs:
  "list_all2 (recovered_status s) (st_jobs s) (st_jobs (mark_uncertain r s))"
  by (auto simp: mark_uncertain_def list_all2_conv_all_nth recovered_status_def)

lemma mark_uncertain_none_running:
  "\<not> list_ex (local_running (mark_uncertain r s)) (st_jobs (mark_uncertain r s))"
  by (auto simp: mark_uncertain_def list_ex_iff local_running_def)

lemma list_all2_core:
  "list_all2 (recovered_status s) xs (map job_core ys) = list_all2 (recovered_status s) xs ys"
proof -
  have "(\<lambda>j j'. recovered_status s j (job_core j')) = recovered_status s"
    by (simp add: fun_eq_iff recovered_status_def job_core_def)
  then show ?thesis by (simp add: list.rel_map)
qed

lemma none_running_core:
  assumes "map job_core xs = map job_core ys" and "st_body_name s' = st_body_name s"
    and "\<not> list_ex (local_running s) ys"
  shows "\<not> list_ex (local_running s') xs"
proof -
  have "local_running s' j = local_running s (job_core j)" for j
    using assms(2) by (simp add: local_running_def job_core_def)
  then have "list_ex (local_running s') xs = list_ex (local_running s) (map job_core xs)"
    by (simp add: list_ex_iff)
  also have "\<dots> = list_ex (local_running s) ys"
    unfolding assms(1) by (simp add: list_ex_iff local_running_def job_core_def)
  finally show ?thesis using assms(3) by simp
qed

lemma recover_jobs_ok:
  assumes "recover_jobs cx (s, disk) = (Inr u, s', disk')"
  shows "list_all2 (recovered_status s) (st_jobs s) (st_jobs s') \<and>
    \<not> list_ex (local_running s') (st_jobs s') \<and> st_grants s' = st_grants s \<and> st_body_name s' = st_body_name s"
proof (cases "hs_initialized (st_history s) \<and> \<not> list_ex (local_running s) (st_jobs s)")
  case True
  with assms have "s' = s" by (simp add: recover_jobs_def)
  with True show ?thesis by (auto simp: recovered_status_def list_all2_conv_all_nth list_ex_length)
next
  case False
  let ?r = "''sidecar restarted during execution; the command may have taken effect. Not rerunning.''"
  let ?m = "mark_uncertain ?r s"
  from False assms have "update cx (\<lambda>s. Inr ((), mark_uncertain ?r s)) (s, disk) = (Inr u, s', disk')"
    unfolding recover_jobs_def fst_conv by (simp only: if_False)
  then obtain n1 where "Inr ((), mark_uncertain ?r s) = (Inr (u, n1) :: (unit \<times> store) res)"
    and "outcome s' = outcome n1" by (rule update_ok)
  then have o: "outcome s' = outcome ?m" by simp
  have jobs: "map job_core (st_jobs s') = map job_core (st_jobs ?m)" and b: "st_body_name s' = st_body_name ?m"
    and g: "st_grants s' = st_grants ?m"
    using outcomeD [OF o] by blast+
  have "list_all2 (recovered_status s) (st_jobs s) (st_jobs s')"
    using mark_uncertain_jobs [of s ?r] list_all2_core [of s "st_jobs s"] jobs by metis
  moreover have "\<not> list_ex (local_running s') (st_jobs s')"
    using none_running_core [OF jobs b mark_uncertain_none_running] .
  ultimately show ?thesis using g b by (simp add: mark_uncertain_def)
qed

lemma start_recovery_ok:
  assumes "start_recovery cx (s, disk) = (r, s', disk')"
  shows "\<not> list_ex (local_running s') (st_jobs s') \<and>
    list_all2 (recovered_status s) (st_jobs s) (st_jobs s') \<and> st_grants s' = st_grants s \<and>
    st_body_name s' = st_body_name s \<and>
    ((\<exists>e. r = Inl e) \<longrightarrow> st_write_error s' \<noteq> None)"
proof (cases "recover_jobs cx (s, disk)")
  case (fields rr s1 d1)
  show ?thesis
  proof (cases rr)
    case (Inr u)
    with fields assms have "recover_jobs cx (s, disk) = (Inr u, s', disk')" "r = Inr u"
      by (simp_all add: start_recovery_def)
    with recover_jobs_ok [of cx s disk u s' disk'] show ?thesis by simp
  next
    case (Inl e)
    have s1: "s1 = s \<or> s1 = s\<lparr>st_write_error := Some (error_text e)\<rparr>"
      using fields Inl by (auto simp: recover_jobs_def split: if_splits elim!: update_steps)
    from assms fields Inl have r: "r = Inl e" and s': "s' = recovery_failed e s1"
      by (simp_all add: start_recovery_def)
    have "list_all2 (recovered_status s) (st_jobs s) (st_jobs s')"
      using s1 by (auto simp: s' recovery_failed_def mark_uncertain_def list_all2_conv_all_nth
          recovered_status_def local_running_def)
    moreover have "st_grants s' = st_grants s" "st_body_name s' = st_body_name s" "st_write_error s' \<noteq> None"
      using s1 by (auto simp: s' recovery_failed_def mark_uncertain_def split: option.splits)
    moreover have "\<not> list_ex (local_running s') (st_jobs s')"
      unfolding s' recovery_failed_def by (rule mark_uncertain_none_running)
    ultimately show ?thesis by simp
  qed
qed

text \<open>After the sidecar's start no job of this machine is left running: each one that was is
  uncertain, every other job keeps its status, every grant (reservations included) is as saved, and
  if the recovery could not be saved the machine accepts no further work.\<close>

theorem start_leaves_nothing_running:
  assumes "start_recovery cx (s, disk) = (r, s', disk')"
  shows "\<not> list_ex (local_running s') (st_jobs s') \<and>
    list_all2 (recovered_status s) (st_jobs s) (st_jobs s') \<and> st_grants s' = st_grants s \<and>
    ((\<exists>e. r = Inl e) \<longrightarrow> st_write_error s' \<noteq> None)"
  using start_recovery_ok [OF assms] by blast

end
