(* ===== verification/Clix_Job.thy ===== *)
theory Clix_Job
  imports Clix_Store
begin

text \<open>
  \<open>src/job.rs\<close>: fresh identifiers, the replies the owner and paired machines read, new job rows and
  the unsigned answer of a peer.  The dispatcher is in \<open>Clix_Dispatch\<close>.
\<close>

section \<open>Identifiers\<close>

text \<open>\<open>new_id\<close> from the sixteen bytes it reads from the random source (or the read error).\<close>

definition uuid_bits :: "bytes \<Rightarrow> bytes" where
  "uuid_bits b = b[6 := (b ! 6 AND 15) OR 64, 8 := (b ! 8 AND 63) OR 128]"

definition uuid_text :: "bytes \<Rightarrow> string" where
  "uuid_text b = hex (take 4 b) @ ''-'' @ hex (take 2 (drop 4 b)) @ ''-'' @ hex (take 2 (drop 6 b)) @ ''-'' @
     hex (take 2 (drop 8 b)) @ ''-'' @ hex (drop 10 b)"

definition new_id :: "bytes res \<Rightarrow> string res" where
  "new_id random = (case random of
       Inl e \<Rightarrow> Inl (Io (''read /dev/urandom: '' @ error_text e))
     | Inr b \<Rightarrow> Inr (uuid_text (uuid_bits b)))"

section \<open>Replies\<close>

definition asleep_message :: "string \<Rightarrow> string" where
  "asleep_message body = body @ '' is asleep, waiting'' @ ellipsis"

definition waiting_json :: "string \<Rightarrow> job \<Rightarrow> json" where
  "waiting_json body j = JObj [(''ok'', JBool True), (''status'', JStr ''waiting''),
     (''waiting'', JStr (asleep_message body)), (''job'', job_json j)]"

definition reason_json :: "string \<Rightarrow> string \<Rightarrow> job \<Rightarrow> json" where
  "reason_json st reason j = JObj [(''status'', JStr st), (''reason'', JStr reason), (''job'', job_json j)]"

definition exec_json :: "job \<Rightarrow> json" where
  "exec_json j = (case j_status j of
       Done n \<Rightarrow> JObj [(''status'', JStr ''done''), (''exit'', JInt n), (''job'', job_json j)]
     | Denied r \<Rightarrow> reason_json ''denied'' r j
     | Failed r \<Rightarrow> reason_json ''failed'' r j
     | Uncertain r \<Rightarrow> reason_json ''uncertain'' r j
     | WaitingBody \<Rightarrow> waiting_json (j_body j) j
     | WaitingCapacity \<Rightarrow> JObj [(''ok'', JBool True), (''status'', JStr ''capacity_wait''),
         (''waiting'', JStr (j_body j @ '' is busy; this job is saved and waiting for capacity'')),
         (''job'', job_json j)]
     | Running \<Rightarrow> JObj [(''status'', JStr ''running''), (''job'', job_json j)]
     | Queued \<Rightarrow> JObj [(''status'', JStr ''queued''), (''job'', job_json j)])"

section \<open>New rows\<close>

definition append_edit :: "job \<Rightarrow> string option \<Rightarrow> store \<Rightarrow> (unit \<times> store) res" where
  "append_edit j retry_of s = Inr ((), s\<lparr>st_jobs := st_jobs s @ [j],
     st_retry_links := (case retry_of of None \<Rightarrow> st_retry_links s | Some old \<Rightarrow> (st_retry_links s)(j_id j \<mapsto> old))\<rparr>)"

definition append_retry :: "ctx \<Rightarrow> bytes res \<Rightarrow> body_id \<Rightarrow> body_id \<Rightarrow> string list \<Rightarrow> job_status \<Rightarrow> string option
    \<Rightarrow> node \<Rightarrow> job res \<times> node" where
  "append_retry cx random from body argv st retry_of nd =
     (case rbind (new_id random) (\<lambda>i. rbind (limits_invocation i argv) (\<lambda>_.
         Inr \<lparr>j_id = i, j_body = body, j_argv = argv, j_from = from, j_status = st, j_stdout = [], j_stderr = []\<rparr>)) of
        Inl e \<Rightarrow> (Inl e, nd)
      | Inr j \<Rightarrow>
          (case update cx (append_edit j retry_of) nd of
             (Inl e, nd') \<Rightarrow> (Inl e, nd')
           | (Inr _, nd') \<Rightarrow> (Inr j, nd')))"

definition append_new :: "ctx \<Rightarrow> bytes res \<Rightarrow> body_id \<Rightarrow> body_id \<Rightarrow> string list \<Rightarrow> job_status \<Rightarrow> node
    \<Rightarrow> job res \<times> node" where
  "append_new cx random from body argv st nd = append_retry cx random from body argv st None nd"

section \<open>The unsigned answer of a peer\<close>

definition same_result :: "job \<Rightarrow> job \<Rightarrow> bool" where
  "same_result a b \<longleftrightarrow> j_status a = j_status b \<and> j_stdout a = j_stdout b \<and> j_stderr a = j_stderr b"

definition apply_peer_result :: "ctx \<Rightarrow> body_id \<Rightarrow> job \<Rightarrow> node \<Rightarrow> job option res \<times> node" where
  "apply_peer_result cx peer incoming nd =
     (case limits_result incoming of
        Inl e \<Rightarrow> (Inl e, nd)
      | Inr _ \<Rightarrow>
        (case find_job (fst nd) (j_id incoming) of
           None \<Rightarrow> (Inr None, nd)
         | Some existing \<Rightarrow>
           if j_body existing \<noteq> peer \<or> is_terminal (j_status existing) then (Inr None, nd)
           else if j_body incoming \<noteq> peer \<or> j_from incoming \<noteq> j_from existing \<or> j_argv incoming \<noteq> j_argv existing
           then (Inl (Protocol ''peer returned a different job invocation''), nd)
           else if same_result incoming existing then (Inr (Some existing), nd)
           else (case put_job cx incoming nd of
                   (Inl e, nd') \<Rightarrow> (Inl e, nd')
                 | (Inr _, nd') \<Rightarrow> (Inr (Some incoming), nd'))))"

section \<open>Identifiers are version 4 UUIDs\<close>

lemma uuid_bits_length [simp]: "length (uuid_bits b) = length b"
  by (simp add: uuid_bits_def)

lemma low_bits: "unat ((x :: byte) AND 15) < 16" "unat ((x :: byte) AND 63) < 64"
proof -
  have "(15 :: byte) = mask 4" "(63 :: byte) = mask 6" by (simp_all add: mask_eq_exp_minus_1)
  then have "x AND 15 = take_bit 4 x" "x AND 63 = take_bit 6 x" by (simp_all add: take_bit_eq_mask)
  then show "unat (x AND 15) < 16" "unat (x AND 63) < 64"
    using take_bit_nat_less_exp [of 4 "unat x"] take_bit_nat_less_exp [of 6 "unat x"]
    by (simp_all add: unsigned_take_bit_eq)
qed

lemma high_bits: "unat (((x :: byte) AND 15) OR 64) = 64 + unat (x AND 15)"
  "unat (((x :: byte) AND 63) OR 128) = 128 + unat (x AND 63)"
proof -
  have "(x AND 15) OR 64 = (x AND 15) + (64 :: byte)" "(x AND 63) OR 128 = (x AND 63) + (128 :: byte)"
    by (rule disjunctive_add_eq_or [symmetric], simp add: and.assoc)+
  then show "unat ((x AND 15) OR 64) = 64 + unat (x AND 15)" "unat ((x AND 63) OR 128) = 128 + unat (x AND 63)"
    using low_bits [of x] by (simp_all add: unat_word_ariths)
qed

lemma uuid_text_identifier:
  assumes "length b = 16"
  shows "length (uuid_text b) = 36" "limits_identifier (uuid_text b) = Inr ()"
proof -
  show len: "length (uuid_text b) = 36" using assms by (simp add: uuid_text_def)
  have "is_hex_char c \<or> c = CHR ''-''" if "c \<in> set (uuid_text b)" for c
  proof -
    have h: "is_hex_char c" if "c \<in> set (hex bs)" for bs using hex_all_hex [of bs] that by (simp add: list_all_iff)
    from that show ?thesis by (auto simp: uuid_text_def dest: h)
  qed
  moreover have "\<not> is_hex_char (char_of (0 :: nat))" "char_of (0 :: nat) \<noteq> CHR ''-''"
    by (simp_all add: is_hex_char_def char_of_def)
  ultimately have "\<not> has_nul (uuid_text b)" unfolding has_nul_def List.member_iff by metis
  moreover have "uuid_text b \<noteq> []" using len by auto
  ultimately show "limits_identifier (uuid_text b) = Inr ()"
    by (simp add: limits_identifier_def ID_BYTES_def len)
qed

lemma uuid_text_inj:
  assumes "length b = 16" "length b' = 16" "uuid_text b = uuid_text b'"
  shows "b = b'"
proof -
  from assms have "take 4 b = take 4 b'" "take 2 (drop 4 b) = take 2 (drop 4 b')"
    "take 2 (drop 6 b) = take 2 (drop 6 b')" "take 2 (drop 8 b) = take 2 (drop 8 b')" "drop 10 b = drop 10 b'"
    by (auto simp: uuid_text_def hex_inj)
  moreover have "xs = take 4 xs @ take 2 (drop 4 xs) @ take 2 (drop 6 xs) @ take 2 (drop 8 xs) @ drop 10 xs"
    for xs :: bytes
    using append_take_drop_id [of 4 xs] append_take_drop_id [of 2 "drop 4 xs"]
      append_take_drop_id [of 2 "drop 6 xs"] append_take_drop_id [of 2 "drop 8 xs"] by simp
  ultimately show "b = b'" by metis
qed

text \<open>A fresh identifier is a version-4 UUID (36 characters, version and variant digits in
  place) that passes the identifier check, and two identifiers agree only when all 122 random bits
  that are kept agree.\<close>

theorem new_id_uuid:
  assumes "length b = 16" and "length b' = 16"
  shows "\<exists>i. new_id (Inr b) = Inr i \<and> length i = 36 \<and> limits_identifier i = Inr () \<and>
    i ! 14 = CHR ''4'' \<and> i ! 19 \<in> set ''89ab'' \<and>
    (new_id (Inr b') = Inr i \<longrightarrow> uuid_bits b' = uuid_bits b)"
proof -
  let ?u = "uuid_bits b"
  have u: "length ?u = 16" "?u ! 6 = (b ! 6 AND 15) OR 64" "?u ! 8 = (b ! 8 AND 63) OR 128"
    using assms by (simp_all add: uuid_bits_def)
  have first: "hex (take 2 (drop n ?u)) ! 0 = hex_digit (unat (?u ! n) div 16)" if "n < 16" for n
  proof -
    from that u(1) have "drop n ?u = ?u ! n # drop (Suc n) ?u" by (simp add: Cons_nth_drop_Suc)
    then show ?thesis by (simp add: hex_def hex_byte_def)
  qed
  have seg: "uuid_text ?u ! 14 = hex_digit (unat (?u ! 6) div 16)" "uuid_text ?u ! 19 = hex_digit (unat (?u ! 8) div 16)"
    using u(1) first [of 6] first [of 8] by (simp_all add: uuid_text_def nth_append nth_Cons')
  have d: "unat (?u ! 6) div 16 = 4" using low_bits(1) [of "b ! 6"] by (simp add: u high_bits)
  have four: "8 + k \<in> {8, 9, 10, 11}" if "k < 4" for k :: nat using that by auto
  have "(128 + m) div 16 \<in> {8, 9, 10, 11}" if "m < 64" for m :: nat
  proof -
    have "(128 + m) div 16 = 8 + m div 16" using div_mult_self3 [of 16 8 m] by simp
    moreover have "m div 16 < 4" using that by (simp add: div_less_iff_less_mult)
    ultimately show ?thesis using four by metis
  qed
  then have "unat (?u ! 8) div 16 \<in> {8, 9, 10, 11}" using low_bits(2) [of "b ! 8"] unfolding u high_bits by blast
  moreover have chars: "hex_digit 4 = CHR ''4''" "hex_digit 8 = CHR ''8''" "hex_digit 9 = CHR ''9''"
    "hex_digit 10 = CHR ''a''" "hex_digit 11 = CHR ''b''"
    by (code_simp, code_simp, code_simp, code_simp, code_simp)
  ultimately have "uuid_text ?u ! 19 \<in> set ''89ab''" unfolding seg by auto
  moreover have "uuid_text ?u ! 14 = CHR ''4''" unfolding seg d by (rule chars)
  ultimately show ?thesis
    using uuid_text_identifier [OF u(1)] uuid_text_inj [of "uuid_bits b'" ?u] assms
    by (simp add: new_id_def)
qed

section \<open>Job rows\<close>

text \<open>The row of a job without its payload, the part no update changes behind an edit's back.\<close>

definition core_of :: "store \<Rightarrow> string \<Rightarrow> job option" where
  "core_of s i = map_option job_core (find_job s i)"

lemma find_core:
  "map job_core xs = map job_core ys \<Longrightarrow>
     map_option job_core (List.find (\<lambda>j. j_id j = i) xs) = map_option job_core (List.find (\<lambda>j. j_id j = i) ys)"
proof (induction xs arbitrary: ys)
  case (Cons x xs)
  then obtain y ys' where ys: "ys = y # ys'" by (cases ys) auto
  with Cons.prems have "job_core x = job_core y" by simp
  then have "j_id x = j_id y" by (rule job_coreD)
  with Cons ys show ?case by simp
qed simp

lemma core_of_outcome: "outcome s' = outcome s \<Longrightarrow> core_of s' i = core_of s i"
  unfolding core_of_def find_job_def by (rule find_core) (rule outcomeD)

lemma core_ofD:
  assumes "core_of s i = Some c"
  shows "\<exists>j. find_job s i = Some j \<and> j_status j = j_status c \<and> j_from j = j_from c \<and> j_body j = j_body c \<and>
    j_argv j = j_argv c \<and> j_id j = i"
  using assms find_job_Some [of s i] by (auto simp: core_of_def job_core_def)

lemma find_job_set [simp]:
  "find_job (set_job j s) i = (if i = j_id j then Some j else find_job s i)"
proof (cases "find_job s (j_id j)")
  case None
  then show ?thesis
    by (auto simp: set_job_def find_job_def find_append_none split: option.splits simp del: find_job_None)
next
  case (Some old)
  then have s': "st_jobs (set_job j s) = update_first (\<lambda>x. j_id x = j_id j) (\<lambda>_. j) (st_jobs s)"
    by (simp add: set_job_def)
  show ?thesis
  proof (cases "i = j_id j")
    case True
    with Some s' show ?thesis by (simp add: find_job_def find_update_first)
  next
    case False
    with s' show ?thesis by (simp add: find_job_def find_update_first_other)
  qed
qed

lemma set_job_frame [simp]:
  "st_grants (set_job j s) = st_grants s" "st_requests (set_job j s) = st_requests s"
  "st_peers (set_job j s) = st_peers s" "st_body_name (set_job j s) = st_body_name s"
  "st_history (set_job j s) = st_history s" "st_owner_sk (set_job j s) = st_owner_sk s"
  "st_job_certificates (set_job j s) = st_job_certificates s"
  by (simp_all add: set_job_def)

lemma core_of_set [simp]: "core_of (set_job j s) i = (if i = j_id j then Some (job_core j) else core_of s i)"
  by (simp add: core_of_def)

lemma set_job_ids:
  "map j_id (st_jobs (set_job j s)) =
     (if j_id j \<in> j_id ` set (st_jobs s) then map j_id (st_jobs s) else map j_id (st_jobs s) @ [j_id j])"
  using find_job_None [of s "j_id j"] by (simp add: set_job_def map_update_first_on del: find_job_None)

lemma set_job_wf: "jobs_wf s \<Longrightarrow> jobs_wf (set_job j s)"
  by (auto simp: jobs_wf_def set_job_ids)

lemma jobs_wf_outcome:
  assumes "outcome s' = outcome s"
  shows "jobs_wf s' = jobs_wf s"
  by (simp only: jobs_wf_def core_keys(1) [OF outcomeD(10) [OF assms]])

text \<open>An unsigned answer can only settle a job this machine sent to that very peer and whose
  outcome is still open; it has to repeat the invocation, keeps to the size limits, and changes no
  other job and no grant.\<close>

theorem peer_result_settles_open_job:
  assumes "apply_peer_result cx peer incoming (s, disk) = (Inr (Some j'), s', disk')"
  shows "\<exists>j. find_job s (j_id incoming) = Some j \<and> j_body j = peer \<and> \<not> is_terminal (j_status j) \<and>
    j_from incoming = j_from j \<and> j_argv incoming = j_argv j \<and> j_body incoming = j_body j \<and>
    limits_result incoming = Inr () \<and>
    core_of s' (j_id incoming) = Some (job_core incoming) \<and>
    (\<forall>i. i \<noteq> j_id incoming \<longrightarrow> core_of s' i = core_of s i) \<and> st_grants s' = st_grants s"
proof -
  from assms have lim: "limits_result incoming = Inr ()"
    by (cases "limits_result incoming") (auto simp: apply_peer_result_def)
  with assms obtain j where j: "find_job s (j_id incoming) = Some j"
    by (cases "find_job s (j_id incoming)") (auto simp: apply_peer_result_def simp del: find_job_None)
  with assms lim have ok: "j_body j = peer" "\<not> is_terminal (j_status j)" "j_from incoming = j_from j"
    "j_argv incoming = j_argv j" "j_body incoming = j_body j"
    by (auto simp: apply_peer_result_def split: if_splits)
  show ?thesis
  proof (cases "same_result incoming j")
    case True
    then have "incoming = j"
      using ok find_job_Some [OF j] by (cases incoming; cases j) (simp add: same_result_def)
    moreover from True assms lim j ok have "s' = s" by (simp add: apply_peer_result_def)
    ultimately show ?thesis using j ok lim by (simp add: core_of_def)
  next
    case False
    with assms lim j ok obtain u where "update cx (\<lambda>s. Inr ((), set_job incoming s)) (s, disk) = (Inr u, s', disk')"
      by (auto simp: apply_peer_result_def put_job_def split: prod.splits sum.splits)
    then have o: "outcome s' = outcome (set_job incoming s)" by (rule update_ok) auto
    then have "st_grants s' = st_grants s" using outcomeD(5) [OF o] by simp
    with core_of_outcome [OF o] j ok lim show ?thesis by (simp add: core_of_def)
  qed
qed

end
