(* ===== verification/Clix_Exec.thy ===== *)
theory Clix_Exec
  imports Clix_Job Clix_Request
begin

text \<open>
  \<open>src/exec.rs\<close>: admission of a run, its child process and its completion.  A \<open>child\<close> is the task
  that was spawned: the grant and the accepted job it owns.  The answers of the operating system
  (spawning, the two streams, the exit status) are the fields of a \<open>process\<close>.
\<close>

section \<open>The command\<close>

definition validate_argv :: "grant \<Rightarrow> string list \<Rightarrow> unit res" where
  "validate_argv g argv =
     (if argv = [] \<or> hd argv \<noteq> g_tool g then Inl (Usage ''argv[0] is not granted'') else check_args g argv)"

record exec_command =
  cmd_program :: string
  cmd_arg0 :: string
  cmd_args :: "string list"

definition command :: "grant \<Rightarrow> string list \<Rightarrow> exec_command res" where
  "command g argv = rbind (validate_argv g argv) (\<lambda>_.
     Inr \<lparr>cmd_program = g_binary g, cmd_arg0 = g_tool g, cmd_args = tl argv\<rparr>)"

text \<open>\<open>run_granted\<close>: \<open>output\<close> is what running the command gives.\<close>

definition run_granted :: "(exec_command \<Rightarrow> 'o res) \<Rightarrow> grant \<Rightarrow> string list \<Rightarrow> 'o res" where
  "run_granted output g argv = rbind (command g argv) output"

section \<open>Admission\<close>

record child =
  ch_grant :: grant
  ch_job :: job

text \<open>The environment of one submission: the local time and a fresh request identifier.\<close>

record submit_env =
  se_now :: local_now
  se_request_id :: "string res"

definition decide_run :: "local_now \<Rightarrow> store \<Rightarrow> body_id \<Rightarrow> string list \<Rightarrow> grant res" where
  "decide_run now s from argv =
     rbind (check_at s (hd argv) from now) (\<lambda>g. rbind (check_args g argv) (\<lambda>_. Inr g))"

fun requestable :: "clix_error \<Rightarrow> bool" where
  "requestable (NotAdded _ _) = True"
| "requestable (NotAllowed _ _ _) = True"
| "requestable (Expired _ _) = True"
| "requestable (NotAddedAtTime _ _) = True"
| "requestable _ = False"

definition reserve :: "string \<Rightarrow> string \<Rightarrow> store \<Rightarrow> store" where
  "reserve tool i s =
     s\<lparr>st_grants := update_first (\<lambda>x. g_tool x = tool) (\<lambda>x. x\<lparr>g_reservation := Some i\<rparr>) (st_grants s)\<rparr>"

text \<open>The closure of the admission update.  Its value is the accepted job and, for a granted run,
  the grant and the permits left; a failure drops the permit.\<close>

definition submit_edit :: "crypto \<Rightarrow> submit_env \<Rightarrow> limits \<Rightarrow> body_id \<Rightarrow> string list \<Rightarrow> string
    \<Rightarrow> certificate option \<Rightarrow> store \<Rightarrow> ((job \<times> (grant \<times> limits) option) \<times> store) res" where
  "submit_edit cr env l from argv i cert s =
     rbind (case cert of None \<Rightarrow> Inr s | Some c \<Rightarrow> bind_admission cr c s) (\<lambda>s1.
     let j = \<lparr>j_id = i, j_body = st_body_name s1, j_argv = argv, j_from = from, j_status = Running,
              j_stdout = [], j_stderr = []\<rparr> in
     rbind (case decide_run (se_now env) s1 from argv of
         Inr g \<Rightarrow> rbind (acquire_child l) (\<lambda>l'.
           Inr (j, Some (g, l'), if g_once g then reserve (g_tool g) i s1 else s1))
       | Inl e \<Rightarrow> rbind (if requestable e
                         then rbind (upsert (se_request_id env) from (hd argv) s1) (\<lambda>(_, s2). Inr s2)
                         else Inr s1) (\<lambda>s2.
           Inr (j\<lparr>j_status := Denied (error_text e)\<rparr>, None, s2))) (\<lambda>(j', granted, s3).
     Inr ((j', granted), set_job j' s3)))"

definition certified_ok :: "crypto \<Rightarrow> store \<Rightarrow> certificate option \<Rightarrow> unit res" where
  "certified_ok cr s cert = (case cert of
       None \<Rightarrow> Inr ()
     | Some c \<Rightarrow> rbind (validate_invocation cr s c) (\<lambda>_.
         if i_legacy_observer (c_invocation c) \<noteq> None \<or> i_body (c_invocation c) \<noteq> st_body_name s
         then Inl (Protocol ''invalid certified execution destination'') else Inr ()))"

text \<open>A known identifier: \<open>Some\<close> the reply to a duplicate delivery, \<open>None\<close> for a job of this machine
  that is still queued and may now run.\<close>

definition known_job :: "crypto \<Rightarrow> store \<Rightarrow> body_id \<Rightarrow> string list \<Rightarrow> certificate option \<Rightarrow> job \<Rightarrow> json option res" where
  "known_job cr s from argv cert j =
     (if j_from j \<noteq> from \<or> j_body j \<noteq> st_body_name s \<or> j_argv j \<noteq> argv
      then Inl (Protocol ''job ID belongs to a different invocation'')
      else if (case cert of None \<Rightarrow> False
               | Some c \<Rightarrow> st_job_certificates s (j_id j) \<noteq> Some (invocation_hash cr c))
      then Inl (Protocol ''job ID belongs to a different signed admission'')
      else if from = st_body_name s \<and> is_queued (j_status j) then Inr None
      else Inr (Some (exec_json j)))"

definition submit_inner :: "ctx \<Rightarrow> submit_env \<Rightarrow> body_id \<Rightarrow> string list \<Rightarrow> string \<Rightarrow> certificate option
    \<Rightarrow> limits \<Rightarrow> node \<Rightarrow> json res \<times> node \<times> limits \<times> child option" where
  "submit_inner cx env from argv i cert l nd =
     (case rbind (limits_invocation i argv) (\<lambda>_. rbind (certified_ok (cx_crypto cx) (fst nd) cert) (\<lambda>_.
             case find_job (fst nd) i of
               Some j \<Rightarrow> known_job (cx_crypto cx) (fst nd) from argv cert j
             | None \<Rightarrow> Inr None)) of
        Inl e \<Rightarrow> (Inl e, nd, l, None)
      | Inr (Some reply) \<Rightarrow> (Inr reply, nd, l, None)
      | Inr None \<Rightarrow>
          (case update cx (submit_edit (cx_crypto cx) env l from argv i cert) nd of
             (Inl e, nd') \<Rightarrow> (Inl e, nd', l, None)
           | (Inr (j, granted), nd') \<Rightarrow>
               (Inr (exec_json j), nd',
                case granted of Some (g, l') \<Rightarrow> l' | None \<Rightarrow> l,
                map_option (\<lambda>(g, l'). \<lparr>ch_grant = g, ch_job = j\<rparr>) granted)))"

definition submit :: "ctx \<Rightarrow> submit_env \<Rightarrow> body_id \<Rightarrow> string list \<Rightarrow> string \<Rightarrow> limits \<Rightarrow> node
    \<Rightarrow> json res \<times> node \<times> limits \<times> child option" where
  "submit cx env from argv i l nd = submit_inner cx env from argv i None l nd"

definition submit_certified :: "ctx \<Rightarrow> submit_env \<Rightarrow> certificate \<Rightarrow> limits \<Rightarrow> node
    \<Rightarrow> json res \<times> node \<times> limits \<times> child option" where
  "submit_certified cx env c l nd =
     (let i = c_invocation c in submit_inner cx env (i_from i) (i_argv i) (i_id i) (Some c) l nd)"

section \<open>The child process\<close>

record exit_status =
  ex_code :: "int option"
  ex_signal :: "int option"

datatype run_outcome =
    Exited exit_status bytes bytes "string option"
  | NotStarted string
  | RunUncertain string

text \<open>Spawning, each stream until its end (or a read error), which stream failed first, and waiting.\<close>

record process =
  ps_spawn :: "string + unit"
  ps_stdout :: "string + bytes"
  ps_stderr :: "string + bytes"
  ps_stderr_first :: bool
  ps_wait :: "string + exit_status"

definition read_output :: "string + bytes \<Rightarrow> string + bytes" where
  "read_output stream = rbind stream (\<lambda>bs.
     let bytes = take (OUTPUT_STREAM_BYTES + 1) bs
     in if OUTPUT_STREAM_BYTES < length bytes
        then Inl ''command output exceeds 4 MiB per stream; stopped the command'' else Inr bytes)"

text \<open>\<open>try_join!\<close>: both results, or the error that came first.\<close>

definition join_streams :: "process \<Rightarrow> string + (bytes \<times> bytes)" where
  "join_streams p = (case (read_output (ps_stdout p), read_output (ps_stderr p)) of
       (Inr a, Inr b) \<Rightarrow> Inr (a, b)
     | (Inl e, Inr _) \<Rightarrow> Inl e
     | (Inr _, Inl e) \<Rightarrow> Inl e
     | (Inl a, Inl b) \<Rightarrow> Inl (if ps_stderr_first p then b else a))"

definition run_async :: "(exec_command \<Rightarrow> process) \<Rightarrow> grant \<Rightarrow> string list \<Rightarrow> run_outcome" where
  "run_async run g argv = (case command g argv of
       Inl e \<Rightarrow> NotStarted (error_text e)
     | Inr cmd \<Rightarrow>
         let p = run cmd
         in case ps_spawn p of
              Inl e \<Rightarrow> NotStarted e
            | Inr _ \<Rightarrow>
                let (so, se, err) = (case join_streams p of
                      Inr (a, b) \<Rightarrow> (a, b, None) | Inl e \<Rightarrow> ([], [], Some e))
                in case ps_wait p of
                     Inr st \<Rightarrow> Exited st so se err
                   | Inl e \<Rightarrow> RunUncertain e)"

section \<open>Completion\<close>

definition exit_number :: "exit_status \<Rightarrow> int" where
  "exit_number st = (case ex_code st of Some n \<Rightarrow> n
     | None \<Rightarrow> 128 + (case ex_signal st of Some n \<Rightarrow> n | None \<Rightarrow> 1))"

fun run_success :: "run_outcome \<Rightarrow> bool option" where
  "run_success (Exited st _ _ _) = Some (ex_code st = Some 0)"
| "run_success (NotStarted _) = Some False"
| "run_success (RunUncertain _) = None"

fun finished_job :: "grant \<Rightarrow> run_outcome \<Rightarrow> job \<Rightarrow> job" where
  "finished_job g (Exited st so se err) j = j\<lparr>j_stdout := so, j_stderr := se,
     j_status := (case err of None \<Rightarrow> Done (exit_number st)
       | Some reason \<Rightarrow> Failed (g_tool g @ '' exited '' @ decimal_int (exit_number st) @
           '', but output capture failed: '' @ reason))\<rparr>"
| "finished_job g (NotStarted e) j = j\<lparr>j_status := Failed (''could not run '' @ g_tool g @ '': '' @ e)\<rparr>"
| "finished_job g (RunUncertain e) j = j\<lparr>j_status :=
     Uncertain (''could not determine '' @ g_tool g @ '' exit status: '' @ e @ ''. Not rerunning.'')\<rparr>"

text \<open>The grant whose single use this run reserved: consumed by success, released by failure, kept
  when the outcome is unknown.\<close>

definition held_by :: "grant \<Rightarrow> string \<Rightarrow> grant \<Rightarrow> bool" where
  "held_by g i x \<longleftrightarrow> g_tool x = g_tool g \<and> g_reservation x = Some i"

definition settle_grant :: "grant \<Rightarrow> string \<Rightarrow> bool option \<Rightarrow> grant list \<Rightarrow> grant list" where
  "settle_grant g i success gs =
     (if \<not> g_once g then gs
      else case success of
        Some True \<Rightarrow> remove_first (held_by g i) gs
      | Some False \<Rightarrow> update_first (held_by g i) (\<lambda>x. x\<lparr>g_reservation := None\<rparr>) gs
      | None \<Rightarrow> gs)"

definition finish_edit :: "grant \<Rightarrow> run_outcome \<Rightarrow> job \<Rightarrow> store \<Rightarrow> (unit \<times> store) res" where
  "finish_edit g out run s =
     (let s1 = s\<lparr>st_grants := settle_grant g (j_id run) (run_success out) (st_grants s)\<rparr>
      in if find_job s1 (j_id run) = None then Inl (Protocol ''accepted job disappeared'')
         else Inr ((), set_job (finished_job g out run) s1))"

definition finish :: "ctx \<Rightarrow> child \<Rightarrow> run_outcome \<Rightarrow> node \<Rightarrow> unit res \<times> node" where
  "finish cx ch out nd = update cx (finish_edit (ch_grant ch) out (ch_job ch)) nd"

text \<open>The rest of the task: a completion that could not be saved is marked in memory only, and the
  permit is returned.\<close>

definition lost_completion :: "string \<Rightarrow> clix_error \<Rightarrow> store \<Rightarrow> store" where
  "lost_completion i e s = s\<lparr>st_jobs := update_first (\<lambda>j. j_id j = i) (\<lambda>j. j\<lparr>j_status := Uncertain
     (''could not persist job completion: '' @ error_text e @ ''; its outcome is uncertain. Not rerunning.'')\<rparr>)
     (st_jobs s)\<rparr>"

definition complete :: "ctx \<Rightarrow> child \<Rightarrow> run_outcome \<Rightarrow> limits \<Rightarrow> node \<Rightarrow> node \<times> limits" where
  "complete cx ch out l nd = (case finish cx ch out nd of
       (Inr _, nd') \<Rightarrow> (nd', release_child l)
     | (Inl e, s, disk) \<Rightarrow> ((lost_completion (j_id (ch_job ch)) e s, disk), release_child l))"

section \<open>Admission, case by case\<close>

definition admit :: "crypto \<Rightarrow> certificate option \<Rightarrow> store \<Rightarrow> store res" where
  "admit cr cert s = (case cert of None \<Rightarrow> Inr s | Some c \<Rightarrow> bind_admission cr c s)"

lemma admit_frame:
  assumes "admit cr cert s = Inr s1"
  shows "st_jobs s1 = st_jobs s" "st_grants s1 = st_grants s" "st_requests s1 = st_requests s"
    "st_peers s1 = st_peers s" "st_body_name s1 = st_body_name s" "st_owner_sk s1 = st_owner_sk s"
    "st_request_receipts s1 = st_request_receipts s"
  using assms bind_admission_frame by (auto simp: admit_def split: option.splits)

lemma admit_grows: "admit cr cert s = Inr s1 \<Longrightarrow> ledger_wf cr s \<Longrightarrow> ledger_wf cr s1 \<and> ledger_le s s1"
  by (auto simp: admit_def ledger.le_refl split: option.splits dest: bind_admission_grows)

lemma check_at_cong:
  assumes "st_grants s' = st_grants s" "st_body_name s' = st_body_name s"
  shows "check_at s' tool who now = check_at s tool who now" "decide_run now s' who argv = decide_run now s who argv"
  by (simp_all only: decide_run_def check_at_def find_grant_def assms)

definition accepted_job :: "store \<Rightarrow> body_id \<Rightarrow> string list \<Rightarrow> string \<Rightarrow> job_status \<Rightarrow> job" where
  "accepted_job s from argv i st = \<lparr>j_id = i, j_body = st_body_name s, j_argv = argv, j_from = from,
     j_status = st, j_stdout = [], j_stderr = []\<rparr>"

lemma submit_edit_cases:
  assumes "submit_edit cr env l from argv i cert s = Inr ((j, granted), s')"
  obtains (granted) s1 g l' where "admit cr cert s = Inr s1" "decide_run (se_now env) s from argv = Inr g"
      "acquire_child l = Inr l'" "granted = Some (g, l')" "j = accepted_job s from argv i Running"
      "s' = set_job j (if g_once g then reserve (g_tool g) i s1 else s1)"
  | (denied) s1 e s2 where "admit cr cert s = Inr s1" "decide_run (se_now env) s from argv = Inl e"
      "granted = None" "j = accepted_job s from argv i (Denied (error_text e))" "s' = set_job j s2"
      "if requestable e then \<exists>req. upsert (se_request_id env) from (hd argv) s1 = Inr (req, s2) else s2 = s1"
proof -
  from assms obtain s1 where a: "admit cr cert s = Inr s1"
    by (auto simp: submit_edit_def admit_def result_simps)
  note fr = admit_frame [OF a]
  have d: "decide_run (se_now env) s1 from argv = decide_run (se_now env) s from argv"
    by (rule check_at_cong) (rule fr)+
  show thesis
  proof (cases "decide_run (se_now env) s from argv")
    case (Inr g)
    with assms a d fr show thesis
      by (auto simp: submit_edit_def admit_def [symmetric] Let_def rbind_Inr_iff accepted_job_def intro!: granted)
  next
    case (Inl e)
    with assms a d fr show thesis
      by (auto simp: submit_edit_def admit_def [symmetric] Let_def rbind_Inr_iff accepted_job_def
          split: if_splits intro!: denied)
  qed
qed

lemma submit_inner_cases:
  assumes "submit_inner cx env from argv i cert l (s, disk) = (r, nd', l', ch)"
  obtains (idle) "nd' = (s, disk)" "l' = l" "ch = None" "\<And>v. r = Inr v \<Longrightarrow> find_job s i \<noteq> None"
  | (failed) e where "r = Inl e" "l' = l" "ch = None" "fst nd' = s\<lparr>st_write_error := Some (error_text e)\<rparr>"
      "update cx (submit_edit (cx_crypto cx) env l from argv i cert) (s, disk) = (Inl e, nd')"
  | (run) j granted s' disk' where "limits_invocation i argv = Inr ()" "certified_ok (cx_crypto cx) s cert = Inr ()"
      "\<And>old. find_job s i = Some old \<Longrightarrow> known_job (cx_crypto cx) s from argv cert old = Inr None"
      "update cx (submit_edit (cx_crypto cx) env l from argv i cert) (s, disk) = (Inr (j, granted), s', disk')"
      "r = Inr (exec_json j)" "nd' = (s', disk')" "l' = (case granted of Some (g, l2) \<Rightarrow> l2 | None \<Rightarrow> l)"
      "ch = map_option (\<lambda>(g, l2). \<lparr>ch_grant = g, ch_job = j\<rparr>) granted"
proof -
  define pre where "pre = rbind (limits_invocation i argv) (\<lambda>_. rbind (certified_ok (cx_crypto cx) s cert) (\<lambda>_.
             case find_job s i of Some j \<Rightarrow> known_job (cx_crypto cx) s from argv cert j | None \<Rightarrow> Inr None))"
  obtain ur un where u: "update cx (submit_edit (cx_crypto cx) env l from argv i cert) (s, disk) = (ur, un)" by (metis surj_pair)
  show thesis
  proof (cases "pre = Inr None")
    case False
    then have "nd' = (s, disk)" "l' = l" "ch = None"
      using assms unfolding submit_inner_def fst_conv pre_def [symmetric]
      by (auto split: sum.splits option.splits)
    moreover have "find_job s i \<noteq> None" if "r = Inr v" for v
    proof
      assume "find_job s i = None"
      then have "pre \<noteq> Inr (Some w)" for w by (simp add: pre_def rbind_Inr_iff del: find_job_None)
      with False that assms show False unfolding submit_inner_def fst_conv pre_def [symmetric]
        by (auto split: sum.splits option.splits)
    qed
    ultimately show thesis by (rule idle)
  next
    case True
    then have pre: "limits_invocation i argv = Inr ()" "certified_ok (cx_crypto cx) s cert = Inr ()"
      "\<And>old. find_job s i = Some old \<Longrightarrow> known_job (cx_crypto cx) s from argv cert old = Inr None"
      by (auto simp: pre_def result_simps)
    have eq: "(r, nd', l', ch) = (case (ur, un) of
             (Inl e, nd') \<Rightarrow> (Inl e, nd', l, None)
           | (Inr (j, granted), nd') \<Rightarrow>
               (Inr (exec_json j), nd', case granted of Some (g, l') \<Rightarrow> l' | None \<Rightarrow> l,
                map_option (\<lambda>(g, l'). \<lparr>ch_grant = g, ch_job = j\<rparr>) granted))"
      using assms True unfolding submit_inner_def fst_conv pre_def [symmetric] u by simp
    obtain s' d' where un: "un = (s', d')" by fastforce
    show thesis
    proof (cases ur)
      case (Inl e)
      from u [unfolded un Inl] have "s' = s \<and> d' = disk \<or> s' = s\<lparr>st_write_error := Some (error_text e)\<rparr>"
        by (auto elim!: update_steps)
      with eq Inl un u show thesis using idle failed by fastforce
    next
      case (Inr jg)
      obtain j granted where jg: "jg = (j, granted)" by fastforce
      show thesis
        using eq u pre unfolding Inr jg un by (intro run) auto
    qed
  qed
qed

section \<open>Duplicate deliveries\<close>

lemma known_job_reply:
  "known_job cr s from argv cert j = Inr out \<Longrightarrow> out = None \<longleftrightarrow> from = st_body_name s \<and> is_queued (j_status j)"
  by (auto simp: known_job_def split: if_splits)


section \<open>What a started process may rely on\<close>

lemma reserve_find:
  "find_grant (reserve tool i s) t =
     (if t = tool then map_option (\<lambda>g. g\<lparr>g_reservation := Some i\<rparr>) (find_grant s t) else find_grant s t)"
proof (cases "t = tool")
  case True
  have "List.find (\<lambda>g. g_tool g = tool) (update_first (\<lambda>x. g_tool x = tool) (\<lambda>x. x\<lparr>g_reservation := Some i\<rparr>) (st_grants s))
      = map_option (\<lambda>x. x\<lparr>g_reservation := Some i\<rparr>) (List.find (\<lambda>x. g_tool x = tool) (st_grants s))"
    by (rule find_update_first) simp
  with True show ?thesis by (simp add: find_grant_def reserve_def)
next
  case False
  have "List.find (\<lambda>g. g_tool g = t) (update_first (\<lambda>x. g_tool x = tool) (\<lambda>x. x\<lparr>g_reservation := Some i\<rparr>) (st_grants s))
      = List.find (\<lambda>x. g_tool x = t) (st_grants s)"
    by (rule find_update_first_other) (use False in auto)
  with False show ?thesis by (simp add: find_grant_def reserve_def)
qed

lemma reserve_frame [simp]:
  "st_jobs (reserve tool i s) = st_jobs s" "st_body_name (reserve tool i s) = st_body_name s"
  "st_history (reserve tool i s) = st_history s" "st_requests (reserve tool i s) = st_requests s"
  "st_peers (reserve tool i s) = st_peers s" "st_job_certificates (reserve tool i s) = st_job_certificates s"
  by (simp_all add: reserve_def)

lemma find_grant_outcome: "outcome s' = outcome s \<Longrightarrow> find_grant s' t = find_grant s t"
  by (drule outcomeD(5)) (simp add: find_grant_def)

lemma decide_run_ok:
  "decide_run now s from argv = Inr g \<longleftrightarrow> check_at s (hd argv) from now = Inr g \<and> check_args g argv = Inr ()"
  by (auto simp: decide_run_def result_simps)

lemma check_at_find: "check_at s tool who now = Inr g \<Longrightarrow>
    find_grant s tool = Some g \<and> g_tool g = tool \<and> g_reservation g = None"
  using find_grant_Some [of s tool g] by (auto simp: check_at_def result_simps)

text \<open>C5: A process is started only for a run that is authorised and already on disk: this machine's
  grant for the tool admits the requester now and the exact arguments, the state file records the job
  as running, one execution permit is taken, and a single-use grant is reserved for exactly this
  job.\<close>

theorem started_run_is_authorised:
  assumes "submit_inner cx env from argv i cert l (s, disk) = (r, (s', disk'), l', Some ch)"
  shows "check_at s (hd argv) from (se_now env) = Inr (ch_grant ch) \<and> check_args (ch_grant ch) argv = Inr () \<and>
    ch_job ch = accepted_job s from argv i Running \<and> core_of s' i = Some (ch_job ch) \<and>
    disk' = Some (durable s') \<and> l_children l = Suc (l_children l') \<and>
    (g_once (ch_grant ch) \<longrightarrow> find_grant s' (hd argv) = Some ((ch_grant ch)\<lparr>g_reservation := Some i\<rparr>)) \<and>
    (find_job s i = None \<or> from = st_body_name s)"
  using assms
proof (cases rule: submit_inner_cases)
  case (run j granted u d)
  then obtain g l2 where gr: "granted = Some (g, l2)" "ch = \<lparr>ch_grant = g, ch_job = j\<rparr>" and u: "u = s'" "d = disk'"
    by (auto split: option.splits)
  from run(4) obtain n1 where e: "submit_edit (cx_crypto cx) env l from argv i cert s = Inr ((j, granted), n1)"
    and o: "outcome s' = outcome n1" and d: "disk' = Some (durable s')"
    unfolding u by (rule update_ok)
  from e show ?thesis
  proof (cases rule: submit_edit_cases)
    case (granted s1 g2 l3)
    then have g: "g2 = g" "l3 = l2" using gr by simp_all
    note chk = check_at_find [of s "hd argv" "from" "se_now env" g]
    have f: "find_grant s1 t = find_grant s t" for t using admit_frame(2) [OF granted(1)] by (simp add: find_grant_def)
    have dec: "check_at s (hd argv) from (se_now env) = Inr g" "check_args g argv = Inr ()"
      using granted(2) g by (simp_all add: decide_run_ok)
    have "core_of s' i = Some j"
      unfolding core_of_outcome [OF o] granted(6) by (simp add: granted(5) accepted_job_def job_core_def)
    moreover have "find_grant s' (hd argv) = Some (g\<lparr>g_reservation := Some i\<rparr>)" if "g_once g"
      unfolding find_grant_outcome [OF o] granted(6)
      using that dec chk f by (simp add: g find_grant_def [of "set_job _ _"]) (simp add: reserve_find flip: find_grant_def)
    moreover have "l_children l = Suc (l_children l')"
      using children.acquire_ok [OF granted(3)] run(7) gr(1) g by simp
    moreover have "find_job s i = None \<or> from = st_body_name s"
      using run(3) by (cases "find_job s i") (auto dest: known_job_reply)
    ultimately show ?thesis using dec d gr granted(5) by simp
  next
    case denied
    with gr show ?thesis by simp
  qed
qed simp_all

text \<open>An admitted submission that is not authorised starts nothing and changes no grant; a grant
  that is missing, does not name the requester, has expired or is outside its schedule leaves a
  pending request the owner can decide, any other refusal leaves none behind.\<close>

theorem refused_run_changes_no_grant:
  assumes "submit_inner cx env from argv i cert l (s, disk) = (Inr v, (s', disk'), l', None)"
    and "find_job s i = None" and "decide_run (se_now env) s from argv = Inl e"
  shows "core_of s' i = Some (accepted_job s from argv i (Denied (error_text e))) \<and>
    st_grants s' = st_grants s \<and> l' = l \<and>
    (if requestable e then \<exists>req \<in> set (st_requests s'). r_from req = from \<and> r_tool req = hd argv
     else st_requests s' = st_requests s)"
  using assms(1)
proof (cases rule: submit_inner_cases)
  case idle
  with assms(2) show ?thesis by simp
next
  case (run j granted u d)
  then have gr: "granted = None" and u: "u = s'" "d = disk'" by (auto split: option.splits)
  from run(4) obtain n1 where ed: "submit_edit (cx_crypto cx) env l from argv i cert s = Inr ((j, granted), n1)"
    and o: "outcome s' = outcome n1"
    unfolding u by (rule update_ok)
  from ed show ?thesis
  proof (cases rule: submit_edit_cases)
    case granted
    with gr show ?thesis by simp
  next
    case (denied s1 e2 s2)
    with assms(3) have e: "e2 = e" by simp
    note fr = admit_frame [OF denied(1)]
    have core: "core_of s' i = Some j"
      unfolding core_of_outcome [OF o] denied(5) by (simp add: denied(4) accepted_job_def job_core_def)
    have g: "st_grants s' = st_grants s2" and q: "st_requests s' = st_requests s2"
      using outcomeD(5,6) [OF o] by (simp_all add: denied(5))
    show ?thesis
    proof (cases "requestable e")
      case True
      with denied(6) e obtain req where up: "upsert (se_request_id env) from (hd argv) s1 = Inr (req, s2)" by auto
      from upsert_only_requests [OF up] have "st_grants s2 = st_grants s" using fr(2) by auto
      with upsert_member [OF up] upsert_key [OF up] core g q True e run(7) gr denied(4) show ?thesis by auto
    next
      case False
      with denied(6) e have "s2 = s1" by simp
      with core g q False e run(7) gr denied(4) fr show ?thesis by simp
    qed
  qed
qed simp

text \<open>With every execution slot taken, an authorised submission is refused before anything is
  recorded: no job row, no reservation, no change to the state or the file.\<close>

theorem busy_slots_reserve_nothing:
  assumes "l_children l = 0" and "decide_run (se_now env) s from argv = Inr g"
    and "submit_inner cx env from argv i cert l (s, disk) = (r, nd', l', ch)"
  shows "nd' = (s, disk) \<and> l' = l \<and> ch = None"
proof -
  have noedit: "\<exists>e. submit_edit (cx_crypto cx) env l from argv i cert s = Inl e"
  proof (cases "submit_edit (cx_crypto cx) env l from argv i cert s")
    case (Inr x)
    obtain j granted n where x: "x = ((j, granted), n)" by (metis surj_pair)
    from Inr [unfolded x] show ?thesis
    proof (cases rule: submit_edit_cases)
      case (granted s1 g2 l2)
      with children.acquire_ok [OF granted(3)] assms(1) show ?thesis by simp
    next
      case denied
      with assms(2) show ?thesis by simp
    qed
  qed simp
  then have "\<exists>e. update cx (submit_edit (cx_crypto cx) env l from argv i cert) (s, disk) = (Inl e, s, disk)"
    by (cases "ensure_writable s") (auto simp: update_def update_next_def)
  with assms(3) show ?thesis
    by (auto simp: submit_inner_def split: sum.splits option.splits)
qed

section \<open>The process and its output\<close>

text \<open>C7: A process only ever runs the granted executable with an argument vector the grant allows, and
  whatever it prints, a recorded stream is the process's whole stream and at most 4 MiB.\<close>

theorem run_stays_inside_grant:
  assumes "run_async run g argv = Exited st so se err"
  shows "check_args g argv = Inr () \<and> argv \<noteq> [] \<and> hd argv = g_tool g \<and>
    (\<exists>cmd. cmd_program cmd = g_binary g \<and> cmd_args cmd = tl argv \<and>
       (err = None \<longrightarrow> ps_stdout (run cmd) = Inr so \<and> ps_stderr (run cmd) = Inr se \<and>
          length so \<le> OUTPUT_STREAM_BYTES \<and> length se \<le> OUTPUT_STREAM_BYTES) \<and>
       (err \<noteq> None \<longrightarrow> so = [] \<and> se = []))"
proof -
  from assms obtain cmd where cmd: "command g argv = Inr cmd"
    by (cases "command g argv") (auto simp: run_async_def)
  have read: "s = Inr bs \<and> length bs \<le> OUTPUT_STREAM_BYTES" if "read_output s = Inr bs" for s bs
    using that by (auto simp: read_output_def Let_def result_simps)
  have join: "ps_stdout p = Inr a \<and> ps_stderr p = Inr b \<and> length a \<le> OUTPUT_STREAM_BYTES \<and>
      length b \<le> OUTPUT_STREAM_BYTES" if "join_streams p = Inr (a, b)" for p a b
    using that by (auto simp: join_streams_def dest!: read split: sum.splits)
  from assms cmd have "case join_streams (run cmd) of Inr (a, b) \<Rightarrow> so = a \<and> se = b \<and> err = None
      | Inl e \<Rightarrow> so = [] \<and> se = [] \<and> err = Some e"
    by (auto simp: run_async_def Let_def split: sum.splits)
  with join [of "run cmd" so se] have streams:
      "err = None \<longrightarrow> ps_stdout (run cmd) = Inr so \<and> ps_stderr (run cmd) = Inr se \<and>
          length so \<le> OUTPUT_STREAM_BYTES \<and> length se \<le> OUTPUT_STREAM_BYTES"
      "err \<noteq> None \<longrightarrow> so = [] \<and> se = []"
    by (auto split: sum.splits)
  from cmd have "check_args g argv = Inr ()" "argv \<noteq> []" "hd argv = g_tool g"
    "cmd_program cmd = g_binary g" "cmd_args cmd = tl argv"
    by (auto simp: command_def validate_argv_def result_simps split: if_splits)
  with streams show ?thesis by blast
qed

section \<open>Completion\<close>

lemma finished_id [simp]: "j_id (finished_job g out j) = j_id j"
  by (cases out) auto

lemma finished_terminal: "is_terminal (j_status (finished_job g out j))"
  by (cases out) (auto split: option.splits)

lemma settle_grant_find:
  assumes "distinct (map g_tool gs)"
  shows "List.find (\<lambda>x. g_tool x = t) (settle_grant g i success gs) =
    (let old = List.find (\<lambda>x. g_tool x = t) gs
     in if g_once g \<and> t = g_tool g \<and> pred_option (\<lambda>x. g_reservation x = Some i) old then
          (case success of Some True \<Rightarrow> None
           | Some False \<Rightarrow> map_option (\<lambda>x. x\<lparr>g_reservation := None\<rparr>) old
           | None \<Rightarrow> old)
        else old)"
  using assms
proof (induction gs)
  case (Cons x gs)
  have none: "List.find (\<lambda>x. g_tool x = t) gs = None" if "t = g_tool x"
    using Cons.prems that by (auto simp: find_None_set image_iff)
  have noth: "settle_grant g i success gs = gs" if "g_tool x = g_tool g"
  proof -
    have "\<forall>y \<in> set gs. \<not> held_by g i y" using Cons.prems that by (auto simp: held_by_def image_iff)
    then show ?thesis by (simp add: settle_grant_def split: option.split bool.split)
  qed
  have step: "settle_grant g i success (x # gs) =
      (if g_once g \<and> held_by g i x then (case success of Some True \<Rightarrow> gs
         | Some False \<Rightarrow> x\<lparr>g_reservation := None\<rparr> # gs | None \<Rightarrow> x # gs)
       else x # settle_grant g i success gs)"
    by (auto simp: settle_grant_def split: option.splits bool.splits)
  show ?case
    using Cons none noth unfolding step
    by (cases "t = g_tool x"; cases "held_by g i x"; cases "g_once g")
      (auto simp: held_by_def Let_def split: option.splits bool.splits)
qed (simp add: settle_grant_def Let_def split: option.split bool.split)

lemma core_of_grants [simp]: "core_of (s\<lparr>st_grants := gs\<rparr>) i = core_of s i"
  by (simp add: core_of_def find_job_def)

lemma finish_edit_steps:
  assumes "finish_edit g out run s = Inr (u, n)"
  shows "find_job s (j_id run) \<noteq> None"
    "n = set_job (finished_job g out run) (s\<lparr>st_grants := settle_grant g (j_id run) (run_success out) (st_grants s)\<rparr>)"
  using assms by (auto simp: finish_edit_def Let_def find_job_def split: if_splits)

text \<open>C13: A saved completion settles exactly its own job, with a terminal status and the captured
  output, and decides its single-use grant: success consumes it, a failure that is known gives it
  back, an unknown outcome keeps it reserved; a replacement grant and every other tool's grant is
  left alone.\<close>

theorem completion_settles_job_and_grant:
  assumes "finish cx ch out (s, disk) = (Inr u, s', disk')" and "grants_wf s"
  shows "core_of s' (j_id (ch_job ch)) = Some (job_core (finished_job (ch_grant ch) out (ch_job ch))) \<and>
    is_terminal (j_status (finished_job (ch_grant ch) out (ch_job ch))) \<and>
    (\<forall>i. i \<noteq> j_id (ch_job ch) \<longrightarrow> core_of s' i = core_of s i) \<and>
    (\<forall>t. t \<noteq> g_tool (ch_grant ch) \<longrightarrow> find_grant s' t = find_grant s t) \<and>
    (\<forall>old. find_grant s (g_tool (ch_grant ch)) = Some old \<longrightarrow>
       find_grant s' (g_tool (ch_grant ch)) =
         (if g_once (ch_grant ch) \<and> g_reservation old = Some (j_id (ch_job ch))
          then (case run_success out of Some True \<Rightarrow> None
                | Some False \<Rightarrow> Some (old\<lparr>g_reservation := None\<rparr>) | None \<Rightarrow> Some old)
          else Some old))"
proof -
  let ?g = "ch_grant ch" and ?j = "ch_job ch"
  from assms(1) obtain n where e: "finish_edit ?g out ?j s = Inr (u, n)" and o: "outcome s' = outcome n"
    unfolding finish_def by (rule update_ok)
  note n = finish_edit_steps(2) [OF e]
  have core: "core_of s' i = (if i = j_id ?j then Some (job_core (finished_job ?g out ?j)) else core_of s i)" for i
    unfolding core_of_outcome [OF o] n by simp
  have "find_grant s' t = List.find (\<lambda>x. g_tool x = t) (settle_grant ?g (j_id ?j) (run_success out) (st_grants s))" for t
    unfolding find_grant_outcome [OF o] n by (simp add: find_grant_def)
  then have gr: "find_grant s' t = (let old = find_grant s t
     in if g_once ?g \<and> t = g_tool ?g \<and> pred_option (\<lambda>x. g_reservation x = Some (j_id ?j)) old then
          (case run_success out of Some True \<Rightarrow> None
           | Some False \<Rightarrow> map_option (\<lambda>x. x\<lparr>g_reservation := None\<rparr>) old
           | None \<Rightarrow> old)
        else old)" for t
    using settle_grant_find assms(2) by (simp add: find_grant_def grants_wf_def)
  show ?thesis
    unfolding core gr by (auto simp: finished_terminal Let_def split: option.splits bool.splits)
qed

text \<open>If the completion cannot be saved, the run's single-use grant stays as it is (reserved), the
  job is shown as uncertain, and the state file never shows the grant free while the job may have
  run: it is the old file or the complete new one.\<close>

theorem lost_completion_keeps_reservation:
  assumes "finish cx ch out (s, disk) = (Inl e, s1, disk1)"
    and "complete cx ch out l (s, disk) = ((s', disk'), l')"
  shows "st_grants s' = st_grants s \<and> disk' = disk1 \<and> l' = release_child l \<and>
    (\<forall>j. find_job s (j_id (ch_job ch)) = Some j \<longrightarrow>
       (\<exists>r j'. find_job s' (j_id (ch_job ch)) = Some j' \<and> j_status j' = Uncertain r)) \<and>
    (disk' = disk \<or> (\<exists>n. update_next cx (finish_edit (ch_grant ch) out (ch_job ch)) s = Inr ((), n) \<and> disk' = Some (durable n)))"
proof -
  from assms have r: "s' = lost_completion (j_id (ch_job ch)) e s1" "disk' = disk1" "l' = release_child l"
    by (simp_all add: complete_def)
  have s1: "s1 = s \<or> s1 = s\<lparr>st_write_error := Some (error_text e)\<rparr>"
    and d1: "disk1 = disk \<or> (\<exists>n. update_next cx (finish_edit (ch_grant ch) out (ch_job ch)) s = Inr ((), n) \<and> disk1 = Some (durable n))"
    using assms(1) unfolding finish_def by (auto elim!: update_steps)
  have "st_grants s' = st_grants s" using r(1) s1 by (auto simp: lost_completion_def)
  moreover have "find_job s' (j_id (ch_job ch)) = map_option (\<lambda>j. j\<lparr>j_status := Uncertain
     (''could not persist job completion: '' @ error_text e @ ''; its outcome is uncertain. Not rerunning.'')\<rparr>)
     (find_job s (j_id (ch_job ch)))"
    using r(1) s1 by (auto simp: lost_completion_def find_job_def intro!: find_update_first)
  ultimately show ?thesis using r d1 by auto
qed

end
