(* ===== verification/Clix_Mesh.thy ===== *)
theory Clix_Mesh
  imports Clix_Exec
begin

text \<open>
  \<open>src/mesh.rs\<close>: frames, the errors that cross the network, the pairing hand-over of a connection and
  the operations a paired machine may ask for.  TLS is the transport's; a handler runs between two
  releases of the store's lock, and its steps are composed in the order the code has them.  The pin
  operations (\<open>src/pin.rs\<close>) are an argument of \<open>dispatch\<close>.
\<close>

section \<open>Connections\<close>

record mesh_handle =
  mh_addr :: string
  mh_pair_waiting :: bool
  mh_pair_done :: bool

definition default_handle :: mesh_handle where
  "default_handle = \<lparr>mh_addr = [], mh_pair_waiting = False, mh_pair_done = False\<rparr>"

definition set_addr :: "string \<Rightarrow> mesh_handle \<Rightarrow> mesh_handle" where
  "set_addr a h = h\<lparr>mh_addr := a\<rparr>"

definition register_pair :: "mesh_handle \<Rightarrow> mesh_handle" where
  "register_pair h = h\<lparr>mh_pair_waiting := True\<rparr>"

definition set_pair_done :: "mesh_handle \<Rightarrow> mesh_handle" where
  "set_pair_done h = h\<lparr>mh_pair_done := True\<rparr>"

definition take_pair_done :: "mesh_handle \<Rightarrow> unit res \<times> mesh_handle" where
  "take_pair_done h = (if mh_pair_done h then Inr () else Inl (Usage ''not pairing''), h\<lparr>mh_pair_done := False\<rparr>)"

definition PAIR_PREFACE :: bytes where "PAIR_PREFACE = str_bytes ''CLXP1''"
definition TLS_PREFACE :: bytes where "TLS_PREFACE = str_bytes ''CLXT1''"

datatype connection = PairingTaken | PairingDropped | Authenticated

text \<open>What a new connection becomes, from its first five bytes.\<close>

definition accept_preface :: "bytes \<Rightarrow> mesh_handle \<Rightarrow> connection res \<times> mesh_handle" where
  "accept_preface preface h =
     (if preface = PAIR_PREFACE then
        (Inr (if mh_pair_waiting h then PairingTaken else PairingDropped), h\<lparr>mh_pair_waiting := False\<rparr>)
      else if preface \<noteq> TLS_PREFACE then (Inl (Protocol ''unsupported mesh protocol''), h)
      else (Inr Authenticated, h))"

datatype io_kind = ConnectionRefused | ConnectionReset | ConnectionAborted | BrokenPipe | IoTimedOut
  | NotConnected | UnexpectedEof | HostUnreachable | NetworkUnreachable | OtherKind

definition network_error :: "io_kind \<Rightarrow> string \<Rightarrow> clix_error" where
  "network_error k msg = (case k of
       OtherKind \<Rightarrow> Protocol (''mesh transport failed: '' @ msg)
     | _ \<Rightarrow> Unreachable)"

section \<open>Frames\<close>

definition u32_bytes :: "nat \<Rightarrow> bytes" where
  "u32_bytes n = map of_nat [n div 2 ^ 24 mod 256, n div 2 ^ 16 mod 256, n div 2 ^ 8 mod 256, n mod 256]"

definition u32_of_bytes :: "bytes \<Rightarrow> nat" where
  "u32_of_bytes b = unat (b ! 0) * 2 ^ 24 + unat (b ! 1) * 2 ^ 16 + unat (b ! 2) * 2 ^ 8 + unat (b ! 3)"

definition write_frame :: "bytes \<Rightarrow> bytes res" where
  "write_frame d = (if MESH_FRAME_BYTES < length d then Inl (Protocol ''Clix message exceeds 64 MiB'')
     else Inr (u32_bytes (length d) @ d))"

text \<open>Reading a frame from the bytes that will arrive; the stream ending early is \<open>UnexpectedEof\<close>.\<close>

definition read_frame :: "bytes \<Rightarrow> (bytes \<times> bytes) res" where
  "read_frame input =
     (if length input < 4 then Inl (network_error UnexpectedEof [])
      else let n = u32_of_bytes (take 4 input); rest = drop 4 input
      in if MESH_FRAME_BYTES < n then Inl (Protocol ''Clix message exceeds 64 MiB'')
         else if length rest < n then Inl (network_error UnexpectedEof [])
         else Inr (take n rest, drop n rest))"

lemma u32_roundtrip: "n < 2 ^ 32 \<Longrightarrow> u32_of_bytes (u32_bytes n) = n"
proof -
  assume n: "n < 2 ^ 32"
  have "unat (of_nat (m mod 256) :: byte) = m mod 256" for m
    by (simp add: unat_of_nat take_bit_eq_mod)
  then have "u32_of_bytes (u32_bytes n) =
      n div 2 ^ 24 mod 256 * 2 ^ 24 + n div 2 ^ 16 mod 256 * 2 ^ 16 + n div 2 ^ 8 mod 256 * 2 ^ 8 + n mod 256"
    by (simp add: u32_of_bytes_def u32_bytes_def)
  also have "\<dots> = n"
  proof -
    define x y z where "x = n div 2 ^ 24" and "y = n div 2 ^ 16" and "z = n div 2 ^ 8"
    have "x < 256" using n by (simp add: x_def div_less_iff_less_mult)
    then have small: "x mod 256 = x" by simp
    have "x = y div 256" "y = z div 256" "z = n div 256"
      by (simp_all add: x_def y_def z_def div_mult2_eq [symmetric])
    then have "y = x * 256 + y mod 256" "z = y * 256 + z mod 256" "n = z * 256 + n mod 256"
      by (metis div_mult_mod_eq)+
    then have "x * 16777216 + y mod 256 * 65536 + z mod 256 * 256 + n mod 256 = n" by linarith
    then show ?thesis using small by (simp add: x_def y_def z_def)
  qed
  finally show ?thesis .
qed

text \<open>Framing is lossless and bounded: a message of at most 64 MiB is read back exactly, with the
  bytes after it left on the stream, and no reader ever accepts a longer one.\<close>

theorem frame_roundtrip:
  "(length d \<le> MESH_FRAME_BYTES \<longrightarrow> (\<exists>f. write_frame d = Inr f \<and> read_frame (f @ rest) = Inr (d, rest))) \<and>
   (read_frame input = Inr (d, rest) \<longrightarrow> length d \<le> MESH_FRAME_BYTES)"
proof -
  have len: "length (u32_bytes n) = 4" for n by (simp add: u32_bytes_def)
  have "write_frame d = Inr (u32_bytes (length d) @ d) \<and> read_frame ((u32_bytes (length d) @ d) @ rest) = Inr (d, rest)"
    if "length d \<le> MESH_FRAME_BYTES"
  proof -
    have "length d < 2 ^ 32" using that by (simp add: MESH_FRAME_BYTES_def)
    then have "u32_of_bytes (u32_bytes (length d)) = length d" by (rule u32_roundtrip)
    moreover have "\<not> MESH_FRAME_BYTES < length d" using that by simp
    ultimately show ?thesis by (simp add: write_frame_def read_frame_def len Let_def)
  qed
  moreover have "length d \<le> MESH_FRAME_BYTES" if "read_frame input = Inr (d, rest)"
    using that by (auto simp: read_frame_def Let_def split: if_splits)
  ultimately show ?thesis by blast
qed

section \<open>Errors across the network\<close>

text \<open>The serving side's reply to a failed operation, and the calling side's reading of a response.\<close>

definition error_reply :: "clix_error \<Rightarrow> json" where
  "error_reply e = (case e of
       Capacity reason \<Rightarrow> JObj [(''ok'', JBool False), (''kind'', JStr ''capacity''), (''error'', JStr reason)]
     | Unreachable \<Rightarrow> JObj [(''ok'', JBool False), (''kind'', JStr ''unreachable''),
                           (''error'', JStr ''machine is unreachable'')]
     | PinConflict path a b \<Rightarrow> JObj [(''ok'', JBool False), (''kind'', JStr ''pin_conflict''),
                           (''path'', JStr path), (''a'', JStr a), (''b'', JStr b)]
     | _ \<Rightarrow> JObj [(''ok'', JBool False), (''error'', JStr (error_text e))])"

definition conflict_field :: "json \<Rightarrow> string \<Rightarrow> string res" where
  "conflict_field v k = ok_or (jstr v k) (Protocol ''invalid conflict response'')"

definition call_response :: "json \<Rightarrow> json res" where
  "call_response v =
     (if jget v ''ok'' = Some (JBool False) then
        (if jindex v ''kind'' = JStr ''capacity'' then
           Inl (Capacity (case as_str (jindex v ''error'') of Some m \<Rightarrow> m | None \<Rightarrow> ''peer is at capacity''))
         else if jindex v ''kind'' = JStr ''unreachable'' then Inl Unreachable
         else if jindex v ''kind'' = JStr ''pin_conflict'' then
           rbind (conflict_field v ''path'') (\<lambda>p. rbind (conflict_field v ''a'') (\<lambda>a.
           rbind (conflict_field v ''b'') (\<lambda>b. Inl (PinConflict p a b))))
         else Inl (Protocol (case jstr v ''error'' of Some m \<Rightarrow> m | None \<Rightarrow> ''peer rejected request'')))
      else Inr v)"

fun remote_error :: "clix_error \<Rightarrow> clix_error" where
  "remote_error (Capacity m) = Capacity m"
| "remote_error Unreachable = Unreachable"
| "remote_error (PinConflict p a b) = PinConflict p a b"
| "remote_error e = Protocol (error_text e)"

text \<open>The caller sees the error the serving machine raised: capacity, unreachable and pin conflicts
  keep their kind and content, every other error arrives as a protocol error with its text.\<close>

theorem errors_cross_the_mesh: "call_response (error_reply e) = Inl (remote_error e)"
  by (cases e) (simp_all add: error_reply_def call_response_def jindex_def conflict_field_def jstr_def)

section \<open>The operations of a paired machine\<close>

record mesh_env =
  me_submit :: submit_env
  me_random :: "bytes res"
  me_request_id :: "string res"
  me_decode_error :: "json \<Rightarrow> string"

type_synonym pin_rpc = "string \<Rightarrow> peer \<Rightarrow> json \<Rightarrow> node \<Rightarrow> json res \<times> node"

definition decode :: "mesh_env \<Rightarrow> (json \<Rightarrow> 'a option) \<Rightarrow> json \<Rightarrow> 'a res" where
  "decode env f v = ok_or (f v) (Json (me_decode_error env v))"

text \<open>The permit a new execution request holds while it is admitted; a known identifier needs none.\<close>

definition with_exec_permit :: "bool \<Rightarrow> limits \<Rightarrow> node \<Rightarrow> (limits \<Rightarrow> json res \<times> node \<times> limits \<times> child option)
    \<Rightarrow> json res \<times> node \<times> limits \<times> child option" where
  "with_exec_permit existing l nd k =
     (if existing then k l
      else case acquire_mesh_exec l of
             Inl e \<Rightarrow> (Inl e, nd, l, None)
           | Inr l1 \<Rightarrow> (case k l1 of (r, nd', l2, ch) \<Rightarrow> (r, nd', release_mesh_exec l2, ch)))"

definition known_id :: "node \<Rightarrow> string \<Rightarrow> bool" where
  "known_id nd i \<longleftrightarrow> list_ex (\<lambda>j. j_id j = i) (st_jobs (fst nd))"

definition dispatch_certified :: "ctx \<Rightarrow> mesh_env \<Rightarrow> peer \<Rightarrow> json \<Rightarrow> limits \<Rightarrow> node
    \<Rightarrow> json res \<times> node \<times> limits \<times> child option" where
  "dispatch_certified cx env peer req l nd =
     (case rbind (decode env certificate_of_json (jindex req ''invocation'')) (\<lambda>c.
           rbind (ensure_writable (fst nd)) (\<lambda>_.
           rbind (authorize_execution (cx_crypto cx) (fst nd) peer c) (\<lambda>_. Inr c))) of
        Inl e \<Rightarrow> (Inl e, nd, l, None)
      | Inr c \<Rightarrow>
          if jindex req ''op'' = JStr ''job_get_v2'' then (execution_reply (cx_crypto cx) (fst nd) c, nd, l, None)
          else with_exec_permit (known_id nd (i_id (c_invocation c))) l nd (\<lambda>l1.
            case submit_certified cx (me_submit env) c l1 nd of
              (Inl e, nd', l2, ch) \<Rightarrow> (Inl e, nd', l2, ch)
            | (Inr _, nd', l2, ch) \<Rightarrow> (execution_reply (cx_crypto cx) (fst nd') c, nd', l2, ch)))"

definition dispatch_page :: "ctx \<Rightarrow> json \<Rightarrow> store \<Rightarrow> json res" where
  "dispatch_page cx req s =
     (let epoch = (case jstr req ''epoch'' of Some e \<Rightarrow> e | None \<Rightarrow> [])
      in if 128 < length epoch then Inl (Protocol ''invalid history epoch'')
         else rbind (ok_or (ju64 req ''after'') (Protocol ''missing history cursor'')) (\<lambda>after.
              rbind (page (cx_crypto cx) s epoch after (ju64 req ''high'')) (\<lambda>p. Inr (page_json p))))"

definition dispatch_exec :: "ctx \<Rightarrow> mesh_env \<Rightarrow> peer \<Rightarrow> json \<Rightarrow> limits \<Rightarrow> node
    \<Rightarrow> json res \<times> node \<times> limits \<times> child option" where
  "dispatch_exec cx env peer req l nd =
     (case rbind (decode env (as_list as_str) (jindex req ''argv'')) (\<lambda>argv.
           rbind (new_id (me_random env)) (\<lambda>fresh.
           let i = (case jstr req ''job_id'' of Some i \<Rightarrow> i | None \<Rightarrow> fresh)
           in rbind (limits_invocation i argv) (\<lambda>_. Inr (argv, i)))) of
        Inl e \<Rightarrow> (Inl e, nd, l, None)
      | Inr (argv, i) \<Rightarrow> with_exec_permit (known_id nd i) l nd (\<lambda>l1.
          submit cx (me_submit env) (p_name peer) argv i l1 nd))"

definition dispatch_job_get :: "peer \<Rightarrow> json \<Rightarrow> store \<Rightarrow> json res" where
  "dispatch_job_get peer req s =
     rbind (ok_or (jstr req ''job_id'') (Protocol ''missing job ID'')) (\<lambda>i.
     Inr (JObj [(''job'', opt_json job_json (List.find (\<lambda>j. j_id j = i \<and> j_from j = p_name peer \<and>
        j_body j = st_body_name s) (st_jobs s)))]))"

definition dispatch_request :: "ctx \<Rightarrow> mesh_env \<Rightarrow> peer \<Rightarrow> json \<Rightarrow> node \<Rightarrow> json res \<times> node" where
  "dispatch_request cx env peer req nd =
     (case jstr req ''tool'' of
        None \<Rightarrow> (Inl (Usage ''missing tool''), nd)
      | Some tool \<Rightarrow>
          if tool = [] then (Inl (Usage ''missing tool''), nd)
          else case update cx (receive (me_request_id env) (p_name peer) tool (jstr req ''request_id'')) nd of
                 (Inl e, nd') \<Rightarrow> (Inl e, nd')
               | (Inr r, nd') \<Rightarrow> (Inr (JObj [(''ok'', JBool True), (''request'', request_json r)]), nd'))"

definition dispatch :: "ctx \<Rightarrow> mesh_env \<Rightarrow> pin_rpc \<Rightarrow> peer \<Rightarrow> json \<Rightarrow> limits \<Rightarrow> node
    \<Rightarrow> json res \<times> node \<times> limits \<times> child option" where
  "dispatch cx env pin peer req l nd =
     (let op = (case jstr req ''op'' of Some t \<Rightarrow> t | None \<Rightarrow> [])
      in if op = ''exec_v2'' \<or> op = ''job_get_v2'' then dispatch_certified cx env peer req l nd
         else if op = ''history_page'' then (dispatch_page cx req (fst nd), nd, l, None)
         else if op = ''exec'' then dispatch_exec cx env peer req l nd
         else if op = ''job_get'' then (dispatch_job_get peer req (fst nd), nd, l, None)
         else if op = ''request'' then (case dispatch_request cx env peer req nd of (r, nd') \<Rightarrow> (r, nd', l, None))
         else if op \<in> {''pin_list'', ''pin_get'', ''pin_put'', ''pin_commit''}
         then (case pin op peer req nd of (r, nd') \<Rightarrow> (r, nd', l, None))
         else (Inl (Usage (op @ '' is not allowed over the mesh'')), nd, l, None))"

section \<open>A paired machine cannot widen its authority\<close>

text \<open>What the owner decided: the grants without their run-time reservations, the pairings and this
  machine's identity.\<close>

definition permissions :: "store \<Rightarrow> grant list" where
  "permissions s = map (\<lambda>g. g\<lparr>g_reservation := None\<rparr>) (st_grants s)"

definition authority :: "store \<Rightarrow> grant list \<times> peer list \<times> string \<times> bytes" where
  "authority s = (permissions s, st_peers s, st_body_name s, st_owner_sk s)"

lemma authority_outcome: "outcome s' = outcome s \<Longrightarrow> authority s' = authority s"
  using outcomeD(1,2,3,5) [of s' s] by (simp add: authority_def permissions_def)

lemma authority_write_error [simp]: "authority (s\<lparr>st_write_error := w\<rparr>) = authority s"
  by (simp add: authority_def permissions_def)

lemma authority_reserve [simp]: "authority (reserve tool i s) = authority s"
proof -
  have "map (\<lambda>g. g\<lparr>g_reservation := None\<rparr>) (update_first (\<lambda>x. g_tool x = tool) (\<lambda>x. x\<lparr>g_reservation := Some i\<rparr>) gs) =
      map (\<lambda>g. g\<lparr>g_reservation := None\<rparr>) gs" for gs
    by (rule map_update_first) simp
  then show ?thesis by (simp add: authority_def permissions_def reserve_def)
qed

lemma authority_set_job [simp]: "authority (set_job j s) = authority s"
  by (simp add: authority_def permissions_def)

lemma authority_admit: "admit cr cert s = Inr s1 \<Longrightarrow> authority s1 = authority s"
  using admit_frame(2,4,5,6) [of cr cert s s1] by (simp add: authority_def permissions_def)

lemma authority_upsert: "upsert nid who tool s = Inr (req, s') \<Longrightarrow> authority s' = authority s"
  by (auto dest!: upsert_only_requests simp: authority_def permissions_def)

lemma submit_edit_authority:
  assumes "submit_edit cr env l from argv i cert s = Inr ((j, granted), s')"
  shows "authority s' = authority s"
  using assms
proof (cases rule: submit_edit_cases)
  case granted
  then show ?thesis by (auto dest: authority_admit)
next
  case (denied s1 e s2)
  then have "authority s2 = authority s1" by (auto dest: authority_upsert split: if_splits)
  with denied authority_admit [OF denied(1)] show ?thesis by simp
qed

lemma submit_inner_authority:
  assumes "submit_inner cx env from argv i cert l (s, disk) = (r, nd', l', ch)"
  shows "authority (fst nd') = authority s"
  using assms
proof (cases rule: submit_inner_cases)
  case (run j granted s' disk')
  from run(4) obtain n1 where "submit_edit (cx_crypto cx) env l from argv i cert s = Inr ((j, granted), n1)"
    and "outcome s' = outcome n1" by (rule update_ok)
  then have "authority s' = authority s" by (metis submit_edit_authority authority_outcome)
  with run(6) show ?thesis by simp
qed simp_all

definition started_for :: "body_id \<Rightarrow> store \<Rightarrow> local_now \<Rightarrow> child option \<Rightarrow> bool" where
  "started_for who s now ch \<longleftrightarrow> (\<forall>c. ch = Some c \<longrightarrow> j_from (ch_job c) = who \<and>
     check_at s (hd (j_argv (ch_job c))) who now = Inr (ch_grant c) \<and>
     check_args (ch_grant c) (j_argv (ch_job c)) = Inr ())"

lemma submit_inner_started:
  assumes "submit_inner cx env from argv i cert l (s, disk) = (r, nd', l', ch)"
  shows "started_for from s (se_now env) ch"
  using assms
proof (cases rule: submit_inner_cases)
  case (run j granted u d)
  from run(4) obtain n1 where "submit_edit (cx_crypto cx) env l from argv i cert s = Inr ((j, granted), n1)"
    by (rule update_ok)
  then show ?thesis
    by (cases rule: submit_edit_cases) (auto simp: run(8) started_for_def accepted_job_def decide_run_ok)
qed (simp_all add: started_for_def)

lemma with_exec_permit_cases:
  assumes "with_exec_permit existing l nd k = (r, nd', l', ch)"
  obtains (busy) "nd' = nd" "ch = None" | (went) l1 l2 where "k l1 = (r, nd', l2, ch)"
  using assms by (auto simp: with_exec_permit_def split: if_splits sum.splits prod.splits)

lemma dispatch_certified_authority:
  assumes "dispatch_certified cx env peer req l (s, disk) = (r, nd', l', ch)"
  shows "authority (fst nd') = authority s \<and> started_for (p_name peer) s (se_now (me_submit env)) ch"
proof (cases "rbind (decode env certificate_of_json (jindex req ''invocation'')) (\<lambda>c.
           rbind (ensure_writable s) (\<lambda>_. rbind (authorize_execution (cx_crypto cx) s peer c) (\<lambda>_. Inr c)))")
  case (Inl e)
  with assms show ?thesis by (auto simp: dispatch_certified_def started_for_def)
next
  case (Inr c)
  then have "authorize_execution (cx_crypto cx) s peer c = Inr ()" by (auto simp: rbind_Inr_iff)
  then have who: "i_from (c_invocation c) = p_name peer"
    by (auto simp: authorize_execution_def Let_def rbind_Inr_iff split: if_splits)
  show ?thesis
  proof (cases "jindex req ''op'' = JStr ''job_get_v2''")
    case True
    with assms Inr show ?thesis by (auto simp: dispatch_certified_def started_for_def)
  next
    case False
    let ?k = "\<lambda>l1. case submit_certified cx (me_submit env) c l1 (s, disk) of
              (Inl e, nd', l2, ch) \<Rightarrow> (Inl e, nd', l2, ch)
            | (Inr _, nd', l2, ch) \<Rightarrow> (execution_reply (cx_crypto cx) (fst nd') c, nd', l2, ch)"
    from False assms Inr have "with_exec_permit (known_id (s, disk) (i_id (c_invocation c))) l (s, disk) ?k = (r, nd', l', ch)"
      by (simp add: dispatch_certified_def)
    then show ?thesis
    proof (cases rule: with_exec_permit_cases)
      case (went l1 l2)
      then obtain r' where "submit_certified cx (me_submit env) c l1 (s, disk) = (r', nd', l2, ch)"
        by (auto split: prod.splits sum.splits)
      then have sub: "submit_inner cx (me_submit env) (i_from (c_invocation c)) (i_argv (c_invocation c))
          (i_id (c_invocation c)) (Some c) l1 (s, disk) = (r', nd', l2, ch)"
        by (simp add: submit_certified_def Let_def)
      show ?thesis using submit_inner_authority [OF sub] submit_inner_started [OF sub] who by simp
    qed (simp add: started_for_def)
  qed
qed

lemma dispatch_exec_authority:
  assumes "dispatch_exec cx env peer req l (s, disk) = (r, nd', l', ch)"
  shows "authority (fst nd') = authority s \<and> started_for (p_name peer) s (se_now (me_submit env)) ch"
proof (cases "rbind (decode env (as_list as_str) (jindex req ''argv'')) (\<lambda>argv.
           rbind (new_id (me_random env)) (\<lambda>fresh.
           let i = (case jstr req ''job_id'' of Some i \<Rightarrow> i | None \<Rightarrow> fresh)
           in rbind (limits_invocation i argv) (\<lambda>_. Inr (argv, i))))")
  case (Inl e)
  with assms show ?thesis by (auto simp: dispatch_exec_def started_for_def)
next
  case (Inr ai)
  obtain argv i where ai: "ai = (argv, i)" by fastforce
  from assms Inr ai have "with_exec_permit (known_id (s, disk) i) l (s, disk)
      (\<lambda>l1. submit cx (me_submit env) (p_name peer) argv i l1 (s, disk)) = (r, nd', l', ch)"
    by (simp add: dispatch_exec_def)
  then show ?thesis
  proof (cases rule: with_exec_permit_cases)
    case (went l1 l2)
    then have sub: "submit_inner cx (me_submit env) (p_name peer) argv i None l1 (s, disk) = (r, nd', l2, ch)"
      by (simp add: submit_def)
    show ?thesis using submit_inner_authority [OF sub] submit_inner_started [OF sub] by simp
  qed (simp add: started_for_def)
qed

lemma receive_authority: "receive nid who tool delivery s = Inr (req, s') \<Longrightarrow> authority s' = authority s"
  using receive_same(1,3,4,6) [of nid who tool delivery s req s'] by (simp add: authority_def permissions_def)

lemma update_authority:
  assumes "update cx edit (s, disk) = (r, nd')"
    and "\<And>v n. edit s = Inr (v, n) \<Longrightarrow> authority n = authority s"
  shows "authority (fst nd') = authority s"
proof -
  obtain s' d' where nd': "nd' = (s', d')" by fastforce
  from assms(1) [unfolded nd'] show ?thesis
  proof (cases rule: update_steps)
    case (saved v)
    with assms(1) nd' obtain n1 where "edit s = Inr (v, n1)" "outcome s' = outcome n1"
      using update_ok [of cx edit s disk v s' d'] by metis
    from assms(2) [OF this(1)] authority_outcome [OF this(2)] show ?thesis by (simp add: nd')
  qed (simp_all add: nd')
qed

lemma dispatch_request_authority:
  "dispatch_request cx env peer req (s, disk) = (r, nd') \<Longrightarrow> authority (fst nd') = authority s"
  by (auto simp: dispatch_request_def split: option.splits if_splits sum.splits prod.splits
      dest!: update_authority dest: receive_authority)

text \<open>What the mesh relies on of the operations on the pinned directory: they change no permission, no
  pairing and no identity.\<close>

locale pin_operations =
  fixes pin :: pin_rpc
  assumes keeps_authority: "authority (fst (snd (pin op peer req nd))) = authority (fst nd)"
begin

text \<open>Whatever a paired machine sends, it cannot widen what the owner allowed: the grants (apart
  from the reservation of a single-use grant by a run), the pairings and this machine's identity stay
  the same; a process it starts runs in its own name only, under a grant that admits that machine at
  that time and with those arguments.\<close>

lemma dispatch_scope:
  assumes "dispatch cx env pin peer req l (s, disk) = (r, (s', disk'), l', ch)"
  shows "authority s' = authority s \<and> started_for (p_name peer) s (se_now (me_submit env)) ch"
proof -
  have pin: "authority (fst nd') = authority s" if "pin op peer req (s, disk) = (r', nd')" for op r' nd'
    using keeps_authority [of op peer req "(s, disk)"] that by simp
  have none: "started_for who s now None" for who now by (simp add: started_for_def)
  from assms show ?thesis
    unfolding dispatch_def Let_def
    using none
    by (auto split: if_splits prod.splits dest: dispatch_certified_authority dispatch_exec_authority
        dispatch_request_authority pin)
qed

end

end
