(* ===== verification/Clix_Dispatch.thy ===== *)
theory Clix_Dispatch
  imports Clix_Mesh
begin

text \<open>
  The dispatcher of \<open>src/job.rs\<close> and what its tasks do: the choice of the next pieces of work
  (fair, bounded, round robin behind a cursor), the delivery of one job to its machine
  (\<open>dispatch_one\<close>), the retry of a queued local job, and the delivery of a permission request
  (\<open>src/request.rs\<close>).  A network call is a parameter; so is what other tasks do to the node
  while a call is under way and the store is unlocked.
\<close>

section \<open>Choosing work\<close>

datatype work =
    JobWork job
  | RequestWork outbound_request
  | HistoryWork peer
  | LocalWork job

record dispatcher =
  dp_active :: "string list"
  dp_next :: "string \<rightharpoonup> nat"
  dp_cursor :: string

definition job_work :: "store \<Rightarrow> job \<Rightarrow> (string \<times> work) list" where
  "job_work s j =
     (if j_from j = st_body_name s \<and> j_body j \<noteq> st_body_name s \<and> \<not> is_terminal (j_status j)
      then [(''job:'' @ j_id j, JobWork j)]
      else if j_from j = st_body_name s \<and> j_body j = st_body_name s \<and> is_queued (j_status j)
      then [(''local:'' @ j_id j, LocalWork j)] else [])"

definition dispatch_candidates :: "store \<Rightarrow> (string \<times> work) list" where
  "dispatch_candidates s = sort_key fst
     (concat (map (job_work s) (st_jobs s)) @
      map (\<lambda>r. (''request:'' @ o_id r, RequestWork r)) (filter (\<lambda>r. o_error r = None) (st_outbound_requests s)) @
      map (\<lambda>p. (''history:'' @ p_name p, HistoryWork p)) (st_peers s))"

definition rotate_after :: "string \<Rightarrow> (string \<times> work) list \<Rightarrow> (string \<times> work) list" where
  "rotate_after cursor cs =
     (let start = length (takeWhile (\<lambda>(k, _). k \<le> cursor) cs) in drop start cs @ take start cs)"

text \<open>A key can start when no task runs for it and its last attempt is a poll interval ago.\<close>

definition ready :: "nat \<Rightarrow> string list \<Rightarrow> (string \<rightharpoonup> nat) \<Rightarrow> string \<Rightarrow> bool" where
  "ready now active nxt k \<longleftrightarrow> k \<notin> set active \<and> (case nxt k of Some t \<Rightarrow> t \<le> now | None \<Rightarrow> True)"

fun launch :: "nat \<Rightarrow> nat \<Rightarrow> (string \<times> work) list \<Rightarrow> string list \<Rightarrow> (string \<rightharpoonup> nat)
    \<Rightarrow> string list \<times> (string \<rightharpoonup> nat) \<times> (string \<times> work) list" where
  "launch now wait [] active nxt = (active, nxt, [])"
| "launch now wait ((k, w) # cs) active nxt =
     (if DISPATCH \<le> length active then (active, nxt, [])
      else if \<not> ready now active nxt k then launch now wait cs active nxt
      else case launch now wait cs (active @ [k]) (nxt(k \<mapsto> now + wait)) of
             (active', nxt', started) \<Rightarrow> (active', nxt', (k, w) # started))"

definition dispatch_round :: "nat \<Rightarrow> nat \<Rightarrow> store \<Rightarrow> dispatcher \<Rightarrow> dispatcher \<times> (string \<times> work) list" where
  "dispatch_round now wait s d =
     (let cs = dispatch_candidates s;
          nxt = (\<lambda>k. if k \<in> fst ` set cs then dp_next d k else None)
      in case launch now wait (rotate_after (dp_cursor d) cs) (dp_active d) nxt of
           (active', nxt', started) \<Rightarrow>
             (\<lparr>dp_active = active', dp_next = nxt',
               dp_cursor = (if started = [] then dp_cursor d else fst (last started))\<rparr>, started))"

definition task_finished :: "string \<Rightarrow> dispatcher \<Rightarrow> dispatcher" where
  "task_finished k d = d\<lparr>dp_active := remove1 k (dp_active d)\<rparr>"

definition new_dispatcher :: dispatcher where
  "new_dispatcher = \<lparr>dp_active = [], dp_next = Map.empty, dp_cursor = []\<rparr>"

definition dispatcher_ok :: "dispatcher \<Rightarrow> bool" where
  "dispatcher_ok d \<longleftrightarrow> distinct (dp_active d) \<and> length (dp_active d) \<le> DISPATCH"

section \<open>The order of attempts\<close>

lemma set_rotate_after [simp]: "set (rotate_after c cs) = set cs"
proof -
  have "set (drop n cs) \<union> set (take n cs) = set cs" for n
    by (metis Un_commute append_take_drop_id set_append)
  then show ?thesis by (simp add: rotate_after_def Let_def)
qed

lemma map_rotate_distinct: "distinct (map fst cs) \<Longrightarrow> distinct (map fst (rotate_after c cs))"
proof -
  have "distinct (map f (drop n cs @ take n cs))" if "distinct (map f cs)" for n :: nat and f :: "(string \<times> work) \<Rightarrow> string"
  proof -
    have "distinct (map f (take n cs @ drop n cs))" using that by (simp only: append_take_drop_id)
    then show ?thesis by (auto simp del: append_take_drop_id)
  qed
  then show "distinct (map fst cs) \<Longrightarrow> distinct (map fst (rotate_after c cs))"
    by (simp add: rotate_after_def Let_def)
qed

lemma sorted_candidates: "sorted (map fst (dispatch_candidates s))"
  by (simp add: dispatch_candidates_def)

lemma takeWhile_le_sorted:
  assumes "sorted (map fst (A @ (k, w) # B))" and "distinct (map fst (A @ (k, w) # B))"
  shows "takeWhile (\<lambda>(x, _). x \<le> k) (A @ (k, w) # B) = A @ [(k, w)]"
proof -
  have "\<forall>(x, v) \<in> set A. x \<le> k" using assms(1) by (auto simp: sorted_append)
  moreover have "\<forall>(x, v) \<in> set B. \<not> x \<le> k"
  proof -
    have "k \<notin> fst ` set B" "\<forall>x \<in> fst ` set B. k \<le> x" using assms by (auto simp: sorted_append)
    then show ?thesis by force
  qed
  ultimately show ?thesis
    by (cases B) (auto simp: takeWhile_append2 case_prod_beta)
qed

text \<open>Restarting behind a key of the rotation continues where the rotation was left.\<close>

lemma rotate_after_key:
  assumes "sorted (map fst cs)" and "distinct (map fst cs)" and "rotate_after c cs = xs @ (k, w) # ys"
  shows "rotate_after k cs = ys @ xs @ [(k, w)]"
proof -
  define n where "n = length (takeWhile (\<lambda>(x, _). x \<le> c) cs)"
  have r: "drop n cs @ take n cs = xs @ (k, w) # ys" using assms(3) by (simp add: rotate_after_def n_def Let_def)
  have split: "rotate_after k (A @ (k, w) # B) = B @ A @ [(k, w)]" if "cs = A @ (k, w) # B" for A B
    using takeWhile_le_sorted [of A k w B] assms(1,2) that by (simp add: rotate_after_def Let_def)
  from r show ?thesis
    unfolding append_eq_append_conv2
  proof (elim exE disjE conjE)
    fix us assume us: "drop n cs = xs @ us" "us @ take n cs = (k, w) # ys"
    show ?thesis
    proof (cases us)
      case Nil
      then have "cs = [] @ (k, w) # (tl (take n cs) @ xs)" using us append_take_drop_id [of n cs] by (cases "take n cs") auto
      from split [OF this] this us Nil show ?thesis by (cases "take n cs") auto
    next
      case (Cons u us')
      then have u: "u = (k, w)" "ys = us' @ take n cs" using us by auto
      have "cs = (take n cs @ xs) @ (k, w) # us'" using us Cons u append_take_drop_id [of n cs] by simp
      from split [OF this] this u show ?thesis by simp
    qed
  next
    fix us assume us: "drop n cs @ us = xs" "take n cs = us @ (k, w) # ys"
    have "cs = us @ (k, w) # (ys @ drop n cs)" using us append_take_drop_id [of n cs] by simp
    from split [OF this] this us show ?thesis by simp
  qed
qed

section \<open>One round\<close>

lemma launch_active: "launch now wait cs active nxt = (active', nxt', started) \<Longrightarrow> active' = active @ map fst started"
  by (induction now wait cs active nxt arbitrary: active' nxt' started rule: launch.induct)
    (auto split: if_splits prod.splits)

lemma launch_bounded:
  "launch now wait cs active nxt = (active', nxt', started) \<Longrightarrow> distinct active \<Longrightarrow> length active \<le> DISPATCH \<Longrightarrow>
     distinct active' \<and> length active' \<le> DISPATCH"
  by (induction now wait cs active nxt arbitrary: active' nxt' started rule: launch.induct)
    (auto simp: ready_def split: if_splits prod.splits)

lemma launch_started:
  "launch now wait cs active nxt = (active', nxt', started) \<Longrightarrow> distinct (map fst cs) \<Longrightarrow> (k, w) \<in> set started \<Longrightarrow>
     (k, w) \<in> set cs \<and> ready now active nxt k"
proof (induction now wait cs active nxt arbitrary: active' nxt' started rule: launch.induct)
  case (2 now wait k1 w1 cs active nxt)
  have new: "k \<noteq> k1" if "(k, w) \<in> set cs" using 2(4) that by force
  have d: "distinct (map fst cs)" using 2(4) by simp
  show ?case
  proof (cases "DISPATCH \<le> length active \<or> \<not> ready now active nxt k1")
    case True
    with 2(3,5) 2(1) [OF _ _ _ d] show ?thesis by (auto split: if_splits)
  next
    case False
    then obtain st where st: "launch now wait cs (active @ [k1]) (nxt(k1 \<mapsto> now + wait)) = (active', nxt', st)"
      "started = (k1, w1) # st" using 2(3) by (auto split: prod.splits)
    show ?thesis
    proof (cases "(k, w) = (k1, w1)")
      case False
      with 2(5) st have "(k, w) \<in> set st" by auto
      with 2(2) [OF _ _ st(1) d] \<open>\<not> (DISPATCH \<le> length active \<or> \<not> ready now active nxt k1)\<close>
      have "(k, w) \<in> set cs \<and> ready now (active @ [k1]) (nxt(k1 \<mapsto> now + wait)) k" by blast
      with new show ?thesis by (auto simp: ready_def)
    qed (use \<open>\<not> (DISPATCH \<le> length active \<or> \<not> ready now active nxt k1)\<close> in auto)
  qed
qed simp

text \<open>A ready key that was passed over was passed over because the tasks are at their limit, and comes
  after everything that was started.\<close>

lemma launch_passed_over:
  "launch now wait cs active nxt = (active', nxt', started) \<Longrightarrow> distinct (map fst cs) \<Longrightarrow> (k, w) \<in> set cs \<Longrightarrow>
     ready now active nxt k \<Longrightarrow> (k, w) \<notin> set started \<Longrightarrow>
     DISPATCH \<le> length active' \<and> (started \<noteq> [] \<longrightarrow> (\<exists>xs ys. cs = xs @ last started # ys \<and> (k, w) \<in> set ys \<and>
        length started \<le> Suc (length xs)))"
proof (induction now wait cs active nxt arbitrary: active' nxt' started rule: launch.induct)
  case (2 now wait k1 w1 cs active nxt)
  show ?case
  proof (cases "DISPATCH \<le> length active")
    case True
    with 2(3) show ?thesis by auto
  next
    case free: False
    show ?thesis
    proof (cases "ready now active nxt k1")
      case False
      then have "k \<noteq> k1" using 2(6) by auto
      with 2(1) [OF free False] 2(3-7) free False
      have "DISPATCH \<le> length active' \<and> (started \<noteq> [] \<longrightarrow> (\<exists>xs ys. cs = xs @ last started # ys \<and> (k, w) \<in> set ys \<and>
        length started \<le> Suc (length xs)))" by auto
      then show ?thesis
        by (metis append_Cons le_SucI length_Cons)
    next
      case True
      with 2(3) free obtain st where st: "launch now wait cs (active @ [k1]) (nxt(k1 \<mapsto> now + wait)) = (active', nxt', st)"
        "started = (k1, w1) # st" by (auto split: prod.splits)
      have neq: "k \<noteq> k1"
      proof
        assume "k = k1"
        moreover from this have "w = w1" using 2(4,5) by force
        ultimately show False using 2(7) st by simp
      qed
      with 2(6) have "ready now (active @ [k1]) (nxt(k1 \<mapsto> now + wait)) k" by (auto simp: ready_def)
      then have ih: "DISPATCH \<le> length active' \<and> (st \<noteq> [] \<longrightarrow> (\<exists>xs ys. cs = xs @ last st # ys \<and> (k, w) \<in> set ys \<and>
        length st \<le> Suc (length xs)))"
        by (intro 2(2) [OF free _ st(1)]) (use True 2(4,5,7) st neq in \<open>auto simp: fun_upd_def\<close>)
      show ?thesis
      proof (cases "st = []")
        case True
        then show ?thesis using ih st neq 2(5) by (intro conjI impI exI [of _ "[]"] exI [of _ cs]) auto
      next
        case False
        with ih obtain xs ys where "cs = xs @ last st # ys" "(k, w) \<in> set ys" "length st \<le> Suc (length xs)" by blast
        then show ?thesis using ih st False by (intro conjI impI exI [of _ "(k1, w1) # xs"] exI [of _ ys]) auto
      qed
    qed
  qed
qed simp

text \<open>How many candidates come before a key when the next round starts.\<close>

definition turn :: "store \<Rightarrow> dispatcher \<Rightarrow> string \<Rightarrow> nat" where
  "turn s d k = length (takeWhile (\<lambda>(x, _). x \<noteq> k) (rotate_after (dp_cursor d) (dispatch_candidates s)))"

lemma takeWhile_key:
  "k \<notin> fst ` set xs \<Longrightarrow> (k, w) \<in> set ys \<Longrightarrow>
     length (takeWhile (\<lambda>(x, _). x \<noteq> k) (xs @ ys @ zs)) = length xs + length (takeWhile (\<lambda>(x, _). x \<noteq> k) ys)"
proof (induction xs)
  case Nil
  then have "takeWhile (\<lambda>(x, _). x \<noteq> k) (ys @ zs) = takeWhile (\<lambda>(x, _). x \<noteq> k) ys"
    by (intro takeWhile_append1 [where x = "(k, w)"]) auto
  then show ?case by simp
qed (auto simp: case_prod_beta)

text \<open>The dispatcher is bounded: a round keeps at most \<open>DISPATCH\<close> tasks, never two for the same
  job, request or peer, and starts only candidates of the store whose last attempt is at least a poll
  interval ago.\<close>

theorem dispatch_bounded:
  assumes "dispatch_round now wait s d = (d', started)" and "dispatcher_ok d"
    and "distinct (map fst (dispatch_candidates s))"
  shows "dispatcher_ok d' \<and> dp_active d' = dp_active d @ map fst started \<and>
    (\<forall>(k, w) \<in> set started. (k, w) \<in> set (dispatch_candidates s) \<and> ready now (dp_active d) (dp_next d) k)"
proof -
  let ?cs = "dispatch_candidates s"
  let ?nxt = "\<lambda>k. if k \<in> fst ` set ?cs then dp_next d k else None"
  obtain a n st where l: "launch now wait (rotate_after (dp_cursor d) ?cs) (dp_active d) ?nxt = (a, n, st)"
    by (rule prod_cases3)
  with assms(1) have d': "dp_active d' = a" "started = st" by (auto simp: dispatch_round_def Let_def)
  have "\<forall>(k, w) \<in> set st. (k, w) \<in> set ?cs \<and> ready now (dp_active d) (dp_next d) k"
  proof (intro ballI, clarify)
    fix k w assume "(k, w) \<in> set st"
    from launch_started [OF l map_rotate_distinct [OF assms(3)] this]
    show "(k, w) \<in> set ?cs \<and> ready now (dp_active d) (dp_next d) k"
      by (auto simp: ready_def image_iff split: if_splits)
  qed
  with launch_active [OF l] launch_bounded [OF l] assms(2) d' show ?thesis by (simp add: dispatcher_ok_def)
qed

text \<open>C40: The dispatcher is fair: work that is ready and not started in a round waits only because all
  tasks are in use, and every task that was started instead moves it forward by one place; so no
  queue of other work can overtake it for ever.\<close>

theorem dispatch_fair:
  assumes "dispatch_round now wait s d = (d', started)" and "distinct (map fst (dispatch_candidates s))"
    and "(k, w) \<in> set (dispatch_candidates s)" and "ready now (dp_active d) (dp_next d) k"
    and "(k, w) \<notin> set started"
  shows "DISPATCH \<le> length (dp_active d') \<and> turn s d' k + length started \<le> turn s d k"
proof -
  let ?cs = "dispatch_candidates s"
  let ?r = "rotate_after (dp_cursor d) ?cs"
  let ?nxt = "\<lambda>k. if k \<in> fst ` set ?cs then dp_next d k else None"
  obtain a n st where l: "launch now wait ?r (dp_active d) ?nxt = (a, n, st)" by (rule prod_cases3)
  with assms(1) have d': "dp_active d' = a" "started = st"
    "dp_cursor d' = (if st = [] then dp_cursor d else fst (last st))"
    by (auto simp: dispatch_round_def Let_def)
  have dist: "distinct (map fst ?r)" by (rule map_rotate_distinct [OF assms(2)])
  have "ready now (dp_active d) ?nxt k" using assms(4) by (simp add: ready_def)
  from launch_passed_over [OF l dist _ this] assms(3,5) d'
  have full: "DISPATCH \<le> length a" and run: "st \<noteq> [] \<Longrightarrow> \<exists>xs ys. ?r = xs @ last st # ys \<and> (k, w) \<in> set ys \<and>
      length st \<le> Suc (length xs)" by simp_all
  show ?thesis
  proof (cases "st = []")
    case True
    with full d' show ?thesis by (simp add: turn_def)
  next
    case False
    obtain kl wl where kl: "last st = (kl, wl)" by fastforce
    from run [OF False, unfolded kl] obtain xs ys where r: "?r = xs @ (kl, wl) # ys" "(k, w) \<in> set ys"
      "length st \<le> Suc (length xs)"
      by blast
    have k: "k \<notin> fst ` set (xs @ [(kl, wl)])" 
    proof -
      have "distinct (map fst (xs @ (kl, wl) # ys))" using dist unfolding r(1) .
      moreover have "k \<in> fst ` set ys" using imageI [OF r(2), of fst] by simp
      ultimately show ?thesis by auto
    qed
    have new: "rotate_after kl ?cs = ys @ xs @ [(kl, wl)]"
      by (rule rotate_after_key [OF sorted_candidates assms(2) r(1)])
    have "turn s d k = Suc (length xs) + length (takeWhile (\<lambda>(x, _). x \<noteq> k) ys)"
      using takeWhile_key [OF k r(2), of "[]"] unfolding turn_def r(1) by simp
    moreover have "turn s d' k = length (takeWhile (\<lambda>(x, _). x \<noteq> k) ys)"
    proof -
      have c: "dp_cursor d' = kl" using False d'(3) kl by simp
      show ?thesis
        unfolding turn_def c new using takeWhile_key [of k "[]", OF _ r(2), of "xs @ [(kl, wl)]"] by simp
    qed
    ultimately show ?thesis using full d' r(3) by simp
  qed
qed

end
