(* ===== verification/Clix_Deliver.thy ===== *)
theory Clix_Deliver
  imports Clix_Mesh
begin

text \<open>
  What the dispatcher's tasks do (\<open>src/job.rs\<close>: \<open>dispatch_one\<close> and the local retry,
  \<open>src/request.rs\<close>: \<open>deliver\<close>).  A network call is a parameter, numbered within its task; so is
  what other tasks do to the node while the call is under way and the store is unlocked.
\<close>

record deliver_env =
  de_call :: "nat \<Rightarrow> string \<Rightarrow> bytes \<Rightarrow> json \<Rightarrow> json res"
  de_others :: "nat \<Rightarrow> node \<Rightarrow> node"
  de_decode_error :: "json \<Rightarrow> string"

section \<open>Delivering a job to its machine\<close>

definition get_query :: "certificate option \<Rightarrow> job \<Rightarrow> json" where
  "get_query cert j = (case cert of
       None \<Rightarrow> JObj [(''op'', JStr ''job_get''), (''job_id'', JStr (j_id j))]
     | Some c \<Rightarrow> JObj [(''op'', JStr ''job_get_v2''), (''invocation'', certificate_json c)])"

definition exec_query :: "certificate option \<Rightarrow> job \<Rightarrow> json" where
  "exec_query cert j = (case cert of
       None \<Rightarrow> JObj [(''op'', JStr ''exec''), (''argv'', strs_json (j_argv j)), (''job_id'', JStr (j_id j))]
     | Some c \<Rightarrow> JObj [(''op'', JStr ''exec_v2''), (''invocation'', certificate_json c)])"

text \<open>The closure \<open>apply\<close>: a certified job takes only signed answers, any other job the plain row.\<close>

definition apply_reply :: "ctx \<Rightarrow> deliver_env \<Rightarrow> bool \<Rightarrow> peer \<Rightarrow> json \<Rightarrow> node \<Rightarrow> unit res \<times> node" where
  "apply_reply cx env certified p response nd =
     (if certified then
        (case rbind (ok_or (jget response ''history'') (Protocol ''peer response is missing signed history''))
                (\<lambda>h. ok_or (published_of_json h) (Json (de_decode_error env h))) of
           Inl e \<Rightarrow> (Inl e, nd)
         | Inr pub \<Rightarrow> (case update cx (accept_runner_reply (cx_crypto cx) (p_name p) pub) nd of
               (Inl e, nd') \<Rightarrow> (Inl e, nd')
             | (Inr _, nd') \<Rightarrow> (Inr (), nd')))
      else
        (case ok_or (job_of_json (jindex response ''job'')) (Json (de_decode_error env (jindex response ''job''))) of
           Inl e \<Rightarrow> (Inl e, nd)
         | Inr j \<Rightarrow> (case apply_peer_result cx (p_name p) j nd of
               (Inl e, nd') \<Rightarrow> (Inl e, nd')
             | (Inr _, nd') \<Rightarrow> (Inr (), nd'))))"

definition has_job :: "json \<Rightarrow> bool" where
  "has_job v = (case jget v ''job'' of Some x \<Rightarrow> x \<noteq> JNull | None \<Rightarrow> False)"

definition exchange :: "ctx \<Rightarrow> deliver_env \<Rightarrow> peer option \<Rightarrow> certificate option \<Rightarrow> job \<Rightarrow> node \<Rightarrow> unit res \<times> node" where
  "exchange cx env peer cert j nd =
     (case rbind (ok_or peer (Usage (j_body j @ '' is not paired''))) (\<lambda>p.
           rbind (ok_or (p_addr p) Unreachable) (\<lambda>addr. Inr (p, addr))) of
        Inl e \<Rightarrow> (Inl e, nd)
      | Inr (p, addr) \<Rightarrow>
          (let nd1 = de_others env 0 nd
           in case de_call env 0 addr (p_owner_pk p) (get_query cert j) of
                Inl e \<Rightarrow> (Inl e, nd1)
              | Inr known \<Rightarrow>
                  if has_job known then apply_reply cx env (cert \<noteq> None) p known nd1
                  else let nd2 = de_others env 1 nd1
                       in case de_call env 1 addr (p_owner_pk p) (exec_query cert j) of
                            Inl e \<Rightarrow> (Inl e, nd2)
                          | Inr response \<Rightarrow> apply_reply cx env (cert \<noteq> None) p response nd2))"

text \<open>The status a failed attempt leaves: capacity and reachability say nothing about a run.\<close>

fun failed_status :: "clix_error \<Rightarrow> job_status \<Rightarrow> job_status" where
  "failed_status (Capacity _) st = (if st \<noteq> Running then WaitingCapacity else st)"
| "failed_status Unreachable st = (if st \<noteq> Running then WaitingBody else st)"
| "failed_status e st = Failed (error_text e)"

definition delivery_failed :: "ctx \<Rightarrow> string \<Rightarrow> clix_error \<Rightarrow> node \<Rightarrow> unit res \<times> node" where
  "delivery_failed cx i e nd =
     (case find_job (fst nd) i of
        None \<Rightarrow> (Inr (), nd)
      | Some existing \<Rightarrow>
          if is_terminal (j_status existing) then (Inr (), nd)
          else let updated = existing\<lparr>j_status := failed_status e (j_status existing)\<rparr>
               in if j_status updated \<noteq> j_status existing then put_job cx updated nd else (Inr (), nd))"

definition dispatch_one :: "ctx \<Rightarrow> deliver_env \<Rightarrow> job \<Rightarrow> node \<Rightarrow> unit res \<times> node" where
  "dispatch_one cx env j nd =
     (case ensure_writable (fst nd) of
        Inl e \<Rightarrow> (Inl e, nd)
      | Inr _ \<Rightarrow>
          (let peer = find_peer (fst nd) (j_body j);
               cert = map_option (\<lambda>e. rec_certificate (e_record e)) (for_job (fst nd) j)
           in case exchange cx env peer cert j nd of
                (Inr _, nd') \<Rightarrow> (Inr (), nd')
              | (Inl e, nd') \<Rightarrow> delivery_failed cx (j_id j) e nd'))"

section \<open>Retrying a queued local job\<close>

definition local_failed :: "string \<Rightarrow> clix_error \<Rightarrow> store \<Rightarrow> (unit \<times> store) res" where
  "local_failed i e s = (case find_job s i of
       None \<Rightarrow> Inl (Protocol ''queued local job disappeared'')
     | Some j \<Rightarrow>
         if \<not> is_queued (j_status j) then Inr ((), s)
         else Inr ((), s\<lparr>st_jobs := update_first (\<lambda>j. j_id j = i)
           (\<lambda>j. j\<lparr>j_status := (case e of Capacity _ \<Rightarrow> WaitingCapacity | _ \<Rightarrow> Failed (error_text e))\<rparr>)
           (st_jobs s)\<rparr>))"

definition retry_local :: "ctx \<Rightarrow> submit_env \<Rightarrow> job \<Rightarrow> limits \<Rightarrow> node \<Rightarrow> unit res \<times> node \<times> limits \<times> child option" where
  "retry_local cx env j l nd =
     (case submit cx env (j_from j) (j_argv j) (j_id j) l nd of
        (Inr _, nd', l', ch) \<Rightarrow> (Inr (), nd', l', ch)
      | (Inl e, nd', l', ch) \<Rightarrow>
          (case update cx (local_failed (j_id j) e) nd' of (r, nd'') \<Rightarrow> (r, nd'', l', ch)))"

section \<open>Delivering a permission request\<close>

definition request_query :: "outbound_request \<Rightarrow> json" where
  "request_query r = JObj [(''op'', JStr ''request''), (''tool'', JStr (o_tool r)), (''request_id'', JStr (o_id r))]"

definition settle_request :: "string \<Rightarrow> json res \<Rightarrow> store \<Rightarrow> (unit \<times> store) res" where
  "settle_request i result s = Inr ((),
     if position (\<lambda>r. o_id r = i) (st_outbound_requests s) = None then s
     else s\<lparr>st_outbound_requests := (case result of
         Inr _ \<Rightarrow> remove_first (\<lambda>r. o_id r = i) (st_outbound_requests s)
       | Inl Unreachable \<Rightarrow> update_first (\<lambda>r. o_id r = i) (\<lambda>r. r\<lparr>o_waiting := True\<rparr>) (st_outbound_requests s)
       | Inl e \<Rightarrow> update_first (\<lambda>r. o_id r = i) (\<lambda>r. r\<lparr>o_error := Some (error_text e)\<rparr>)
           (st_outbound_requests s))\<rparr>)"

definition deliver :: "ctx \<Rightarrow> deliver_env \<Rightarrow> outbound_request \<Rightarrow> node \<Rightarrow> unit res \<times> node" where
  "deliver cx env r nd =
     (case ensure_writable (fst nd) of
        Inl e \<Rightarrow> (Inl e, nd)
      | Inr _ \<Rightarrow>
          (let target = rbind (ok_or (find_peer (fst nd) (o_body r)) (Usage (o_body r @ '' is not paired''))) (\<lambda>p.
                  rbind (ok_or (p_addr p) Unreachable) (\<lambda>addr. Inr (p, addr)));
               result = rbind target (\<lambda>(p, addr). de_call env 0 addr (p_owner_pk p) (request_query r));
               nd1 = (case target of Inl _ \<Rightarrow> nd | Inr _ \<Rightarrow> de_others env 0 nd)
           in case ensure_writable (fst nd1) of
                Inl e \<Rightarrow> (Inl e, nd1)
              | Inr _ \<Rightarrow>
                  (case List.find (\<lambda>x. o_id x = o_id r) (st_outbound_requests (fst nd1)) of
                     None \<Rightarrow> (Inr (), nd1)
                   | Some existing \<Rightarrow>
                       if o_waiting existing \<and> result = Inl Unreachable then (Inr (), nd1)
                       else update cx (settle_request (o_id r) result) nd1)))"

section \<open>What is delivered is what was asked for\<close>

lemma queries [simp]:
  "jindex (exec_query (Some c) j) ''op'' = JStr ''exec_v2''" "jstr (exec_query (Some c) j) ''op'' = Some ''exec_v2''"
  "jindex (exec_query (Some c) j) ''invocation'' = certificate_json c"
  "jstr (exec_query None j) ''op'' = Some ''exec''" "jindex (exec_query None j) ''argv'' = strs_json (j_argv j)"
  "jstr (exec_query None j) ''job_id'' = Some (j_id j)"
  "jstr (get_query (Some c) j) ''op'' = Some ''job_get_v2''" "jindex (get_query (Some c) j) ''op'' = JStr ''job_get_v2''"
  "jstr (get_query None j) ''op'' = Some ''job_get''"
  by (simp_all add: exec_query_def get_query_def jindex_def jstr_def)

lemma submit_inner_child:
  "submit_inner cx env from argv i cert l nd = (r, nd', l', Some ch) \<Longrightarrow>
     j_id (ch_job ch) = i \<and> j_from (ch_job ch) = from \<and> j_argv (ch_job ch) = argv \<and> find_job (fst nd') i \<noteq> None"
proof (cases nd)
  case (Pair s d)
  assume a: "submit_inner cx env from argv i cert l nd = (r, nd', l', Some ch)"
  from a [unfolded Pair] show ?thesis
  proof (cases rule: submit_inner_cases)
    case (run j granted u du)
    from run(4) obtain n1 where e: "submit_edit (cx_crypto cx) env l from argv i cert s = Inr ((j, granted), n1)"
      and o: "outcome u = outcome n1" by (rule update_ok)
    from e have j: "j_id j = i \<and> j_from j = from \<and> j_argv j = argv \<and> core_of n1 i \<noteq> None"
      by (cases rule: submit_edit_cases) (auto simp: accepted_job_def)
    then have "core_of u i \<noteq> None" using core_of_outcome [OF o] by simp
    with run(6,8) j show ?thesis by (cases granted) (auto simp: core_of_def simp del: find_job_None)
  qed simp_all
qed

lemma dispatch_certified_child:
  assumes "dispatch_certified cx env peer req l nd = (r, nd', l', Some ch)"
    and "certificate_of_json (jindex req ''invocation'') = Some c"
  shows "j_id (ch_job ch) = i_id (c_invocation c) \<and> j_argv (ch_job ch) = i_argv (c_invocation c)"
proof -
  have ok: "rbind (ensure_writable (fst nd)) (\<lambda>_. rbind (authorize_execution (cx_crypto cx) (fst nd) peer c) (\<lambda>_. Inr c)) = Inr c"
    using assms by (auto simp: dispatch_certified_def decode_def rbind_Inr_iff split: sum.splits)
  let ?k = "\<lambda>l1. case submit_certified cx (me_submit env) c l1 nd of
              (Inl e, nd', l2, ch) \<Rightarrow> (Inl e, nd', l2, ch)
            | (Inr _, nd', l2, ch) \<Rightarrow> (execution_reply (cx_crypto cx) (fst nd') c, nd', l2, ch)"
  have "with_exec_permit (known_id nd (i_id (c_invocation c))) l nd ?k = (r, nd', l', Some ch)"
    using assms ok by (auto simp: dispatch_certified_def decode_def split: if_splits)
  then show ?thesis
  proof (cases rule: with_exec_permit_cases)
    case (went l1 l2)
    then obtain r' where "submit_certified cx (me_submit env) c l1 nd = (r', nd', l2, Some ch)"
      by (auto split: prod.splits sum.splits)
    then show ?thesis unfolding submit_certified_def Let_def by (auto dest: submit_inner_child)
  qed simp
qed

lemma dispatch_exec_child:
  assumes "dispatch_exec cx env peer req l nd = (r, nd', l', Some ch)"
    and "as_list as_str (jindex req ''argv'') = Some argv" and "jstr req ''job_id'' = Some i"
  shows "j_id (ch_job ch) = i \<and> j_argv (ch_job ch) = argv"
proof -
  have "with_exec_permit (known_id nd i) l nd (\<lambda>l1. submit cx (me_submit env) (p_name peer) argv i l1 nd) = (r, nd', l', Some ch)"
    using assms by (auto simp: dispatch_exec_def decode_def rbind_Inr_iff split: sum.splits)
  then show ?thesis
  proof (cases rule: with_exec_permit_cases)
    case (went l1 l2)
    then show ?thesis by (auto simp: submit_def dest: submit_inner_child)
  qed simp
qed

text \<open>End to end, the process the runner starts is the one the origin asked for: the query for a
  row reads back on the other side as the same identifier and argument vector, with or without a
  certificate; and asking for a job's state never starts a process and changes nothing.\<close>

theorem delivered_run_is_the_sent_run:
  assumes "\<And>c. cert = Some c \<Longrightarrow> matches_job c j"
  shows "(dispatch cx env pin peer (exec_query cert j) l nd = (r, nd', l', Some ch) \<longrightarrow>
      j_id (ch_job ch) = j_id j \<and> j_argv (ch_job ch) = j_argv j) \<and>
    (dispatch cx env pin peer (get_query cert j) l nd = (r2, nd2, l2, out) \<longrightarrow> nd2 = nd \<and> l2 = l \<and> out = None)"
proof (intro conjI impI)
  assume a: "dispatch cx env pin peer (exec_query cert j) l nd = (r, nd', l', Some ch)"
  have "j_id (ch_job ch) = j_id j \<and> j_argv (ch_job ch) = j_argv j"
  proof (cases cert)
    case None
    with a have "dispatch_exec cx env peer (exec_query None j) l nd = (r, nd', l', Some ch)" by (simp add: dispatch_def)
    then show ?thesis by (rule dispatch_exec_child) (simp_all add: json_round)
  next
    case (Some c)
    with a have "dispatch_certified cx env peer (exec_query (Some c) j) l nd = (r, nd', l', Some ch)"
      by (simp add: dispatch_def)
    from dispatch_certified_child [OF this, of c] assms [OF Some] show ?thesis
      by (simp add: json_round matches_job_def Let_def)
  qed
  then show "j_id (ch_job ch) = j_id j" "j_argv (ch_job ch) = j_argv j" by simp_all
next
  assume "dispatch cx env pin peer (get_query cert j) l nd = (r2, nd2, l2, out)"
  then have "nd2 = nd \<and> l2 = l \<and> out = None"
    by (cases cert) (auto simp: dispatch_def dispatch_certified_def split: sum.splits if_splits)
  then show "nd2 = nd" "l2 = l" "out = None" by simp_all
qed

section \<open>A failed delivery\<close>

text \<open>Errors that say nothing about the run: no capacity, no connection.\<close>

fun transient :: "clix_error \<Rightarrow> bool" where
  "transient (Capacity _) = True"
| "transient Unreachable = True"
| "transient _ = False"

lemma failed_status_transient:
  "transient e \<Longrightarrow> \<not> is_terminal st \<Longrightarrow> \<not> is_terminal (failed_status e st) \<and> (st = Running \<longrightarrow> failed_status e st = Running)"
  by (cases e) auto

lemma delivery_failed_steps:
  assumes "delivery_failed cx i e (s, d) = (r, s', d')"
  obtains (idle) "s' = s" "d' = d"
  | (put) j u where "find_job s i = Some j" "\<not> is_terminal (j_status j)"
      "update cx (\<lambda>s. Inr ((), set_job (j\<lparr>j_status := failed_status e (j_status j)\<rparr>) s)) (s, d) = (u, s', d')"
proof (cases "find_job s i")
  case None
  with assms idle show thesis by (simp add: delivery_failed_def del: find_job_None)
next
  case (Some j)
  with assms put idle show thesis by (auto simp: delivery_failed_def put_job_def Let_def split: if_splits)
qed

text \<open>A delivery that failed claims no outcome it does not know: other jobs and all grants keep
  their state, the row keeps its identifier and invocation so that the retry is the same request, a
  settled job stays settled, and after a refusal for capacity or a lost connection the job is still
  open and a job known to be running is still running.\<close>

theorem failed_delivery_claims_no_outcome:
  assumes "delivery_failed cx i e (s, d) = (r, s', d')"
  shows "(\<forall>k. k \<noteq> i \<longrightarrow> core_of s' k = core_of s k) \<and> st_grants s' = st_grants s \<and>
    (\<forall>j. find_job s i = Some j \<longrightarrow> (\<exists>c. core_of s' i = Some c \<and> j_id c = i \<and> j_body c = j_body j \<and>
       j_from c = j_from j \<and> j_argv c = j_argv j \<and>
       (is_terminal (j_status j) \<longrightarrow> j_status c = j_status j) \<and>
       (transient e \<and> \<not> is_terminal (j_status j) \<longrightarrow> \<not> is_terminal (j_status c)) \<and>
       (transient e \<and> j_status j = Running \<longrightarrow> j_status c = Running)))"
  using assms
proof (cases rule: delivery_failed_steps)
  case idle
  then show ?thesis by (auto simp: core_of_def job_core_def dest: find_job_Some)
next
  case (put j u)
  let ?j = "j\<lparr>j_status := failed_status e (j_status j)\<rparr>"
  have id: "j_id j = i" using find_job_Some [OF put(1)] by simp
  have same: ?thesis if "core_of s' = core_of s" "st_grants s' = st_grants s"
    using that put(1) find_job_Some [OF put(1)] by (auto simp: core_of_def job_core_def fun_eq_iff)
  from put(3) show ?thesis
  proof (cases rule: update_steps)
    case (saved v)
    with put(3) have "update cx (\<lambda>s. Inr ((), set_job ?j s)) (s, d) = (Inr v, s', d')" by simp
    then have o: "outcome s' = outcome (set_job ?j s)" by (rule update_ok) auto
    have core: "core_of s' k = (if k = i then Some (job_core ?j) else core_of s k)" for k
      using core_of_outcome [OF o] id by simp
    have "st_grants s' = st_grants s" using outcomeD(5) [OF o] by simp
    with core put(1,2) id failed_status_transient show ?thesis by (auto simp: job_core_def)
  qed (rule same; simp add: core_of_def find_job_def fun_eq_iff)+
qed

section \<open>Permission requests\<close>

text \<open>A permission request leaves the queue only once the peer has answered it: a delivered request
  is removed, an unreachable peer leaves it waiting, any other answer stays on the row for the owner to
  see, and no other queued request is touched.\<close>

theorem request_delivery_settles_one_row:
  assumes "List.find (\<lambda>r. o_id r = i) (st_outbound_requests s) = Some q" and "settle_request i result s = Inr (u, s')"
    and "distinct (map o_id (st_outbound_requests s))"
  shows "filter (\<lambda>r. o_id r \<noteq> i) (st_outbound_requests s') = filter (\<lambda>r. o_id r \<noteq> i) (st_outbound_requests s) \<and>
    List.find (\<lambda>r. o_id r = i) (st_outbound_requests s') =
      (case result of Inr _ \<Rightarrow> None
       | Inl Unreachable \<Rightarrow> Some (q\<lparr>o_waiting := True\<rparr>)
       | Inl e \<Rightarrow> Some (q\<lparr>o_error := Some (error_text e)\<rparr>))"
proof -
  let ?p = "\<lambda>r. o_id r = i"
  let ?os = "st_outbound_requests s"
  have q: "o_id q = i" using find_Some_set [OF assms(1)] by simp
  have "position ?p ?os \<noteq> None" using find_Some_set [OF assms(1)] by auto
  with assms(2) have s': "st_outbound_requests s' = (case result of
         Inr _ \<Rightarrow> remove_first ?p ?os
       | Inl Unreachable \<Rightarrow> update_first ?p (\<lambda>r. r\<lparr>o_waiting := True\<rparr>) ?os
       | Inl e \<Rightarrow> update_first ?p (\<lambda>r. r\<lparr>o_error := Some (error_text e)\<rparr>) ?os)"
    by (auto simp: settle_request_def)
  have upd: "filter (\<lambda>r. o_id r \<noteq> i) (update_first ?p f ?os) = filter (\<lambda>r. o_id r \<noteq> i) ?os \<and>
      List.find ?p (update_first ?p f ?os) = Some (f q)" if "\<And>r. o_id (f r) = o_id r" for f
    using assms(1) that by (simp add: filter_update_first find_update_first)
  show ?thesis
  proof (cases result)
    case (Inl e)
    then show ?thesis unfolding s' by (cases e) (simp_all add: upd)
  next
    case (Inr v)
    then show ?thesis
      unfolding s' by (simp add: filter_remove_first [of ?p "\<lambda>r. o_id r \<noteq> i"] find_remove_first_key [OF assms(3,1)] q)
  qed
qed

end
