(* ===== verification/Clix_System.thy ===== *)
theory Clix_System
  imports Clix_Deliver
begin

text \<open>
  One machine over time: submissions, completions, every other update, and restarts that lose the
  memory and read the state file back, each with any outcome of the system calls.  A step relation
  records which jobs had a process started, so that "at most once" is a property of all reachable
  states.
\<close>

record world =
  w_node :: node
  w_limits :: limits
  w_children :: "child list"
  w_started :: "string list"

section \<open>Spent identifiers\<close>

text \<open>An identifier is spent when this machine has a row for it, to be run here, that is past the
  queue: such a row is never run again.\<close>

definition spent :: "store \<Rightarrow> string \<Rightarrow> bool" where
  "spent s i = (case find_job s i of None \<Rightarrow> False
     | Some j \<Rightarrow> j_body j = st_body_name s \<and> \<not> is_queued (j_status j))"

definition disk_spent :: "store option \<Rightarrow> string \<Rightarrow> bool" where
  "disk_spent d i = (case d of None \<Rightarrow> False | Some s \<Rightarrow> spent s i)"

text \<open>Edits that keep the machine's name and every spent identifier spent.\<close>

definition keeps_spent :: "store \<Rightarrow> (store \<Rightarrow> ('a \<times> store) res) \<Rightarrow> bool" where
  "keeps_spent s edit \<longleftrightarrow> (\<forall>v n. edit s = Inr (v, n) \<longrightarrow>
     st_body_name n = st_body_name s \<and> (\<forall>i. spent s i \<longrightarrow> spent n i))"

lemma spent_alt: "spent s i \<longleftrightarrow>
    (\<exists>j. find_job s i = Some j \<and> j_body j = st_body_name s \<and> \<not> is_queued (j_status j))"
  by (cases "find_job s i") (simp_all add: spent_def del: find_job_None)

lemma spent_core:
  "spent s i \<longleftrightarrow> (\<exists>c. core_of s i = Some c \<and> j_body c = st_body_name s \<and> \<not> is_queued (j_status c))"
  by (auto simp: spent_alt core_of_def job_core_def)

lemma spent_cong:
  "core_of s' i = core_of s i \<Longrightarrow> st_body_name s' = st_body_name s \<Longrightarrow> spent s' i = spent s i"
  by (simp add: spent_core)

lemma spent_outcome: "outcome s' = outcome s \<Longrightarrow> spent s' i = spent s i"
  by (rule spent_cong [OF core_of_outcome outcomeD(1)])

lemma spent_same_jobs:
  "st_jobs s' = st_jobs s \<Longrightarrow> st_body_name s' = st_body_name s \<Longrightarrow> spent s' i = spent s i"
  by (simp add: spent_alt find_job_def)

lemma durable_sel [simp]: "st_body_name (durable s) = st_body_name s" "st_jobs (durable s) = st_jobs s"
  by (simp_all add: durable_def)

lemma spent_durable [simp]: "spent (durable s) i = spent s i"
  by (rule spent_same_jobs) (simp_all add: durable_def)

lemma spent_write_error [simp]: "spent (s\<lparr>st_write_error := w\<rparr>) i = spent s i"
  by (rule spent_same_jobs) simp_all

lemma spent_set_job:
  assumes "spent s i" and "j_id j = i \<Longrightarrow> j_body j = st_body_name s \<and> \<not> is_queued (j_status j)"
  shows "spent (set_job j s) i"
  using assms by (auto simp: spent_alt)

text \<open>An update keeps spent identifiers spent, in memory and in whatever file it leaves behind.\<close>

lemma update_spent:
  assumes "\<And>v n. edit s = Inr (v, n) \<Longrightarrow> spent n i" and "update cx edit (s, d) = (r, s', d')"
    and "spent s i" and "disk_spent d i"
  shows "spent s' i \<and> disk_spent d' i"
proof -
  have next': "spent n i" if "update_next cx edit s = Inr (v, n)" for v n
    using that
  proof (rule update_next_outcome)
    fix n1 assume "edit s = Inr (v, n1)" "outcome n = outcome n1"
    with assms(1) show ?thesis by (metis spent_outcome)
  qed
  from assms(2) show ?thesis
    by (cases rule: update_steps) (use assms(3,4) next' in \<open>auto simp: disk_spent_def\<close>)
qed

lemma update_body_name:
  assumes "update cx edit (s, d) = (r, s', d')"
    and "\<And>v n. edit s = Inr (v, n) \<Longrightarrow> st_body_name n = st_body_name s"
  shows "st_body_name s' = st_body_name s"
  using assms(1)
proof (cases rule: update_steps)
  case (saved v)
  with assms(1) obtain n1 where n1: "edit s = Inr (v, n1)" "outcome s' = outcome n1"
    using update_ok [of cx edit s d v s' d'] by metis
  from assms(2) [OF n1(1)] outcomeD(1) [OF n1(2)] show ?thesis by simp
qed simp_all

section \<open>Steps\<close>

text \<open>What happened in a step: a submission and the process it started, a process that ended, an edit, and the
  rest.\<close>

datatype event = Submitted "child option" | Finished child run_outcome | Edited "store \<Rightarrow> (unit \<times> store) res" | Replied | Restarted

inductive step :: "world \<Rightarrow> event \<Rightarrow> world \<Rightarrow> bool" where
  submit: "submit_inner cx env from argv i cert (w_limits w) (w_node w) = (r, nd', l', ch) \<Longrightarrow>
     step w (Submitted ch) (w\<lparr>w_node := nd', w_limits := l',
               w_children := w_children w @ (case ch of None \<Rightarrow> [] | Some c \<Rightarrow> [c]),
               w_started := w_started w @ (case ch of None \<Rightarrow> [] | Some c \<Rightarrow> [j_id (ch_job c)])\<rparr>)"
| finish: "c \<in> set (w_children w) \<Longrightarrow> complete cx c out (w_limits w) (w_node w) = (nd', l') \<Longrightarrow>
     step w (Finished c out) (w\<lparr>w_node := nd', w_limits := l', w_children := remove1 c (w_children w)\<rparr>)"
| edit: "keeps_spent (fst (w_node w)) e \<Longrightarrow> update cx e (w_node w) = (r, nd') \<Longrightarrow>
     step w (Edited e) (w\<lparr>w_node := nd'\<rparr>)"
| peer_result: "peer \<noteq> st_body_name (fst (w_node w)) \<Longrightarrow>
     apply_peer_result cx peer incoming (w_node w) = (pr, nd') \<Longrightarrow> step w Replied (w\<lparr>w_node := nd'\<rparr>)"
| retry_later: "(\<And>j. find_job (fst (w_node w)) i = Some j \<Longrightarrow> j_body j \<noteq> st_body_name (fst (w_node w))) \<Longrightarrow>
     delivery_failed cx i err (w_node w) = (pr, nd') \<Longrightarrow> step w Replied (w\<lparr>w_node := nd'\<rparr>)"
| restart: "snd (w_node w) = Some d \<Longrightarrow>
     open_store cx priv dir hostname new_sk (Some \<lparr>sf_size = n, sf_parsed = Inr d\<rparr>) = Inr nd0 \<Longrightarrow>
     start_recovery cx' nd0 = (r, nd') \<Longrightarrow>
     step w Restarted (w\<lparr>w_node := nd', w_limits := default_limits, w_children := []\<rparr>)"

text \<open>The states reached, each with the events that led there.\<close>

inductive reachable :: "world \<Rightarrow> event list \<Rightarrow> world \<Rightarrow> bool" for w0 where
  start: "reachable w0 [] w0"
| steps: "reachable w0 evs w \<Longrightarrow> step w ev w' \<Longrightarrow> reachable w0 (evs @ [ev]) w'"

inductive_cases submitE: "step w (Submitted ch) w'"
inductive_cases finishE: "step w (Finished c out) w'"
inductive_simps reachable_Nil: "reachable w0 [] w"

definition boot :: "node \<Rightarrow> world" where
  "boot nd = \<lparr>w_node = nd, w_limits = default_limits, w_children = [], w_started = []\<rparr>"

section \<open>At most one process per job\<close>

definition started_spent :: "world \<Rightarrow> bool" where
  "started_spent w \<longleftrightarrow> distinct (w_started w) \<and>
     (\<forall>i \<in> set (w_started w). spent (fst (w_node w)) i \<and> disk_spent (snd (w_node w)) i) \<and>
     (\<forall>c \<in> set (w_children w). j_id (ch_job c) \<in> set (w_started w)) \<and>
     (\<forall>c \<in> set (w_children w). j_body (ch_job c) = st_body_name (fst (w_node w)))"

lemma submit_edit_spent:
  assumes "submit_edit cr env l from argv i cert s = Inr ((j, granted), n)"
  shows "st_body_name n = st_body_name s" "spent s k \<Longrightarrow> spent n k" "j_id j = i" "j_body j = st_body_name s"
    "spent n i"
proof -
  have "st_body_name n = st_body_name s \<and> j = accepted_job s from argv i (j_status j) \<and> \<not> is_queued (j_status j) \<and>
      (\<exists>u. n = set_job j u \<and> st_jobs u = st_jobs s \<and> st_body_name u = st_body_name s)"
    using assms
  proof (cases rule: submit_edit_cases)
    case (granted s1 g l')
    with admit_frame [OF granted(1)] show ?thesis
      by (auto simp: accepted_job_def)
  next
    case (denied s1 e s2)
    have "st_jobs s2 = st_jobs s1 \<and> st_body_name s2 = st_body_name s1"
      using denied(6) by (auto dest!: upsert_only_requests split: if_splits)
    with denied admit_frame [OF denied(1)] show ?thesis by (auto simp: accepted_job_def)
  qed
  then obtain u where body: "st_body_name n = st_body_name s" and j: "j = accepted_job s from argv i (j_status j)"
    and st: "\<not> is_queued (j_status j)" and n: "n = set_job j u" and u: "st_jobs u = st_jobs s" "st_body_name u = st_body_name s"
    by blast
  show "st_body_name n = st_body_name s" by (rule body)
  show id: "j_id j = i" and jb: "j_body j = st_body_name s" using j by (metis accepted_job_def job.select_convs(1,2))+
  show "spent n i" using id jb st u by (simp add: n spent_alt)
  assume "spent s k"
  then have "spent u k" using spent_same_jobs [OF u] by simp
  then show "spent n k" unfolding n by (rule spent_set_job) (simp add: jb u st)
qed

lemma submit_spent:
  assumes "submit_inner cx env from argv i cert l (s, d) = (r, (s', d'), l', ch)"
    and "spent s k" and "disk_spent d k"
  shows "spent s' k \<and> disk_spent d' k"
  using assms(1)
proof (cases rule: submit_inner_cases)
  case idle
  with assms show ?thesis by simp
next
  case (failed e)
  show ?thesis
    by (rule update_spent [OF _ failed(5) assms(2,3)]) (use submit_edit_spent(2) assms(2) in fastforce)
next
  case (run j granted u du)
  then have up: "update cx (submit_edit (cx_crypto cx) env l from argv i cert) (s, d) = (Inr (j, granted), s', d')" by simp
  show ?thesis by (rule update_spent [OF _ up assms(2,3)]) (use submit_edit_spent(2) assms(2) in fastforce)
qed

lemma find_job_map:
  "(\<And>j. j_id (f j) = j_id j) \<Longrightarrow> List.find (\<lambda>j. j_id j = i) (map f js) = map_option f (List.find (\<lambda>j. j_id j = i) js)"
  by (induction js) auto

lemma mark_uncertain_spent: "spent s i \<Longrightarrow> spent (mark_uncertain r s) i"
proof -
  assume "spent s i"
  then obtain j where j: "find_job s i = Some j" "j_body j = st_body_name s" "\<not> is_queued (j_status j)"
    by (auto simp: spent_alt)
  have "find_job (mark_uncertain r s) i =
      map_option (\<lambda>j. if local_running s j then j\<lparr>j_status := Uncertain r\<rparr> else j) (find_job s i)"
    unfolding find_job_def mark_uncertain_def by (simp add: find_job_map)
  with j show ?thesis by (auto simp: spent_alt mark_uncertain_def)
qed

lemma lost_completion_spent: "spent s i \<Longrightarrow> spent (lost_completion k e s) i"
proof -
  assume sp: "spent s i"
  let ?f = "\<lambda>j. j\<lparr>j_status := Uncertain
     (''could not persist job completion: '' @ error_text e @ ''; its outcome is uncertain. Not rerunning.'')\<rparr>"
  have "find_job (lost_completion k e s) i = (if i = k then map_option ?f (find_job s i) else find_job s i)"
    by (auto simp: find_job_def lost_completion_def find_update_first find_update_first_other)
  with sp show ?thesis by (auto simp: spent_alt lost_completion_def)
qed

lemma finish_edit_keeps:
  assumes "finish_edit (ch_grant c) out (ch_job c) s = Inr (u, n)" and "j_body (ch_job c) = st_body_name s"
  shows "st_body_name n = st_body_name s" "spent s k \<Longrightarrow> spent n k"
proof -
  note n = finish_edit_steps(2) [OF assms(1)]
  have body: "j_body (finished_job (ch_grant c) out (ch_job c)) = j_body (ch_job c)" by (cases out) auto
  show "st_body_name n = st_body_name s" by (simp add: n)
  assume "spent s k"
  then have "spent (s\<lparr>st_grants := settle_grant (ch_grant c) (j_id (ch_job c)) (run_success out) (st_grants s)\<rparr>) k"
    by (subst spent_same_jobs [of _ s]) simp_all
  then show "spent n k"
    unfolding n by (rule spent_set_job)
      (use assms(2) body finished_terminal terminal_not_queued in auto)
qed

lemma complete_keeps:
  assumes "complete cx c out l (s, d) = ((s', d'), l')" and "j_body (ch_job c) = st_body_name s"
  shows "st_body_name s' = st_body_name s" "spent s k \<Longrightarrow> disk_spent d k \<Longrightarrow> spent s' k \<and> disk_spent d' k"
    "l' = release_child l"
proof -
  obtain r s1 d1 where f: "finish cx c out (s, d) = (r, s1, d1)" by (metis surj_pair)
  have b1: "st_body_name s1 = st_body_name s"
    using f unfolding finish_def by (rule update_body_name) (use finish_edit_keeps(1) assms(2) in blast)
  have sp1: "spent s1 k \<and> disk_spent d1 k" if "spent s k" "disk_spent d k"
    by (rule update_spent [OF _ f [unfolded finish_def] that])
      (use finish_edit_keeps(2) assms(2) that(1) in blast)
  have eq: "((s', d'), l') = (case r of Inr _ \<Rightarrow> ((s1, d1), release_child l)
      | Inl e \<Rightarrow> ((lost_completion (j_id (ch_job c)) e s1, d1), release_child l))"
    using assms(1) f by (auto simp: complete_def split: sum.splits)
  show "st_body_name s' = st_body_name s" using eq b1 by (auto simp: lost_completion_def split: sum.splits)
  show "l' = release_child l" using eq by (auto split: sum.splits)
  show "spent s' k \<and> disk_spent d' k" if "spent s k" "disk_spent d k"
    using eq sp1 [OF that] lost_completion_spent by (auto split: sum.splits)
qed

lemma save_spent:
  "save cx s d = (r, d') \<Longrightarrow> spent s i \<Longrightarrow> disk_spent d i \<Longrightarrow> disk_spent d' i"
  by (auto simp: save_def disk_spent_def split: sum.splits dest!: save_encoded_disk)

lemma open_store_spent:
  assumes "open_store cx priv dir hostname new_sk (Some f) = Inr (s, d')" and "sf_parsed f = Inr d" and "spent d i"
  shows "spent s i \<and> disk_spent d' i"
proof -
  let ?p = "d\<lparr>st_dir := dir\<rparr>"
  from assms(1,2) obtain s1 d1 where 1: "open_named cx hostname ?p (Some d) = Inr (s1, d1)"
    and 2: "open_keyed cx new_sk s1 d1 = Inr (s, d')"
    by (auto simp: open_store_def result_simps split: if_splits)
  have p: "spent ?p i" using assms(3) by (subst spent_same_jobs [of _ d]) simp_all
  have "st_jobs d \<noteq> []" using assms(3) by (auto simp: spent_alt find_job_def)
  with 1 have s1: "s1 = ?p" "d1 = Some d" by (auto simp: open_named_def split: if_splits)
  show ?thesis
  proof (cases "st_owner_sk s1 = []")
    case True
    then obtain sk where "new_sk = Inr sk" and k: "(case save cx (s1\<lparr>st_owner_sk := sk\<rparr>) d1 of
        (Inl e, _) \<Rightarrow> Inl e | (Inr _, disk') \<Rightarrow> Inr (s1\<lparr>st_owner_sk := sk\<rparr>, disk')) = Inr (s, d')"
      using 2 by (auto simp: open_keyed_def rbind_Inr_iff Let_def)
    obtain sr sd where sr: "save cx (s1\<lparr>st_owner_sk := sk\<rparr>) d1 = (sr, sd)" by (metis surj_pair)
    obtain u where s: "s = s1\<lparr>st_owner_sk := sk\<rparr>" and sv: "save cx s d1 = (Inr u, d')"
      using k sr by (cases sr) auto
    have "spent s i" using p by (subst spent_same_jobs [of _ ?p]) (simp_all add: s s1)
    then show ?thesis using save_spent [OF sv] assms(3) by (simp add: s1 disk_spent_def)
  next
    case False
    with 2 s1 p assms(3) show ?thesis by (auto simp: open_keyed_def disk_spent_def)
  qed
qed

text \<open>Writing the row of another machine's job cannot touch a job run here.\<close>

lemma update_foreign_keeps:
  assumes "find_job s (j_id j) = Some old" and "j_body old \<noteq> st_body_name s"
    and up: "update cx (\<lambda>s. Inr ((), set_job j s)) (s, d) = (u, s', d')"
  shows "st_body_name s' = st_body_name s \<and> (spent s k \<longrightarrow> disk_spent d k \<longrightarrow> spent s' k \<and> disk_spent d' k)"
proof -
  have "spent (set_job j s) k" if "spent s k"
    using spent_set_job [OF that] that assms(1,2) by (auto simp: spent_alt)
  with update_spent [OF _ up] update_body_name [OF up] show ?thesis by auto
qed

lemma apply_peer_result_keeps:
  assumes "apply_peer_result cx peer incoming (s, d) = (r, s', d')" and "peer \<noteq> st_body_name s"
  shows "st_body_name s' = st_body_name s \<and> (spent s k \<longrightarrow> disk_spent d k \<longrightarrow> spent s' k \<and> disk_spent d' k)"
proof -
  have "(s', d') = (s, d) \<or> (\<exists>old u. find_job s (j_id incoming) = Some old \<and> j_body old = peer \<and>
      update cx (\<lambda>s. Inr ((), set_job incoming s)) (s, d) = (u, s', d'))"
    using assms(1) by (auto simp: apply_peer_result_def put_job_def split: prod.splits sum.splits option.splits if_splits
        simp del: find_job_None)
  with assms(2) show ?thesis using update_foreign_keeps by blast
qed

lemma delivery_failed_keeps:
  assumes "delivery_failed cx i e (s, d) = (r, s', d')"
    and "\<And>j. find_job s i = Some j \<Longrightarrow> j_body j \<noteq> st_body_name s"
  shows "st_body_name s' = st_body_name s \<and> (spent s k \<longrightarrow> disk_spent d k \<longrightarrow> spent s' k \<and> disk_spent d' k)"
  using assms(1)
proof (cases rule: delivery_failed_steps)
  case (put j u)
  have "find_job s (j_id (j\<lparr>j_status := failed_status e (j_status j)\<rparr>)) = Some j"
    using put(1) find_job_Some [OF put(1)] by simp
  from update_foreign_keeps [OF this assms(2) [OF put(1)] put(3)] show ?thesis .
qed simp

lemma start_recovery_spent:
  assumes "start_recovery cx (s, d) = (r, s', d')" and "spent s i" and "disk_spent d i"
  shows "spent s' i \<and> disk_spent d' i"
proof -
  obtain rr s1 d1 where rec: "recover_jobs cx (s, d) = (rr, s1, d1)" by (metis surj_pair)
  have 1: "spent s1 i \<and> disk_spent d1 i"
  proof (cases "hs_initialized (st_history s) \<and> \<not> list_ex (local_running s) (st_jobs s)")
    case True
    with rec assms(2,3) show ?thesis by (simp add: recover_jobs_def)
  next
    case False
    let ?r = "''sidecar restarted during execution; the command may have taken effect. Not rerunning.''"
    from rec False have up: "update cx (\<lambda>s. Inr ((), mark_uncertain ?r s)) (s, d) = (rr, s1, d1)"
      unfolding recover_jobs_def fst_conv by (simp only: if_False)
    show ?thesis
      by (rule update_spent [OF _ up assms(2,3)]) (use mark_uncertain_spent [OF assms(2)] in auto)
  qed
  have "spent (recovery_failed e s1) i" for e
    unfolding recovery_failed_def by (rule mark_uncertain_spent) (simp add: 1)
  with 1 rec assms(1) show ?thesis by (auto simp: start_recovery_def split: sum.splits)
qed


text \<open>What a submission adds to the list of processes.\<close>

lemma submit_start:
  assumes "submit_inner cx env from argv i cert l (s, d) = (r, (s', d'), l', Some c)"
  shows "\<not> spent s i" "j_id (ch_job c) = i" "j_body (ch_job c) = st_body_name s" "spent s' i" "disk_spent d' i"
    "st_body_name s' = st_body_name s" "l_children l = Suc (l_children l')"
proof -
  from assms have "\<not> spent s i \<and> j_id (ch_job c) = i \<and> j_body (ch_job c) = st_body_name s \<and> spent s' i \<and>
      disk_spent d' i \<and> st_body_name s' = st_body_name s \<and> l_children l = Suc (l_children l')"
  proof (cases rule: submit_inner_cases)
    case (run j granted u du)
    then have up: "update cx (submit_edit (cx_crypto cx) env l from argv i cert) (s, d) = (Inr (j, granted), s', d')" by simp
    then obtain n1 where e: "submit_edit (cx_crypto cx) env l from argv i cert s = Inr ((j, granted), n1)"
      and o: "outcome s' = outcome n1" and d': "d' = Some (durable s')"
      by (rule update_ok)
    obtain g l2 where g: "granted = Some (g, l2)" "l' = l2" "ch_job c = j" using run by (cases granted) auto
    from e g obtain l3 where "acquire_child l = Inr l3" "l3 = l2"
      by (cases rule: submit_edit_cases) auto
    then have "l_children l = Suc (l_children l')" using children.acquire_ok [of l l3] g by simp
    moreover have "\<not> spent s i"
    proof
      assume "spent s i"
      then obtain old where "find_job s i = Some old" "\<not> is_queued (j_status old)" unfolding spent_alt by blast
      with known_job_reply [OF run(3)] show False by blast
    qed
    moreover have "spent s' i" using submit_edit_spent(5) [OF e] by (simp only: spent_outcome [OF o])
    ultimately show ?thesis
      using submit_edit_spent(1,3,4) [OF e] outcomeD(1) [OF o] g(3) d' by (simp add: disk_spent_def del: split_paired_Ex)
  qed simp_all
  then show "\<not> spent s i" "j_id (ch_job c) = i" "j_body (ch_job c) = st_body_name s" "spent s' i" "disk_spent d' i"
    "st_body_name s' = st_body_name s" "l_children l = Suc (l_children l')" by simp_all
qed

lemma submit_body_name:
  assumes "submit_inner cx env from argv i cert l (s, d) = (r, (s', d'), l', ch)"
  shows "st_body_name s' = st_body_name s" "ch = None \<Longrightarrow> l_children l' = l_children l"
proof -
  have "st_body_name s' = st_body_name s \<and> (ch = None \<longrightarrow> l_children l' = l_children l)"
    using assms
  proof (cases rule: submit_inner_cases)
    case (failed e)
    then show ?thesis by auto
  next
    case (run j granted u du)
    then have up: "update cx (submit_edit (cx_crypto cx) env l from argv i cert) (s, d) = (Inr (j, granted), s', d')" by simp
    have "st_body_name s' = st_body_name s"
      by (rule update_body_name [OF up]) (use submit_edit_spent(1) in \<open>metis surj_pair\<close>)
    with run(7,8) show ?thesis by (cases granted) auto
  qed auto
  then show "st_body_name s' = st_body_name s" "ch = None \<Longrightarrow> l_children l' = l_children l" by simp_all
qed

lemma step_started_spent:
  assumes "step w ev w'" and "started_spent w"
  shows "started_spent w'"
  using assms(1)
proof (cases rule: step.cases)
  case (submit cx env "from" argv i cert r nd' l' ch)
  obtain s d s' d' where nd: "w_node w = (s, d)" "nd' = (s', d')" by (metis surj_pair)
  note sub = submit(3) [unfolded nd]
  have keep: "spent s' k \<and> disk_spent d' k" if "k \<in> set (w_started w)" for k
    by (rule submit_spent [OF sub]) (use assms(2) that in \<open>simp_all add: started_spent_def nd\<close>)
  show ?thesis
  proof (cases ch)
    case None
    with assms(2) keep submit_body_name(1) [OF sub] show ?thesis
      by (simp add: submit(2) started_spent_def nd)
  next
    case (Some c)
    note st = submit_start [OF sub [unfolded Some]]
    have "i \<notin> set (w_started w)" using assms(2) st(1) by (auto simp: started_spent_def nd)
    with assms(2) keep st show ?thesis by (auto simp: submit(2) Some started_spent_def nd)
  qed
next
  case (finish c cx out nd' l')
  obtain s d s' d' where nd: "w_node w = (s, d)" "nd' = (s', d')" by (metis surj_pair)
  have c: "j_body (ch_job c) = st_body_name s" using assms(2) finish(3) by (simp add: started_spent_def nd)
  note k = complete_keeps [OF finish(4) [unfolded nd] c]
  from assms(2) k(1,2) show ?thesis
    by (auto simp: finish(2) started_spent_def nd dest: notin_set_remove1)
next
  case (edit e cx r nd')
  obtain s d s' d' where nd: "w_node w = (s, d)" "nd' = (s', d')" by (metis surj_pair)
  note up = edit(4) [unfolded nd]
  have e: "st_body_name n = st_body_name s" "spent s k \<Longrightarrow> spent n k" if "e s = Inr (v, n)" for v n k
    using edit(3) that nd by (auto simp: keeps_spent_def)
  have "st_body_name s' = st_body_name s" by (rule update_body_name [OF up e(1)])
  moreover have "spent s' k \<and> disk_spent d' k" if "k \<in> set (w_started w)" for k
    by (rule update_spent [OF _ up]) (use e(2) assms(2) that in \<open>auto simp: started_spent_def nd\<close>)
  ultimately show ?thesis using assms(2) by (simp add: edit(2) started_spent_def nd)
next
  case (peer_result peer cx incoming pr nd')
  obtain s d s' d' where nd: "w_node w = (s, d)" "nd' = (s', d')" by (metis surj_pair)
  have "peer \<noteq> st_body_name s" using peer_result(3) nd by simp
  note k = apply_peer_result_keeps [OF peer_result(4) [unfolded nd] this]
  from assms(2) k show ?thesis by (auto simp: peer_result(2) started_spent_def nd)
next
  case (retry_later i cx err pr nd')
  obtain s d s' d' where nd: "w_node w = (s, d)" "nd' = (s', d')" by (metis surj_pair)
  have "\<And>j. find_job s i = Some j \<Longrightarrow> j_body j \<noteq> st_body_name s" using retry_later(3) nd by simp
  note k = delivery_failed_keeps [OF retry_later(4) [unfolded nd] this]
  from assms(2) k show ?thesis by (auto simp: retry_later(2) started_spent_def nd)
next
  case (restart d cx priv dir hostname new_sk n nd0 cx' r nd')
  obtain s0 d0 s' d' where nd: "nd0 = (s0, d0)" "nd' = (s', d')" by (metis surj_pair)
  have "spent s' k \<and> disk_spent d' k" if "k \<in> set (w_started w)" for k
  proof -
    have "spent d k" using assms(2) that restart(3) by (auto simp: started_spent_def disk_spent_def)
    then have "spent s0 k \<and> disk_spent d0 k"
      using open_store_spent [OF restart(4) [unfolded nd]] by simp
    then show ?thesis using start_recovery_spent [OF restart(5) [unfolded nd]] by blast
  qed
  with assms(2) show ?thesis by (simp add: restart(2) started_spent_def nd)
qed

lemma reachable_started_spent: "reachable (boot nd) evs w \<Longrightarrow> started_spent w"
proof (induction rule: reachable.induct)
  case start
  show ?case by (simp add: boot_def started_spent_def)
qed (rule step_started_spent)

section \<open>Execution slots\<close>

definition slots_ok :: "world \<Rightarrow> bool" where
  "slots_ok w \<longleftrightarrow> l_children (w_limits w) + length (w_children w) = CHILDREN"

lemma step_slots:
  assumes "step w ev w'" and "started_spent w" and "slots_ok w"
  shows "slots_ok w'"
  using assms(1)
proof (cases rule: step.cases)
  case (submit cx env "from" argv i cert r nd' l' ch)
  obtain s d s' d' where nd: "w_node w = (s, d)" "nd' = (s', d')" by (metis surj_pair)
  note sub = submit(3) [unfolded nd]
  show ?thesis
  proof (cases ch)
    case None
    with submit_body_name(2) [OF sub] assms(3) show ?thesis by (simp add: submit(2) slots_ok_def)
  next
    case (Some c)
    with submit_start(7) [OF sub [unfolded Some]] assms(3) show ?thesis by (simp add: submit(2) slots_ok_def)
  qed
next
  case (finish c cx out nd' l')
  obtain s d s' d' where nd: "w_node w = (s, d)" "nd' = (s', d')" by (metis surj_pair)
  have c: "j_body (ch_job c) = st_body_name s" using assms(2) finish(3) by (simp add: started_spent_def nd)
  have "length (w_children w) = Suc (length (remove1 c (w_children w)))"
    using finish(3) by (simp add: length_remove1) (metis Suc_pred length_pos_if_in_set)
  with complete_keeps(3) [OF finish(4) [unfolded nd] c] assms(3) show ?thesis
    by (simp add: finish(2) slots_ok_def release_child_def)
next
  case (edit e cx r nd')
  with assms(3) show ?thesis by (simp add: slots_ok_def)
next
  case (peer_result peer cx incoming pr nd')
  with assms(3) show ?thesis by (simp add: slots_ok_def)
next
  case (retry_later i cx err pr nd')
  with assms(3) show ?thesis by (simp add: slots_ok_def)
next
  case (restart d cx priv dir hostname new_sk n nd0 cx' r nd')
  then show ?thesis by (simp add: slots_ok_def default_limits_def)
qed

lemma reachable_slots: "reachable (boot nd) evs w \<Longrightarrow> started_spent w \<and> slots_ok w"
proof (induction rule: reachable.induct)
  case start
  show ?case by (simp add: boot_def started_spent_def slots_ok_def default_limits_def)
next
  case (steps evs w ev w')
  then show ?case using step_slots step_started_spent by blast
qed


section \<open>The other edits of the program\<close>

text \<open>An edit with its value dropped, which is how a step sees it.\<close>

definition forget :: "(store \<Rightarrow> ('a \<times> store) res) \<Rightarrow> store \<Rightarrow> (unit \<times> store) res" where
  "forget e s = rbind (e s) (\<lambda>(v, n). Inr ((), n))"

lemma update_forget: "update cx e nd = (r, nd') \<Longrightarrow> \<exists>r'. update cx (forget e) nd = (r', nd')"
proof -
  have e: "rbind (forget e s) (\<lambda>(v, n). F n) = rbind (e s) (\<lambda>(v, n). F n)" for F :: "store \<Rightarrow> (unit \<times> store) res" and s
    by (cases "e s") (simp_all add: forget_def split: prod.split)
  have n: "update_next cx (forget e) s = rbind (update_next cx e s) (\<lambda>(v, n). Inr ((), n))" for s
  proof (cases "ensure_writable s")
    case (Inr u)
    show ?thesis
    proof (cases "e s")
      case (Inr vn)
      with \<open>ensure_writable s = Inr u\<close> show ?thesis
        by (cases vn) (simp add: update_next_def forget_def rbind_assoc)
    qed (simp add: update_next_def forget_def Inr)
  qed (simp add: update_next_def)
  assume "update cx e nd = (r, nd')"
  then show ?thesis
    by (cases nd; cases "update_next cx e (fst nd)")
      (auto simp: update_def n split: prod.splits sum.splits)
qed

lemma keeps_spent_forget: "keeps_spent s (forget e) = keeps_spent s e"
  by (auto simp: keeps_spent_def forget_def rbind_Inr_iff)

lemma keeps_spentI:
  assumes "\<And>v n. e s = Inr (v, n) \<Longrightarrow> st_jobs n = st_jobs s \<and> st_body_name n = st_body_name s"
  shows "keeps_spent s e"
  unfolding keeps_spent_def using assms spent_same_jobs by metis

lemma keeps_spent_prune: "keeps_spent s (prune keep)"
  unfolding keeps_spent_def
proof (intro allI impI conjI)
  fix v n i assume "prune keep s = Inr (v, n)"
  then have "retained n = retained s"
    by (auto simp: prune_def Let_def rbind_Inr_iff case_prod_beta
        elim!: fold_r_invariant [where P = "\<lambda>x. retained x = retained s"] dest: remove_payload_retained)
  then have j: "map job_core (st_jobs n) = map job_core (st_jobs s)" and b: "st_body_name n = st_body_name s"
    by (rule retained_jobs) (use \<open>retained n = retained s\<close> in \<open>auto dest: arg_cong [where f = st_body_name] simp: retained_def\<close>)
  show "st_body_name n = st_body_name s" by (rule b)
  have "core_of n i = core_of s i" unfolding core_of_def find_job_def by (rule find_core [OF j])
  then show "spent s i \<Longrightarrow> spent n i" using spent_cong [OF _ b] by blast
qed

lemma keeps_spent_append: "keeps_spent s (append_edit j retry)"
  by (auto simp: keeps_spent_def append_edit_def spent_alt find_job_def find_append_Some)

lemma keeps_spent_local_failed: "keeps_spent s (local_failed i e)"
  unfolding keeps_spent_def
proof (intro allI impI)
  fix v n assume "local_failed i e s = Inr (v, n)"
  then obtain j where j: "find_job s i = Some j"
    and n: "n = s \<or> is_queued (j_status j) \<and> (\<exists>st. n = s\<lparr>st_jobs := update_first (\<lambda>j. j_id j = i) (\<lambda>j. j\<lparr>j_status := st\<rparr>) (st_jobs s)\<rparr>)"
    by (auto simp: local_failed_def simp del: find_job_None split: option.split_asm if_split_asm)
  have "spent n k" if sp: "spent s k" and "n \<noteq> s" for k
  proof -
    from n that obtain st where q: "is_queued (j_status j)"
      and n': "n = s\<lparr>st_jobs := update_first (\<lambda>j. j_id j = i) (\<lambda>j. j\<lparr>j_status := st\<rparr>) (st_jobs s)\<rparr>" by blast
    from sp q j have "k \<noteq> i" by (auto simp: spent_alt)
    then have "find_job n k = find_job s k" unfolding find_job_def n' by (simp add: find_update_first_other)
    with sp show ?thesis by (simp add: spent_alt n')
  qed
  moreover have "st_body_name n = st_body_name s" using n by auto
  ultimately show "st_body_name n = st_body_name s \<and> (\<forall>k. spent s k \<longrightarrow> spent n k)" by (cases "n = s") simp_all
qed

lemma keeps_spent_decide: "keeps_spent s (decide h i d)"
  by (rule keeps_spentI)
    (auto simp: decide_def rbind_Inr_iff commit_frame simp del: find_grant_None
      split: option.split_asm decision.split_asm if_split_asm)

lemma keeps_spent_remove: "keeps_spent s (remove_grant h tool)"
  by (rule keeps_spentI)
    (auto simp: remove_grant_def Let_def rbind_Inr_iff invalidate_requests_def split: option.splits)

lemma keeps_spent_ingest: "keeps_spent s (ingest cr p)"
  by (rule keeps_spentI) (auto elim: ingest_only_history)

lemma keeps_spent_runner_reply:
  assumes "peer \<noteq> st_body_name s"
  shows "keeps_spent s (accept_runner_reply cr peer p)"
  unfolding keeps_spent_def
proof (intro allI impI)
  let ?i = "i_id (c_invocation (rec_certificate (pub_record p)))"
  fix v s' assume r: "accept_runner_reply cr peer p s = Inr (v, s')"
  show "st_body_name s' = st_body_name s \<and> (\<forall>k. spent s k \<longrightarrow> spent s' k)"
  proof (cases v)
    case None
    with r have "s' = s \<or> (\<exists>b. ingest cr p s = Inr (b, s'))"
      by (auto simp: accept_runner_reply_def Let_def rbind_Inr_iff simp del: find_job_None
          split: option.split_asm if_split_asm)
    with keeps_spent_ingest [of s cr p] show ?thesis by (auto simp: keeps_spent_def)
  next
    case (Some j')
    from r [unfolded Some] show ?thesis
    proof (rule runner_reply_steps)
      fix j s1 b sd out
      assume body: "i_body (c_invocation (rec_certificate (pub_record p))) = peer"
        and j: "find_job s ?i = Some j" and m: "matches_job (rec_certificate (pub_record p)) j"
        and i: "ingest cr p s = Inr (b, s1)"
        and j': "j' = runner_job (c_invocation (rec_certificate (pub_record p))) sd out"
        and s': "s'\<lparr>st_output_pruned := {}\<rparr> = s1\<lparr>st_output_pruned := {},
           st_jobs := update_first (\<lambda>x. j_id x = ?i) (\<lambda>_. j') (st_jobs s1)\<rparr>"
      from i obtain h where s1: "s1 = s\<lparr>st_history := h\<rparr>" by (rule ingest_only_history)
      have jobs: "st_jobs s' = update_first (\<lambda>x. j_id x = ?i) (\<lambda>_. j') (st_jobs s)"
        and name: "st_body_name s' = st_body_name s"
        using arg_cong [OF s', where f = st_jobs] arg_cong [OF s', where f = st_body_name] by (simp_all add: s1)
      have jb: "j_body j = peer" using m body by (auto simp: matches_job_def Let_def)
      have "spent s' k" if "spent s k" for k
      proof -
        from that obtain o1 where o1: "find_job s k = Some o1" "j_body o1 = st_body_name s" "\<not> is_queued (j_status o1)"
          by (auto simp: spent_alt)
        with j jb assms have "k \<noteq> ?i" by auto
        then have "find_job s' k = Some o1"
          using o1(1) unfolding find_job_def jobs
          by (subst find_update_first_other) (auto simp: j' runner_job_def)
        with o1 name show ?thesis by (auto simp: spent_alt)
      qed
      with name show ?thesis by simp
    qed
  qed
qed


section \<open>Properties\<close>

text \<open>C1: At most once.  Whatever the order of submissions, completions, other edits, failed saves
  and crashes followed by a restart from the state file, no job identifier ever has a second process
  started on this machine; and the row of a started job is past the queue both in memory and in the
  file, so a restart cannot forget it.\<close>

theorem at_most_one_process_per_job:
  assumes "reachable (boot nd) evs w"
  shows "distinct (w_started w) \<and>
    (\<forall>i \<in> set (w_started w). spent (fst (w_node w)) i \<and> disk_spent (snd (w_node w)) i)"
  using reachable_started_spent [OF assms] by (simp add: started_spent_def)

text \<open>C3: Execution slots are conserved: at every moment the free slots and the running children add
  up to the four slots of the program, so there are never more than four children and a finished
  child always gives its slot back, also when its completion could not be written.\<close>

theorem execution_slots_conserved:
  assumes "reachable (boot nd) evs w"
  shows "l_children (w_limits w) + length (w_children w) = CHILDREN \<and> length (w_children w) \<le> 4"
  using reachable_slots [OF assms] by (simp add: slots_ok_def CHILDREN_def)

text \<open>The other edits of the program cannot make a job runnable again: granting and revoking,
  deciding and receiving requests, pruning, merging a peer's history, accepting a peer's signed
  answer, adding a new row, and noting a failed start or a delivered request all keep the machine's name and every spent identifier spent.\<close>

theorem edits_never_requeue:
  assumes "peer \<noteq> st_body_name s"
  shows "keeps_spent s (add_with_args h tool allow once until sched args) \<and> keeps_spent s (remove_grant h tool) \<and>
    keeps_spent s (decide h i d) \<and> keeps_spent s (receive nid who tool delivery) \<and>
    keeps_spent s (prune keep) \<and> keeps_spent s (ingest cr p) \<and>
    keeps_spent s (accept_runner_reply cr peer p) \<and> keeps_spent s (append_edit j retry) \<and>
    keeps_spent s (local_failed i e) \<and> keeps_spent s (settle_request i result)"
proof (intro conjI)
  show "keeps_spent s (add_with_args h tool allow once until sched args)"
    by (rule keeps_spentI) (auto simp: add_with_args_def rbind_Inr_iff commit_frame)
  show "keeps_spent s (receive nid who tool delivery)"
    by (rule keeps_spentI) (metis receive_same(2,4) surj_pair)
  show "keeps_spent s (settle_request i result)" by (rule keeps_spentI) (auto simp: settle_request_def split: if_splits)
qed (rule keeps_spent_local_failed keeps_spent_remove keeps_spent_decide keeps_spent_prune keeps_spent_ingest keeps_spent_append
    keeps_spent_runner_reply [OF assms])+

end
