(* ===== verification/Clix_Single_Use.thy ===== *)
theory Clix_Single_Use
  imports Clix_System
begin

text \<open>
  A grant for one use over the life of a machine: its slot in the store, in memory and in the state file, through
  submissions, completions, other edits, failed saves and restarts.
\<close>

section \<open>The slot of a tool\<close>

text \<open>What matters of the grants of a tool: whether they are for one use, and who reserved them.\<close>

definition slot :: "string \<Rightarrow> grant list \<Rightarrow> (bool \<times> string option) list" where
  "slot t gs = map (\<lambda>g. (g_once g, g_reservation g)) (filter (\<lambda>g. g_tool g = t) gs)"

text \<open>Nobody can start under the grants of the tool: there is none, or one reserved for a single job.\<close>

definition closed :: "string \<Rightarrow> grant list \<Rightarrow> bool" where
  "closed t gs \<longleftrightarrow> slot t gs = [] \<or> (\<exists>i. slot t gs = [(True, Some i)])"

definition single :: "string \<Rightarrow> grant list \<Rightarrow> bool" where
  "single t gs \<longleftrightarrow> closed t gs \<or> slot t gs = [(True, None)]"

abbreviation on_disk :: "(grant list \<Rightarrow> bool) \<Rightarrow> store option \<Rightarrow> bool" where
  "on_disk P d \<equiv> pred_option (\<lambda>s. P (st_grants s)) d"

lemma slot_durable [simp]: "slot t (st_grants (durable s)) = slot t (st_grants s)"
  by (simp add: slot_def durable_def durable_grant_def filter_map comp_def)

lemma slot_cong: "slot t gs' = slot t gs \<Longrightarrow> closed t gs' = closed t gs \<and> single t gs' = single t gs"
  by (simp add: closed_def single_def)

lemma slot_reserve:
  "slot t (st_grants (reserve tool i s)) =
     (if tool = t then (case slot t (st_grants s) of [] \<Rightarrow> [] | (b, r) # rest \<Rightarrow> (b, Some i) # rest) else slot t (st_grants s))"
proof -
  have "slot t (update_first (\<lambda>x. g_tool x = tool) (\<lambda>x. x\<lparr>g_reservation := Some i\<rparr>) gs) =
     (if tool = t then (case slot t gs of [] \<Rightarrow> [] | (b, r) # rest \<Rightarrow> (b, Some i) # rest) else slot t gs)" for gs
    by (induction gs) (auto simp: slot_def)
  then show ?thesis by (simp add: reserve_def)
qed

lemma slot_find: "find_grant s t = Some g \<Longrightarrow> \<exists>rest. slot t (st_grants s) = (g_once g, g_reservation g) # rest"
proof -
  have "List.find (\<lambda>g. g_tool g = t) gs = Some g \<Longrightarrow> \<exists>rest. slot t gs = (g_once g, g_reservation g) # rest" for gs
    by (induction gs) (auto simp: slot_def split: if_splits)
  then show "find_grant s t = Some g \<Longrightarrow> ?thesis" by (simp add: find_grant_def)
qed

lemma slot_of_wf:
  assumes "grants_wf s" and "find_grant s t = Some g"
  shows "slot t (st_grants s) = [(g_once g, g_reservation g)]"
proof -
  have "distinct (map g_tool gs) \<Longrightarrow> List.find (\<lambda>g. g_tool g = t) gs = Some g \<Longrightarrow> filter (\<lambda>g. g_tool g = t) gs = [g]" for gs
  proof (induction gs)
    case (Cons a gs)
    show ?case
    proof (cases "g_tool a = t")
      case True
      with Cons.prems have "g = a" "\<forall>x \<in> set gs. g_tool x \<noteq> t" by (auto simp: image_iff)
      with True show ?thesis by (simp add: filter_empty_conv)
    next
      case False
      with Cons show ?thesis by simp
    qed
  qed simp
  with assms show ?thesis by (simp add: grants_wf_def find_grant_def slot_def)
qed

text \<open>A completion under another tool's grant leaves the slot; one under the slot's own grant frees, empties or
  keeps it.\<close>

lemma slot_settle_other: "g_tool g \<noteq> t \<Longrightarrow> slot t (settle_grant g i ok gs) = slot t gs"
proof -
  assume other: "g_tool g \<noteq> t"
  then have "filter (\<lambda>x. g_tool x = t) (remove_first (held_by g i) gs) = filter (\<lambda>x. g_tool x = t) gs"
    by (intro filter_remove_first) (auto simp: held_by_def)
  moreover from other have "filter (\<lambda>x. g_tool x = t) (update_first (held_by g i) (\<lambda>x. x\<lparr>g_reservation := None\<rparr>) gs) = filter (\<lambda>x. g_tool x = t) gs"
    by (intro filter_update_first) (auto simp: held_by_def)
  ultimately show ?thesis by (simp add: slot_def settle_grant_def split: option.split bool.split)
qed

lemma slot_settle_own:
  assumes "slot t gs = [(True, Some i)]" and "g_tool g = t" and "g_once g"
  shows "slot t (settle_grant g i ok gs) =
    (case ok of Some True \<Rightarrow> [] | Some False \<Rightarrow> [(True, None)] | None \<Rightarrow> [(True, Some i)])"
proof -
  have "slot t gs = [(True, Some i)] \<Longrightarrow> slot t (remove_first (held_by g i) gs) = []"
    using assms(2) by (induction gs) (auto simp: slot_def held_by_def)
  moreover have "slot t gs = [(True, Some i)] \<Longrightarrow> slot t (update_first (held_by g i) (\<lambda>x. x\<lparr>g_reservation := None\<rparr>) gs) = [(True, None)]"
    using assms(2) by (induction gs) (auto simp: slot_def held_by_def)
  ultimately show ?thesis using assms(1,3) by (auto simp: settle_grant_def split: option.splits bool.splits)
qed

section \<open>Through updates and restarts\<close>

text \<open>After an update memory and file hold the old grants or those of the edited store, and a reported success
  means both hold the new ones.\<close>

lemma update_slot:
  assumes "update cx e (s, d) = (r, s', d')"
  obtains (refused) "isl r" "slot t (st_grants s') = slot t (st_grants s)" "d' = d"
  | (written) v n u where "e s = Inr (v, n)" "d' = d \<or> d' = Some u" "slot t (st_grants u) = slot t (st_grants n)" "isl r"
      "slot t (st_grants s') = slot t (st_grants s)"
  | (saved) v n u where "r = Inr v" "e s = Inr (v, n)" "d' = Some u" "slot t (st_grants u) = slot t (st_grants n)"
      "slot t (st_grants s') = slot t (st_grants n)"
  using assms
proof (cases rule: update_steps)
  case (unsaved x v n)
  from unsaved(2) obtain n1 where n1: "e s = Inr (v, n1)" "outcome n = outcome n1" by (rule update_next_outcome)
  then have "st_grants n = st_grants n1" by (metis outcome_sel(5))
  with unsaved n1 show ?thesis by (intro written [of v n1 "durable n"]) auto
next
  case (saved v)
  with assms obtain n1 where "e s = Inr (v, n1)" "outcome s' = outcome n1" "d' = Some (durable s')" by (metis update_ok)
  moreover from this have "st_grants s' = st_grants n1" by (metis outcome_sel(5))
  ultimately show ?thesis using saved by (intro that(3) [of v n1 "durable s'"]) auto
qed (use refused in auto)

text \<open>An edit that leaves the slot leaves it in memory and in the file.\<close>

lemma update_keeps_slot:
  assumes "update cx e (s, d) = (r, s', d')" and "\<And>v n. e s = Inr (v, n) \<Longrightarrow> slot t (st_grants n) = slot t (st_grants s)"
  shows "slot t (st_grants s') = slot t (st_grants s)"
    and "d' = d \<or> (\<exists>u. d' = Some u \<and> slot t (st_grants u) = slot t (st_grants s))"
  using assms(1) by (cases rule: update_slot [where t = t]; use assms(2) in auto)+

lemma apply_peer_result_slot:
  assumes "apply_peer_result cx peer incoming (s, d) = (r, s', d')"
  shows "slot t (st_grants s') = slot t (st_grants s)" and "d' = d \<or> (\<exists>u. d' = Some u \<and> slot t (st_grants u) = slot t (st_grants s))"
proof -
  have "(s', d') = (s, d) \<or> (\<exists>u. update cx (\<lambda>s. Inr ((), set_job incoming s)) (s, d) = (u, s', d'))"
    using assms by (auto simp: apply_peer_result_def put_job_def split: prod.splits sum.splits option.splits if_splits
        simp del: find_job_None)
  then have "slot t (st_grants s') = slot t (st_grants s) \<and> (d' = d \<or> (\<exists>u. d' = Some u \<and> slot t (st_grants u) = slot t (st_grants s)))"
    using update_keeps_slot [of cx "\<lambda>s. Inr ((), set_job incoming s)" s d _ s' d' t] by (auto simp: set_job_def)
  then show "slot t (st_grants s') = slot t (st_grants s)" "d' = d \<or> (\<exists>u. d' = Some u \<and> slot t (st_grants u) = slot t (st_grants s))"
    by simp_all
qed

lemma delivery_failed_slot:
  assumes "delivery_failed cx i e (s, d) = (r, s', d')"
  shows "slot t (st_grants s') = slot t (st_grants s) \<and> (d' = d \<or> (\<exists>u. d' = Some u \<and> slot t (st_grants u) = slot t (st_grants s)))"
  using assms
proof (cases rule: delivery_failed_steps)
  case (put j u)
  from update_keeps_slot [OF put(3), of t] show ?thesis by (simp add: set_job_def)
qed simp

lemma saved_slot:
  "save cx s d = (Inr x, d') \<Longrightarrow> \<exists>u. d' = Some u \<and> slot t (st_grants u) = slot t (st_grants s)"
  by (auto simp: save_def split: sum.splits dest!: save_encoded_ok)

lemma saved_or_error:
  "(case save cx s d of (Inl e, u) \<Rightarrow> Inl e | (Inr x, d') \<Rightarrow> Inr (s, d')) = Inr (s1, d1) \<longleftrightarrow> s1 = s \<and> (\<exists>x. save cx s d = (Inr x, d1))"
  by (cases "save cx s d") (auto split: sum.split)

lemma open_store_slot:
  assumes "open_store cx priv dir hostname new_sk (Some \<lparr>sf_size = n, sf_parsed = Inr d\<rparr>) = Inr (s, d')"
  shows "slot t (st_grants s) = slot t (st_grants d) \<and> (\<exists>u. d' = Some u \<and> slot t (st_grants u) = slot t (st_grants d))"
proof -
  from assms obtain s1 d1 where 1: "open_named cx hostname (d\<lparr>st_dir := dir\<rparr>) (Some d) = Inr (s1, d1)"
    and 2: "open_keyed cx new_sk s1 d1 = Inr (s, d')"
    by (auto simp: open_store_def result_simps split: if_splits)
  from 1 have 3: "slot t (st_grants s1) = slot t (st_grants d) \<and> (\<exists>u. d1 = Some u \<and> slot t (st_grants u) = slot t (st_grants d))"
    by (auto simp: open_named_def Let_def saved_or_error split: if_splits dest!: saved_slot [where t = t])
  with 2 show ?thesis
    by (auto simp: open_keyed_def Let_def result_simps saved_or_error split: if_splits dest!: saved_slot [where t = t])
qed

lemma restart_slot:
  assumes "open_store cx priv dir hostname new_sk (Some \<lparr>sf_size = n, sf_parsed = Inr d\<rparr>) = Inr nd0"
    and "start_recovery cx' nd0 = (r, s', d')"
  shows "slot t (st_grants s') = slot t (st_grants d) \<and> (\<exists>u. d' = Some u \<and> slot t (st_grants u) = slot t (st_grants d))"
proof -
  obtain s0 d0 where nd0: "nd0 = (s0, d0)" by fastforce
  note op = open_store_slot [OF assms(1) [unfolded nd0], of t]
  obtain rr s1 d1 where rec: "recover_jobs cx' (s0, d0) = (rr, s1, d1)" by (metis surj_pair)
  then have "d1 = d0 \<or> (\<exists>u. d1 = Some u \<and> slot t (st_grants u) = slot t (st_grants s0))"
    by (auto simp: recover_jobs_def mark_uncertain_def split: if_splits dest!: update_keeps_slot(2) [where t = t])
  moreover have "d' = d1" using assms(2) rec by (auto simp: nd0 start_recovery_def split: sum.splits)
  moreover have "st_grants s' = st_grants s0" using start_recovery_ok assms(2) nd0 by blast
  ultimately show ?thesis using op by auto
qed

section \<open>Who may use it\<close>

lemma run_needs_free_slot:
  assumes "decide_run now s from argv = Inr g" and "single (g_tool g) (st_grants s)"
  shows "slot (g_tool g) (st_grants s) = [(True, None)] \<and> g_once g"
proof -
  from assms(1) have g: "find_grant s (hd argv) = Some g" "g_reservation g = None"
    by (auto simp: decide_run_def check_at_def result_simps split: if_splits)
  then have "g_tool g = hd argv" by (auto simp: find_grant_def dest: find_Some_set)
  with slot_find [OF g(1)] g(2) assms(2) show ?thesis by (auto simp: single_def closed_def)
qed

lemma submit_edit_slot:
  assumes "submit_edit cr env l from argv i cert s = Inr ((j, granted), n)" and "single t (st_grants s)"
  shows "slot t (st_grants n) = slot t (st_grants s) \<and> (\<forall>g l'. granted = Some (g, l') \<longrightarrow> g_tool g \<noteq> t) \<or>
    slot t (st_grants s) = [(True, None)] \<and> slot t (st_grants n) = [(True, Some i)] \<and>
      (\<exists>g l'. granted = Some (g, l') \<and> g_tool g = t \<and> g_once g)"
  using assms(1)
proof (cases rule: submit_edit_cases)
  case (granted s1 g l')
  have gr: "st_grants s1 = st_grants s" using admit_frame [OF granted(1)] by simp
  show ?thesis
  proof (cases "g_tool g = t")
    case True
    with run_needs_free_slot [OF granted(2)] assms(2) have "slot t (st_grants s) = [(True, None)]" "g_once g" by auto
    then show ?thesis using granted True by (simp add: slot_reserve gr set_job_def)
  next
    case False
    then show ?thesis using granted by (auto simp: slot_reserve gr set_job_def)
  qed
next
  case (denied s1 e s2)
  have "st_grants s2 = st_grants s1" using denied(6) by (auto dest!: upsert_only_requests split: if_splits)
  with denied admit_frame [OF denied(1)] show ?thesis by (simp add: set_job_def)
qed

section \<open>Through the life of a machine\<close>

definition of_tool :: "string \<Rightarrow> child \<Rightarrow> bool" where
  "of_tool t c \<longleftrightarrow> g_tool (ch_grant c) = t"

text \<open>A process started under the tool's grant; one that is known to have failed, or not to have run; an edit that is
  no owner's decision about the tool.\<close>

fun starts :: "string \<Rightarrow> event \<Rightarrow> bool" where
  "starts t (Submitted (Some c)) \<longleftrightarrow> of_tool t c"
| "starts t ev \<longleftrightarrow> False"

fun fails :: "string \<Rightarrow> event \<Rightarrow> bool" where
  "fails t (Finished c out) \<longleftrightarrow> of_tool t c \<and> run_success out = Some False"
| "fails t ev \<longleftrightarrow> False"

definition undecided :: "string \<Rightarrow> event \<Rightarrow> bool" where
  "undecided t ev \<longleftrightarrow> (case ev of
     Edited e \<Rightarrow> (\<forall>s v n. e s = Inr (v, n) \<longrightarrow> slot t (st_grants n) = slot t (st_grants s)) | _ \<Rightarrow> True)"

definition held_for :: "string \<Rightarrow> string \<Rightarrow> node \<Rightarrow> bool" where
  "held_for t i nd \<longleftrightarrow> slot t (st_grants (fst nd)) = [(True, Some i)] \<and>
     (\<exists>u. snd nd = Some u \<and> slot t (st_grants u) = [(True, Some i)])"

text \<open>\<open>k\<close> processes started and not known to have failed: at most one; while there is one the slot is closed in memory
  and file, and a process that runs holds it.\<close>

definition usage :: "string \<Rightarrow> nat \<Rightarrow> world \<Rightarrow> bool" where
  "usage t k w \<longleftrightarrow> single t (st_grants (fst (w_node w))) \<and> on_disk (single t) (snd (w_node w)) \<and> k \<le> 1 \<and>
     length (filter (of_tool t) (w_children w)) \<le> k \<and>
     (\<forall>c \<in> set (w_children w). of_tool t c \<longrightarrow> g_once (ch_grant c) \<and> held_for t (j_id (ch_job c)) (w_node w)) \<and>
     (k = 1 \<longrightarrow> closed t (st_grants (fst (w_node w))) \<and> on_disk (closed t) (snd (w_node w)))"

text \<open>The slot is as before in memory, and in the file as before or as in memory.\<close>

definition kept :: "string \<Rightarrow> node \<Rightarrow> node \<Rightarrow> bool" where
  "kept t nd nd' \<longleftrightarrow> slot t (st_grants (fst nd')) = slot t (st_grants (fst nd)) \<and>
     (snd nd' = snd nd \<or> (\<exists>u. snd nd' = Some u \<and> slot t (st_grants u) = slot t (st_grants (fst nd))))"

lemma kept_facts:
  assumes "kept t nd nd'"
  shows "single t (st_grants (fst nd)) \<Longrightarrow> single t (st_grants (fst nd'))" "closed t (st_grants (fst nd)) \<Longrightarrow> closed t (st_grants (fst nd'))"
    "single t (st_grants (fst nd)) \<Longrightarrow> on_disk (single t) (snd nd) \<Longrightarrow> on_disk (single t) (snd nd')"
    "closed t (st_grants (fst nd)) \<Longrightarrow> on_disk (closed t) (snd nd) \<Longrightarrow> on_disk (closed t) (snd nd')"
    "held_for t i nd \<Longrightarrow> held_for t i nd'"
  using assms by (auto simp: kept_def single_def closed_def held_for_def)

lemma usage_kept:
  assumes "usage t k w" and "kept t (w_node w) (w_node w')"
    and "filter (of_tool t) (w_children w') = filter (of_tool t) (w_children w)"
  shows "usage t k w'"
proof -
  have "c \<in> set (w_children w') \<and> of_tool t c \<longleftrightarrow> c \<in> set (w_children w) \<and> of_tool t c" for c
    using arg_cong [OF assms(3), where f = set] by auto
  then show ?thesis using assms(1,3) kept_facts [OF assms(2)] unfolding usage_def by metis
qed

lemma submit_usage:
  assumes sub: "submit_inner cx env from argv i cert l (s, d) = (r, (s', d'), l', ch)" and u: "usage t k w" "w_node w = (s, d)"
    and w': "w_node w' = (s', d')" "w_children w' = w_children w @ (case ch of None \<Rightarrow> [] | Some c \<Rightarrow> [c])"
  shows "usage t (k + of_bool (starts t (Submitted ch))) w'"
  using sub
proof (cases rule: submit_inner_cases)
  case idle
  then show ?thesis using usage_kept [OF u(1), of w'] u(2) w' by (simp add: kept_def)
next
  case (failed e)
  have one: "single t (st_grants s)" using u by (simp add: usage_def)
  have mem: "slot t (st_grants s') = slot t (st_grants s)" using failed(4) by simp
  from failed(5) show ?thesis
  proof (cases rule: update_slot [where t = t])
    case refused
    then show ?thesis using usage_kept [OF u(1), of w'] u(2) w' failed(3) by (simp add: kept_def)
  next
    case (written v n x)
    obtain j granted where v: "v = (j, granted)" by fastforce
    from submit_edit_slot [OF written(1) [unfolded v] one] show ?thesis
    proof
      assume "slot t (st_grants n) = slot t (st_grants s) \<and> (\<forall>g l'. granted = Some (g, l') \<longrightarrow> g_tool g \<noteq> t)"
      then show ?thesis using usage_kept [OF u(1), of w'] u(2) w' failed(3) written by (auto simp: kept_def)
    next
      assume "slot t (st_grants s) = [(True, None)] \<and> slot t (st_grants n) = [(True, Some i)] \<and>
        (\<exists>g l'. granted = Some (g, l') \<and> g_tool g = t \<and> g_once g)"
      then show ?thesis using u w' failed(3) written mem
        by (auto simp: usage_def held_for_def single_def closed_def)
    qed
  qed simp
next
  case (run j granted u1 du)
  have one: "single t (st_grants s)" using u by (simp add: usage_def)
  from run(4,6) have up: "update cx (submit_edit (cx_crypto cx) env l from argv i cert) (s, d) = (Inr (j, granted), s', d')" by simp
  then show ?thesis
  proof (cases rule: update_slot [where t = t])
    case (saved v n x)
    from saved(1,2) have e: "submit_edit (cx_crypto cx) env l from argv i cert s = Inr ((j, granted), n)" by simp
    from submit_edit_slot [OF e one] show ?thesis
    proof
      assume "slot t (st_grants n) = slot t (st_grants s) \<and> (\<forall>g l'. granted = Some (g, l') \<longrightarrow> g_tool g \<noteq> t)"
      then show ?thesis using usage_kept [OF u(1), of w'] u(2) w' run(8) saved
        by (auto simp: kept_def of_tool_def split: option.splits)
    next
      assume free: "slot t (st_grants s) = [(True, None)] \<and> slot t (st_grants n) = [(True, Some i)] \<and>
        (\<exists>g l'. granted = Some (g, l') \<and> g_tool g = t \<and> g_once g)"
      then have k: "k = 0" using u by (auto simp: usage_def closed_def)
      with u have none: "filter (of_tool t) (w_children w) = []" by (simp add: usage_def)
      then have empty: "\<forall>c \<in> set (w_children w). \<not> of_tool t c" by (simp add: filter_empty_conv)
      obtain g l2 where g: "granted = Some (g, l2)" "g_tool g = t" "g_once g" using free by blast
      then have ch: "w_children w' = w_children w @ [\<lparr>ch_grant = g, ch_job = j\<rparr>]" using w'(2) run(8) by simp
      have "held_for t (j_id j) (w_node w')"
        using submit_edit_spent(3) [OF e] saved free w'(1) by (simp add: held_for_def)
      then show ?thesis using k none empty g ch run(8) saved free w'(1)
        by (auto simp: usage_def of_tool_def single_def closed_def)
    qed
  qed simp_all
qed

text \<open>A completion: the grants of the store after \<open>complete\<close> are those after its update.\<close>

lemma complete_update:
  assumes "complete cx c out l (s, d) = ((s', d'), l')"
  obtains r s1 where "update cx (finish_edit (ch_grant c) out (ch_job c)) (s, d) = (r, s1, d')" "st_grants s' = st_grants s1"
proof -
  obtain r s1 d1 where f: "finish cx c out (s, d) = (r, s1, d1)" by (metis surj_pair)
  with assms have "d' = d1" "st_grants s' = st_grants s1"
    by (auto simp: complete_def lost_completion_def split: sum.splits)
  with f that show thesis by (simp add: finish_def)
qed

lemma finish_edit_slot:
  assumes "finish_edit g out j s = Inr (v, n)"
  shows "slot t (st_grants n) = slot t (settle_grant g (j_id j) (run_success out) (st_grants s))"
  by (simp add: finish_edit_steps(2) [OF assms] set_job_def)

lemma finish_usage:
  assumes run: "complete cx c out l (s, d) = ((s', d'), l')" and u: "usage t k w" "w_node w = (s, d)" and c: "c \<in> set (w_children w)"
    and w': "w_node w' = (s', d')" "w_children w' = remove1 c (w_children w)"
  shows "\<exists>k'. usage t k' w' \<and> k' + of_bool (fails t (Finished c out)) = k"
proof (cases "of_tool t c")
  case False
  obtain r s1 where up: "update cx (finish_edit (ch_grant c) out (ch_job c)) (s, d) = (r, s1, d')" and s1: "st_grants s' = st_grants s1"
    using run by (rule complete_update)
  have "kept t (w_node w) (w_node w')"
    using update_keeps_slot [OF up, of t] finish_edit_slot [of "ch_grant c" out "ch_job c" s _ _ t] False s1 u(2) w'(1)
    by (auto simp: kept_def of_tool_def slot_settle_other)
  moreover have "filter (of_tool t) (w_children w') = filter (of_tool t) (w_children w)"
    using False by (simp add: w'(2) filter_remove1)
  ultimately show ?thesis using usage_kept [OF u(1), of w'] False by simp
next
  case True
  with c have "0 < length (filter (of_tool t) (w_children w))" by (auto simp: filter_empty_conv)
  moreover have "length (filter (of_tool t) (w_children w)) \<le> k" "k \<le> 1" using u by (simp_all add: usage_def)
  ultimately have one: "k = 1" by linarith
  with True u c have k: "k = 1" "g_once (ch_grant c)" and held: "slot t (st_grants s) = [(True, Some (j_id (ch_job c)))]"
      "\<exists>x. d = Some x \<and> slot t (st_grants x) = [(True, Some (j_id (ch_job c)))]" and len: "length (filter (of_tool t) (w_children w)) \<le> 1"
    by (auto simp: usage_def held_for_def)
  have none: "filter (of_tool t) (w_children w') = []"
    using len True c by (simp add: w'(2) filter_remove1 length_remove1 flip: length_0_conv)
  then have alone: "\<forall>x \<in> set (w_children w'). \<not> of_tool t x" by (metis filter_empty_conv)
  obtain r s1 where up: "update cx (finish_edit (ch_grant c) out (ch_job c)) (s, d) = (r, s1, d')" and s1: "st_grants s' = st_grants s1"
    using run by (rule complete_update)
  have settled: "slot t (st_grants n) = (case run_success out of Some True \<Rightarrow> [] | Some False \<Rightarrow> [(True, None)] | None \<Rightarrow> [(True, Some (j_id (ch_job c)))])"
    if "finish_edit (ch_grant c) out (ch_job c) s = Inr (v, n)" for v n
    using finish_edit_slot [OF that, of t] slot_settle_own [OF held(1) _ k(2)] True by (simp add: of_tool_def)
  have after: "slot t (st_grants s') = [(True, Some (j_id (ch_job c)))] \<or>
      slot t (st_grants s') = (case run_success out of Some True \<Rightarrow> [] | Some False \<Rightarrow> [(True, None)] | None \<Rightarrow> [(True, Some (j_id (ch_job c)))])"
    "\<exists>x. d' = Some x \<and> (slot t (st_grants x) = [(True, Some (j_id (ch_job c)))] \<or>
      slot t (st_grants x) = (case run_success out of Some True \<Rightarrow> [] | Some False \<Rightarrow> [(True, None)] | None \<Rightarrow> [(True, Some (j_id (ch_job c)))]))"
    using up by (cases rule: update_slot [where t = t]; use held settled s1 in auto)+
  then have "usage t (if run_success out = Some False then 0 else 1) w'" using alone none
    by (auto simp: usage_def w'(1) single_def closed_def split: option.splits bool.splits)
  then show ?thesis using k(1) True by (cases "run_success out = Some False") auto
qed

lemma step_usage:
  assumes "step w ev w'" and "usage t k w" and "undecided t ev"
  shows "\<exists>k'. usage t k' w' \<and> k' + of_bool (fails t ev) = k + of_bool (starts t ev)"
  using assms(1)
proof (cases rule: step.cases)
  case (submit cx env "from" argv i cert r nd' l' ch)
  obtain s d s' d' where nd: "w_node w = (s, d)" "nd' = (s', d')" by (metis surj_pair)
  from submit_usage [OF submit(3) [unfolded nd] assms(2) nd(1), of w'] show ?thesis by (simp add: submit(1,2) nd)
next
  case (finish c cx out nd' l')
  obtain s d s' d' where nd: "w_node w = (s, d)" "nd' = (s', d')" by (metis surj_pair)
  from finish_usage [OF finish(4) [unfolded nd] assms(2) nd(1) finish(3), of w'] show ?thesis by (simp add: finish(1,2) nd)
next
  case (edit e cx r nd')
  obtain s d s' d' where nd: "w_node w = (s, d)" "nd' = (s', d')" by (metis surj_pair)
  have "\<And>v n. e s = Inr (v, n) \<Longrightarrow> slot t (st_grants n) = slot t (st_grants s)" using assms(3) by (simp add: edit(1) undecided_def)
  from update_keeps_slot [OF edit(4) [unfolded nd] this] have "kept t (w_node w) (w_node w')" by (simp add: kept_def edit(2) nd)
  with usage_kept [OF assms(2)] show ?thesis by (simp add: edit(1,2))
next
  case (peer_result peer cx incoming pr nd')
  obtain s d s' d' where nd: "w_node w = (s, d)" "nd' = (s', d')" by (metis surj_pair)
  from apply_peer_result_slot [OF peer_result(4) [unfolded nd]] have "kept t (w_node w) (w_node w')" by (simp add: kept_def peer_result(2) nd)
  with usage_kept [OF assms(2)] show ?thesis by (simp add: peer_result(1,2))
next
  case (retry_later i cx err pr nd')
  obtain s d s' d' where nd: "w_node w = (s, d)" "nd' = (s', d')" by (metis surj_pair)
  from delivery_failed_slot [OF retry_later(4) [unfolded nd], of t] have "kept t (w_node w) (w_node w')" by (simp add: kept_def retry_later(2) nd)
  with usage_kept [OF assms(2)] show ?thesis by (simp add: retry_later(1,2))
next
  case (restart d cx priv dir hostname new_sk n nd0 cx' r nd')
  obtain s' d' where nd: "nd' = (s', d')" by fastforce
  from restart_slot [OF restart(4) restart(5) [unfolded nd], of t] assms(2) restart(3)
  show ?thesis by (auto simp: restart(1,2) nd usage_def single_def closed_def)
qed

lemma reachable_usage:
  assumes "reachable w0 evs w" and "usage t 0 w0" and "\<forall>ev \<in> set evs. undecided t ev"
  shows "\<exists>k. usage t k w \<and> length (filter (starts t) evs) = length (filter (fails t) evs) + k"
  using assms
proof (induction rule: reachable.induct)
  case (steps evs w ev w')
  then obtain k where k: "usage t k w" "length (filter (starts t) evs) = length (filter (fails t) evs) + k" by auto
  from step_usage [OF steps.hyps(2) k(1)] steps.prems(2) obtain k' where "usage t k' w'" "k' + of_bool (fails t ev) = k + of_bool (starts t ev)"
    by auto
  with k(2) show ?case by (intro exI [of _ k']) (cases "fails t ev"; cases "starts t ev"; simp)
qed simp

section \<open>The edits that are no decision\<close>

text \<open>The program's own edits leave every grant alone, so none of them is a decision about a tool: receiving a
  request, pruning, merging a peer's history, a runner's signed answer, a new row, a failed delivery and a
  settled request.\<close>

lemma undecidedI: "(\<And>s v n. e s = Inr (v, n) \<Longrightarrow> st_grants n = st_grants s) \<Longrightarrow> undecided t (Edited (forget e))"
  by (auto simp: undecided_def forget_def rbind_Inr_iff)

lemma ingest_grants: "ingest cr p s = Inr (b, n) \<Longrightarrow> st_grants n = st_grants s"
  by (auto elim: ingest_only_history)

lemma runner_reply_grants: "accept_runner_reply cr peer p s = Inr (v, n) \<Longrightarrow> st_grants n = st_grants s"
proof (cases v)
  case None
  moreover assume "accept_runner_reply cr peer p s = Inr (v, n)"
  ultimately show ?thesis
    by (auto simp: accept_runner_reply_def Let_def rbind_Inr_iff simp del: find_job_None
        split: option.split_asm if_split_asm dest: ingest_grants)
next
  case (Some j)
  assume "accept_runner_reply cr peer p s = Inr (v, n)"
  from this [unfolded Some] show ?thesis
  proof (rule runner_reply_steps)
    fix s1 b jobs i
    assume i: "ingest cr p s = Inr (b, s1)" and n: "n\<lparr>st_output_pruned := {}\<rparr> = s1\<lparr>st_output_pruned := {}, st_jobs := jobs\<rparr>"
    from ingest_grants [OF i] arg_cong [OF n, of st_grants] show ?thesis by simp
  qed
qed

lemma prune_grants: "prune keep s = Inr (v, n) \<Longrightarrow> st_grants n = st_grants s"
proof -
  assume "prune keep s = Inr (v, n)"
  then have "retained n = retained s"
    by (auto simp: prune_def Let_def rbind_Inr_iff case_prod_beta
        elim!: fold_r_invariant [where P = "\<lambda>x. retained x = retained s"] dest: remove_payload_retained)
  then show ?thesis by (auto dest: arg_cong [of _ _ st_grants] simp: retained_def)
qed

lemma other_edits_undecided:
  "undecided t (Edited (forget (receive nid who tool delivery)))" "undecided t (Edited (forget (prune keep)))"
  "undecided t (Edited (forget (ingest cr p)))" "undecided t (Edited (forget (accept_runner_reply cr peer p)))"
  "undecided t (Edited (forget (append_edit j retry)))" "undecided t (Edited (forget (local_failed i err)))"
  "undecided t (Edited (forget (settle_request i result)))"
  by (rule undecidedI, auto simp: append_edit_def local_failed_def settle_request_def frame_simps simp del: find_job_None
      split: option.splits if_splits dest: ingest_grants runner_reply_grants prune_grants)+

section \<open>The property\<close>

text \<open>C2: 
  C99: a grant for one use is used at most once: whatever is submitted, completed, saved or lost, and however often the
  sidecar crashes and restarts, until the owner decides about the tool again every start under the grant but
  one is matched by a run that is known to have failed.  So a run that succeeded, whose outcome is unknown, whose
  completion was lost or that a crash interrupted is the last one: from its start on the grant is gone or
  reserved, in memory and in the state file, and nothing else can start under it, after a restart either.
\<close>

theorem single_use_grant_used_once:
  assumes "reachable (boot (s, Some (durable s))) evs w" and "grants_wf s"
    and "find_grant s t = Some g" and "g_once g" and "\<forall>ev \<in> set evs. undecided t ev"
  shows "length (filter (starts t) evs) \<le> Suc (length (filter (fails t) evs)) \<and>
    length (filter (of_tool t) (w_children w)) \<le> 1 \<and>
    (length (filter (starts t) evs) \<noteq> length (filter (fails t) evs) \<longrightarrow>
      closed t (st_grants (fst (w_node w))) \<and> on_disk (closed t) (snd (w_node w)) \<and>
      (\<forall>now from argv g'. decide_run now (fst (w_node w)) from argv = Inr g' \<longrightarrow> g_tool g' \<noteq> t))"
proof -
  have "slot t (st_grants s) = [(True, g_reservation g)]"
    using slot_of_wf [OF assms(2,3)] assms(4) by simp
  then have "usage t 0 (boot (s, Some (durable s)))"
    by (cases "g_reservation g") (simp_all add: usage_def boot_def single_def closed_def)
  from reachable_usage [OF assms(1) this assms(5)] obtain k where
    u: "usage t k w" and k: "length (filter (starts t) evs) = length (filter (fails t) evs) + k" by blast
  have "g_tool g' \<noteq> t" if "closed t (st_grants (fst (w_node w)))" "decide_run now (fst (w_node w)) from argv = Inr g'" for now "from" argv g'
    using run_needs_free_slot [OF that(2)] that(1) by (auto simp: single_def closed_def)
  moreover have "k \<le> 1" "length (filter (of_tool t) (w_children w)) \<le> k" using u by (simp_all add: usage_def)
  moreover have "closed t (st_grants (fst (w_node w))) \<and> on_disk (closed t) (snd (w_node w))" if "k \<noteq> 0"
    using u that by (simp add: usage_def le_Suc_eq)
  ultimately show ?thesis using k by auto
qed

end
