(* ===== verification/Clix_View.thy ===== *)
theory Clix_View
  imports Clix_Replica "HOL-Library.Product_Lexorder"
begin

text \<open>
  The projected views of \<open>src/history.rs\<close>: what the owner sees of every run, one row per
  invocation, chosen among the local job rows, the origin's delivery observations, the legacy
  records and the runner's signed result.
\<close>

section \<open>Rows\<close>

record observation =
  ob_invocation :: string
  ob_role :: role
  ob_legacy_observer :: "body_id option"
  ob_status :: job_status

record view =
  vw_job :: job
  vw_invocation :: "string option"
  vw_retry_of :: "string option"
  vw_provenance :: string
  vw_output_available :: bool
  vw_stdout :: output_ref
  vw_stderr :: output_ref
  vw_observations :: "observation list"
  vw_local_warning :: "string option"

text \<open>The rows in the making: by group, each with the priority of its source.\<close>

type_synonym rows = "(bytes, nat \<times> view) btree"

definition view_group :: "crypto \<Rightarrow> job \<Rightarrow> string option \<Rightarrow> bytes" where
  "view_group cr j retry_of = cr_to_vec cr (JArr [JStr (j_id j), JStr (j_from j), JStr (j_body j),
     strs_json (j_argv j), opt_json JStr retry_of])"

definition selected_job :: "string option \<Rightarrow> job \<Rightarrow> bool" where
  "selected_job sel j = (case sel of None \<Rightarrow> True | Some i \<Rightarrow> j_id j = i)"

text \<open>\<open>local_by_id\<close>: the admission index and the row of a local job; collecting into a map keeps the
  last row of an identifier.\<close>

definition local_by_id :: "store \<Rightarrow> string option \<Rightarrow> string \<Rightarrow> (nat \<times> job) option" where
  "local_by_id s sel i = List.find (\<lambda>(n, j). j_id j = i)
     (rev (filter (\<lambda>(n, j). selected_job sel j) (List.enumerate 0 (st_jobs s))))"

definition local_view :: "crypto \<Rightarrow> store \<Rightarrow> job \<Rightarrow> view" where
  "local_view cr s j = \<lparr>vw_job = j, vw_invocation = None, vw_retry_of = st_retry_links s (j_id j),
     vw_provenance = ''local record; publication identity is unresolved'',
     vw_output_available = (j_id j \<notin> st_output_pruned s),
     vw_stdout = output_ref_of cr (j_stdout j), vw_stderr = output_ref_of cr (j_stderr j),
     vw_observations = [], vw_local_warning = None\<rparr>"

definition local_group :: "crypto \<Rightarrow> store \<Rightarrow> job \<Rightarrow> bytes" where
  "local_group cr s j = view_group cr j (st_retry_links s (j_id j))"

definition add_local :: "crypto \<Rightarrow> store \<Rightarrow> job \<Rightarrow> rows \<Rightarrow> rows" where
  "add_local cr s j rows = bt_insert (local_group cr s j) (0, local_view cr s j) rows"

section \<open>Entries of the history\<close>

definition selected_entry :: "string option \<Rightarrow> entry \<Rightarrow> bool" where
  "selected_entry sel e = (case sel of None \<Rightarrow> True
     | Some i \<Rightarrow> i_id (c_invocation (rec_certificate (e_record e))) = i)"

definition priority_of :: "hrecord \<Rightarrow> nat \<times> string" where
  "priority_of r = (let i = c_invocation (rec_certificate r) in case i_legacy_observer i of
       Some observer \<Rightarrow> (if observer = i_body i then 3 else 1, ''legacy record observed by '' @ observer)
     | None \<Rightarrow> if rec_runner r \<noteq> None then (4, ''verified runner result'')
              else (2, ''origin delivery observation; runner outcome not known''))"

definition observations_of :: "string \<Rightarrow> hrecord \<Rightarrow> observation list" where
  "observations_of key r = map (\<lambda>f. \<lparr>ob_invocation = key, ob_role = f_role (sf_fact f),
       ob_legacy_observer = i_legacy_observer (c_invocation (rec_certificate r)),
       ob_status = f_status (sf_fact f)\<rparr>)
     (case rec_origin r of None \<Rightarrow> [] | Some f \<Rightarrow> [f]) @
     map (\<lambda>f. \<lparr>ob_invocation = key, ob_role = f_role (sf_fact f),
       ob_legacy_observer = i_legacy_observer (c_invocation (rec_certificate r)),
       ob_status = f_status (sf_fact f)\<rparr>)
     (case rec_runner r of None \<Rightarrow> [] | Some f \<Rightarrow> [f])"

definition entry_view :: "crypto \<Rightarrow> store \<Rightarrow> string option \<Rightarrow> entry \<Rightarrow> signed_fact \<Rightarrow> view" where
  "entry_view cr s sel e sd =
     (let r = e_record e; i = c_invocation (rec_certificate r); f = sf_fact sd;
          out = selected_output cr s e (map_option snd (local_by_id s sel (i_id i)));
          key = invocation_hash cr (rec_certificate r)
      in \<lparr>vw_job = \<lparr>j_id = i_id i, j_body = i_body i, j_argv = i_argv i, j_from = i_from i,
             j_status = f_status f,
             j_stdout = (case out of None \<Rightarrow> [] | Some (so, se) \<Rightarrow> so),
             j_stderr = (case out of None \<Rightarrow> [] | Some (so, se) \<Rightarrow> se)\<rparr>,
          vw_invocation = Some key, vw_retry_of = i_retry_of i, vw_provenance = snd (priority_of r),
          vw_output_available = (out \<noteq> None \<or> or_bytes (f_stdout f) = 0 \<and> or_bytes (f_stderr f) = 0),
          vw_stdout = f_stdout f, vw_stderr = f_stderr f,
          vw_observations = observations_of key r, vw_local_warning = None\<rparr>)"

text \<open>A row joins its group: the better source is shown, every observation is kept.\<close>

definition merge_row :: "bytes \<Rightarrow> nat \<Rightarrow> view \<Rightarrow> rows \<Rightarrow> rows" where
  "merge_row g p row rows = (case bt_get rows g of
       None \<Rightarrow> bt_insert g (p, row) rows
     | Some (p0, old) \<Rightarrow>
         if p0 < p
         then bt_adjust g (\<lambda>_. (p, row\<lparr>vw_observations := vw_observations row @ vw_observations old\<rparr>)) rows
         else bt_adjust g (\<lambda>_. (p0, old\<lparr>vw_observations := vw_observations old @ vw_observations row\<rparr>)) rows)"

definition add_entry :: "crypto \<Rightarrow> store \<Rightarrow> string option \<Rightarrow> entry \<Rightarrow> rows \<Rightarrow> rows" where
  "add_entry cr s sel e rows = (case selected (e_record e) of
       None \<Rightarrow> rows
     | Some f \<Rightarrow> let row = entry_view cr s sel e f
                in merge_row (view_group cr (vw_job row) (vw_retry_of row)) (fst (priority_of (e_record e))) row rows)"

text \<open>A local run whose completion could not be saved is shown as uncertain.\<close>

fun is_uncertain :: "job_status \<Rightarrow> bool" where
  "is_uncertain (Uncertain _) = True"
| "is_uncertain _ = False"

definition local_warning_text :: string where
  "local_warning_text = ''Local outcome is uncertain and has not been saved; the signed observations below '' @
     ''remain the last durable evidence. Repair storage and restart the sidecar.''"

definition warn :: "job \<Rightarrow> nat \<times> view \<Rightarrow> nat \<times> view" where
  "warn j = (\<lambda>(p, v). if j_status (vw_job v) \<noteq> j_status j
     then (p, v\<lparr>vw_job := (vw_job v)\<lparr>j_status := j_status j\<rparr>, vw_local_warning := Some local_warning_text\<rparr>)
     else (p, v))"

definition flag_uncertain :: "crypto \<Rightarrow> store \<Rightarrow> job \<Rightarrow> rows \<Rightarrow> rows" where
  "flag_uncertain cr s j rows = bt_adjust (local_group cr s j) (warn j) rows"

section \<open>The views\<close>

definition local_rows :: "crypto \<Rightarrow> store \<Rightarrow> string option \<Rightarrow> rows" where
  "local_rows cr s sel = fold (add_local cr s) (filter (selected_job sel) (st_jobs s)) []"

definition merged_rows :: "crypto \<Rightarrow> store \<Rightarrow> string option \<Rightarrow> rows" where
  "merged_rows cr s sel = fold (add_entry cr s sel)
     (filter (selected_entry sel) (bt_values (hs_entries (st_history s)))) (local_rows cr s sel)"

definition uncertain_jobs :: "store \<Rightarrow> string option \<Rightarrow> job list" where
  "uncertain_jobs s sel = filter (\<lambda>j. j_body j = st_body_name s \<and> is_uncertain (j_status j))
     (filter (selected_job sel) (st_jobs s))"

definition all_rows :: "crypto \<Rightarrow> store \<Rightarrow> string option \<Rightarrow> rows" where
  "all_rows cr s sel = fold (flag_uncertain cr s) (uncertain_jobs s sel) (merged_rows cr s sel)"

text \<open>Display order: the change number of the row's entry, else the admission index.\<close>

definition view_sequence :: "store \<Rightarrow> string option \<Rightarrow> view \<Rightarrow> nat" where
  "view_sequence s sel v =
     (case Option.bind (vw_invocation v) (bt_get (hs_entries (st_history s))) of
        Some e \<Rightarrow> e_change e
      | None \<Rightarrow> (case local_by_id s sel (j_id (vw_job v)) of Some (n, _) \<Rightarrow> n | None \<Rightarrow> 0))"

definition order_observations :: "view \<Rightarrow> view" where
  "order_observations v = v\<lparr>vw_observations := sort_key ob_invocation (vw_observations v)\<rparr>"

definition projected_views :: "crypto \<Rightarrow> store \<Rightarrow> string option \<Rightarrow> view list" where
  "projected_views cr s sel = sort_key (\<lambda>v. (view_sequence s sel v, j_id (vw_job v)))
     (map (order_observations \<circ> snd) (bt_values (all_rows cr s sel)))"

definition views :: "crypto \<Rightarrow> store \<Rightarrow> view list" where
  "views cr s = projected_views cr s None"

definition views_for_job :: "crypto \<Rightarrow> store \<Rightarrow> string \<Rightarrow> view list" where
  "views_for_job cr s i = projected_views cr s (Some i)"

definition projected :: "crypto \<Rightarrow> store \<Rightarrow> job list" where
  "projected cr s = map vw_job (views cr s)"

section \<open>What the rows hold\<close>

lemma fold_prefix_invariant:
  assumes "P [] s" and "\<And>done x s. x \<in> set xs \<Longrightarrow> P done s \<Longrightarrow> P (done @ [x]) (f x s)"
  shows "P xs (fold f xs s)"
  using assms by (induction xs rule: rev_induct) auto

lemma view_group_inj:
  assumes "inj (cr_to_vec cr)" and "view_group cr j r = view_group cr j' r'"
  shows "j_id j = j_id j' \<and> j_from j = j_from j' \<and> j_body j = j_body j' \<and> j_argv j = j_argv j' \<and> r = r'"
proof -
  have "inj JStr" by (simp add: inj_def)
  then show ?thesis
    using assms by (auto simp: view_group_def strs_json_def opt_json_def inj_map_eq_map inj_eq split: option.splits)
qed

text \<open>The group of an entry: its invocation's identity.\<close>

definition entry_group :: "crypto \<Rightarrow> entry \<Rightarrow> bytes" where
  "entry_group cr e = (let i = c_invocation (rec_certificate (e_record e)) in
     cr_to_vec cr (JArr [JStr (i_id i), JStr (i_from i), JStr (i_body i), strs_json (i_argv i),
       opt_json JStr (i_retry_of i)]))"

lemma entry_view_group [simp]:
  "view_group cr (vw_job (entry_view cr s sel e f)) (vw_retry_of (entry_view cr s sel e f)) = entry_group cr e"
  by (simp add: entry_view_def view_group_def entry_group_def Let_def)

lemma entry_view_group' [simp]:
  "view_group cr (vw_job (entry_view cr s sel e f)) (i_retry_of (c_invocation (rec_certificate (e_record e)))) = entry_group cr e"
  by (simp add: entry_view_def view_group_def entry_group_def Let_def)

text \<open>The source of a row, up to the observations that joined it: a local row or an entry.\<close>

definition local_source :: "crypto \<Rightarrow> store \<Rightarrow> string option \<Rightarrow> view \<Rightarrow> bool" where
  "local_source cr s sel v \<longleftrightarrow> (\<exists>j obs. j \<in> set (st_jobs s) \<and> selected_job sel j \<and>
     v = (local_view cr s j)\<lparr>vw_observations := obs\<rparr>)"

definition entry_source :: "crypto \<Rightarrow> store \<Rightarrow> string option \<Rightarrow> view \<Rightarrow> entry \<Rightarrow> bool" where
  "entry_source cr s sel v e \<longleftrightarrow> (\<exists>f obs. e \<in> set (bt_values (hs_entries (st_history s))) \<and> selected_entry sel e \<and>
     selected (e_record e) = Some f \<and> v = (entry_view cr s sel e f)\<lparr>vw_observations := obs\<rparr>)"

definition row_ok :: "crypto \<Rightarrow> store \<Rightarrow> string option \<Rightarrow> bytes \<Rightarrow> nat \<Rightarrow> view \<Rightarrow> bool" where
  "row_ok cr s sel g p v \<longleftrightarrow> g = view_group cr (vw_job v) (vw_retry_of v) \<and>
     (p = 0 \<and> local_source cr s sel v \<or>
      (\<exists>e. entry_source cr s sel v e \<and> p = fst (priority_of (e_record e))))"

definition rows_ok :: "crypto \<Rightarrow> store \<Rightarrow> string option \<Rightarrow> rows \<Rightarrow> bool" where
  "rows_ok cr s sel rows \<longleftrightarrow> bt_ok rows \<and>
     (\<forall>g p v. bt_get rows g = Some (p, v) \<longrightarrow> row_ok cr s sel g p v)"

lemma row_ok_observations: "row_ok cr s sel g p v \<Longrightarrow> row_ok cr s sel g p (v\<lparr>vw_observations := obs\<rparr>)"
  unfolding row_ok_def local_source_def entry_source_def by fastforce

lemma local_rows_ok:
  "rows_ok cr s sel (local_rows cr s sel) \<and>
   (\<forall>j \<in> set (st_jobs s). selected_job sel j \<longrightarrow> bt_get (local_rows cr s sel) (local_group cr s j) \<noteq> None) \<and>
   (\<forall>g. bt_get (local_rows cr s sel) g \<noteq> None \<longrightarrow>
      (\<exists>j \<in> set (st_jobs s). selected_job sel j \<and> g = local_group cr s j))"
proof -
  let ?P = "\<lambda>done rows. rows_ok cr s sel rows \<and> (\<forall>g. bt_get rows g \<noteq> None \<longleftrightarrow> g \<in> local_group cr s ` set done)"
  have "?P (filter (selected_job sel) (st_jobs s)) (local_rows cr s sel)"
    unfolding local_rows_def
  proof (rule fold_prefix_invariant)
    show "?P [] []" by (simp add: rows_ok_def bt.ok_emp)
  next
    fix done' :: "job list" and j rows assume j: "j \<in> set (filter (selected_job sel) (st_jobs s))" and P: "?P done' rows"
    have "row_ok cr s sel (local_group cr s j) 0 (local_view cr s j)"
      using j by (auto simp: row_ok_def local_source_def local_view_def local_group_def)
    with P show "?P (done' @ [j]) (add_local cr s j rows)"
      by (auto simp: rows_ok_def add_local_def bt.ok_ins bt.get_ins split: if_splits)
  qed
  then show ?thesis by (auto simp: image_iff)
qed

lemma priority_pos: "0 < fst (priority_of r)"
  by (auto simp: priority_of_def Let_def split: option.splits)

lemma merge_row_get:
  assumes "bt_ok rows"
  shows "bt_get (merge_row g p row rows) g' = (if g' \<noteq> g then bt_get rows g' else
    case bt_get rows g of None \<Rightarrow> Some (p, row)
    | Some (p0, old) \<Rightarrow> Some (if p0 < p then (p, row\<lparr>vw_observations := vw_observations row @ vw_observations old\<rparr>)
        else (p0, old\<lparr>vw_observations := vw_observations old @ vw_observations row\<rparr>)))"
  using assms by (auto simp: merge_row_def bt.get_ins bt_get_adjust split: option.splits)

lemma merge_row_ok: "bt_ok rows \<Longrightarrow> bt_ok (merge_row g p row rows)"
  by (auto simp: merge_row_def bt.ok_ins split: option.splits prod.splits)

lemma add_entry_ok:
  assumes ok: "rows_ok cr s sel rows" and e: "e \<in> set (bt_values (hs_entries (st_history s)))" "selected_entry sel e"
  shows "rows_ok cr s sel (add_entry cr s sel e rows)"
proof (cases "selected (e_record e)")
  case None
  with ok show ?thesis by (simp add: add_entry_def)
next
  case (Some f)
  let ?v = "entry_view cr s sel e f" and ?p = "fst (priority_of (e_record e))"
  have "?v = ?v\<lparr>vw_observations := vw_observations ?v\<rparr>" by simp
  then have row: "row_ok cr s sel (entry_group cr e) ?p ?v"
    using e Some unfolding row_ok_def entry_source_def by (metis entry_view_group)
  have add: "add_entry cr s sel e rows = merge_row (entry_group cr e) ?p ?v rows"
    using Some by (simp add: add_entry_def Let_def)
  show ?thesis
    using ok row
    by (auto simp: add rows_ok_def merge_row_ok merge_row_get split: option.splits if_splits
        intro: row_ok_observations)
qed

text \<open>The rows after the entries: every group, and in each the best source.\<close>

lemma merged_rows_ok:
  "rows_ok cr s sel (merged_rows cr s sel) \<and>
   (\<forall>g. bt_get (merged_rows cr s sel) g \<noteq> None \<longleftrightarrow>
      (\<exists>j \<in> set (st_jobs s). selected_job sel j \<and> g = local_group cr s j) \<or>
      (\<exists>e \<in> set (bt_values (hs_entries (st_history s))). selected_entry sel e \<and> selected (e_record e) \<noteq> None \<and>
         g = entry_group cr e)) \<and>
   (\<forall>e \<in> set (bt_values (hs_entries (st_history s))). selected_entry sel e \<and> selected (e_record e) \<noteq> None \<longrightarrow>
      (\<exists>p v. bt_get (merged_rows cr s sel) (entry_group cr e) = Some (p, v) \<and> fst (priority_of (e_record e)) \<le> p))"
proof -
  let ?es = "bt_values (hs_entries (st_history s))"
  let ?P = "\<lambda>done rows. rows_ok cr s sel rows \<and>
    (\<forall>g. bt_get rows g \<noteq> None \<longleftrightarrow>
      (\<exists>j \<in> set (st_jobs s). selected_job sel j \<and> g = local_group cr s j) \<or>
      (\<exists>e \<in> set done. selected (e_record e) \<noteq> None \<and> g = entry_group cr e)) \<and>
    (\<forall>e \<in> set done. selected (e_record e) \<noteq> None \<longrightarrow>
      (\<exists>p v. bt_get rows (entry_group cr e) = Some (p, v) \<and> fst (priority_of (e_record e)) \<le> p))"
  have "?P (filter (selected_entry sel) ?es) (merged_rows cr s sel)"
    unfolding merged_rows_def
  proof (rule fold_prefix_invariant)
    show "?P [] (local_rows cr s sel)" using local_rows_ok by fastforce
  next
    fix done' :: "entry list" and e rows assume e: "e \<in> set (filter (selected_entry sel) ?es)" and P: "?P done' rows"
    then have ok: "rows_ok cr s sel (add_entry cr s sel e rows)" by (intro add_entry_ok) auto
    show "?P (done' @ [e]) (add_entry cr s sel e rows)"
    proof (cases "selected (e_record e)")
      case None
      with P show ?thesis by (auto simp: add_entry_def)
    next
      case (Some f)
      have add: "add_entry cr s sel e rows = merge_row (entry_group cr e) (fst (priority_of (e_record e)))
          (entry_view cr s sel e f) rows"
        using Some by (simp add: add_entry_def Let_def)
      have bt: "bt_ok rows" using P by (simp add: rows_ok_def)
      have keys: "bt_get (add_entry cr s sel e rows) g \<noteq> None \<longleftrightarrow> g = entry_group cr e \<or> bt_get rows g \<noteq> None" for g
        by (auto simp: add merge_row_get [OF bt] split: option.split)
      have grow: "\<exists>p' v'. bt_get (add_entry cr s sel e rows) g = Some (p', v') \<and> p \<le> p' "
        if "bt_get rows g = Some (p, v)" for g p v
        using that by (auto simp: add merge_row_get [OF bt])
      have own: "\<exists>p v. bt_get (add_entry cr s sel e rows) (entry_group cr e) = Some (p, v) \<and>
          fst (priority_of (e_record e)) \<le> p"
        by (auto simp: add merge_row_get [OF bt] split: option.split)
      have "\<exists>p v. bt_get (add_entry cr s sel e rows) (entry_group cr x) = Some (p, v) \<and>
          fst (priority_of (e_record x)) \<le> p" if "x \<in> set done'" "selected (e_record x) \<noteq> None" for x
        using P that grow by (meson order_trans)
      with ok P keys own Some show ?thesis by auto
    qed
  qed
  then show ?thesis by (auto simp: conj_commute)
qed

section \<open>The unsaved outcomes\<close>

text \<open>A row after the local warnings: unchanged, or with an uncertain status and the warning.\<close>

definition warned :: "view \<Rightarrow> view \<Rightarrow> bool" where
  "warned v v' \<longleftrightarrow> v' = v \<or> (\<exists>st. is_uncertain st \<and>
     v' = v\<lparr>vw_job := (vw_job v)\<lparr>j_status := st\<rparr>, vw_local_warning := Some local_warning_text\<rparr>)"

lemma warned_refl [simp]: "warned v v"
  by (simp add: warned_def)

lemma warned_warn:
  assumes "warned v v'" and "is_uncertain (j_status j)"
  shows "fst (warn j (p, v')) = p \<and> warned v (snd (warn j (p, v'))) \<and>
    is_uncertain (j_status (vw_job (snd (warn j (p, v')))))"
  using assms by (auto simp: warned_def warn_def)

lemma warned_group:
  "warned v v' \<Longrightarrow> view_group cr (vw_job v') (vw_retry_of v') = view_group cr (vw_job v) (vw_retry_of v)"
  by (auto simp: warned_def view_group_def)

lemma all_rows_ok:
  "bt_ok (all_rows cr s sel) \<and>
   (\<forall>g. rel_option (\<lambda>(p, v) (p', v'). p' = p \<and> warned v v')
      (bt_get (merged_rows cr s sel) g) (bt_get (all_rows cr s sel) g)) \<and>
   (\<forall>j \<in> set (uncertain_jobs s sel). \<forall>p v. bt_get (all_rows cr s sel) (local_group cr s j) = Some (p, v) \<longrightarrow>
      is_uncertain (j_status (vw_job v)))"
  unfolding all_rows_def
proof (rule fold_prefix_invariant)
  show "bt_ok (merged_rows cr s sel) \<and>
    (\<forall>g. rel_option (\<lambda>(p, v) (p', v'). p' = p \<and> warned v v')
       (bt_get (merged_rows cr s sel) g) (bt_get (merged_rows cr s sel) g)) \<and>
    (\<forall>j \<in> set []. \<forall>p v. bt_get (merged_rows cr s sel) (local_group cr s j) = Some (p, v) \<longrightarrow>
       is_uncertain (j_status (vw_job v)))"
    using merged_rows_ok [of cr s sel] by (auto simp: rows_ok_def intro!: option.rel_refl)
next
  fix done' j rows
  assume "j \<in> set (uncertain_jobs s sel)"
    and P: "bt_ok rows \<and>
      (\<forall>g. rel_option (\<lambda>(p, v) (p', v'). p' = p \<and> warned v v') (bt_get (merged_rows cr s sel) g) (bt_get rows g)) \<and>
      (\<forall>j \<in> set done'. \<forall>p v. bt_get rows (local_group cr s j) = Some (p, v) \<longrightarrow> is_uncertain (j_status (vw_job v)))"
  then have u: "is_uncertain (j_status j)" by (simp add: uncertain_jobs_def)
  let ?rows' = "flag_uncertain cr s j rows"
  have rel: "rel_option (\<lambda>(p, v) (p', v'). p' = p \<and> warned v v') (bt_get (merged_rows cr s sel) g) (bt_get ?rows' g)" for g
  proof -
    have "rel_option (\<lambda>(p, v) (p', v'). p' = p \<and> warned v v') (bt_get (merged_rows cr s sel) g) (bt_get rows g)"
      using P by blast
    then show ?thesis
      using warned_warn [OF _ u]
      by (auto simp: flag_uncertain_def bt_get_adjust option.rel_sel split: prod.splits) (metis fst_conv snd_conv)+
  qed
  have unc: "is_uncertain (j_status (vw_job v))"
    if x: "x \<in> set (done' @ [j])" and v: "bt_get ?rows' (local_group cr s x) = Some (p, v)" for x p v
  proof (cases "local_group cr s x = local_group cr s j")
    case True
    with v obtain p0 v0 where "warn j (p0, v0) = (p, v)"
      by (auto simp: flag_uncertain_def bt_get_adjust)
    then show ?thesis using warned_warn [OF warned_refl [of v0] u, of p0] by simp
  next
    case False
    with x v P show ?thesis by (auto simp: flag_uncertain_def bt_get_adjust)
  qed
  show "bt_ok ?rows' \<and>
    (\<forall>g. rel_option (\<lambda>(p, v) (p', v'). p' = p \<and> warned v v') (bt_get (merged_rows cr s sel) g) (bt_get ?rows' g)) \<and>
    (\<forall>j \<in> set (done' @ [j]). \<forall>p v. bt_get ?rows' (local_group cr s j) = Some (p, v) \<longrightarrow>
       is_uncertain (j_status (vw_job v)))"
    using P rel unc by (auto simp: flag_uncertain_def)
qed

section \<open>What the views show\<close>

text \<open>The identity a view stands for.\<close>

definition group_of :: "crypto \<Rightarrow> view \<Rightarrow> bytes" where
  "group_of cr v = view_group cr (vw_job v) (vw_retry_of v)"

lemma set_projected_views:
  "set (projected_views cr s sel) = order_observations ` {v. \<exists>g p. bt_get (all_rows cr s sel) g = Some (p, v)}"
proof -
  have ok: "bt_ok (all_rows cr s sel)" using all_rows_ok by blast
  have "set (bt_values (all_rows cr s sel)) = {x. \<exists>g. bt_get (all_rows cr s sel) g = Some x}"
    using bt.values_get [OF ok] by (auto simp: bt_values_def)
  then show ?thesis by (force simp: projected_views_def image_iff)
qed

lemma order_observations_simps [simp]:
  "vw_job (order_observations v) = vw_job v" "vw_invocation (order_observations v) = vw_invocation v"
  "vw_retry_of (order_observations v) = vw_retry_of v" "vw_provenance (order_observations v) = vw_provenance v"
  "vw_stdout (order_observations v) = vw_stdout v" "vw_stderr (order_observations v) = vw_stderr v"
  "vw_local_warning (order_observations v) = vw_local_warning v" "group_of cr (order_observations v) = group_of cr v"
  by (simp_all add: order_observations_def group_of_def)

text \<open>Every view comes from a merged row, up to warnings and the order of its observations.\<close>

lemma view_row:
  assumes "v \<in> set (projected_views cr s sel)"
  obtains p v0 v1 where "bt_get (merged_rows cr s sel) (group_of cr v) = Some (p, v0)"
    "bt_get (all_rows cr s sel) (group_of cr v) = Some (p, v1)"
    "row_ok cr s sel (group_of cr v) p v0" "warned v0 v1" "v = order_observations v1"
proof -
  from assms obtain g p v1 where v1: "bt_get (all_rows cr s sel) g = Some (p, v1)" "v = order_observations v1"
    by (auto simp: set_projected_views)
  moreover obtain v0 where v0: "bt_get (merged_rows cr s sel) g = Some (p, v0)" "warned v0 v1"
    using all_rows_ok [of cr s sel] v1(1) by (auto simp: option_rel_Some2 dest!: spec [of _ g])
  moreover have "row_ok cr s sel g p v0" using merged_rows_ok v0(1) by (auto simp: rows_ok_def)
  moreover from this have "g = group_of cr v"
    using v0(2) v1(2) by (simp add: row_ok_def warned_group group_of_def order_observations_def)
  ultimately show thesis using that by simp
qed

lemma row_view:
  assumes "bt_get (merged_rows cr s sel) g = Some (p, v0)"
  obtains v where "v \<in> set (projected_views cr s sel)" "group_of cr v = g"
proof -
  obtain v1 where v1: "bt_get (all_rows cr s sel) g = Some (p, v1)" "warned v0 v1"
    using all_rows_ok [of cr s sel] assms by (auto simp: option_rel_Some1 dest!: spec [of _ g])
  moreover have "row_ok cr s sel g p v0" using merged_rows_ok assms by (auto simp: rows_ok_def)
  ultimately have "group_of cr (order_observations v1) = g"
    by (simp add: group_of_def order_observations_def warned_group row_ok_def)
  moreover have "order_observations v1 \<in> set (projected_views cr s sel)"
    using v1(1) by (auto simp: set_projected_views)
  ultimately show thesis by (rule that [rotated])
qed

text \<open>C30: The owner sees every run exactly once.\<close>

theorem views_complete:
  "distinct (map (group_of cr) (projected_views cr s sel)) \<and>
   set (map (group_of cr) (projected_views cr s sel)) =
     {local_group cr s j | j. j \<in> set (st_jobs s) \<and> selected_job sel j} \<union>
     {entry_group cr e | e. e \<in> set (bt_values (hs_entries (st_history s))) \<and> selected_entry sel e \<and>
        selected (e_record e) \<noteq> None}"
proof -
  let ?rows = "all_rows cr s sel"
  have ok: "bt_ok ?rows" using all_rows_ok by blast
  have group: "group_of cr (snd x) = g" if "(g, x) \<in> set ?rows" for g x
  proof -
    have "bt_get ?rows g = Some x" using that bt.items_get [OF ok] by blast
    moreover obtain p v1 where "x = (p, v1)" by fastforce
    ultimately obtain v0 where "bt_get (merged_rows cr s sel) g = Some (p, v0)" "warned v0 v1"
      using all_rows_ok [of cr s sel] by (auto simp: option_rel_Some2 dest!: spec [of _ g])
    moreover from this have "row_ok cr s sel g p v0" using merged_rows_ok by (auto simp: rows_ok_def)
    ultimately show ?thesis using \<open>x = (p, v1)\<close> by (simp add: row_ok_def warned_group group_of_def)
  qed
  have groups: "map (group_of cr) (map (order_observations \<circ> snd) (bt_values ?rows)) = map fst ?rows"
    using group by (auto simp: bt_values_def)
  have "distinct (map (group_of cr) (map (order_observations \<circ> snd) (bt_values ?rows)))"
    using ok by (simp only: groups bt_ok_def)
  then have "distinct (map (group_of cr) (projected_views cr s sel))"
    by (simp only: projected_views_def distinct_map distinct_sort set_sort)
  moreover have "set (map (group_of cr) (projected_views cr s sel)) = set (map fst ?rows)"
    by (simp only: groups [symmetric] projected_views_def set_map set_sort)
  moreover have "set (map fst ?rows) = {g. bt_get (merged_rows cr s sel) g \<noteq> None}"
    using all_rows_ok [of cr s sel] bt.key_get [OF ok] by (auto simp: option.rel_sel simp del: set_map) 
  ultimately show ?thesis using merged_rows_ok [of cr s sel] by auto
qed

text \<open>Uncertain.\<close>

theorem uncertain_never_shown_running:
  assumes "j \<in> set (st_jobs s)" and "selected_job sel j" and "j_body j = st_body_name s"
    and "is_uncertain (j_status j)"
  shows "\<exists>v \<in> set (projected_views cr s sel). group_of cr v = local_group cr s j \<and>
    is_uncertain (j_status (vw_job v))"
proof -
  have j: "j \<in> set (uncertain_jobs s sel)" using assms by (simp add: uncertain_jobs_def)
  obtain p v0 where "bt_get (merged_rows cr s sel) (local_group cr s j) = Some (p, v0)"
    using merged_rows_ok [of cr s sel] assms(1,2) by fastforce
  then obtain v where v: "v \<in> set (projected_views cr s sel)" "group_of cr v = local_group cr s j"
    by (rule row_view)
  from v(1) show ?thesis
  proof (rule view_row)
    fix p v0 v1 assume "bt_get (all_rows cr s sel) (group_of cr v) = Some (p, v1)" "v = order_observations v1"
    then show ?thesis using all_rows_ok [of cr s sel] j v by fastforce
  qed
qed

text \<open>C31: verified.\<close>

theorem verified_result_shown:
  assumes "e \<in> set (bt_values (hs_entries (st_history s)))" and "selected_entry sel e"
    and "i_legacy_observer (c_invocation (rec_certificate (e_record e))) = None" and "rec_runner (e_record e) = Some f"
  shows "\<exists>v \<in> set (projected_views cr s sel). \<exists>e' f'. group_of cr v = entry_group cr e \<and>
    vw_provenance v = ''verified runner result'' \<and>
    e' \<in> set (bt_values (hs_entries (st_history s))) \<and> entry_group cr e' = entry_group cr e \<and>
    i_legacy_observer (c_invocation (rec_certificate (e_record e'))) = None \<and> rec_runner (e_record e') = Some f' \<and>
    vw_invocation v = Some (invocation_hash cr (rec_certificate (e_record e'))) \<and>
    vw_stdout v = f_stdout (sf_fact f') \<and> vw_stderr v = f_stderr (sf_fact f') \<and>
    (j_status (vw_job v) = f_status (sf_fact f') \<or>
     vw_local_warning v = Some local_warning_text \<and> is_uncertain (j_status (vw_job v)))"
proof -
  have sel: "selected (e_record e) = Some f" using assms(4) by (simp add: selected_def)
  have "fst (priority_of (e_record e)) = 4" using assms(3,4) by (simp add: priority_of_def)
  then obtain p v0 where "bt_get (merged_rows cr s sel) (entry_group cr e) = Some (p, v0)" and p: "4 \<le> p"
    using merged_rows_ok [of cr s sel] assms(1,2) sel by fastforce
  then obtain v where v: "v \<in> set (projected_views cr s sel)" "group_of cr v = entry_group cr e"
    using row_view by metis
  from v(1) show ?thesis
  proof (rule view_row)
    fix q v2 v1
    assume row: "bt_get (merged_rows cr s sel) (group_of cr v) = Some (q, v2)"
      and ok: "row_ok cr s sel (group_of cr v) q v2" and w: "warned v2 v1" and v1: "v = order_observations v1"
    have "4 \<le> q" using row p v(2) \<open>bt_get (merged_rows cr s sel) (entry_group cr e) = Some (p, v0)\<close> by simp
    with ok obtain e' where e': "entry_source cr s sel v2 e'" "q = fst (priority_of (e_record e'))"
      by (auto simp: row_ok_def)
    then obtain f' obs where f': "e' \<in> set (bt_values (hs_entries (st_history s)))"
      "selected (e_record e') = Some f'" "v2 = (entry_view cr s sel e' f')\<lparr>vw_observations := obs\<rparr>"
      by (auto simp: entry_source_def)
    from e'(2) \<open>4 \<le> q\<close> have "i_legacy_observer (c_invocation (rec_certificate (e_record e'))) = None"
      and run: "rec_runner (e_record e') \<noteq> None" and prov: "snd (priority_of (e_record e')) = ''verified runner result''"
      by (auto simp: priority_of_def Let_def split: option.splits if_splits)
    moreover have "rec_runner (e_record e') = Some f'" using run f'(2) by (auto simp: selected_def)
    moreover have "entry_group cr e' = entry_group cr e"
      using ok v(2) f'(3) by (simp add: row_ok_def)
    ultimately show ?thesis
      using v f'(1,3) w prov
      by (intro bexI [of _ v] exI [of _ e'] exI [of _ f'])
        (auto simp: v1 warned_def entry_view_def Let_def)
  qed
qed

text \<open>Bytes.\<close>

lemma selected_output_ref:
  assumes "selected_output cr s e local = Some (so, se)" and "selected (e_record e) = Some f"
  shows "output_ref_of cr so = f_stdout (sf_fact f) \<and> output_ref_of cr se = f_stderr (sf_fact f)"
  using assms by (auto simp: selected_output_def Let_def holds_output_def output_matches_def bind_eq_Some_conv
      split: if_splits option.splits)

theorem shown_output_matches_digest:
  assumes "v \<in> set (projected_views cr s sel)"
  shows "(j_stdout (vw_job v) = [] \<or> output_ref_of cr (j_stdout (vw_job v)) = vw_stdout v) \<and>
    (j_stderr (vw_job v) = [] \<or> output_ref_of cr (j_stderr (vw_job v)) = vw_stderr v)"
  using assms
proof (rule view_row)
  fix p v0 v1
  assume ok: "row_ok cr s sel (group_of cr v) p v0" and w: "warned v0 v1" and v1: "v = order_observations v1"
  have "(j_stdout (vw_job v0) = [] \<or> output_ref_of cr (j_stdout (vw_job v0)) = vw_stdout v0) \<and>
    (j_stderr (vw_job v0) = [] \<or> output_ref_of cr (j_stderr (vw_job v0)) = vw_stderr v0)"
    using ok unfolding row_ok_def
  proof (elim conjE disjE exE)
    fix e assume "entry_source cr s sel v0 e"
    then show ?thesis
      by (cases "selected_output cr s e (map_option snd (local_by_id s sel (i_id (c_invocation (rec_certificate (e_record e))))))")
        (auto simp: entry_source_def entry_view_def Let_def dest: selected_output_ref)
  qed (auto simp: local_source_def local_view_def)
  with w show ?thesis by (auto simp: v1 warned_def)
qed

end
