(* ===== verification/Clix_Sync.thy ===== *)
theory Clix_Sync
  imports Clix_Deliver
begin

text \<open>
  The network side of replication: \<open>history::sync_peer\<close>, which asks a paired machine for the pages
  of its history and commits each, and the dispatcher's mark for a machine that could not be read.
  As in the delivery tasks, calls and what other tasks do meanwhile are parameters.
\<close>

section \<open>One round\<close>

definition progress_of :: "store \<Rightarrow> body_id \<Rightarrow> progress" where
  "progress_of s name = (case hs_peers (st_history s) name of Some g \<Rightarrow> g | None \<Rightarrow> default_progress)"

definition set_progress :: "body_id \<Rightarrow> progress \<Rightarrow> store \<Rightarrow> store" where
  "set_progress name g s = s\<lparr>st_history := (st_history s)\<lparr>hs_peers := (hs_peers (st_history s))(name \<mapsto> g)\<rparr>\<rparr>"

definition page_query :: "progress \<Rightarrow> json" where
  "page_query g = JObj [(''op'', JStr ''history_page''), (''epoch'', JStr (pg_epoch g)),
     (''after'', nat_json (pg_cursor g)),
     (''high'', opt_json nat_json (if \<not> pg_complete g \<and> pg_epoch g \<noteq> [] then Some (pg_high g) else None))]"

text \<open>The answer decoded, and every check made before anything of it is used.\<close>

definition checked_page :: "deliver_env \<Rightarrow> progress \<Rightarrow> json res \<Rightarrow> page res" where
  "checked_page env g response = rbind response (\<lambda>v.
     rbind (ok_or (page_of_json v) (Json (de_decode_error env v))) (\<lambda>pg.
     rbind (ensure (page_boundary_ok g pg) (Protocol ''invalid history page boundary'')) (\<lambda>_.
     rbind (ensure (page_ordered (if page_reset pg then 0 else pg_cursor g) (page_next pg) (page_entries pg))
       (Protocol ''history page is not ordered'')) (\<lambda>_. Inr pg))))"

text \<open>A record whose authors are not paired here is skipped and remembered as unknown.\<close>

definition import_entry :: "crypto \<Rightarrow> published \<Rightarrow> bool \<times> store \<Rightarrow> (bool \<times> store) res" where
  "import_entry cr e us = (case us of (unknown, s) \<Rightarrow>
     if authors_known cr s (rec_certificate (pub_record e))
     then rbind (ingest cr e s) (\<lambda>(_, s'). Inr (unknown, s'))
     else Inr (True, s))"

definition import_page :: "crypto \<Rightarrow> body_id \<Rightarrow> progress \<Rightarrow> page \<Rightarrow> store \<Rightarrow> (unit \<times> store) res" where
  "import_page cr name g pg s =
     rbind (fold_r (import_entry cr) (page_entries pg) (if page_reset pg then False else pg_unknown_authors g, s))
       (\<lambda>(unknown, s').
     Inr ((), set_progress name \<lparr>pg_epoch = page_epoch pg, pg_cursor = page_next pg, pg_high = page_high pg,
       pg_complete = page_complete pg, pg_unknown_authors = unknown, pg_last_contact = None, pg_error = None\<rparr> s'))"

definition page_changed :: "progress \<Rightarrow> page \<Rightarrow> bool" where
  "page_changed g pg \<longleftrightarrow> page_reset pg \<or> page_next pg \<noteq> pg_cursor g \<or> page_entries pg \<noteq> [] \<or>
     page_complete pg \<noteq> pg_complete g \<or> page_high pg \<noteq> pg_high g"

text \<open>Another task moved this scan, or the paired keys changed, while the call was under way.\<close>

definition scan_moved :: "string \<Rightarrow> progress \<Rightarrow> body_id \<Rightarrow> store \<Rightarrow> bool" where
  "scan_moved trust g name s \<longleftrightarrow> (let cur = progress_of s name in hs_trust (st_history s) \<noteq> trust \<or>
     pg_epoch cur \<noteq> pg_epoch g \<or> pg_cursor cur \<noteq> pg_cursor g \<or> pg_high cur \<noteq> pg_high g)"

definition touch :: "body_id \<Rightarrow> nat \<Rightarrow> node \<Rightarrow> node" where
  "touch name now nd = (set_progress name
     ((progress_of (fst nd) name)\<lparr>pg_last_contact := Some now, pg_error := None\<rparr>) (fst nd), snd nd)"

definition commit_page :: "ctx \<Rightarrow> nat \<Rightarrow> body_id \<Rightarrow> progress \<Rightarrow> page \<Rightarrow> node \<Rightarrow> bool res \<times> node" where
  "commit_page cx now name g pg nd =
     (case (if page_changed g pg then update cx (import_page (cx_crypto cx) name g pg) nd else (Inr (), nd)) of
        (Inl e, nd') \<Rightarrow> (Inl e, nd')
      | (Inr _, nd') \<Rightarrow> (Inr (page_complete pg), touch name now nd'))"

definition sync_round :: "ctx \<Rightarrow> deliver_env \<Rightarrow> (nat \<Rightarrow> nat) \<Rightarrow> peer \<Rightarrow> nat \<Rightarrow> node \<Rightarrow> bool res \<times> node" where
  "sync_round cx env now p k nd =
     (case rbind (ensure_writable (fst nd)) (\<lambda>_. ok_or (p_addr p) Unreachable) of
        Inl e \<Rightarrow> (Inl e, nd)
      | Inr addr \<Rightarrow>
          (let g = progress_of (fst nd) (p_name p); trust = hs_trust (st_history (fst nd)); nd1 = de_others env k nd
           in case checked_page env g (de_call env k addr (p_owner_pk p) (page_query g)) of
                Inl e \<Rightarrow> (Inl e, nd1)
              | Inr pg \<Rightarrow>
                  if scan_moved trust g (p_name p) (fst nd1) then (Inr False, nd1)
                  else commit_page cx (now k) (p_name p) g pg nd1))"

section \<open>The loop\<close>

definition SYNC_ROUNDS :: nat where "SYNC_ROUNDS = 16"

fun sync_rounds :: "ctx \<Rightarrow> deliver_env \<Rightarrow> (nat \<Rightarrow> nat) \<Rightarrow> peer \<Rightarrow> nat \<Rightarrow> nat \<Rightarrow> node \<Rightarrow> unit res \<times> node" where
  "sync_rounds cx env now p 0 k nd = (Inr (), nd)"
| "sync_rounds cx env now p (Suc n) k nd = (case sync_round cx env now p k nd of
     (Inl e, nd') \<Rightarrow> (Inl e, nd')
   | (Inr True, nd') \<Rightarrow> (Inr (), nd')
   | (Inr False, nd') \<Rightarrow> sync_rounds cx env now p n (Suc k) nd')"

definition sync_peer :: "ctx \<Rightarrow> deliver_env \<Rightarrow> (nat \<Rightarrow> nat) \<Rightarrow> peer \<Rightarrow> node \<Rightarrow> unit res \<times> node" where
  "sync_peer cx env now p nd = sync_rounds cx env now p SYNC_ROUNDS 0 nd"

text \<open>The dispatcher's task (\<open>src/job.rs\<close>): a failure is shown with the machine, not as data.\<close>

definition sync_failed :: "body_id \<Rightarrow> clix_error \<Rightarrow> node \<Rightarrow> node" where
  "sync_failed name e nd = (set_progress name ((progress_of (fst nd) name)\<lparr>pg_complete := False,
     pg_error := Some (case e of Unreachable \<Rightarrow> ''unreachable; saved history may be stale'' | _ \<Rightarrow> error_text e)\<rparr>)
     (fst nd), snd nd)"

definition sync_task :: "ctx \<Rightarrow> deliver_env \<Rightarrow> (nat \<Rightarrow> nat) \<Rightarrow> peer \<Rightarrow> node \<Rightarrow> node" where
  "sync_task cx env now p nd = (case sync_peer cx env now p nd of
     (Inl e, nd') \<Rightarrow> sync_failed (p_name p) e nd' | (Inr _, nd') \<Rightarrow> nd')"

section \<open>Importing a page\<close>

text \<open>The settings of a history that importing leaves alone.\<close>

definition hist_settings :: "store \<Rightarrow> bool \<times> string \<times> (string \<rightharpoonup> progress)" where
  "hist_settings s = (hs_initialized (st_history s), hs_trust (st_history s), hs_peers (st_history s))"

lemma ingest_settings: "ingest cr p s = Inr (b, s') \<Longrightarrow> hist_settings s' = hist_settings s"
  by (erule ingest_steps) (simp_all add: hist_settings_def file_entry_def)

text \<open>What a machine knows of a record: its certificate, and of each fact the same or a later one.\<close>

definition fact_known :: "signed_fact option \<Rightarrow> signed_fact option \<Rightarrow> bool" where
  "fact_known a b \<longleftrightarrow> (case a of None \<Rightarrow> True
     | Some x \<Rightarrow> \<exists>y. b = Some y \<and> (y = x \<or> f_revision (sf_fact x) < f_revision (sf_fact y)))"

definition knows :: "crypto \<Rightarrow> store \<Rightarrow> hrecord \<Rightarrow> bool" where
  "knows cr s r \<longleftrightarrow> (\<exists>e. bt_get (hs_entries (st_history s)) (invocation_hash cr (rec_certificate r)) = Some e \<and>
     rec_certificate (e_record e) = rec_certificate r \<and> fact_known (rec_origin r) (rec_origin (e_record e)) \<and>
     fact_known (rec_runner r) (rec_runner (e_record e)))"

lemma fact_known_le: "fact_known a b \<Longrightarrow> fact_le b c \<Longrightarrow> fact_known a c"
  by (auto simp: fact_known_def fact_le_def split: option.splits)

lemma knows_le: "knows cr s r \<Longrightarrow> ledger_le s s' \<Longrightarrow> knows cr s' r"
proof -
  assume "knows cr s r" and le: "ledger_le s s'"
  then obtain e where e: "bt_get (hs_entries (st_history s)) (invocation_hash cr (rec_certificate r)) = Some e"
    "rec_certificate (e_record e) = rec_certificate r" "fact_known (rec_origin r) (rec_origin (e_record e))"
    "fact_known (rec_runner r) (rec_runner (e_record e))" by (auto simp: knows_def)
  with le obtain e' where "bt_get (hs_entries (st_history s')) (invocation_hash cr (rec_certificate r)) = Some e'"
    "record_le (e_record e) (e_record e')" unfolding ledger_le_def hist_le_def by blast
  with e show "knows cr s' r" by (auto simp: knows_def record_le_def intro: fact_known_le)
qed

lemma merge_fact_known: "merge_fact a b = Inr (c, r) \<Longrightarrow> fact_known b r"
  by (auto simp: merge_fact_def fact_known_def split: option.splits if_splits)

lemma ingest_unchanged:
  assumes "ingest cr p s = Inr (False, s')"
  obtains e where "bt_get (hs_entries (st_history s)) (invocation_hash cr (rec_certificate (pub_record p))) = Some e"
    "rec_certificate (e_record e) = rec_certificate (pub_record p)"
    "merge_fact (rec_origin (e_record e)) (rec_origin (pub_record p)) = Inr (False, rec_origin (e_record e))"
    "merge_fact (rec_runner (e_record e)) (rec_runner (pub_record p)) = Inr (False, rec_runner (e_record e))"
proof -
  let ?key = "invocation_hash cr (rec_certificate (pub_record p))"
  define old where "old = (case bt_get (hs_entries (st_history s)) ?key of Some e \<Rightarrow> e
    | None \<Rightarrow> \<lparr>e_record = blank_record (rec_certificate (pub_record p)), e_change = 0, e_output = None\<rparr>)"
  from assms have cert: "rec_certificate (e_record old) = rec_certificate (pub_record p)"
    by (auto simp: ingest_def Let_def rbind_Inr_iff old_def split: if_splits)
  with assms obtain c1 og c2 rn where m1: "merge_fact (rec_origin (e_record old)) (rec_origin (pub_record p)) = Inr (c1, og)"
    and m2: "merge_fact (rec_runner (e_record old)) (rec_runner (pub_record p)) = Inr (c2, rn)"
    unfolding ingest_def Let_def old_def [symmetric] by (auto simp: rbind_Inr_iff)
  obtain out c3 where mo: "merge_output cr s ?key ((e_record old)\<lparr>rec_origin := og, rec_runner := rn\<rparr>)
      (e_output old) (pub_output p) = (out, c3)" by fastforce
  from assms cert m1 m2 mo have "\<not> (c1 \<or> c2 \<or> c3 \<or> bt_get (hs_entries (st_history s)) ?key = None)"
    unfolding ingest_def Let_def old_def [symmetric] by (auto simp: result_simps split: if_splits)
  with cert m1 m2 merge_fact_le [OF m1] merge_fact_le [OF m2] show thesis
    by (intro that [of old]) (auto simp: old_def)
qed

lemma ingest_knows:
  assumes "ingest cr p s = Inr (b, s')" and wf: "ledger_wf cr s"
  shows "knows cr s' (pub_record p)"
  using ingest_again [OF assms]
  by (rule ingest_unchanged) (auto simp: knows_def dest: merge_fact_known)

lemma authors_known_cong:
  assumes "st_body_name s' = st_body_name s" "st_peers s' = st_peers s" "st_owner_sk s' = st_owner_sk s"
  shows "authors_known cr s' = authors_known cr s"
  by (simp add: fun_eq_iff authors_known_def Let_def known_key_cong [OF assms])

lemma import_entry_grows:
  assumes "import_entry cr e (u, s) = Inr (u', s')" and wf: "ledger_wf cr s"
  shows "ledger_wf cr s' \<and> ledger_le s s' \<and> (\<exists>h. s' = s\<lparr>st_history := h\<rparr>) \<and> hist_settings s' = hist_settings s \<and>
    (authors_known cr s (rec_certificate (pub_record e)) \<longrightarrow> knows cr s' (pub_record e))"
proof (cases "authors_known cr s (rec_certificate (pub_record e))")
  case True
  with assms(1) obtain b where i: "ingest cr e s = Inr (b, s')" by (auto simp: import_entry_def result_simps)
  show ?thesis using ingest_grows [OF i wf] ingest_only_history [OF i] ingest_settings [OF i] ingest_knows [OF i wf] by auto
next
  case False
  with assms have "s' = s" by (simp add: import_entry_def)
  with wf False show ?thesis by (auto simp: ledger.le_refl intro: exI [of _ "st_history s"])
qed

lemma import_entries_grows:
  assumes "fold_r (import_entry cr) es (u, s) = Inr (u', s')" and "ledger_wf cr s"
  shows "ledger_wf cr s' \<and> ledger_le s s' \<and> (\<exists>h. s' = s\<lparr>st_history := h\<rparr>) \<and> hist_settings s' = hist_settings s \<and>
    (\<forall>e \<in> set es. authors_known cr s (rec_certificate (pub_record e)) \<longrightarrow> knows cr s' (pub_record e))"
  using assms
proof (induction es arbitrary: u s)
  case Nil
  then show ?case by (auto simp: ledger.le_refl intro: exI [of _ "st_history s"])
next
  case (Cons e es)
  from Cons.prems(1) obtain v t where 1: "import_entry cr e (u, s) = Inr (v, t)"
    and 2: "fold_r (import_entry cr) es (v, t) = Inr (u', s')" by (auto simp: result_simps)
  note e = import_entry_grows [OF 1 Cons.prems(2)]
  then have rest: "ledger_wf cr s' \<and> ledger_le t s' \<and> (\<exists>h. s' = t\<lparr>st_history := h\<rparr>) \<and> hist_settings s' = hist_settings t \<and>
    (\<forall>e \<in> set es. authors_known cr t (rec_certificate (pub_record e)) \<longrightarrow> knows cr s' (pub_record e))"
    using Cons.IH [OF 2] by blast
  from e obtain h where t: "t = s\<lparr>st_history := h\<rparr>" by blast
  then have "authors_known cr t = authors_known cr s" by (intro authors_known_cong) simp_all
  with e rest have "\<forall>x \<in> set (e # es). authors_known cr s (rec_certificate (pub_record x)) \<longrightarrow> knows cr s' (pub_record x)"
    by (metis knows_le set_ConsD)
  moreover have "ledger_le s s'" using e rest ledger.le_trans by blast
  moreover have "\<exists>h. s' = s\<lparr>st_history := h\<rparr>" using t rest by auto
  ultimately show ?case using e rest by simp
qed

section \<open>Committing a page\<close>

text \<open>A machine between owner operations: its jobs are published and its keys are the ones the scans
  were started under.\<close>

definition sync_ready :: "crypto \<Rightarrow> store \<Rightarrow> bool" where
  "sync_ready cr s \<longleftrightarrow> ledger_wf cr s \<and> hs_initialized (st_history s) \<and> distinct (map j_id (st_jobs s)) \<and>
     hs_trust (st_history s) = trust_hash cr s"

lemma hist_settings_retained: "retained s' = retained s \<Longrightarrow> hist_settings s' = hist_settings s"
proof -
  have "hist_settings (retained s) = hist_settings s" for s by (simp add: hist_settings_def retained_def)
  then show "retained s' = retained s \<Longrightarrow> ?thesis" by metis
qed

lemma hist_settings_payload: "payload_frame s' = payload_frame s \<Longrightarrow> hist_settings s' = hist_settings s"
proof -
  have "hist_settings (payload_frame s) = hist_settings s" for s by (simp add: hist_settings_def payload_frame_def)
  then show "payload_frame s' = payload_frame s \<Longrightarrow> ?thesis" by metis
qed

lemma trust_hash_peers: "st_peers s' = st_peers s \<Longrightarrow> trust_hash cr s' = trust_hash cr s"
  by (simp add: trust_hash_def)

lemma trust_hash_history [simp]: "trust_hash cr (s\<lparr>st_history := h\<rparr>) = trust_hash cr s"
  by (rule trust_hash_peers) simp

lemma refresh_quiet:
  assumes r: "refresh_owned cr nid (st_jobs s) s = Inr s'" and ready: "sync_ready cr s"
  shows "ledger_wf cr s' \<and> ledger_le s s' \<and> hist_settings s' = hist_settings s"
  using r
proof (rule refresh_steps)
  fix s1 s2
  assume 1: "refresh_start cr nid s = Inr s1"
    and 2: "fold_r (publish_job cr (st_jobs s)) (changed_jobs (\<not> hs_initialized (st_history s)) (st_jobs s) s1) s1 = Inr s2"
    and 3: "s' = s2\<lparr>st_history := (st_history s2)\<lparr>hs_initialized := True\<rparr>\<rparr>"
  note f = refresh_start_frame [OF 1]
  have "old_job (st_jobs s) (j_id j) = Some j" if "j \<in> set (st_jobs s)" for j
    using ready that find_unique_key [of j_id "rev (st_jobs s)" j]
    by (simp add: old_job_def sync_ready_def flip: rev_map)
  moreover have "st_jobs s1 = st_jobs s" using publish_frameD [OF f(1)] by simp
  ultimately have "changed_jobs (\<not> hs_initialized (st_history s)) (st_jobs s) s1 = []"
    using ready by (auto simp: changed_jobs_def sync_ready_def filter_empty_conv)
  with 2 have s2: "s2 = s1" by simp
  have "hist_settings s1 = hist_settings s"
    using 1 ready by (cases "hs_epoch (st_history s) = []")
      (auto simp: refresh_start_def Let_def result_simps sync_ready_def hist_settings_def)
  with f ready show ?thesis
    by (auto simp: 3 s2 sync_ready_def hist_settings_def ledger_wf_def ledger_le_def hist_wf_def hist_le_def)
qed

lemma quiet_update:
  assumes "update cx edit (s, disk) = (Inr v, s', disk')" and e: "edit s = Inr (v0, n1)"
    and jobs: "st_jobs n1 = st_jobs s" and ready: "sync_ready (cx_crypto cx) n1"
  shows "sync_ready (cx_crypto cx) s' \<and> ledger_le n1 s' \<and> hist_settings s' = hist_settings n1 \<and> outcome s' = outcome n1"
  using assms(1)
proof (cases rule: update_steps)
  case (saved v')
  then show ?thesis
  proof (elim update_next_steps)
    fix m n2
    assume m: "edit s = Inr (v', m)"
      and r: "refresh_owned (cx_crypto cx) (cx_new_id cx) (st_jobs s) m = Inr n2"
      and p: "prepare (normalize_output (n2\<lparr>st_format_version := FORMAT_VERSION\<rparr>)) s = Inr s'"
    let ?f = "n2\<lparr>st_format_version := FORMAT_VERSION\<rparr>"
    have "m = n1" using m e by simp
    with r jobs have r': "refresh_owned (cx_crypto cx) (cx_new_id cx) (st_jobs n1) n1 = Inr n2" by simp
    have n2: "ledger_wf (cx_crypto cx) ?f \<and> ledger_le n1 ?f \<and> hist_settings ?f = hist_settings n1"
      using refresh_quiet [OF r' ready] by (simp add: ledger_wf_def ledger_le_def hist_settings_def)
    have out: "outcome s' = outcome n1"
      using update_next_outcome [OF saved(2)] m \<open>m = n1\<close> by (metis prod.inject sum.inject(2))
    have settings: "hist_settings s' = hist_settings n1"
      using n2 hist_settings_retained [OF prepare_retained [OF p]] hist_settings_payload [OF normalize_frame]
      by simp
    have led: "ledger_wf (cx_crypto cx) s' \<and> ledger_le n1 s'"
      using n2 normalize_grows [of "cx_crypto cx" ?f] prepare_grows [OF p] ledger.le_trans by blast
    have "map j_id (st_jobs s') = map j_id (st_jobs n1)"
      using outcomeD(10) [OF out] core_keys by metis
    moreover have "trust_hash (cx_crypto cx) s' = trust_hash (cx_crypto cx) n1"
      by (rule trust_hash_peers) (rule outcomeD(2) [OF out])
    ultimately show ?thesis using ready settings led out by (simp add: sync_ready_def hist_settings_def)
  qed
qed simp_all

section \<open>What a peer can do to this machine by answering\<close>

text \<open>This machine's own decisions and jobs: everything an update settles except the history.\<close>

definition own_state :: "store \<Rightarrow> store" where
  "own_state s = outcome (s\<lparr>st_write_error := None\<rparr>)"

lemma own_state_outcome: "outcome s' = outcome s \<Longrightarrow> own_state s' = own_state s"
proof -
  have "own_state s = (outcome s)\<lparr>st_write_error := None\<rparr>" for s by (simp add: own_state_def outcome_def)
  then show "outcome s' = outcome s \<Longrightarrow> ?thesis" by metis
qed

lemma own_state_simps [simp]:
  "own_state (s\<lparr>st_write_error := w\<rparr>) = own_state s" "own_state (s\<lparr>st_history := h\<rparr>) = own_state s"
  "own_state (set_progress name g s) = own_state s"
  by (simp_all add: own_state_def outcome_def set_progress_def)

lemma set_progress_ledger [simp]:
  "ledger_le s (set_progress name g s') = ledger_le s s'" "sync_ready cr (set_progress name g s) = sync_ready cr s"
  "knows cr (set_progress name g s) r = knows cr s r"
  by (auto simp: set_progress_def ledger_le_def hist_le_def sync_ready_def ledger_wf_def hist_wf_def knows_def)

lemma write_error_ready [simp]:
  "sync_ready cr (s\<lparr>st_write_error := w\<rparr>) = sync_ready cr s" "ledger_le s (s\<lparr>st_write_error := w\<rparr>)"
  by (auto simp: sync_ready_def ledger_wf_def trust_hash_def ledger_le_def)

lemma progress_set [simp]: "progress_of (set_progress name g s) name = g"
  by (simp add: progress_of_def set_progress_def)

text \<open>A page that was imported: the ledger it was written to and the scan position it leaves.\<close>

lemma import_page_steps:
  assumes "import_page cr name g pg s = Inr (u, n1)" and ready: "sync_ready cr s"
  obtains g' where "sync_ready cr n1" "ledger_le s n1" "st_jobs n1 = st_jobs s" "outcome n1 = outcome s"
    "progress_of n1 name = g'" "pg_epoch g' = page_epoch pg" "pg_cursor g' = page_next pg" "pg_high g' = page_high pg"
    "pg_complete g' = page_complete pg"
    "\<And>e. e \<in> set (page_entries pg) \<Longrightarrow> authors_known cr s (rec_certificate (pub_record e)) \<Longrightarrow> knows cr n1 (pub_record e)"
proof -
  obtain unknown s' where f: "fold_r (import_entry cr) (page_entries pg)
      (if page_reset pg then False else pg_unknown_authors g, s) = Inr (unknown, s')"
    and n1: "n1 = set_progress name \<lparr>pg_epoch = page_epoch pg, pg_cursor = page_next pg, pg_high = page_high pg,
       pg_complete = page_complete pg, pg_unknown_authors = unknown, pg_last_contact = None, pg_error = None\<rparr> s'"
    using assms(1) by (auto simp: import_page_def result_simps)
  have grow: "ledger_wf cr s' \<and> ledger_le s s' \<and> (\<exists>h. s' = s\<lparr>st_history := h\<rparr>) \<and> hist_settings s' = hist_settings s \<and>
    (\<forall>e \<in> set (page_entries pg). authors_known cr s (rec_certificate (pub_record e)) \<longrightarrow> knows cr s' (pub_record e))"
    using import_entries_grows [OF f] ready by (simp add: sync_ready_def)
  then obtain h where s': "s' = s\<lparr>st_history := h\<rparr>" by blast
  have "sync_ready cr s'" using grow ready by (auto simp: s' sync_ready_def hist_settings_def)
  moreover have "outcome n1 = outcome s" by (simp add: n1 s' outcome_def set_progress_def)
  moreover have "st_jobs n1 = st_jobs s" by (simp add: n1 s' set_progress_def)
  ultimately show thesis using grow n1 by (intro that) auto
qed

lemma commit_page_safe:
  assumes "commit_page cx now name g pg (s, disk) = (r, s', disk')" and ready: "sync_ready (cx_crypto cx) s"
  shows "sync_ready (cx_crypto cx) s' \<and> ledger_le s s' \<and> own_state s' = own_state s"
proof (cases "page_changed g pg")
  case False
  with assms show ?thesis by (auto simp: commit_page_def touch_def ledger.le_refl)
next
  case True
  obtain u t disk1 where up: "update cx (import_page (cx_crypto cx) name g pg) (s, disk) = (u, t, disk1)"
    by (metis prod_cases3)
  have "sync_ready (cx_crypto cx) t \<and> ledger_le s t \<and> own_state t = own_state s"
  proof (cases u)
    case (Inl e)
    have "t = s \<or> t = s\<lparr>st_write_error := Some (error_text e)\<rparr>"
      using up [unfolded Inl] by (cases rule: update_steps) auto
    with ready show ?thesis by (auto simp: ledger.le_refl)
  next
    case (Inr v)
    with up obtain n1 where n1: "import_page (cx_crypto cx) name g pg s = Inr (v, n1)"
      by (metis update_ok)
    from n1 ready show ?thesis
    proof (rule import_page_steps)
      assume n: "sync_ready (cx_crypto cx) n1" "ledger_le s n1" "st_jobs n1 = st_jobs s" "outcome n1 = outcome s"
      have "sync_ready (cx_crypto cx) t \<and> ledger_le n1 t \<and> outcome t = outcome n1"
        using quiet_update [OF up [unfolded Inr] n1 n(3,1)] by simp
      with n own_state_outcome show ?thesis using ledger.le_trans by metis
    qed
  qed
  with assms(1) up True show ?thesis by (cases u) (auto simp: commit_page_def touch_def)
qed

text \<open>What other tasks may do to a machine while a call is under way: add to its history.\<close>

definition history_only :: "crypto \<Rightarrow> store \<Rightarrow> store \<Rightarrow> bool" where
  "history_only cr s s' \<longleftrightarrow> sync_ready cr s' \<and> ledger_le s s' \<and> own_state s' = own_state s"

lemma history_only_refl: "sync_ready cr s \<Longrightarrow> history_only cr s s"
  by (simp add: history_only_def ledger.le_refl)

lemma history_only_trans: "history_only cr a b \<Longrightarrow> history_only cr b c \<Longrightarrow> history_only cr a c"
  using ledger.le_trans by (auto simp: history_only_def)

lemma sync_round_safe:
  assumes r: "sync_round cx env now p k (s, disk) = (r, s', disk')" and ready: "sync_ready (cx_crypto cx) s"
    and others: "\<And>k nd. sync_ready (cx_crypto cx) (fst nd) \<Longrightarrow> history_only (cx_crypto cx) (fst nd) (fst (de_others env k nd))"
  shows "history_only (cx_crypto cx) s s'"
proof -
  obtain t disk1 where t: "de_others env k (s, disk) = (t, disk1)" by fastforce
  with others [of "(s, disk)" k] ready have o1: "history_only (cx_crypto cx) s t" by simp
  have "history_only (cx_crypto cx) t u" if "commit_page cx (now k) (p_name p) g pg (t, disk1) = (q, u, d)" for g pg q u d
    using commit_page_safe [OF that] o1 by (simp add: history_only_def)
  with r t o1 history_only_refl [OF ready] show ?thesis
    by (auto simp: sync_round_def Let_def split: sum.splits if_splits intro: history_only_trans)
qed

lemma sync_rounds_safe:
  assumes "sync_rounds cx env now p n k (s, disk) = (r, s', disk')" and "sync_ready (cx_crypto cx) s"
    and "\<And>k nd. sync_ready (cx_crypto cx) (fst nd) \<Longrightarrow> history_only (cx_crypto cx) (fst nd) (fst (de_others env k nd))"
  shows "history_only (cx_crypto cx) s s'"
  using assms(1,2)
proof (induction n arbitrary: k s disk)
  case 0
  then show ?case by (simp add: history_only_refl)
next
  case (Suc n)
  obtain u t disk1 where round: "sync_round cx env now p k (s, disk) = (u, t, disk1)" by (metis prod_cases3)
  have t: "history_only (cx_crypto cx) s t" by (rule sync_round_safe [OF round Suc.prems(2) assms(3)])
  show ?case
  proof (cases "u = Inr False")
    case True
    with Suc.prems(1) round have "sync_rounds cx env now p n (Suc k) (t, disk1) = (r, s', disk')" by simp
    then have "history_only (cx_crypto cx) t s'" using Suc.IH t by (simp add: history_only_def)
    with t show ?thesis by (rule history_only_trans)
  next
    case False
    with Suc.prems(1) round t show ?thesis by (auto split: sum.splits bool.splits)
  qed
qed


section \<open>An honest peer is copied completely\<close>

text \<open>The scan position of a peer with store \<open>S\<close> is earned: every record of the peer up to the cursor
  whose authors are paired here is known here.\<close>

definition covers :: "crypto \<Rightarrow> store \<Rightarrow> store \<Rightarrow> progress \<Rightarrow> bool" where
  "covers cr S s g \<longleftrightarrow> (pg_epoch g = hs_epoch (st_history S) \<longrightarrow>
     (\<forall>e \<in> set (bt_values (hs_entries (st_history S))). e_change e \<le> pg_cursor g \<longrightarrow>
        authors_known cr s (rec_certificate (e_record e)) \<longrightarrow> knows cr s (e_record e)))"

definition served_fits :: "store \<Rightarrow> bool" where
  "served_fits S \<longleftrightarrow> hs_clock (st_history S) \<le> u64_max \<and>
     (\<forall>e \<in> set (bt_values (hs_entries (st_history S))). record_fits (e_record e) \<and> e_change e \<le> u64_max)"

lemma page_fits_served:
  assumes "page cr S epoch after0 high0 = Inr p" and "ledger_wf cr S" and "served_fits S"
  shows "page_fits p"
  using assms(1)
proof (rule page_steps)
  fix after rows n
  assume high: "page_high p \<le> hs_clock (st_history S)" "after \<le> page_high p"
    and rows: "page_rows cr S (page_window S after (page_high p)) [] 0 after = Inr (rows, n)"
    and es: "page_entries p = rows" and nxt: "page_next p = (if page_complete p then page_high p else n)"
  let ?w = "page_window S after (page_high p)"
  from page_rows_window [OF rows assms(2)]
  obtain k where k: "rows = map (export_entry cr S) (take k ?w)"
    and last: "n = (if rows = [] then after else pub_change (last rows))" by (metis (no_types))
  have sub: "set ?w \<subseteq> set (bt_values (hs_entries (st_history S)))" by (auto simp: page_window_def)
  then have fits: "published_fits x" if "x \<in> set rows" for x
    using that assms(3) by (auto simp: k published_fits_def served_fits_def dest!: in_set_takeD)
  have "n \<le> u64_max"
  proof (cases "rows = []")
    case True
    with last high assms(3) show ?thesis by (simp add: served_fits_def)
  next
    case False
    then have "published_fits (last rows)" by (intro fits) simp
    with False last show ?thesis by (simp add: published_fits_def)
  qed
  with high assms(3) fits show ?thesis by (auto simp: page_fits_def es nxt served_fits_def list_all_iff)
qed

text \<open>The answer of the peer's mesh handler to the query of the loop.\<close>

lemma served_page:
  assumes "checked_page env g (dispatch_page cxS (page_query g) S) = Inr pg"
    and "ledger_wf (cx_crypto cxS) S" and "served_fits S"
  obtains high0 where "page (cx_crypto cxS) S (pg_epoch g) (pg_cursor g) high0 = Inr pg"
    "page_boundary_ok g pg" "page_ordered (if page_reset pg then 0 else pg_cursor g) (page_next pg) (page_entries pg)"
proof -
  from assms(1) obtain v where v: "dispatch_page cxS (page_query g) S = Inr v" and dec: "page_of_json v = Some pg"
    and ok: "page_boundary_ok g pg" "page_ordered (if page_reset pg then 0 else pg_cursor g) (page_next pg) (page_entries pg)"
    by (auto simp: checked_page_def result_simps)
  have q: "jstr (page_query g) ''epoch'' = Some (pg_epoch g)"
    "ju64 (page_query g) ''after'' = (if pg_cursor g \<le> u64_max then Some (pg_cursor g) else None)"
    by (simp_all add: page_query_def jstr_def ju64_def nat_json_def)
  from v obtain p where p: "page (cx_crypto cxS) S (pg_epoch g) (pg_cursor g) (ju64 (page_query g) ''high'') = Inr p"
    and "v = page_json p"
    by (auto simp: dispatch_page_def q Let_def result_simps split: if_splits)
  moreover have "page_of_json (page_json p) = Some p"
    using page_roundtrip_fits page_fits_served [OF p assms(2,3)] by blast
  ultimately show thesis using dec ok that by auto
qed

lemma covers_page:
  assumes pg: "page cr S (pg_epoch g) (pg_cursor g) high0 = Inr pg" and wf: "ledger_wf cr S" and cov: "covers cr S s g"
    and le: "ledger_le s s'" and auth: "authors_known cr s' = authors_known cr s"
    and imp: "\<And>e. e \<in> set (page_entries pg) \<Longrightarrow> authors_known cr s (rec_certificate (pub_record e)) \<Longrightarrow> knows cr s' (pub_record e)"
    and g': "pg_epoch g' = page_epoch pg" "pg_cursor g' = page_next pg"
  shows "covers cr S s' g'"
  unfolding covers_def g'
proof (intro impI ballI)
  fix e
  assume e: "e \<in> set (bt_values (hs_entries (st_history S)))" "e_change e \<le> page_next pg"
    and known: "authors_known cr s' (rec_certificate (e_record e))"
  have pos: "0 < e_change e"
    using e(1) wf bt.values_get [of "hs_entries (st_history S)" e] unfolding ledger_wf_def hist_wf_def bt_values_def by blast
  show "knows cr s' (e_record e)"
  proof (cases "(if page_reset pg then 0 else pg_cursor g) < e_change e")
    case True
    then have "export_entry cr S e \<in> set (page_entries pg)" by (rule page_covers [OF wf pg e(1) _ e(2)])
    with imp [of "export_entry cr S e"] known auth show ?thesis by simp
  next
    case False
    with pos have "\<not> page_reset pg" "e_change e \<le> pg_cursor g" by (auto split: if_splits)
    moreover from this(1) have "pg_epoch g = hs_epoch (st_history S)"
      by (auto intro: page_steps [OF pg])
    ultimately have "knows cr s (e_record e)" using cov e known by (auto simp: covers_def auth)
    then show ?thesis using le by (rule knows_le)
  qed
qed

lemma covers_touch:
  "covers cr S (set_progress name g0 s) (g\<lparr>pg_last_contact := c, pg_error := e\<rparr>) = covers cr S s g"
proof -
  have "authors_known cr (set_progress name g0 s) = authors_known cr s"
    by (rule authors_known_cong) (simp_all add: set_progress_def)
  then show ?thesis by (simp add: covers_def)
qed

text \<open>The scan as far as it got: earned, and at the peer's scan boundary when it is complete.\<close>

definition scan_ok :: "crypto \<Rightarrow> store \<Rightarrow> store \<Rightarrow> body_id \<Rightarrow> bool" where
  "scan_ok cr S s name \<longleftrightarrow> covers cr S s (progress_of s name) \<and>
     (pg_complete (progress_of s name) \<longrightarrow> pg_cursor (progress_of s name) = pg_high (progress_of s name))"

lemma authors_known_outcome: "outcome s' = outcome s \<Longrightarrow> authors_known cr s' = authors_known cr s"
  by (rule authors_known_cong) (rule outcomeD; assumption)+

lemma commit_page_scan:
  assumes c: "commit_page cx now name g pg (s, disk) = (Inr b, s', disk')" and ready: "sync_ready (cx_crypto cx) s"
    and g: "pg_epoch (progress_of s name) = pg_epoch g" "pg_cursor (progress_of s name) = pg_cursor g"
    and scan: "scan_ok (cx_crypto cx) S s name"
    and pg: "page (cx_crypto cx) S (pg_epoch g) (pg_cursor g) high0 = Inr pg" and wf: "ledger_wf (cx_crypto cx) S"
    and ok: "page_boundary_ok g pg"
  shows "sync_ready (cx_crypto cx) s' \<and> scan_ok (cx_crypto cx) S s' name"
proof (cases "page_changed g pg")
  case False
  with c have "s' = set_progress name ((progress_of s name)\<lparr>pg_last_contact := Some now, pg_error := None\<rparr>) s"
    by (auto simp: commit_page_def touch_def)
  then show ?thesis using scan ready by (simp add: scan_ok_def covers_touch)
next
  case True
  then obtain u t disk1 where up: "update cx (import_page (cx_crypto cx) name g pg) (s, disk) = (Inr u, t, disk1)"
    and s': "s' = set_progress name ((progress_of t name)\<lparr>pg_last_contact := Some now, pg_error := None\<rparr>) t"
    using c by (auto simp: commit_page_def touch_def split: sum.splits prod.splits)
  from up obtain n1 where n1: "import_page (cx_crypto cx) name g pg s = Inr (u, n1)" by (metis update_ok)
  from n1 ready show ?thesis
  proof (rule import_page_steps)
    fix g'
    assume n: "sync_ready (cx_crypto cx) n1" "ledger_le s n1" "st_jobs n1 = st_jobs s" "outcome n1 = outcome s"
      "progress_of n1 name = g'" and g': "pg_epoch g' = page_epoch pg" "pg_cursor g' = page_next pg"
      "pg_high g' = page_high pg" "pg_complete g' = page_complete pg"
      and imp: "\<And>e. e \<in> set (page_entries pg) \<Longrightarrow>
        authors_known (cx_crypto cx) s (rec_certificate (pub_record e)) \<Longrightarrow> knows (cx_crypto cx) n1 (pub_record e)"
    have up': "ledger_le n1 t \<and> hist_settings t = hist_settings n1 \<and> outcome t = outcome n1"
      using quiet_update [OF up n1 n(3,1)] by simp
    have "progress_of t name = g'" using up' n(5) by (simp add: progress_of_def hist_settings_def)
    moreover have "covers (cx_crypto cx) S t g'"
    proof (rule covers_page [OF pg wf])
      show "covers (cx_crypto cx) S s g" using scan g by (simp add: scan_ok_def covers_def)
      show "ledger_le s t" using up' n(2) ledger.le_trans by blast
      show "authors_known (cx_crypto cx) t = authors_known (cx_crypto cx) s"
        by (rule authors_known_outcome) (simp add: up' n(4))
      show "\<And>e. e \<in> set (page_entries pg) \<Longrightarrow> authors_known (cx_crypto cx) s (rec_certificate (pub_record e)) \<Longrightarrow>
          knows (cx_crypto cx) t (pub_record e)" using imp up' knows_le by blast
    qed (rule g')+
    moreover have "pg_complete g' \<longrightarrow> pg_cursor g' = pg_high g'"
      using ok by (simp add: g' page_boundary_ok_def)
    moreover have "sync_ready (cx_crypto cx) t" using quiet_update [OF up n1 n(3,1)] by simp
    ultimately show ?thesis by (simp add: s' scan_ok_def covers_touch)
  qed
qed

text \<open>What the loop keeps of this machine at every point, its await points included.\<close>

definition scanning :: "crypto \<Rightarrow> store \<Rightarrow> body_id \<Rightarrow> store \<Rightarrow> bool" where
  "scanning cr S name s \<longleftrightarrow> sync_ready cr s \<and> scan_ok cr S s name"

lemma sync_round_scan:
  assumes r: "sync_round cx env now p k nd = (Inr b, s', disk')" and inv: "scanning (cx_crypto cx) S (p_name p) (fst nd)"
    and others: "\<And>k nd. scanning (cx_crypto cx) S (p_name p) (fst nd) \<Longrightarrow> scanning (cx_crypto cx) S (p_name p) (fst (de_others env k nd))"
    and honest: "\<And>k addr q. de_call env k addr (p_owner_pk p) q = dispatch_page cxS q S"
    and S: "cx_crypto cxS = cx_crypto cx" "ledger_wf (cx_crypto cx) S" "served_fits S"
  shows "scanning (cx_crypto cx) S (p_name p) s'"
proof -
  let ?g = "progress_of (fst nd) (p_name p)"
  obtain t disk1 where t: "de_others env k nd = (t, disk1)" by fastforce
  with others [OF inv, of k] have inv': "scanning (cx_crypto cx) S (p_name p) t" by simp
  from r t honest obtain pg where pg: "checked_page env ?g (dispatch_page cxS (page_query ?g) S) = Inr pg"
    and c: "\<not> scan_moved (hs_trust (st_history (fst nd))) ?g (p_name p) t \<Longrightarrow>
      commit_page cx (now k) (p_name p) ?g pg (t, disk1) = (Inr b, s', disk')"
    and moved: "scan_moved (hs_trust (st_history (fst nd))) ?g (p_name p) t \<Longrightarrow> s' = t"
    by (auto simp: sync_round_def Let_def split: sum.splits if_splits)
  show ?thesis
  proof (cases "scan_moved (hs_trust (st_history (fst nd))) ?g (p_name p) t")
    case True
    with moved inv' show ?thesis by simp
  next
    case False
    have "ledger_wf (cx_crypto cxS) S" using S by simp
    from served_page [OF pg this S(3)] obtain high0 where
      "page (cx_crypto cx) S (pg_epoch ?g) (pg_cursor ?g) high0 = Inr pg" "page_boundary_ok ?g pg"
      by (metis S(1))
    then show ?thesis
      using commit_page_scan [OF c [OF False], of S high0] False inv' S(2) by (simp add: scanning_def scan_moved_def Let_def)
  qed
qed

lemma sync_rounds_scan:
  assumes "sync_rounds cx env now p n k nd = (Inr (), nd')" and "scanning (cx_crypto cx) S (p_name p) (fst nd)"
    and others: "\<And>k nd. scanning (cx_crypto cx) S (p_name p) (fst nd) \<Longrightarrow> scanning (cx_crypto cx) S (p_name p) (fst (de_others env k nd))"
    and honest: "\<And>k addr q. de_call env k addr (p_owner_pk p) q = dispatch_page cxS q S"
    and S: "cx_crypto cxS = cx_crypto cx" "ledger_wf (cx_crypto cx) S" "served_fits S"
  shows "scanning (cx_crypto cx) S (p_name p) (fst nd')"
  using assms(1,2)
proof (induction n arbitrary: k nd)
  case 0
  then show ?case by simp
next
  case (Suc n)
  obtain u t disk1 where round: "sync_round cx env now p k nd = (u, t, disk1)" by (metis prod_cases3)
  with Suc.prems(1) obtain b where u: "u = Inr b" by (cases u) auto
  have scan: "scanning (cx_crypto cx) S (p_name p) t"
    by (rule sync_round_scan [OF round [unfolded u] Suc.prems(2) others honest S])
  with Suc.prems(1) round u show ?case by (cases b) (auto intro: Suc.IH)
qed

text \<open>C17: An honest peer's history is copied completely: when a sync with it succeeds, every record
  the peer has up to the reported cursor is known here if its authors are paired here, and so are all
  of its records when the scan is complete up to the peer's clock.  The position the sync resumes from
  need only be one that earlier syncs earned; a first contact has earned nothing and needs nothing.\<close>

theorem sync_copies_honest_history:
  assumes "sync_peer cx env now p nd = (Inr (), s', disk')" and "sync_ready (cx_crypto cx) (fst nd)"
    and "\<And>k nd. scanning (cx_crypto cx) S (p_name p) (fst nd) \<Longrightarrow> scanning (cx_crypto cx) S (p_name p) (fst (de_others env k nd))"
    and "\<And>k addr q. de_call env k addr (p_owner_pk p) q = dispatch_page cxS q S"
    and "cx_crypto cxS = cx_crypto cx" "ledger_wf (cx_crypto cx) S" "served_fits S"
    and "scan_ok (cx_crypto cx) S (fst nd) (p_name p) \<or>
      hs_peers (st_history (fst nd)) (p_name p) = None \<and> hs_epoch (st_history S) \<noteq> []"
  shows "scanning (cx_crypto cx) S (p_name p) s' \<and>
    (let g = progress_of s' (p_name p) in
     pg_complete g \<and> pg_epoch g = hs_epoch (st_history S) \<and> pg_high g = hs_clock (st_history S) \<longrightarrow>
     (\<forall>e \<in> set (bt_values (hs_entries (st_history S))).
        authors_known (cx_crypto cx) s' (rec_certificate (e_record e)) \<longrightarrow> knows (cx_crypto cx) s' (e_record e)))"
proof -
  have "scanning (cx_crypto cx) S (p_name p) (fst nd)"
    using assms(2,8) by (auto simp: scanning_def scan_ok_def covers_def progress_of_def default_progress_def)
  from sync_rounds_scan [OF assms(1) [unfolded sync_peer_def] this assms(3-7)]
  have scan: "scanning (cx_crypto cx) S (p_name p) s'" by simp
  moreover have "e_change e \<le> hs_clock (st_history S)" if "e \<in> set (bt_values (hs_entries (st_history S)))" for e
    using that assms(6) bt.values_get [of "hs_entries (st_history S)" e]
    unfolding ledger_wf_def hist_wf_def bt_values_def by blast
  ultimately show ?thesis by (auto simp: scanning_def scan_ok_def covers_def Let_def)
qed

end
