(* ===== verification/Clix_Pair.thy ===== *)
theory Clix_Pair
  imports Clix_Mesh
begin

text \<open>
  \<open>src/pair.rs\<close>: machine names, the checks on the pairing state, and the two handshakes that make
  machines trust each other.  SPAKE2, HMAC-SHA256, key checks, the JSON text encoding and the command
  names of the CLI (built by clap) are the fields of a \<open>pair_env\<close>; what arrives from the other machine,
  the failures of writing to it (the 30 second limit included) and what other tasks do at an await point
  are the fields of a \<open>wire\<close>.
\<close>

record pair_env =
  pe_start_a :: "bytes \<Rightarrow> bytes"
  pe_start_b :: "bytes \<Rightarrow> bytes"
  pe_finish :: "bytes \<Rightarrow> bytes option"
  pe_mac :: "bytes \<Rightarrow> bytes \<Rightarrow> bytes"
  pe_weak :: "bytes \<Rightarrow> bool"
  pe_parse :: "bytes \<Rightarrow> json option"
  pe_commands :: "string list"

section \<open>Phrases and names\<close>

text \<open>Three words chosen by three random bytes; an index past the list panics.\<close>

definition phrase :: "string list \<Rightarrow> byte \<Rightarrow> byte \<Rightarrow> byte \<Rightarrow> string option" where
  "phrase words a b c = (if max (unat a) (max (unat b) (unat c)) < length words
     then Some (join_with ''-'' [words ! unat a, words ! unat b, words ! unat c]) else None)"

definition is_alnum :: "char \<Rightarrow> bool" where
  "is_alnum c = (let n = (of_char c :: nat) in 48 \<le> n \<and> n \<le> 57 \<or> 65 \<le> n \<and> n \<le> 90 \<or> 97 \<le> n \<and> n \<le> 122)"

definition name_char :: "char \<Rightarrow> bool" where
  "name_char c \<longleftrightarrow> is_alnum c \<or> c = CHR ''-'' \<or> c = CHR ''_''"

definition sanitize_name :: "string \<Rightarrow> string" where
  "sanitize_name raw =
     (let label = takeWhile (\<lambda>c. c \<noteq> CHR ''.'') raw;
          cleaned = filter name_char label;
          trimmed = dropWhile (\<lambda>c. \<not> is_alnum c) cleaned;
          capped = take 63 trimmed
      in if capped = [] then ''clix'' else capped)"

text \<open>The trimmed content of \<open>/etc/hostname\<close>, if it could be read.\<close>

definition hostname :: "string option \<Rightarrow> string" where
  "hostname content = sanitize_name (case content of
       Some s \<Rightarrow> if s \<noteq> [] then s else ''clix'' | None \<Rightarrow> ''clix'')"

definition en_dash :: string where
  "en_dash = [CHR 0xE2, CHR 0x80, CHR 0x93]"

definition validate_name :: "string \<Rightarrow> unit res" where
  "validate_name name =
     (if \<not> (name \<noteq> [] \<and> is_alnum (hd name)) \<or> 63 < length name \<or> \<not> list_all name_char name
      then Inl (Usage (''machine name must start with a letter or digit and contain 1'' @ en_dash @
        ''63 letters, digits, hyphens or underscores''))
      else Inr ())"

definition refuse_command_name :: "pair_env \<Rightarrow> string \<Rightarrow> string \<Rightarrow> unit res" where
  "refuse_command_name pe name whose =
     (if list_ex (\<lambda>c. c = name) (pe_commands pe)
      then Inl (Usage (whose @ '' is named '' @ [CHR 0x27] @ name @ [CHR 0x27] @
        '', which matches a Clix command; choose another name with clix pair --name''))
      else Inr ())"

section \<open>The pairing state\<close>

text \<open>The owner's public key from the 32-byte seed.\<close>

definition owner_pk :: "crypto \<Rightarrow> bytes \<Rightarrow> bytes res" where
  "owner_pk cr sk = (if length sk = 32 then Inr (cr_public cr sk)
     else Inl (Io ''owner key is not a valid ed25519 secret''))"

fun validate_peers :: "crypto \<Rightarrow> pair_env \<Rightarrow> string \<Rightarrow> bytes \<Rightarrow> string set \<Rightarrow> bytes set \<Rightarrow> peer list \<Rightarrow> unit res" where
  "validate_peers cr pe own pk names keys [] = Inr ()"
| "validate_peers cr pe own pk names keys (p # ps) =
     rbind (validate_name (p_name p)) (\<lambda>_.
     if length (p_owner_pk p) \<noteq> 32 \<or> \<not> cr_key_ok cr (p_owner_pk p)
     then Inl (Usage ''invalid paired identity'')
     else if pe_weak pe (p_owner_pk p) \<or> p_name p = own \<or> p_owner_pk p = pk \<or> p_name p \<in> names \<or> p_owner_pk p \<in> keys
     then Inl (Usage ''ambiguous paired names or identities; owner must resolve pairing state'')
     else validate_peers cr pe own pk (insert (p_name p) names) (insert (p_owner_pk p) keys) ps)"

definition validate_store :: "crypto \<Rightarrow> pair_env \<Rightarrow> store \<Rightarrow> unit res" where
  "validate_store cr pe s =
     rbind (validate_name (st_body_name s)) (\<lambda>_.
     rbind (owner_pk cr (st_owner_sk s)) (\<lambda>pk.
     validate_peers cr pe (st_body_name s) pk {} {} (st_peers s)))"

text \<open>A known machine gets its new address; a new one is added; nothing is replaced.\<close>

definition same_peer :: "peer \<Rightarrow> peer \<Rightarrow> bool" where
  "same_peer p q \<longleftrightarrow> p_name q = p_name p \<or> p_owner_pk q = p_owner_pk p"

definition update_peer :: "crypto \<Rightarrow> pair_env \<Rightarrow> peer \<Rightarrow> store \<Rightarrow> (unit \<times> store) res" where
  "update_peer cr pe p s =
     (case List.find (same_peer p) (st_peers s) of
        Some existing \<Rightarrow>
          if p_name existing \<noteq> p_name p \<or> p_owner_pk existing \<noteq> p_owner_pk p
          then Inl (Usage ''that name or identity is already paired; refusing to replace it'')
          else let s' = s\<lparr>st_peers := update_first (same_peer p) (\<lambda>q. q\<lparr>p_addr := p_addr p\<rparr>) (st_peers s)\<rparr>
               in rbind (validate_store cr pe s') (\<lambda>_. Inr ((), s'))
      | None \<Rightarrow>
          let s' = s\<lparr>st_peers := st_peers s @ [p]\<rparr>
          in rbind (validate_store cr pe s') (\<lambda>_. Inr ((), s')))"

definition validate_peer :: "crypto \<Rightarrow> pair_env \<Rightarrow> peer \<Rightarrow> store \<Rightarrow> unit res" where
  "validate_peer cr pe p s =
     (let known = list_ex (\<lambda>q. p_name q = p_name p \<and> p_owner_pk q = p_owner_pk p) (st_peers s)
      in rbind (if known then Inr () else refuse_command_name pe (p_name p) ''the other machine'') (\<lambda>_.
         rbind (update_peer cr pe p s) (\<lambda>_. Inr ())))"

text \<open>Start-up (\<open>src/daemon.rs\<close>): a name that can only come from an early hostname is repaired.\<close>

definition repair_body_name :: "ctx \<Rightarrow> node \<Rightarrow> unit res \<times> node" where
  "repair_body_name cx nd =
     (if validate_name (st_body_name (fst nd)) = Inr () \<or> st_peers (fst nd) \<noteq> [] then (Inr (), nd)
      else let repaired = sanitize_name (st_body_name (fst nd))
           in update cx (\<lambda>s. Inr ((), s\<lparr>st_body_name := repaired\<rparr>)) nd)"

section \<open>Authenticated messages\<close>

record pair_identity =
  id_name :: string
  id_owner_pk :: bytes
  id_addr :: "string option"

record confirmation =
  cf_joiner :: pair_identity
  cf_listener :: pair_identity

definition identity_json :: "pair_identity \<Rightarrow> json" where
  "identity_json i = JObj [(''name'', JStr (id_name i)), (''owner_pk'', bytes_json (id_owner_pk i)),
     (''addr'', opt_json JStr (id_addr i))]"

definition identity_of_json :: "json \<Rightarrow> pair_identity option" where
  "identity_of_json v =
     Option.bind (Clix_Json.fields 2 [''name'', ''owner_pk'', ''addr''] v) (\<lambda>m.
     Option.bind (fld m ''name'' as_str) (\<lambda>n.
     Option.bind (fld m ''owner_pk'' (as_list as_byte)) (\<lambda>k.
     Option.bind (fld_opt m ''addr'' as_str) (\<lambda>a.
     Some \<lparr>id_name = n, id_owner_pk = k, id_addr = a\<rparr>))))"

definition confirmation_json :: "confirmation \<Rightarrow> json" where
  "confirmation_json c = JObj [(''joiner'', identity_json (cf_joiner c)), (''listener'', identity_json (cf_listener c))]"

definition confirmation_of_json :: "json \<Rightarrow> confirmation option" where
  "confirmation_of_json v =
     Option.bind (Clix_Json.fields 2 [''joiner'', ''listener''] v) (\<lambda>m.
     Option.bind (fld m ''joiner'' identity_of_json) (\<lambda>j.
     Option.bind (fld m ''listener'' identity_of_json) (\<lambda>l. Some \<lparr>cf_joiner = j, cf_listener = l\<rparr>)))"

definition phrase_mismatch :: clix_error where
  "phrase_mismatch = Io ''phrase did not match''"

definition ID_CTX :: bytes where "ID_CTX = str_bytes ''clix-pair-v2''"

text \<open>The bytes the tag is computed over.\<close>

definition mac_input :: "string \<Rightarrow> bytes \<Rightarrow> bytes" where
  "mac_input phase payload = ID_CTX @ [0] @ str_bytes phase @ [0] @ payload"

definition authenticated_frame :: "crypto \<Rightarrow> pair_env \<Rightarrow> bytes \<Rightarrow> string \<Rightarrow> json \<Rightarrow> bytes" where
  "authenticated_frame cr pe key phase message =
     (let payload = cr_to_vec cr message in pe_mac pe key (mac_input phase payload) @ payload)"

definition open_authenticated :: "pair_env \<Rightarrow> (json \<Rightarrow> 'a option) \<Rightarrow> bytes \<Rightarrow> string \<Rightarrow> bytes \<Rightarrow> 'a res" where
  "open_authenticated pe of_json key phase frame =
     (if length frame < 32 then Inl phrase_mismatch
      else let tag = take 32 frame; payload = drop 32 frame
      in if pe_mac pe key (mac_input phase payload) \<noteq> tag then Inl phrase_mismatch
         else ok_or (Option.bind (pe_parse pe payload) of_json) phrase_mismatch)"

section \<open>The handshakes\<close>

record wire =
  wi_read :: "nat \<Rightarrow> bytes res"
  wi_write :: "nat \<Rightarrow> bytes \<Rightarrow> unit res"
  wi_others :: "nat \<Rightarrow> node \<Rightarrow> node"
  wi_remote_addr :: "string option"

definition send :: "crypto \<Rightarrow> pair_env \<Rightarrow> wire \<Rightarrow> nat \<Rightarrow> bytes \<Rightarrow> string \<Rightarrow> json \<Rightarrow> unit res" where
  "send cr pe wi k key phase message = rbind (write_frame (authenticated_frame cr pe key phase message)) (wi_write wi k)"

definition receive_as :: "pair_env \<Rightarrow> wire \<Rightarrow> (json \<Rightarrow> 'a option) \<Rightarrow> nat \<Rightarrow> bytes \<Rightarrow> string \<Rightarrow> 'a res" where
  "receive_as pe wi of_json k key phase = rbind (wi_read wi k) (open_authenticated pe of_json key phase)"

text \<open>Trust is tracked independently of confirmation.\<close>

record pair_progress =
  pp_local_peer :: "string option"
  pp_local_saved :: bool
  pp_remote_may_trust :: bool

definition no_progress :: pair_progress where
  "no_progress = \<lparr>pp_local_peer = None, pp_local_saved = False, pp_remote_may_trust = False\<rparr>"

definition trust_may_exist :: "pair_progress \<Rightarrow> bool" where
  "trust_may_exist g \<longleftrightarrow> pp_local_peer g \<noteq> None \<or> pp_remote_may_trust g"

definition report :: "pair_progress \<Rightarrow> peer res \<Rightarrow> peer res" where
  "report g result = (case result of
       Inr p \<Rightarrow> Inr p
     | Inl e0 \<Rightarrow>
         let e = (case e0 of Unreachable \<Rightarrow> Io ''pairing did not finish; check the phrase and connection'' | _ \<Rightarrow> e0);
             finished = (\<lambda>state. Usage (state @ '', but pairing confirmation did not finish: '' @ error_text e @
               ''. Check clix status on both machines.''))
         in Inl (case pp_local_peer g of
              Some name \<Rightarrow> if pp_local_saved g then finished (''This machine now trusts '' @ name)
                          else finished (''Pairing state may have been saved for '' @ name)
            | None \<Rightarrow> if pp_remote_may_trust g then finished ''The other machine may already trust this machine'' else e))"

definition local_identity :: "crypto \<Rightarrow> string \<Rightarrow> store \<Rightarrow> pair_identity res" where
  "local_identity cr addr s =
     rbind (validate_name (st_body_name s)) (\<lambda>_.
     rbind (owner_pk cr (st_owner_sk s)) (\<lambda>pk.
     Inr \<lparr>id_name = st_body_name s, id_owner_pk = pk, id_addr = Some addr\<rparr>))"

definition peer_from :: "pair_identity \<Rightarrow> string option \<Rightarrow> peer" where
  "peer_from i fallback = \<lparr>p_name = id_name i, p_owner_pk = id_owner_pk i,
     p_addr = (case id_addr i of Some a \<Rightarrow> if a \<noteq> [] then Some a else fallback | None \<Rightarrow> fallback)\<rparr>"

definition persist_peer :: "ctx \<Rightarrow> pair_env \<Rightarrow> pair_identity \<Rightarrow> peer \<Rightarrow> pair_progress \<Rightarrow> node
    \<Rightarrow> unit res \<times> pair_progress \<times> node" where
  "persist_peer cx pe local p g nd =
     (let s = fst nd; changed = Inl (Usage ''local identity changed during pairing; start a new phrase'')
      in case (if st_body_name s \<noteq> id_name local then changed
               else rbind (owner_pk (cx_crypto cx) (st_owner_sk s)) (\<lambda>pk.
                 if pk \<noteq> id_owner_pk local then changed else Inr ())) of
           Inl e \<Rightarrow> (Inl e, g, nd)
         | Inr _ \<Rightarrow>
             let g' = g\<lparr>pp_local_peer := Some (p_name p)\<rparr>
             in (case update cx (update_peer (cx_crypto cx) pe p) nd of
                   (Inl e, nd') \<Rightarrow> (Inl e, g', nd')
                 | (Inr _, nd') \<Rightarrow> (Inr (), g'\<lparr>pp_local_saved := True\<rparr>, nd')))"

text \<open>The listening machine, up to the identity of the other one.\<close>

definition listen_open :: "ctx \<Rightarrow> pair_env \<Rightarrow> wire \<Rightarrow> bytes \<Rightarrow> (bytes \<times> pair_identity) res" where
  "listen_open cx pe wi ph =
     rbind (wi_read wi 0) (\<lambda>msg_a.
     rbind (rbind (write_frame (pe_start_b pe ph)) (wi_write wi 0)) (\<lambda>_.
     rbind (ok_or (pe_finish pe msg_a) phrase_mismatch) (\<lambda>key.
     rbind (receive_as pe wi identity_of_json 1 key ''join-identity'') (\<lambda>remote. Inr (key, remote)))))"

definition listen_confirmed :: "ctx \<Rightarrow> pair_env \<Rightarrow> wire \<Rightarrow> bytes \<Rightarrow> pair_identity \<Rightarrow> pair_identity \<Rightarrow> unit res" where
  "listen_confirmed cx pe wi key local remote =
     rbind (send (cx_crypto cx) pe wi 1 key ''listen-identity'' (identity_json local)) (\<lambda>_.
     rbind (receive_as pe wi confirmation_of_json 2 key ''join-committed'') (\<lambda>confirmed.
     if confirmed \<noteq> \<lparr>cf_joiner = remote, cf_listener = local\<rparr> then Inl phrase_mismatch else Inr ()))"

definition handshake_listen :: "ctx \<Rightarrow> pair_env \<Rightarrow> wire \<Rightarrow> bytes \<Rightarrow> string \<Rightarrow> node \<Rightarrow> peer res \<times> pair_progress \<times> node" where
  "handshake_listen cx pe wi ph local_addr nd =
     (case local_identity (cx_crypto cx) local_addr (fst nd) of
        Inl e \<Rightarrow> (Inl e, no_progress, nd)
      | Inr local \<Rightarrow>
          (let nd1 = wi_others wi 0 nd
           in case listen_open cx pe wi ph of
                Inl e \<Rightarrow> (Inl e, no_progress, nd1)
              | Inr (key, remote) \<Rightarrow>
                  (let p = peer_from remote (wi_remote_addr wi)
                   in case validate_peer (cx_crypto cx) pe p (fst nd1) of
                        Inl e \<Rightarrow> (Inl e, no_progress, nd1)
                      | Inr _ \<Rightarrow>
                          (let g = no_progress\<lparr>pp_remote_may_trust := True\<rparr>; nd2 = wi_others wi 1 nd1
                           in case listen_confirmed cx pe wi key local remote of
                                Inl e \<Rightarrow> (Inl e, g, nd2)
                              | Inr _ \<Rightarrow>
                                  (case persist_peer cx pe local p g nd2 of
                                     (Inl e, g', nd3) \<Rightarrow> (Inl e, g', nd3)
                                   | (Inr _, g', nd3) \<Rightarrow>
                                       (rbind (send (cx_crypto cx) pe wi 2 key ''listen-committed''
                                          (confirmation_json \<lparr>cf_joiner = remote, cf_listener = local\<rparr>)) (\<lambda>_. Inr p),
                                        g', wi_others wi 2 nd3))))))"

text \<open>The joining machine, up to the identity of the other one.\<close>

definition join_open :: "ctx \<Rightarrow> pair_env \<Rightarrow> wire \<Rightarrow> bytes \<Rightarrow> pair_identity \<Rightarrow> (bytes \<times> pair_identity) res" where
  "join_open cx pe wi ph local =
     rbind (rbind (write_frame (pe_start_a pe ph)) (wi_write wi 0)) (\<lambda>_.
     rbind (wi_read wi 0) (\<lambda>msg_b.
     rbind (ok_or (pe_finish pe msg_b) phrase_mismatch) (\<lambda>key.
     rbind (send (cx_crypto cx) pe wi 1 key ''join-identity'' (identity_json local)) (\<lambda>_.
     rbind (receive_as pe wi identity_of_json 1 key ''listen-identity'') (\<lambda>remote. Inr (key, remote))))))"

definition join_confirmed :: "ctx \<Rightarrow> pair_env \<Rightarrow> wire \<Rightarrow> bytes \<Rightarrow> confirmation \<Rightarrow> unit res" where
  "join_confirmed cx pe wi key expected =
     rbind (send (cx_crypto cx) pe wi 2 key ''join-committed'' (confirmation_json expected)) (\<lambda>_.
     rbind (receive_as pe wi confirmation_of_json 2 key ''listen-committed'') (\<lambda>confirmed.
     if confirmed \<noteq> expected then Inl phrase_mismatch else Inr ()))"

definition handshake_join :: "ctx \<Rightarrow> pair_env \<Rightarrow> wire \<Rightarrow> bytes \<Rightarrow> string \<Rightarrow> string \<Rightarrow> node
    \<Rightarrow> peer res \<times> pair_progress \<times> node" where
  "handshake_join cx pe wi ph dial_addr local_addr nd =
     (case local_identity (cx_crypto cx) local_addr (fst nd) of
        Inl e \<Rightarrow> (Inl e, no_progress, nd)
      | Inr local \<Rightarrow>
          (let nd1 = wi_others wi 0 nd
           in case join_open cx pe wi ph local of
                Inl e \<Rightarrow> (Inl e, no_progress, nd1)
              | Inr (key, remote) \<Rightarrow>
                  (let p = peer_from remote (Some dial_addr)
                   in case validate_peer (cx_crypto cx) pe p (fst nd1) of
                        Inl e \<Rightarrow> (Inl e, no_progress, nd1)
                      | Inr _ \<Rightarrow>
                          (case persist_peer cx pe local p no_progress nd1 of
                             (Inl e, g, nd2) \<Rightarrow> (Inl e, g, nd2)
                           | (Inr _, g, nd2) \<Rightarrow>
                               (rbind (join_confirmed cx pe wi key \<lparr>cf_joiner = local, cf_listener = remote\<rparr>) (\<lambda>_. Inr p),
                                g\<lparr>pp_remote_may_trust := True\<rparr>, wi_others wi 1 nd2)))))"

text \<open>What the callers see (\<open>complete_listen\<close>, \<open>join_attempt\<close>).\<close>

definition complete_listen :: "ctx \<Rightarrow> pair_env \<Rightarrow> wire \<Rightarrow> bool \<Rightarrow> bytes \<Rightarrow> string \<Rightarrow> node \<Rightarrow> peer res \<times> node" where
  "complete_listen cx pe wi connected ph local_addr nd =
     (if \<not> connected then (Inl (Io ''pair cancelled''), nd)
      else case handshake_listen cx pe wi ph local_addr nd of (r, g, nd') \<Rightarrow> (report g r, nd'))"

definition join_attempt :: "ctx \<Rightarrow> pair_env \<Rightarrow> wire \<Rightarrow> bytes \<Rightarrow> string \<Rightarrow> string \<Rightarrow> node \<Rightarrow> (peer res \<times> bool) \<times> node" where
  "join_attempt cx pe wi ph dial_addr local_addr nd =
     (case handshake_join cx pe wi ph dial_addr local_addr nd of
        (r, g, nd') \<Rightarrow> ((report g r, trust_may_exist g), nd'))"

text \<open>Discovery tries machine after machine until trust was or may have been established; connecting
  and the pin synchronisation that follows are parameters.\<close>

definition pin_after_pair :: "(peer \<Rightarrow> node \<Rightarrow> unit res \<times> node) \<Rightarrow> peer \<Rightarrow> node \<Rightarrow> unit res \<times> node" where
  "pin_after_pair sync p nd =
     (if \<not> st_pin_enabled (fst nd) then (Inr (), nd)
      else case sync p nd of
             (Inl e, nd') \<Rightarrow> (Inl (Usage (''Paired with '' @ p_name p @ ''; pin synchronization did not finish: '' @
                error_text e @ ''. Pairing remains saved.'')), nd')
           | (Inr _, nd') \<Rightarrow> (Inr (), nd'))"

definition pair_join :: "ctx \<Rightarrow> pair_env \<Rightarrow> (peer \<Rightarrow> node \<Rightarrow> unit res \<times> node) \<Rightarrow> wire res \<Rightarrow> bytes \<Rightarrow> string \<Rightarrow> string
    \<Rightarrow> node \<Rightarrow> peer res \<times> node" where
  "pair_join cx pe sync dialled ph addr local_addr nd =
     (case dialled of
        Inl e \<Rightarrow> (Inl e, nd)
      | Inr wi \<Rightarrow>
          (case join_attempt cx pe wi ph addr local_addr nd of
             ((Inl e, _), nd1) \<Rightarrow> (Inl e, nd1)
           | ((Inr p, _), nd1) \<Rightarrow>
               (case pin_after_pair sync p nd1 of (r, nd2) \<Rightarrow> (rbind r (\<lambda>_. Inr p), nd2))))"

fun pair_join_any :: "ctx \<Rightarrow> pair_env \<Rightarrow> (peer \<Rightarrow> node \<Rightarrow> unit res \<times> node) \<Rightarrow> (string \<times> wire res) list \<Rightarrow> bytes \<Rightarrow> string
    \<Rightarrow> clix_error option \<Rightarrow> node \<Rightarrow> peer res \<times> node" where
  "pair_join_any cx pe sync [] ph local_addr prev nd =
     (Inl (case prev of Some e \<Rightarrow> e | None \<Rightarrow> Io ''no online Tailscale peers''), nd)"
| "pair_join_any cx pe sync ((addr, dialled) # ds) ph local_addr prev nd =
     (case dialled of
        Inl e \<Rightarrow> pair_join_any cx pe sync ds ph local_addr (Some e) nd
      | Inr wi \<Rightarrow>
          (case join_attempt cx pe wi ph addr local_addr nd of
             ((Inr p, _), nd1) \<Rightarrow>
               (case pin_after_pair sync p nd1 of (r, nd2) \<Rightarrow> (rbind r (\<lambda>_. Inr p), nd2))
           | ((Inl e, trust), nd1) \<Rightarrow>
               if trust then (Inl e, nd1) else pair_join_any cx pe sync ds ph local_addr (Some e) nd1))"

section \<open>Names\<close>

lemma name_char_alnum: "is_alnum c \<Longrightarrow> name_char c"
  by (simp add: name_char_def)

text \<open>Whatever the machine's host name is, the name it gets is one that pairing accepts.\<close>

theorem sanitized_name_valid: "validate_name (sanitize_name raw) = Inr ()"
proof -
  let ?t = "dropWhile (\<lambda>c. \<not> is_alnum c) (filter name_char (takeWhile (\<lambda>c. c \<noteq> CHR ''.'') raw))"
  show ?thesis
  proof (cases "take 63 ?t")
    case Nil
    have "validate_name ''clix'' = Inr ()" by (simp add: validate_name_def name_char_def is_alnum_def)
    with Nil show ?thesis by (simp add: sanitize_name_def Let_def)
  next
    case (Cons c cs)
    have "?t \<noteq> []" by (metis Cons list.distinct(1) take_Nil)
    moreover have "hd ?t = c" by (metis Cons hd_take list.sel(1) zero_less_numeral)
    ultimately have "is_alnum c" by (metis hd_dropWhile)
    moreover have "list_all name_char (take 63 ?t)"
      by (auto simp: list_all_iff dest!: in_set_takeD set_dropWhileD)
    moreover have "length (take 63 ?t) \<le> 63" by simp
    ultimately show ?thesis using Cons by (simp add: sanitize_name_def Let_def validate_name_def
        del: length_take take_eq_Nil take_eq_Nil2 dropWhile_eq_Nil_conv)
  qed
qed

section \<open>The pairing state stays unambiguous\<close>

text \<open>What \<open>validate_store\<close> accepts: every other machine has its own valid name and key.\<close>

definition peer_ident :: "peer \<Rightarrow> body_id \<times> bytes" where
  "peer_ident p = (p_name p, p_owner_pk p)"

definition unambiguous :: "crypto \<Rightarrow> pair_env \<Rightarrow> store \<Rightarrow> bool" where
  "unambiguous cr pe s \<longleftrightarrow> validate_name (st_body_name s) = Inr () \<and> length (st_owner_sk s) = 32 \<and>
     distinct (map p_name (st_peers s)) \<and> distinct (map p_owner_pk (st_peers s)) \<and>
     (\<forall>p \<in> set (st_peers s). validate_name (p_name p) = Inr () \<and> length (p_owner_pk p) = 32 \<and>
        cr_key_ok cr (p_owner_pk p) \<and> \<not> pe_weak pe (p_owner_pk p) \<and> p_name p \<noteq> st_body_name s \<and>
        p_owner_pk p \<noteq> cr_public cr (st_owner_sk s))"

lemma validate_peers_iff:
  "validate_peers cr pe own pk names keys ps = Inr () \<longleftrightarrow>
     distinct (map p_name ps) \<and> distinct (map p_owner_pk ps) \<and>
     (\<forall>p \<in> set ps. validate_name (p_name p) = Inr () \<and> length (p_owner_pk p) = 32 \<and> cr_key_ok cr (p_owner_pk p) \<and>
        \<not> pe_weak pe (p_owner_pk p) \<and> p_name p \<noteq> own \<and> p_owner_pk p \<noteq> pk \<and> p_name p \<notin> names \<and>
        p_owner_pk p \<notin> keys)"
proof (induction ps arbitrary: names keys)
  case (Cons p ps)
  show ?case by (simp add: result_simps Cons.IH) (auto simp: image_iff)
qed simp

lemma validate_store_iff: "validate_store cr pe s = Inr () \<longleftrightarrow> unambiguous cr pe s"
  by (auto simp: validate_store_def unambiguous_def owner_pk_def validate_peers_iff result_simps)

lemma map_ident_update:
  "map peer_ident (update_first P (\<lambda>q. q\<lparr>p_addr := a\<rparr>) ps) = map peer_ident ps"
  by (rule map_update_first) (simp add: peer_ident_def)

lemma update_peer_steps:
  assumes "update_peer cr pe p s = Inr (u, s')"
  obtains ps where "s' = s\<lparr>st_peers := ps\<rparr>" "unambiguous cr pe s'"
    "map peer_ident ps = map peer_ident (st_peers s) \<or> map peer_ident ps = map peer_ident (st_peers s) @ [peer_ident p]"
  using assms by (auto simp: update_peer_def Let_def result_simps validate_store_iff map_ident_update
      split: option.splits if_splits)

text \<open>One machine more, at most, and everything else as it was.\<close>

definition trusts_more :: "store \<Rightarrow> store \<Rightarrow> (body_id \<times> bytes) list \<Rightarrow> bool" where
  "trusts_more s s' new \<longleftrightarrow> map peer_ident (st_peers s') = map peer_ident (st_peers s) @ new \<and>
     outcome (s'\<lparr>st_peers := [], st_write_error := None\<rparr>) = outcome (s\<lparr>st_peers := [], st_write_error := None\<rparr>)"

lemma trusts_more_refl [simp]: "trusts_more s s []"
  by (simp add: trusts_more_def)

lemma trusts_more_outcome:
  assumes "outcome s' = outcome n" and "n = s\<lparr>st_peers := ps\<rparr>" and "map peer_ident ps = map peer_ident (st_peers s) @ new"
  shows "trusts_more s s' new"
proof -
  have "outcome (t\<lparr>st_peers := [], st_write_error := None\<rparr>) = (outcome t)\<lparr>st_peers := [], st_write_error := None\<rparr>" for t
    by (simp add: outcome_def)
  then have "outcome (s'\<lparr>st_peers := [], st_write_error := None\<rparr>) = outcome (n\<lparr>st_peers := [], st_write_error := None\<rparr>)"
    using assms(1) by simp
  moreover have "st_peers s' = ps" using outcomeD(2) [OF assms(1)] assms(2) by simp
  ultimately show ?thesis using assms(2,3) by (simp add: trusts_more_def)
qed

lemma persist_peer_steps:
  assumes "persist_peer cx pe local p g (s, disk) = (r, g', s', disk')"
  obtains (refused) e where "r = Inl e" "g' = g" "s' = s" "disk' = disk"
  | (attempted) new where "g' = g\<lparr>pp_local_peer := Some (p_name p)\<rparr> \<or> g' = g\<lparr>pp_local_peer := Some (p_name p), pp_local_saved := True\<rparr>"
      "trusts_more s s' new" "new = [] \<or> new = [peer_ident p]" "r = Inr () \<Longrightarrow> pp_local_saved g' \<and> unambiguous (cx_crypto cx) pe s'"
proof (cases "g' = g \<and> s' = s \<and> disk' = disk \<and> isl r")
  case True
  with refused show thesis by (cases r) auto
next
  case False
  obtain u t d where up: "update cx (update_peer (cx_crypto cx) pe p) (s, disk) = (u, t, d)" by (metis prod_cases3)
  with assms False have st: "s' = t" "disk' = d" and r: "r = (case u of Inl e \<Rightarrow> Inl e | Inr _ \<Rightarrow> Inr ())"
    and g': "g' = (case u of Inl e \<Rightarrow> g\<lparr>pp_local_peer := Some (p_name p)\<rparr>
        | Inr _ \<Rightarrow> g\<lparr>pp_local_peer := Some (p_name p), pp_local_saved := True\<rparr>)"
    by (auto simp: persist_peer_def Let_def split: sum.splits if_splits)
  show thesis
  proof (cases u)
    case (Inl e)
    have "t = s \<or> t = s\<lparr>st_write_error := Some (error_text e)\<rparr>"
      using up [unfolded Inl] by (cases rule: update_steps) auto
    then have "trusts_more s t []" by (auto simp: trusts_more_def)
    with Inl st r g' attempted show thesis by simp
  next
    case (Inr v)
    with up obtain n where n: "update_peer (cx_crypto cx) pe p s = Inr (v, n)" and out: "outcome t = outcome n"
      by (metis update_ok)
    from n show thesis
    proof (rule update_peer_steps)
      fix ps assume ps: "n = s\<lparr>st_peers := ps\<rparr>" "unambiguous (cx_crypto cx) pe n"
        "map peer_ident ps = map peer_ident (st_peers s) \<or> map peer_ident ps = map peer_ident (st_peers s) @ [peer_ident p]"
      then obtain new where "map peer_ident ps = map peer_ident (st_peers s) @ new" "new = [] \<or> new = [peer_ident p]"
        by auto
      moreover from this(1) have "trusts_more s t new" by (rule trusts_more_outcome [OF out ps(1)])
      moreover have "unambiguous (cx_crypto cx) pe t"
        using ps(2) outcomeD(1,2,3) [OF out] by (simp add: unambiguous_def)
      ultimately show thesis using Inr st r g' attempted by simp
    qed
  qed
qed

section \<open>What the handshakes establish\<close>

text \<open>A message that carries a tag only the holder of the session key can compute.\<close>

definition proved :: "pair_env \<Rightarrow> wire \<Rightarrow> (json \<Rightarrow> 'a option) \<Rightarrow> nat \<Rightarrow> bytes \<Rightarrow> string \<Rightarrow> 'a \<Rightarrow> bool" where
  "proved pe wi of_json k key phase x \<longleftrightarrow> (\<exists>frame. wi_read wi k = Inr frame \<and> 32 \<le> length frame \<and>
     pe_mac pe key (mac_input phase (drop 32 frame)) = take 32 frame \<and>
     Option.bind (pe_parse pe (drop 32 frame)) of_json = Some x)"

lemma receive_as_proved: "receive_as pe wi of_json k key phase = Inr x \<Longrightarrow> proved pe wi of_json k key phase x"
  by (auto simp: receive_as_def open_authenticated_def proved_def Let_def result_simps split: if_splits)

lemma peer_from_simps [simp]:
  "peer_ident (peer_from i a) = (id_name i, id_owner_pk i)" "p_name (peer_from i a) = id_name i"
  by (simp_all add: peer_ident_def peer_from_def)

lemma listen_steps:
  assumes "handshake_listen cx pe wi ph addr (s, disk) = (r, g, s', disk')" and "\<And>k nd. wi_others wi k nd = nd"
  obtains (untouched) e where "r = Inl e" "s' = s" "disk' = disk" "pp_local_peer g = None"
  | (attempted) local key remote msg new where "local_identity (cx_crypto cx) addr s = Inr local"
      "wi_read wi 0 = Inr msg" "pe_finish pe msg = Some key"
      "proved pe wi identity_of_json 1 key ''join-identity'' remote"
      "proved pe wi confirmation_of_json 2 key ''join-committed'' \<lparr>cf_joiner = remote, cf_listener = local\<rparr>"
      "pp_local_peer g = Some (id_name remote)" "trusts_more s s' new"
      "new = [] \<or> new = [(id_name remote, id_owner_pk remote)]"
      "\<And>p. r = Inr p \<Longrightarrow> p = peer_from remote (wi_remote_addr wi) \<and> unambiguous (cx_crypto cx) pe s'"
proof (cases "pp_local_peer g")
  case None
  then have "(\<exists>e. r = Inl e) \<and> s' = s \<and> disk' = disk"
    using assms(1)
    by (auto simp: handshake_listen_def Let_def assms(2) no_progress_def split: sum.splits prod.splits
        elim!: persist_peer_steps)
  with None untouched show thesis by auto
next
  case (Some n)
  with assms obtain local key remote where local: "local_identity (cx_crypto cx) addr s = Inr local"
    and open': "listen_open cx pe wi ph = Inr (key, remote)"
    and conf: "listen_confirmed cx pe wi key local remote = Inr ()"
    and persist: "\<exists>r' t d. persist_peer cx pe local (peer_from remote (wi_remote_addr wi))
        (no_progress\<lparr>pp_remote_may_trust := True\<rparr>) (s, disk) = (r', g, s', disk') \<and>
        (\<forall>p. r = Inr p \<longrightarrow> r' = Inr () \<and> p = peer_from remote (wi_remote_addr wi))"
    by (auto simp: handshake_listen_def Let_def no_progress_def result_simps split: sum.splits prod.splits)
  from persist obtain r' where p: "persist_peer cx pe local (peer_from remote (wi_remote_addr wi))
      (no_progress\<lparr>pp_remote_may_trust := True\<rparr>) (s, disk) = (r', g, s', disk')"
    and r: "\<forall>p. r = Inr p \<longrightarrow> r' = Inr () \<and> p = peer_from remote (wi_remote_addr wi)" by blast
  from open' obtain msg where "wi_read wi 0 = Inr msg" "pe_finish pe msg = Some key"
    "proved pe wi identity_of_json 1 key ''join-identity'' remote"
    by (auto simp: listen_open_def result_simps dest: receive_as_proved)
  moreover from conf have "proved pe wi confirmation_of_json 2 key ''join-committed'' \<lparr>cf_joiner = remote, cf_listener = local\<rparr>"
    by (auto simp: listen_confirmed_def result_simps dest: receive_as_proved split: if_splits)
  note facts = calculation this
  from p show thesis
  proof (cases rule: persist_peer_steps)
    case refused
    with Some show thesis by (simp add: no_progress_def)
  next
    case (attempted new)
    then show thesis
      using facts local r
      by (intro that(2) [of local msg key remote new]) auto
  qed
qed

lemma join_steps:
  assumes "handshake_join cx pe wi ph dial addr (s, disk) = (r, g, s', disk')" and "\<And>k nd. wi_others wi k nd = nd"
  obtains (untouched) e where "r = Inl e" "s' = s" "disk' = disk" "pp_local_peer g = None" "\<not> pp_remote_may_trust g"
  | (attempted) key remote msg new where "wi_read wi 0 = Inr msg" "pe_finish pe msg = Some key"
      "proved pe wi identity_of_json 1 key ''listen-identity'' remote"
      "pp_local_peer g = Some (id_name remote)" "trusts_more s s' new"
      "new = [] \<or> new = [(id_name remote, id_owner_pk remote)]"
      "\<And>p. r = Inr p \<Longrightarrow> p = peer_from remote (Some dial) \<and> unambiguous (cx_crypto cx) pe s'"
proof (cases "pp_local_peer g")
  case None
  then have "(\<exists>e. r = Inl e) \<and> s' = s \<and> disk' = disk \<and> \<not> pp_remote_may_trust g"
    using assms(1)
    by (auto simp: handshake_join_def Let_def assms(2) no_progress_def split: sum.splits prod.splits
        elim!: persist_peer_steps)
  with None untouched show thesis by auto
next
  case (Some n)
  with assms obtain local key remote where open': "join_open cx pe wi ph local = Inr (key, remote)"
    and persist: "\<exists>r' g'. persist_peer cx pe local (peer_from remote (Some dial)) no_progress (s, disk) = (r', g', s', disk') \<and>
        pp_local_peer g' = Some n \<and> (\<forall>p. r = Inr p \<longrightarrow> r' = Inr () \<and> p = peer_from remote (Some dial))"
    by (auto simp: handshake_join_def Let_def no_progress_def result_simps split: sum.splits prod.splits)
  from persist obtain r' g' where p: "persist_peer cx pe local (peer_from remote (Some dial)) no_progress (s, disk) = (r', g', s', disk')"
    and g': "pp_local_peer g' = Some n" and r: "\<forall>p. r = Inr p \<longrightarrow> r' = Inr () \<and> p = peer_from remote (Some dial)" by blast
  from open' obtain msg where facts: "wi_read wi 0 = Inr msg" "pe_finish pe msg = Some key"
    "proved pe wi identity_of_json 1 key ''listen-identity'' remote"
    by (auto simp: join_open_def result_simps dest: receive_as_proved)
  from p show thesis
  proof (cases rule: persist_peer_steps)
    case refused
    with g' show thesis by (simp add: no_progress_def)
  next
    case (attempted new)
    then have "n = id_name remote" using g' by auto
    with attempted facts r Some show thesis
      by (intro that(2) [of msg key remote new]) auto
  qed
qed


section \<open>What the owner is told\<close>

lemma report_error:
  assumes "report g r = Inl e" and "pp_local_peer g = Some n"
  shows "\<exists>tail. error_text e = ''This machine now trusts '' @ n @ tail \<or>
    error_text e = ''Pairing state may have been saved for '' @ n @ tail"
  using assms by (auto simp: report_def Let_def split: sum.splits if_splits)


section \<open>Discovery\<close>

lemma trusts_more_trans: "trusts_more s t [] \<Longrightarrow> trusts_more t u new \<Longrightarrow> trusts_more s u new"
  by (simp add: trusts_more_def)

lemma join_attempt_steps:
  assumes "join_attempt cx pe wi ph dial addr nd = ((r, trust), nd')" and "\<And>k nd. wi_others wi k nd = nd"
  shows "(\<exists>new. length new \<le> 1 \<and> trusts_more (fst nd) (fst nd') new) \<and> (isl r \<and> \<not> trust \<longrightarrow> nd' = nd)"
proof -
  obtain s disk s' disk' where nd: "nd = (s, disk)" "nd' = (s', disk')" by (cases nd; cases nd') auto
  obtain r' g where j: "handshake_join cx pe wi ph dial addr (s, disk) = (r', g, s', disk')"
    and t: "trust = trust_may_exist g"
    using assms(1) by (auto simp: join_attempt_def nd split: prod.splits)
  from j assms(2) show ?thesis
  proof (cases rule: join_steps)
    case untouched
    then show ?thesis using nd by (auto intro: exI [of _ "[]"])
  next
    case (attempted key remote msg new)
    then have "length new \<le> 1" by auto
    with attempted nd t show ?thesis by (auto simp: trust_may_exist_def)
  qed
qed

text \<open>Looking for the other machine among many trusts at most one of them, whatever each of them
  answers and however each attempt fails: after an attempt that may have established trust no further
  machine is tried.  No existing pairing changes its name or key, and nothing but the pairings changes.\<close>

theorem discovery_trusts_at_most_one:
  assumes "pair_join_any cx pe sync ds ph addr prev nd = (r, nd')"
    and "\<And>a wi k nd. (a, Inr wi) \<in> set ds \<Longrightarrow> wi_others wi k nd = nd"
    and "\<And>p nd. trusts_more (fst nd) (fst (snd (sync p nd))) []"
  shows "\<exists>new. length new \<le> 1 \<and> trusts_more (fst nd) (fst nd') new"
  using assms
proof (induction cx pe sync ds ph addr prev nd rule: pair_join_any.induct)
  case (1 cx pe sync ph addr prev nd)
  then show ?case by (auto intro: exI [of _ "[]"])
next
  case (2 cx pe sync a dialled ds ph addr prev nd)
  have sync: "trusts_more s0 (fst (snd (pin_after_pair sync p nd))) new" if "trusts_more s0 (fst nd) new" for p nd s0 new
  proof -
    have "trusts_more (fst nd) (fst (snd (pin_after_pair sync p nd))) []"
      using "2.prems"(3) [of nd p] by (auto simp: pin_after_pair_def split: prod.splits sum.splits)
    with that show ?thesis by (simp add: trusts_more_def)
  qed
  show ?case
  proof (cases dialled)
    case (Inl e)
    with 2 show ?thesis by simp
  next
    case (Inr wi)
    obtain q trust nd1 where ja: "join_attempt cx pe wi ph a addr nd = ((q, trust), nd1)" by (metis prod.collapse)
    have step: "(\<exists>new. length new \<le> 1 \<and> trusts_more (fst nd) (fst nd1) new) \<and> (isl q \<and> \<not> trust \<longrightarrow> nd1 = nd)"
      by (rule join_attempt_steps [OF ja]) (rule "2.prems"(2) [of a wi], simp add: Inr)
    show ?thesis
    proof (cases "isl q \<and> \<not> trust")
      case True
      then obtain e where q: "q = Inl e" by (auto simp: isl_def)
      with True step ja Inr "2.prems"(1) have "pair_join_any cx pe sync ds ph addr (Some e) nd = (r, nd')" by simp
      then have rec: "pair_join_any cx pe sync ds ph addr (Some e) nd1 = (r, nd')" using True step by simp
      have others: "wi_others w k n = n" if "(b, Inr w) \<in> set ds" for b w k n
        by (rule "2.prems"(2) [of b]) (use that in simp)
      have "\<exists>new. length new \<le> 1 \<and> trusts_more (fst nd1) (fst nd') new"
        by (rule "2.IH"(2) [OF Inr ja [symmetric] refl q _ rec _ "2.prems"(3)]) (use True in simp, erule others)
      with True step show ?thesis by simp
    next
      case False
      from step obtain new where new: "length new \<le> 1" "trusts_more (fst nd) (fst nd1) new" by blast
      have "nd' = nd1 \<or> (\<exists>p. nd' = snd (pin_after_pair sync p nd1))"
        using False Inr ja "2.prems"(1) by (cases q) (auto split: prod.splits intro!: exI [of _ "projr q"])
      with new sync [OF new(2)] show ?thesis by auto
    qed
  qed
qed

end
