(* ===== verification/Clix_Args.thy ===== *)
theory Clix_Args
  imports Clix_Pair Clix_Grant
begin

text \<open>
  The command line of \<open>src/cli.rs\<close>: destinations written before or around clap, the options of a
  grant, days, dates, times of day and durations.  clap's own parse is a parameter of \<open>parse_argv\<close>.
  Texts are UTF-8 bytes, as elsewhere; \<open>trim\<close> and \<open>split_whitespace\<close> know the white space of
  Unicode, and cutting a text inside a character panics (\<open>None\<close>).
\<close>

section \<open>Text\<close>

text \<open>The rest after one white space character, at the start and (reversed) at the end.\<close>

definition ws1 :: "nat \<Rightarrow> bool" where
  "ws1 a \<longleftrightarrow> 9 \<le> a \<and> a \<le> 13 \<or> a = 32"

definition ws2 :: "nat \<Rightarrow> nat \<Rightarrow> bool" where
  "ws2 a b \<longleftrightarrow> a = 0xC2 \<and> (b = 0x85 \<or> b = 0xA0)"

definition ws3 :: "nat \<Rightarrow> nat \<Rightarrow> nat \<Rightarrow> bool" where
  "ws3 a b c \<longleftrightarrow> a = 0xE1 \<and> b = 0x9A \<and> c = 0x80 \<or> a = 0xE3 \<and> b = 0x80 \<and> c = 0x80 \<or>
     a = 0xE2 \<and> (b = 0x80 \<and> (0x80 \<le> c \<and> c \<le> 0x8A \<or> c = 0xA8 \<or> c = 0xA9 \<or> c = 0xAF) \<or> b = 0x81 \<and> c = 0x9F)"

fun drop_ws :: "string \<Rightarrow> string option" where
  "drop_ws [] = None"
| "drop_ws (a # s) = (if ws1 (of_char a) then Some s else (case s of
     b # t \<Rightarrow> if ws2 (of_char a) (of_char b) then Some t else (case t of
       c # u \<Rightarrow> if ws3 (of_char a) (of_char b) (of_char c) then Some u else None
     | [] \<Rightarrow> None)
   | [] \<Rightarrow> None))"

fun drop_ws_end :: "string \<Rightarrow> string option" where
  "drop_ws_end [] = None"
| "drop_ws_end (a # s) = (if ws1 (of_char a) then Some s else (case s of
     b # t \<Rightarrow> if ws2 (of_char b) (of_char a) then Some t else (case t of
       c # u \<Rightarrow> if ws3 (of_char c) (of_char b) (of_char a) then Some u else None
     | [] \<Rightarrow> None)
   | [] \<Rightarrow> None))"

lemma drop_ws_shorter: "drop_ws s = Some t \<Longrightarrow> length t < length s"
  by (cases s) (auto split: if_splits list.splits)

lemma drop_ws_end_shorter: "drop_ws_end s = Some t \<Longrightarrow> length t < length s"
  by (cases s) (auto split: if_splits list.splits)

function trim_start :: "string \<Rightarrow> string" where
  "trim_start s = (case drop_ws s of None \<Rightarrow> s | Some t \<Rightarrow> trim_start t)"
  by auto
termination by (relation "measure length") (auto dest: drop_ws_shorter)

function trim_end_rev :: "string \<Rightarrow> string" where
  "trim_end_rev s = (case drop_ws_end s of None \<Rightarrow> s | Some t \<Rightarrow> trim_end_rev t)"
  by auto
termination by (relation "measure length") (auto dest: drop_ws_end_shorter)

declare trim_start.simps [simp del] trim_end_rev.simps [simp del]

definition trim :: "string \<Rightarrow> string" where
  "trim s = rev (trim_end_rev (rev (trim_start s)))"

text \<open>The pieces between white space, empty ones left out; \<open>w\<close> is the piece so far.\<close>

function split_ws :: "string \<Rightarrow> string \<Rightarrow> string list" where
  "split_ws w s = (case drop_ws s of
     Some t \<Rightarrow> (if w = [] then [] else [w]) @ split_ws [] t
   | None \<Rightarrow> (case s of [] \<Rightarrow> if w = [] then [] else [w] | c # cs \<Rightarrow> split_ws (w @ [c]) cs))"
  by pat_completeness auto
termination by (relation "measure (length \<circ> snd)") (auto dest: drop_ws_shorter)

declare split_ws.simps [simp del]

definition split_whitespace :: "string \<Rightarrow> string list" where
  "split_whitespace s = split_ws [] s"

definition lower_char :: "char \<Rightarrow> char" where
  "lower_char c = (let n = (of_char c :: nat) in if 65 \<le> n \<and> n \<le> 90 then char_of (n + 32) else c)"

definition to_ascii_lowercase :: "string \<Rightarrow> string" where
  "to_ascii_lowercase s = map lower_char s"

definition is_digit :: "char \<Rightarrow> bool" where
  "is_digit c \<longleftrightarrow> 48 \<le> (of_char c :: nat) \<and> (of_char c :: nat) \<le> 57"

fun digits_value :: "nat \<Rightarrow> string \<Rightarrow> nat" where
  "digits_value acc [] = acc"
| "digits_value acc (c # cs) = digits_value (10 * acc + (of_char c - 48)) cs"

text \<open>\<open>str::parse\<close> of an unsigned integer: an optional plus sign, digits, within the type.\<close>

definition parse_uint :: "nat \<Rightarrow> string \<Rightarrow> nat option" where
  "parse_uint mx s =
     (let ds = (case s of c # cs \<Rightarrow> if c = CHR ''+'' then cs else s | [] \<Rightarrow> s)
      in if ds = [] \<or> \<not> list_all is_digit ds \<or> mx < digits_value 0 ds then None else Some (digits_value 0 ds))"

definition strip_suffix :: "string \<Rightarrow> string \<Rightarrow> string option" where
  "strip_suffix suf s = (if length suf \<le> length s \<and> drop (length s - length suf) s = suf
     then Some (take (length s - length suf) s) else None)"

definition quoted :: "string \<Rightarrow> string" where
  "quoted s = [CHR 0x27] @ s @ [CHR 0x27]"

section \<open>Days, dates, times and durations\<close>

definition day_names :: "string list" where
  "day_names = [''mon'', ''tue'', ''wed'', ''thu'', ''fri'', ''sat'', ''sun'']"

definition unknown_weekday :: "string \<Rightarrow> clix_error" where
  "unknown_weekday d = Usage (''unknown weekday '' @ quoted d @ '' (use mon..sun)'')"

fun validate_days :: "string list \<Rightarrow> string list res" where
  "validate_days [] = Inr []"
| "validate_days (d # ds) =
     (let lower = to_ascii_lowercase (trim d)
      in if \<not> List.member day_names lower then Inl (unknown_weekday d)
         else rbind (validate_days ds) (\<lambda>r. Inr (lower # r)))"

definition bad_date :: "string \<Rightarrow> clix_error" where
  "bad_date d = Usage (''bad date '' @ quoted d @ '' (use 1'' @ en_dash @ ''31)'')"

fun parse_dates :: "string list \<Rightarrow> nat list res" where
  "parse_dates [] = Inr []"
| "parse_dates (d # ds) = (case parse_uint 255 (trim d) of
     None \<Rightarrow> Inl (bad_date d)
   | Some n \<Rightarrow> if \<not> (1 \<le> n \<and> n \<le> 31) then Inl (bad_date d) else rbind (parse_dates ds) (\<lambda>r. Inr (n # r)))"

definition bad_time :: "string \<Rightarrow> clix_error" where
  "bad_time s = Usage (''bad time '' @ quoted s @ '' (use am/pm, e.g. 5pm)'')"

text \<open>Minutes since midnight.\<close>

definition parse_ampm :: "string \<Rightarrow> nat res" where
  "parse_ampm t =
     (let s = to_ascii_lowercase (trim t)
      in rbind (case strip_suffix ''pm'' s of
             Some rest \<Rightarrow> Inr (rest, True)
           | None \<Rightarrow> (case strip_suffix ''am'' s of Some rest \<Rightarrow> Inr (rest, False) | None \<Rightarrow> Inl (bad_time s)))
           (\<lambda>(ds, pm). case parse_uint (2 ^ 32 - 1) ds of
             None \<Rightarrow> Inl (bad_time s)
           | Some hour \<Rightarrow>
               if \<not> (1 \<le> hour \<and> hour \<le> 12) then Inl (bad_time s)
               else Inr ((if hour = 12 \<and> \<not> pm then 0 else if hour = 12 then 12
                          else if pm then hour + 12 else hour) * 60)))"

definition ns_per_minute :: nat where
  "ns_per_minute = 60000000000"

text \<open>\<open>NaiveTime::from_hms_opt\<close>: nanoseconds since midnight.\<close>

definition parse_ampm_naive :: "string \<Rightarrow> nat res" where
  "parse_ampm_naive s = rbind (parse_ampm s) (\<lambda>m.
     if m div 60 < 24 then Inr (m * ns_per_minute) else Inl (bad_time s))"

definition bad_duration :: "string \<Rightarrow> clix_error" where
  "bad_duration s = Usage (''bad duration '' @ quoted s @ '' (e.g. 2h, 30m)'')"

text \<open>Seconds; \<open>split_at\<close> panics when the last byte is not the start of a character.\<close>

definition parse_duration :: "string \<Rightarrow> nat res option" where
  "parse_duration t =
     (let s = to_ascii_lowercase (trim t); scaled = (\<lambda>n k. if n * k \<le> u64_max then Inr (n * k)
            else Inl (Usage ''duration too large''))
      in if length s < 2 then Some (Inl (Usage ''bad duration (e.g. 2h, 30m)''))
         else let num = butlast s; unit = last s
         in if cont_byte (of_char unit) then None
            else Some (case parse_uint u64_max num of
              None \<Rightarrow> Inl (bad_duration s)
            | Some n \<Rightarrow> if unit = CHR ''s'' then Inr n
                else if unit = CHR ''m'' then scaled n 60
                else if unit = CHR ''h'' then scaled n 3600
                else if unit = CHR ''d'' then scaled n 86400
                else Inl (bad_duration s)))"

text \<open>The local calendar as chrono resolves it: the instant of a minute of today and of tomorrow
  (\<open>None\<close> in a gap), where tomorrow may lie past the last date.\<close>

record calendar =
  ca_now :: int
  ca_today :: "nat \<Rightarrow> int option"
  ca_tomorrow :: "(nat \<Rightarrow> int option) option"

definition parse_until :: "calendar \<Rightarrow> string \<Rightarrow> int res" where
  "parse_until ca s = rbind (parse_ampm s) (\<lambda>m.
     if \<not> m div 60 < 24 then Inl (bad_time s)
     else let unresolved = Usage (''could not resolve local time '' @ quoted s)
     in rbind (ok_or (ca_today ca m) unresolved) (\<lambda>today.
        if ca_now ca < today then Inr today
        else rbind (ok_or (ca_tomorrow ca) (Usage ''date overflow'')) (\<lambda>tomorrow.
             ok_or (tomorrow m) unresolved)))"

section \<open>Options of a grant\<close>

record grant_cli =
  gc_allow :: "string list"
  gc_all :: bool
  gc_server :: bool
  gc_once :: bool
  gc_for :: "string option"
  gc_until :: "string option"
  gc_days :: "string list"
  gc_dates :: "string list"
  gc_from :: "string option"
  gc_to :: "string option"
  gc_weekdays :: bool
  gc_only :: "string list"

record grant_narrow =
  gn_allow :: "string list"
  gn_once :: bool
  gn_for :: "nat option"
  gn_until :: "int option"
  gn_days :: "string list"
  gn_dates :: "nat list"
  gn_from :: "string option"
  gn_to :: "string option"
  gn_weekdays :: bool
  gn_args :: "string list list option"
  gn_all :: bool

definition opt_check :: "('a \<Rightarrow> 'b res) \<Rightarrow> 'a option \<Rightarrow> 'b option res" where
  "opt_check f x = (case x of None \<Rightarrow> Inr None | Some a \<Rightarrow> rbind (f a) (\<lambda>b. Inr (Some b)))"

text \<open>\<open>None\<close> is the panic of \<open>parse_duration\<close>.\<close>

definition parse_grant_cli :: "calendar \<Rightarrow> grant_cli \<Rightarrow> bool \<Rightarrow> bool \<Rightarrow> grant_narrow res option" where
  "parse_grant_cli ca g default_once require_scope =
     (let args = (if gc_only g = [] then None else Some (map split_whitespace (gc_only g)));
          allow = gc_allow g @ (if gc_server g then [''server''] else []);
          widening = gc_for g \<noteq> None \<or> gc_until g \<noteq> None \<or> gc_days g \<noteq> [] \<or> gc_dates g \<noteq> [] \<or> gc_weekdays g \<or>
            gc_from g \<noteq> None \<or> gc_to g \<noteq> None;
          once = (gc_once g \<or> default_once \<and> \<not> widening);
          checked = rbind (ensure (\<not> (gc_all g \<and> (gc_server g \<or> gc_allow g \<noteq> [])))
              (Usage ''use --all or --allow/--server, not both'')) (\<lambda>_.
            rbind (ensure (\<not> (require_scope \<and> \<not> gc_all g \<and> \<not> gc_server g \<and> gc_allow g = []))
              (Usage ''specify --allow <machine> (repeatable), --server, or --all'')) (\<lambda>_.
            rbind (ensure (\<not> (gc_once g \<and> (gc_days g \<noteq> [] \<or> gc_dates g \<noteq> [] \<or> gc_weekdays g)))
              (Usage ''use --once or a schedule, not both'')) (\<lambda>_.
            rbind (ensure (\<not> (gc_weekdays g \<and> gc_days g \<noteq> []))
              (Usage ''use --days or --weekdays, not both'')) (\<lambda>_.
            rbind (validate_days (gc_days g)) (\<lambda>days.
            rbind (parse_dates (gc_dates g)) (\<lambda>dates.
            rbind (opt_check parse_ampm (gc_from g)) (\<lambda>_.
            rbind (opt_check parse_ampm (gc_to g)) (\<lambda>_. Inr (days, dates)))))))))
      in case checked of
           Inl e \<Rightarrow> Some (Inl e)
         | Inr (days, dates) \<Rightarrow>
             (let finish = (\<lambda>for_dur. rbind (opt_check (parse_until ca) (gc_until g)) (\<lambda>until.
                Inr \<lparr>gn_allow = allow, gn_once = once, gn_for = for_dur, gn_until = until, gn_days = days,
                     gn_dates = dates, gn_from = gc_from g, gn_to = gc_to g, gn_weekdays = gc_weekdays g,
                     gn_args = args, gn_all = gc_all g\<rparr>))
              in case gc_for g of
                   None \<Rightarrow> Some (finish None)
                 | Some d \<Rightarrow> map_option (\<lambda>r. rbind r (\<lambda>n. finish (Some n))) (parse_duration d)))"

section \<open>Commands\<close>

datatype job_command = JobInspect string | JobOutput string bool | JobRetry string

datatype storage_command = StorageStatus | StoragePrune nat

datatype recovery_command =
    RecoveryList "string option"
  | RecoveryInspect string
  | RecoveryExport string string string
  | RecoveryResolve string string string
  | RecoveryDiscard string string

datatype pin_command =
    PinOn
  | PinOff
  | PinSync string
  | PinConflicts string
  | PinTakePeer string string string
  | PinRecovery recovery_command

datatype cmd =
    CmdAdd string grant_narrow
  | CmdExec string "string list" bool
  | CmdPair "string option" "string option"
  | CmdHands
  | CmdRemove string
  | CmdLog
  | CmdJob job_command
  | CmdStorage storage_command
  | CmdPin pin_command
  | CmdPending
  | CmdAllow string grant_narrow
  | CmdDeny string
  | CmdRequest string string
  | CmdDaemon
  | CmdInstall
  | CmdStatus

text \<open>What clap returns: the global flag and the subcommand.\<close>

datatype commands =
    ComAdd "string option" grant_cli
  | ComPair "string option" "string option"
  | ComHands
  | ComRemove "string option"
  | ComLog
  | ComJob job_command
  | ComStorage storage_command
  | ComPin pin_command
  | ComPending
  | ComAllow string grant_cli
  | ComDeny string
  | ComRequest "string option" "string option"
  | ComDaemon
  | ComInstall
  | ComStatus
  | ComExternal "string list"

definition exec_usage :: "string \<Rightarrow> clix_error" where
  "exec_usage form = Usage (''usage: clix '' @ form @ ellipsis)"

text \<open>\<open>--no-wait\<close> before the destination or between it and the tool.\<close>

definition strip_no_wait :: "string list \<Rightarrow> bool \<Rightarrow> string list \<times> bool" where
  "strip_no_wait parts no_wait =
     (let flag = ''--no-wait'';
          (parts1, nw1) = (case parts of p # ps \<Rightarrow> if p = flag then (ps, True) else (parts, no_wait) | [] \<Rightarrow> (parts, no_wait))
      in case parts1 of
           a # b # rest \<Rightarrow> if b = flag then (a # rest, True) else (parts1, nw1)
         | _ \<Rightarrow> (parts1, nw1))"

text \<open>The two explicit forms: \<open>-- machine tool\<close> and \<open>@machine tool\<close>, each after an optional flag.\<close>

definition explicit_form :: "string list \<Rightarrow> (string list \<times> bool) option" where
  "explicit_form argv = (case tl argv of
     a # rest \<Rightarrow> if a = ''--'' then Some (rest, False)
       else if a = ''--no-wait'' then (case rest of b # rest' \<Rightarrow> if b = ''--'' then Some (rest', True) else None | [] \<Rightarrow> None)
       else None
   | [] \<Rightarrow> None)"

definition starts_at :: "string \<Rightarrow> bool" where
  "starts_at s \<longleftrightarrow> s \<noteq> [] \<and> hd s = CHR ''@''"

definition at_form :: "string list \<Rightarrow> (string \<times> string list \<times> bool) option" where
  "at_form argv = (case tl argv of
     a # rest \<Rightarrow> if starts_at a then Some (tl a, rest, False)
       else if a = ''--no-wait'' then (case rest of b # rest' \<Rightarrow> if starts_at b then Some (tl b, rest', True) else None | [] \<Rightarrow> None)
       else None
   | [] \<Rightarrow> None)"

definition command_of :: "calendar \<Rightarrow> bool \<Rightarrow> commands option \<Rightarrow> cmd res option" where
  "command_of ca no_wait c = (case c of
     None \<Rightarrow> Some (Inl (Usage ''usage: clix <command>''))
   | Some (ComAdd tool g) \<Rightarrow> (case tool of
         None \<Rightarrow> Some (Inl (Usage ''usage: clix add <tool>''))
       | Some t \<Rightarrow> map_option (\<lambda>r. rbind r (\<lambda>n. Inr (CmdAdd t n))) (parse_grant_cli ca g False True))
   | Some (ComPair p n) \<Rightarrow> Some (Inr (CmdPair p n))
   | Some ComHands \<Rightarrow> Some (Inr CmdHands)
   | Some (ComRemove tool) \<Rightarrow> Some (rbind (ok_or tool (Usage ''usage: clix remove <tool>'')) (\<lambda>t. Inr (CmdRemove t)))
   | Some ComLog \<Rightarrow> Some (Inr CmdLog)
   | Some (ComJob j) \<Rightarrow> Some (Inr (CmdJob j))
   | Some (ComStorage st) \<Rightarrow> Some (Inr (CmdStorage st))
   | Some (ComPin p) \<Rightarrow> Some (Inr (CmdPin p))
   | Some ComPending \<Rightarrow> Some (Inr CmdPending)
   | Some (ComAllow i g) \<Rightarrow> map_option (\<lambda>r. rbind r (\<lambda>n.
       if gn_args n \<noteq> None then Inl (Usage ''limit arguments with clix add --only, not when approving a request'')
       else if gn_all n then Inl (Usage (''approving a request grants the requester or an --allow list; '' @
         ''grant every machine with clix add --all''))
       else Inr (CmdAllow i n))) (parse_grant_cli ca g True False)
   | Some (ComDeny i) \<Rightarrow> Some (Inr (CmdDeny i))
   | Some (ComRequest body tool) \<Rightarrow>
       Some (rbind (ok_or body (Usage ''usage: clix request <machine> <tool>'')) (\<lambda>b.
             rbind (ok_or tool (Usage ''usage: clix request <machine> <tool>'')) (\<lambda>t. Inr (CmdRequest b t))))
   | Some ComDaemon \<Rightarrow> Some (Inr CmdDaemon)
   | Some ComInstall \<Rightarrow> Some (Inr CmdInstall)
   | Some ComStatus \<Rightarrow> Some (Inr CmdStatus)
   | Some (ComExternal parts0) \<Rightarrow>
       (let (parts, nw) = strip_no_wait parts0 no_wait
        in Some (case parts of b # a # rest \<Rightarrow> Inr (CmdExec b (a # rest) nw)
                 | _ \<Rightarrow> Inl (exec_usage ''<machine> <cmd>''))))"

definition parse_argv :: "calendar \<Rightarrow> (string list \<Rightarrow> string + (bool \<times> commands option)) \<Rightarrow> string list \<Rightarrow> cmd res option" where
  "parse_argv ca clap argv =
     (case explicit_form argv of
        Some (parts, no_wait) \<Rightarrow> Some (case parts of
            b # a # rest \<Rightarrow> rbind (validate_name b) (\<lambda>_. Inr (CmdExec b (a # rest) no_wait))
          | _ \<Rightarrow> Inl (exec_usage ''[--no-wait] -- <machine> <cmd>''))
      | None \<Rightarrow> (case at_form argv of
          Some (body, tool_argv, no_wait) \<Rightarrow>
            Some (if tool_argv = [] then Inl (exec_usage ''[--no-wait] @<machine> <cmd>'')
                  else rbind (validate_name body) (\<lambda>_. Inr (CmdExec body tool_argv no_wait)))
        | None \<Rightarrow> (case clap argv of
            Inl m \<Rightarrow> Some (Inl (Usage m))
          | Inr (no_wait, c) \<Rightarrow> command_of ca no_wait c)))"

section \<open>Facts about the command line\<close>

text \<open>A duration whose last character is not one byte makes the parser panic: \<open>split_at\<close> cuts inside it.\<close>

lemma duration_panics_iff:
  "parse_duration t = None \<longleftrightarrow> (let s = to_ascii_lowercase (trim t) in 2 \<le> length s \<and> cont_byte (of_char (last s)))"
  by (auto simp: parse_duration_def Let_def not_less)

text \<open>The two explicit forms reach a machine whatever the command names are, and leave the arguments of
  the tool untouched; clap is not asked.\<close>

theorem explicit_forms_verbatim:
  assumes "validate_name b = Inr ()"
  shows "parse_argv ca clap (p # ''--'' # b # a # rest) = Some (Inr (CmdExec b (a # rest) False))"
    and "parse_argv ca clap (p # ''--no-wait'' # ''--'' # b # a # rest) = Some (Inr (CmdExec b (a # rest) True))"
    and "parse_argv ca clap (p # (CHR ''@'' # b) # a # rest) = Some (Inr (CmdExec b (a # rest) False))"
    and "parse_argv ca clap (p # ''--no-wait'' # (CHR ''@'' # b) # a # rest) = Some (Inr (CmdExec b (a # rest) True))"
  using assms by (simp_all add: parse_argv_def explicit_form_def at_form_def starts_at_def)

end
