(* ===== verification/Clix_Owner.thy ===== *)
theory Clix_Owner
  imports Clix_Args Clix_Request Clix_Job Clix_View
begin

text \<open>
  The language of the owner socket (\<open>src/local.rs\<close>): how answers are rendered, how the daemon reads the
  fields of a request, and the requests the command line sends.  The operations behind the socket are
  in \<open>Clix_Rpc\<close>.
\<close>

section \<open>Rendering\<close>

fun weekday_json :: "weekday \<Rightarrow> json" where
  "weekday_json Mon = JStr ''Mon''"
| "weekday_json Tue = JStr ''Tue''"
| "weekday_json Wed = JStr ''Wed''"
| "weekday_json Thu = JStr ''Thu''"
| "weekday_json Fri = JStr ''Fri''"
| "weekday_json Sat = JStr ''Sat''"
| "weekday_json Sun = JStr ''Sun''"

definition padded :: "nat \<Rightarrow> nat \<Rightarrow> string" where
  "padded w n = (let d = decimal n in replicate (w - length d) CHR ''0'' @ d)"

text \<open>A \<open>NaiveTime\<close> as chrono writes it.\<close>

definition time_text :: "nat \<Rightarrow> string" where
  "time_text t =
     (let secs = t div 1000000000; frac = t mod 1000000000
      in padded 2 (secs div 3600) @ '':'' @ padded 2 (secs div 60 mod 60) @ '':'' @ padded 2 (secs mod 60) @
         (if frac = 0 then []
          else if frac mod 1000000 = 0 then ''.'' @ padded 3 (frac div 1000000)
          else if frac mod 1000 = 0 then ''.'' @ padded 6 (frac div 1000)
          else ''.'' @ padded 9 frac))"

definition schedule_json :: "schedule \<Rightarrow> json" where
  "schedule_json sc = JObj [(''days'', JArr (map weekday_json (s_days sc))), (''dates'', JArr (map nat_json (s_dates sc))),
     (''from'', opt_json (\<lambda>t. JStr (time_text t)) (s_from sc)), (''to'', opt_json (\<lambda>t. JStr (time_text t)) (s_to sc))]"

definition grant_json :: "grant \<Rightarrow> json" where
  "grant_json g = JObj ([(''tool'', JStr (g_tool g)), (''binary'', JStr (g_binary g)),
     (''allow_from'', opt_json strs_json (g_allow_from g)), (''once'', JBool (g_once g)),
     (''until'', opt_json nat_json (system_time_ser (g_until g))), (''schedule'', opt_json schedule_json (g_schedule g)),
     (''reservation'', opt_json JStr (g_reservation g))] @
     (case g_args g of None \<Rightarrow> [] | Some ps \<Rightarrow> [(''args'', JArr (map strs_json ps))]))"

definition peer_json :: "peer \<Rightarrow> json" where
  "peer_json p = JObj [(''name'', JStr (p_name p)), (''owner_pk'', bytes_json (p_owner_pk p)),
     (''addr'', opt_json JStr (p_addr p))]"

definition outbound_json :: "outbound_request \<Rightarrow> json" where
  "outbound_json r = JObj [(''id'', JStr (o_id r)), (''body'', JStr (o_body r)), (''tool'', JStr (o_tool r)),
     (''waiting'', JBool (o_waiting r)), (''error'', opt_json JStr (o_error r))]"

definition observation_json :: "observation \<Rightarrow> json" where
  "observation_json ob = JObj [(''invocation'', JStr (ob_invocation ob)), (''role'', role_json (ob_role ob)),
     (''legacy_observer'', opt_json JStr (ob_legacy_observer ob)), (''status'', status_json (ob_status ob))]"

definition view_json :: "view \<Rightarrow> json" where
  "view_json v = JObj [(''job'', job_json (vw_job v)), (''invocation'', opt_json JStr (vw_invocation v)),
     (''retry_of'', opt_json JStr (vw_retry_of v)), (''provenance'', JStr (vw_provenance v)),
     (''output_available'', JBool (vw_output_available v)), (''stdout'', output_ref_json (vw_stdout v)),
     (''stderr'', output_ref_json (vw_stderr v)), (''observations'', JArr (map observation_json (vw_observations v))),
     (''local_warning'', opt_json JStr (vw_local_warning v))]"

definition status_tail :: "job_status \<Rightarrow> string" where
  "status_tail st = (case st of
     Done n \<Rightarrow> ''exit '' @ decimal_int n
   | Denied r \<Rightarrow> ''denied: '' @ r
   | Failed r \<Rightarrow> ''failed: '' @ r
   | Uncertain r \<Rightarrow> ''uncertain: '' @ r
   | WaitingBody \<Rightarrow> ''waiting''
   | WaitingCapacity \<Rightarrow> ''waiting for capacity''
   | Running \<Rightarrow> ''running''
   | Queued \<Rightarrow> ''queued'')"

definition format_line :: "(string \<Rightarrow> string) \<Rightarrow> job \<Rightarrow> string" where
  "format_line debug j = debug (j_id j) @ ''  '' @ j_from j @ '' ['' @ join_with '', '' (map debug (j_argv j)) @ ''] on '' @
     j_body j @ ''  '' @ status_tail (j_status j)"

section \<open>Reading requests\<close>

definition null_or :: "(json \<Rightarrow> bool) \<Rightarrow> json \<Rightarrow> string \<Rightarrow> bool" where
  "null_or ok req k = (case jget req k of None \<Rightarrow> True | Some v \<Rightarrow> v = JNull \<or> ok v)"

fun is_bool :: "json \<Rightarrow> bool" where
  "is_bool (JBool _) = True"
| "is_bool _ = False"

definition is_str :: "json \<Rightarrow> bool" where
  "is_str v \<longleftrightarrow> as_str v \<noteq> None"

definition arr_all :: "(json \<Rightarrow> bool) \<Rightarrow> json \<Rightarrow> bool" where
  "arr_all ok v = (case as_arr v of None \<Rightarrow> False | Some vs \<Rightarrow> list_all ok vs)"

definition date_ok :: "json \<Rightarrow> bool" where
  "date_ok v = (case as_u64 v of None \<Rightarrow> False | Some n \<Rightarrow> 1 \<le> n \<and> n \<le> 31)"

fun first_bad :: "(string \<Rightarrow> bool) \<Rightarrow> string \<Rightarrow> string list \<Rightarrow> unit res" where
  "first_bad ok msg [] = Inr ()"
| "first_bad ok msg (k # ks) = (if \<not> ok k then Inl (Usage (k @ msg)) else first_bad ok msg ks)"

definition validate_grant_fields :: "json \<Rightarrow> unit res" where
  "validate_grant_fields req =
     rbind (first_bad (\<lambda>k. case jget req k of None \<Rightarrow> True | Some v \<Rightarrow> is_bool v) '' must be a boolean''
       [''once'', ''weekdays'']) (\<lambda>_.
     rbind (first_bad (null_or (arr_all is_str) req) '' must be a list of strings'' [''allow'', ''days'']) (\<lambda>_.
     rbind (ensure (null_or (arr_all date_ok) req ''dates'')
       (Usage (''dates must be a list of dates 1'' @ en_dash @ ''31''))) (\<lambda>_.
     rbind (first_bad (null_or (\<lambda>v. as_u64 v \<noteq> None) req) '' must be a nonnegative integer'' [''for_secs'', ''until'']) (\<lambda>_.
     rbind (first_bad (null_or is_str req) '' must be a time'' [''from'', ''to'']) (\<lambda>_.
     ensure (null_or (arr_all (arr_all is_str)) req ''args'') (Usage ''args must be a list of argument lists''))))))"

definition json_string_list :: "json option \<Rightarrow> string list" where
  "json_string_list v = (case v of
     Some (JArr vs) \<Rightarrow> List.map_filter as_str vs
   | Some (JStr s) \<Rightarrow> [s]
   | _ \<Rightarrow> [])"

definition flag :: "json \<Rightarrow> string \<Rightarrow> bool \<Rightarrow> bool" where
  "flag req k d = (case Option.bind (jget req k) as_bool of Some b \<Rightarrow> b | None \<Rightarrow> d)"

text \<open>\<open>SystemTime::checked_add\<close> of whole seconds: the seconds stay within 64 signed bits.\<close>

definition add_secs :: "int \<Rightarrow> nat \<Rightarrow> int option" where
  "add_secs t n = (if t div ns_per_sec + int n < 2 ^ 63 then Some (t + int n * ns_per_sec) else None)"

definition rpc_until :: "int \<Rightarrow> json \<Rightarrow> int option res" where
  "rpc_until now req = (case ju64 req ''for_secs'' of
     Some n \<Rightarrow> rbind (ok_or (add_secs now n) (Usage ''grant duration is out of range'')) (\<lambda>t. Inr (Some t))
   | None \<Rightarrow> (case ju64 req ''until'' of
       Some n \<Rightarrow> rbind (ok_or (add_secs 0 n) (Usage ''grant expiry is out of range'')) (\<lambda>t. Inr (Some t))
     | None \<Rightarrow> Inr None))"

definition parse_weekday :: "string \<Rightarrow> weekday res" where
  "parse_weekday s =
     (let d = to_ascii_lowercase (trim s)
      in if d = ''mon'' then Inr Mon else if d = ''tue'' then Inr Tue else if d = ''wed'' then Inr Wed
         else if d = ''thu'' then Inr Thu else if d = ''fri'' then Inr Fri else if d = ''sat'' then Inr Sat
         else if d = ''sun'' then Inr Sun else Inl (unknown_weekday s))"

fun map_r :: "('a \<Rightarrow> 'b res) \<Rightarrow> 'a list \<Rightarrow> 'b list res" where
  "map_r f [] = Inr []"
| "map_r f (x # xs) = rbind (f x) (\<lambda>y. rbind (map_r f xs) (\<lambda>ys. Inr (y # ys)))"

definition rpc_day :: "json \<Rightarrow> weekday res" where
  "rpc_day d = rbind (ok_or (as_str d) (Usage ''unknown weekday (use mon..sun)'')) parse_weekday"

definition rpc_date :: "(json \<Rightarrow> string) \<Rightarrow> json \<Rightarrow> nat res" where
  "rpc_date show_json d = (case as_u64 d of
     None \<Rightarrow> Inl (bad_date (show_json d))
   | Some n \<Rightarrow> if \<not> (1 \<le> n \<and> n \<le> 31) then Inl (bad_date (decimal n)) else Inr n)"

definition rpc_schedule :: "(json \<Rightarrow> string) \<Rightarrow> json \<Rightarrow> schedule option res" where
  "rpc_schedule show_json req =
     (let weekdays = flag req ''weekdays'' False; day_vals = Option.bind (jget req ''days'') as_arr
      in if weekdays \<and> (case day_vals of Some a \<Rightarrow> a \<noteq> [] | None \<Rightarrow> False)
         then Inl (Usage ''use --days or --weekdays, not both'')
         else rbind (map_r rpc_day (case day_vals of Some a \<Rightarrow> a | None \<Rightarrow> [])) (\<lambda>named.
           let days = (if weekdays then [Mon, Tue, Wed, Thu, Fri] else []) @ named
           in rbind (map_r (rpc_date show_json) (case Option.bind (jget req ''dates'') as_arr of Some a \<Rightarrow> a | None \<Rightarrow> [])) (\<lambda>dates.
              rbind (opt_check parse_ampm_naive (jstr req ''from'')) (\<lambda>from.
              rbind (opt_check parse_ampm_naive (jstr req ''to'')) (\<lambda>to.
              if days = [] \<and> dates = [] \<and> from = None \<and> to = None then Inr None
              else Inr (Some \<lparr>s_days = days, s_dates = dates, s_from = from, s_to = to\<rparr>))))))"

section \<open>Requests of the command line\<close>

text \<open>\<open>pin_owner::request\<close>.\<close>

fun recovery_request :: "recovery_command \<Rightarrow> json" where
  "recovery_request (RecoveryList after) = JObj [(''op'', JStr ''pin_recovery_list''), (''after'', opt_json JStr after)]"
| "recovery_request (RecoveryInspect i) = JObj [(''op'', JStr ''pin_recovery_inspect''), (''id'', JStr i)]"
| "recovery_request (RecoveryExport i version token) = JObj [(''op'', JStr ''pin_recovery_export''), (''id'', JStr i),
     (''version'', JStr version), (''token'', JStr token)]"
| "recovery_request (RecoveryResolve i choice token) = JObj [(''op'', JStr ''pin_recovery_resolve''), (''id'', JStr i),
     (''choice'', JStr (map (\<lambda>c. if c = CHR ''-'' then CHR ''_'' else c) choice)), (''token'', JStr token)]"
| "recovery_request (RecoveryDiscard i token) = JObj [(''op'', JStr ''pin_recovery_discard''), (''id'', JStr i), (''token'', JStr token)]"

fun pin_request :: "pin_command \<Rightarrow> json" where
  "pin_request PinOn = JObj [(''op'', JStr ''pin_on'')]"
| "pin_request PinOff = JObj [(''op'', JStr ''pin_off'')]"
| "pin_request (PinSync body) = JObj [(''op'', JStr ''pin_sync''), (''body'', JStr body)]"
| "pin_request (PinConflicts body) = JObj [(''op'', JStr ''pin_conflicts''), (''body'', JStr body)]"
| "pin_request (PinTakePeer body path token) = JObj [(''op'', JStr ''pin_take_peer''), (''body'', JStr body),
     (''path'', JStr path), (''token'', JStr token)]"
| "pin_request (PinRecovery c) = recovery_request c"

definition system_time_secs :: "int \<Rightarrow> nat" where
  "system_time_secs t = (if t < 0 then 0 else nat (t div ns_per_sec))"

text \<open>The fields a new grant and an approval share.\<close>

definition narrow_fields :: "grant_narrow \<Rightarrow> (string \<times> json) list" where
  "narrow_fields n = [(''allow'', strs_json (gn_allow n)), (''once'', JBool (gn_once n)),
     (''for_secs'', opt_json nat_json (gn_for n)), (''until'', opt_json nat_json (map_option system_time_secs (gn_until n))),
     (''days'', strs_json (gn_days n)), (''dates'', JArr (map nat_json (gn_dates n))),
     (''from'', opt_json JStr (gn_from n)), (''to'', opt_json JStr (gn_to n)), (''weekdays'', JBool (gn_weekdays n))]"

fun rpc_from_cmd :: "host \<Rightarrow> cmd \<Rightarrow> json res" where
  "rpc_from_cmd h (CmdAdd tool n) = rbind (resolve_tool h tool) (\<lambda>t. Inr (JObj ([(''op'', JStr ''add''), (''tool'', JStr t)] @
     narrow_fields n @ [(''args'', opt_json (\<lambda>ps. JArr (map strs_json ps)) (gn_args n))])))"
| "rpc_from_cmd h CmdHands = Inr (JObj [(''op'', JStr ''hands'')])"
| "rpc_from_cmd h (CmdRemove tool) = rbind (removal_target h tool) (\<lambda>t. Inr (JObj [(''op'', JStr ''remove''), (''tool'', JStr t)]))"
| "rpc_from_cmd h (CmdExec body argv no_wait) = Inr (JObj [(''op'', JStr ''exec''), (''body'', JStr body),
     (''argv'', strs_json argv), (''no_wait'', JBool no_wait)])"
| "rpc_from_cmd h (CmdPair None name) = Inr (JObj [(''op'', JStr ''pair_start''), (''name'', opt_json JStr name)])"
| "rpc_from_cmd h (CmdPair (Some ph) name) = Inr (JObj [(''op'', JStr ''pair_join''), (''phrase'', JStr ph),
     (''name'', opt_json JStr name)])"
| "rpc_from_cmd h CmdLog = Inr (JObj [(''op'', JStr ''log'')])"
| "rpc_from_cmd h (CmdJob (JobInspect i)) = Inr (JObj [(''op'', JStr ''job_inspect''), (''job_id'', JStr i)])"
| "rpc_from_cmd h (CmdJob (JobOutput i err)) = Inr (JObj [(''op'', JStr ''job_output''), (''job_id'', JStr i), (''stderr'', JBool err)])"
| "rpc_from_cmd h (CmdJob (JobRetry i)) = Inr (JObj [(''op'', JStr ''job_retry''), (''job_id'', JStr i)])"
| "rpc_from_cmd h (CmdStorage StorageStatus) = Inr (JObj [(''op'', JStr ''storage_status'')])"
| "rpc_from_cmd h (CmdStorage (StoragePrune keep)) = Inr (JObj [(''op'', JStr ''storage_prune''), (''keep_output_jobs'', nat_json keep)])"
| "rpc_from_cmd h (CmdPin c) = Inr (pin_request c)"
| "rpc_from_cmd h CmdPending = Inr (JObj [(''op'', JStr ''pending'')])"
| "rpc_from_cmd h (CmdAllow i n) = Inr (JObj ([(''op'', JStr ''allow_request''), (''request_id'', JStr i)] @ narrow_fields n))"
| "rpc_from_cmd h (CmdDeny i) = Inr (JObj [(''op'', JStr ''deny_request''), (''request_id'', JStr i)])"
| "rpc_from_cmd h (CmdRequest body tool) = Inr (JObj [(''op'', JStr ''request''), (''body'', JStr body), (''tool'', JStr tool)])"
| "rpc_from_cmd h CmdStatus = Inr (JObj [(''op'', JStr ''status'')])"
| "rpc_from_cmd h CmdDaemon = Inl (Usage ''not a client command'')"
| "rpc_from_cmd h CmdInstall = Inl (Usage ''not a client command'')"

section \<open>What the owner typed is what the daemon reads\<close>

fun day_name :: "weekday \<Rightarrow> string" where
  "day_name Mon = ''mon''"
| "day_name Tue = ''tue''"
| "day_name Wed = ''wed''"
| "day_name Thu = ''thu''"
| "day_name Fri = ''fri''"
| "day_name Sat = ''sat''"
| "day_name Sun = ''sun''"

text \<open>The days, dates and times of a grant as typed: lower-case day names, dates of a month, and the
  minutes the am/pm texts stand for.\<close>

definition typed_days :: "grant_narrow \<Rightarrow> string list" where
  "typed_days n = (if gn_weekdays n then [''mon'', ''tue'', ''wed'', ''thu'', ''fri''] else []) @ gn_days n"

definition typed_time :: "string option \<Rightarrow> nat option" where
  "typed_time t = (case opt_check parse_ampm t of Inr m \<Rightarrow> map_option (\<lambda>x. x * ns_per_minute) m | Inl _ \<Rightarrow> None)"

definition typed_schedule :: "grant_narrow \<Rightarrow> schedule option \<Rightarrow> bool" where
  "typed_schedule n sched = (case sched of
       None \<Rightarrow> typed_days n = [] \<and> gn_dates n = [] \<and> gn_from n = None \<and> gn_to n = None
     | Some sc \<Rightarrow> map day_name (s_days sc) = typed_days n \<and> s_dates sc = gn_dates n \<and>
         s_from sc = typed_time (gn_from n) \<and> s_to sc = typed_time (gn_to n))"

lemma day_name_known: "List.member day_names (day_name d)"
  by (cases d) (simp_all add: day_names_def)

lemma trim_plain: "\<forall>c \<in> set s. 97 \<le> (of_char c :: nat) \<and> (of_char c :: nat) \<le> 122 \<Longrightarrow> trim s = s"
proof -
  assume plain: "\<forall>c \<in> set s. 97 \<le> (of_char c :: nat) \<and> (of_char c :: nat) \<le> 122"
  have start: "drop_ws t = None \<and> drop_ws_end t = None" if "\<forall>c \<in> set t. 97 \<le> (of_char c :: nat) \<and> (of_char c :: nat) \<le> 122" for t
    using that by (cases t) (auto simp: ws1_def ws2_def ws3_def split: list.splits)
  have "trim_start s = s" using start [OF plain] by (simp add: trim_start.simps)
  moreover have "trim_end_rev (rev s) = rev s" using start [of "rev s"] plain by (simp add: trim_end_rev.simps)
  ultimately show ?thesis by (simp add: trim_def)
qed

lemma day_text: "List.member day_names d \<Longrightarrow> trim d = d \<and> to_ascii_lowercase d = d"
  by (auto simp: day_names_def intro!: trim_plain) (simp_all add: to_ascii_lowercase_def lower_char_def Let_def char_of_def)

lemma parse_weekday_name: "List.member day_names d \<Longrightarrow> \<exists>w. parse_weekday d = Inr w \<and> day_name w = d"
  using day_text [of d] by (auto simp: parse_weekday_def day_names_def)

text \<open>What the checks of the command line guarantee of a parsed grant.\<close>

definition narrow_ok :: "grant_narrow \<Rightarrow> bool" where
  "narrow_ok n \<longleftrightarrow> list_all (List.member day_names) (gn_days n) \<and> list_all (\<lambda>d. 1 \<le> d \<and> d \<le> 31) (gn_dates n) \<and>
     (gn_weekdays n \<longrightarrow> gn_days n = []) \<and> (\<exists>m. opt_check parse_ampm (gn_from n) = Inr m) \<and>
     (\<exists>m. opt_check parse_ampm (gn_to n) = Inr m) \<and> (\<forall>k. gn_for n = Some k \<longrightarrow> k \<le> u64_max)"

lemma validate_days_known: "validate_days ds = Inr r \<Longrightarrow> list_all (List.member day_names) r"
  by (induction ds arbitrary: r) (auto simp: Let_def result_simps split: if_splits)

lemma parse_dates_range: "parse_dates ds = Inr r \<Longrightarrow> list_all (\<lambda>d. 1 \<le> d \<and> d \<le> 31) r"
  by (induction ds arbitrary: r) (auto simp: result_simps split: if_splits option.splits)

lemma parse_uint_le: "parse_uint mx s = Some n \<Longrightarrow> n \<le> mx"
  by (auto simp: parse_uint_def Let_def split: if_splits)

lemma parse_duration_le: "parse_duration s = Some (Inr n) \<Longrightarrow> n \<le> u64_max"
  by (auto simp: parse_duration_def Let_def parse_uint_le split: if_splits option.splits)

lemma parse_grant_narrow:
  assumes "parse_grant_cli ca g d r = Some (Inr n)"
  shows "narrow_ok n"
  using assms
  by (auto simp: narrow_ok_def parse_grant_cli_def Let_def result_simps split: sum.splits prod.splits option.splits
      dest: parse_duration_le validate_days_known parse_dates_range)

text \<open>A request that carries the fields of a parsed grant.\<close>

definition carries :: "grant_narrow \<Rightarrow> json \<Rightarrow> bool" where
  "carries n req \<longleftrightarrow> (\<forall>k \<in> fst ` set (narrow_fields n). jget req k = map_of (narrow_fields n) k)"

lemma carried:
  assumes "carries n req"
  shows "jget req ''allow'' = Some (strs_json (gn_allow n))"
    "jget req ''once'' = Some (JBool (gn_once n))"
    "jget req ''for_secs'' = Some (opt_json nat_json (gn_for n))"
    "jget req ''until'' = Some (opt_json nat_json (map_option system_time_secs (gn_until n)))"
    "jget req ''days'' = Some (strs_json (gn_days n))"
    "jget req ''dates'' = Some (JArr (map nat_json (gn_dates n)))"
    "jget req ''from'' = Some (opt_json JStr (gn_from n))"
    "jget req ''to'' = Some (opt_json JStr (gn_to n))"
    "jget req ''weekdays'' = Some (JBool (gn_weekdays n))"
  using assms by (simp_all add: carries_def narrow_fields_def)

lemma strs_all: "arr_all is_str (strs_json ss)"
  by (simp add: arr_all_def strs_json_def is_str_def list_all_iff)

lemma carried_fields:
  assumes c: "carries n req" and ok: "narrow_ok n"
    and secs: "\<forall>t. gn_until n = Some t \<longrightarrow> system_time_secs t \<le> u64_max"
    and args: "jget req ''args'' = None \<or> jget req ''args'' = Some (opt_json (\<lambda>ps. JArr (map strs_json ps)) a)"
  shows "validate_grant_fields req = Inr ()"
proof -
  have "null_or (arr_all is_str) req ''allow''" "null_or (arr_all is_str) req ''days''"
    by (simp_all add: null_or_def carried [OF c] strs_all)
  moreover have "null_or (arr_all date_ok) req ''dates''"
    using ok by (auto simp: null_or_def carried [OF c] arr_all_def date_ok_def narrow_ok_def list_all_iff u64_max_def
        nat_json_def)
  moreover have "null_or (\<lambda>v. as_u64 v \<noteq> None) req ''for_secs''" "null_or (\<lambda>v. as_u64 v \<noteq> None) req ''until''"
    using ok secs by (auto simp: null_or_def carried [OF c] opt_json_def narrow_ok_def nat_round split: option.splits)
  moreover have "null_or is_str req ''from''" "null_or is_str req ''to''"
    by (auto simp: null_or_def carried [OF c] opt_json_def is_str_def split: option.splits)
  moreover have "null_or (arr_all (arr_all is_str)) req ''args''"
    using args by (auto simp: null_or_def opt_json_def arr_all_def [of "arr_all is_str"] list_all_iff strs_all split: option.splits)
  ultimately show ?thesis
    by (simp add: validate_grant_fields_def carried [OF c] ensure_def)
qed

lemma carried_values:
  assumes c: "carries n req"
  shows "json_string_list (jget req ''allow'') = gn_allow n" "flag req ''once'' d = gn_once n"
    "flag req ''weekdays'' d = gn_weekdays n"
proof -
  have "List.map_filter as_str (map JStr ss) = ss" for ss by (induction ss) simp_all
  then show "json_string_list (jget req ''allow'') = gn_allow n"
    by (simp add: carried [OF c] json_string_list_def strs_json_def)
qed (simp_all add: carried [OF c] flag_def)

lemma map_r_days:
  assumes "list_all (List.member day_names) ds"
  shows "\<exists>ws. map_r rpc_day (map JStr ds) = Inr ws \<and> map day_name ws = ds"
  using assms
proof (induction ds)
  case (Cons d ds)
  then obtain ws where ws: "map_r rpc_day (map JStr ds) = Inr ws" "map day_name ws = ds" by auto
  moreover obtain w where "parse_weekday d = Inr w" "day_name w = d"
    using Cons.prems parse_weekday_name [of d] by auto
  ultimately have "rpc_day (JStr d) = Inr w" by (simp add: rpc_day_def ok_or_def)
  with ws \<open>day_name w = d\<close> show ?case by simp
qed simp

lemma map_r_dates:
  assumes "list_all (\<lambda>d. 1 \<le> d \<and> d \<le> 31) ds"
  shows "map_r (rpc_date sh) (map nat_json ds) = Inr ds"
  using assms by (induction ds) (auto simp: rpc_date_def u64_max_def nat_json_def)

lemma ampm_in_day: "parse_ampm s = Inr m \<Longrightarrow> m div 60 < 24"
  by (auto simp: parse_ampm_def Let_def result_simps split: option.splits if_splits)

lemma carried_time:
  assumes "opt_check parse_ampm t = Inr m" and "v = opt_json JStr t"
  shows "opt_check parse_ampm_naive (as_str v) = Inr (typed_time t)"
  using assms ampm_in_day
  by (auto simp: opt_check_def opt_json_def typed_time_def parse_ampm_naive_def result_simps split: option.splits)

lemma carried_schedule:
  assumes c: "carries n req" and ok: "narrow_ok n"
  shows "\<exists>sched. rpc_schedule sh req = Inr sched \<and> typed_schedule n sched"
proof -
  from ok obtain ws where ws: "map_r rpc_day (map JStr (gn_days n)) = Inr ws" "map day_name ws = gn_days n"
    using map_r_days unfolding narrow_ok_def by blast
  have dates: "map_r (rpc_date sh) (map nat_json (gn_dates n)) = Inr (gn_dates n)"
    using ok map_r_dates unfolding narrow_ok_def by blast
  have times: "opt_check parse_ampm_naive (jstr req ''from'') = Inr (typed_time (gn_from n))"
    "opt_check parse_ampm_naive (jstr req ''to'') = Inr (typed_time (gn_to n))"
    using ok carried_time unfolding narrow_ok_def jstr_def by (fastforce simp: carried [OF c])+
  have none: "typed_time t = None \<longleftrightarrow> t = None" if "\<exists>m. opt_check parse_ampm t = Inr m" for t
    using that by (auto simp: typed_time_def opt_check_def result_simps split: option.splits)
  let ?days = "(if gn_weekdays n then [Mon, Tue, Wed, Thu, Fri] else []) @ ws"
  have days: "map day_name ?days = typed_days n" by (simp add: typed_days_def ws)
  then have empty: "?days = [] \<longleftrightarrow> typed_days n = []" by (metis map_is_Nil_conv)
  have "rpc_schedule sh req = Inr (if ?days = [] \<and> gn_dates n = [] \<and> typed_time (gn_from n) = None \<and>
      typed_time (gn_to n) = None then None
    else Some \<lparr>s_days = ?days, s_dates = gn_dates n, s_from = typed_time (gn_from n), s_to = typed_time (gn_to n)\<rparr>)"
    using ok ws(2) by (auto simp: rpc_schedule_def carried [OF c] carried_values [OF c] strs_json_def ws(1) dates times
        narrow_ok_def)
  then show ?thesis
    using days empty none ok by (auto simp: typed_schedule_def narrow_ok_def)
qed

lemma carried_until:
  assumes c: "carries n req" and ok: "narrow_ok n"
    and "\<forall>k. gn_for n = Some k \<longrightarrow> now div ns_per_sec + int k < 2 ^ 63"
    and "\<forall>t. gn_until n = Some t \<longrightarrow> system_time_secs t < 2 ^ 63"
  shows "rpc_until now req = Inr (case gn_for n of Some k \<Rightarrow> Some (now + int k * ns_per_sec)
    | None \<Rightarrow> map_option (\<lambda>t. int (system_time_secs t) * ns_per_sec) (gn_until n))"
proof (cases "gn_for n")
  case None
  have "n < 2 ^ 63 \<Longrightarrow> as_u64 (nat_json n) = Some n \<and> add_secs 0 n = Some (int n * ns_per_sec)" for n
    by (simp add: add_secs_def nat_json_def u64_max_def)
  with None assms(4) show ?thesis
    by (auto simp: rpc_until_def ju64_def carried [OF c] opt_json_def ok_or_def split: option.splits)
next
  case (Some k)
  with ok have "as_u64 (nat_json k) = Some k" by (simp add: narrow_ok_def nat_json_def)
  with Some assms(3) show ?thesis
    by (simp add: rpc_until_def ju64_def carried [OF c] opt_json_def add_secs_def ok_or_def)
qed

end
