(* ===== verification/Clix_Rpc.thy ===== *)
theory Clix_Rpc
  imports Clix_Owner
begin

text \<open>
  The operations behind the owner socket (\<open>src/local.rs\<close>): the daemon's handlers, the connection they
  answer on, and what the client makes of the answers.  An \<open>owner_env\<close> holds what a request meets:
  the file system, the clock, randomness, serde's error texts, the outcomes of writing to the socket,
  what other tasks do to the state between two lock regions (\<open>ow_others\<close>), how often the handler can
  look at the state before the client sends more or leaves (\<open>ow_polls\<close>), the tree operations of
  \<open>src/pin.rs\<close> and the machines that can be dialled.
\<close>

record owner_env =
  ow_host :: host
  ow_pair :: pair_env
  ow_now :: int
  ow_random :: "bytes res"
  ow_debug :: "string \<Rightarrow> string"
  ow_show :: "json \<Rightarrow> string"
  ow_decode_error :: "json \<Rightarrow> string"
  ow_parse :: "string \<Rightarrow> string + json"
  ow_others :: "nat \<Rightarrow> node \<Rightarrow> node"
  ow_polls :: nat
  ow_write :: "nat \<Rightarrow> unit res"
  ow_pin_root :: "unit res"
  ow_pin :: "json \<Rightarrow> node \<Rightarrow> json res \<times> node"
  ow_export :: "json \<Rightarrow> node \<Rightarrow> unit res"
  ow_phrase :: string
  ow_dial :: "string \<Rightarrow> wire res"
  ow_online :: "(string \<times> wire res) list"
  ow_sync :: "peer \<Rightarrow> node \<Rightarrow> unit res \<times> node"
  ow_listened :: "peer res option"

text \<open>The sidecar as the socket sees it.\<close>

record sidecar =
  sc_node :: node
  sc_limits :: limits
  sc_mesh :: mesh_handle

definition answer :: "('a \<Rightarrow> json) \<Rightarrow> 'a res \<times> node \<Rightarrow> json res \<times> node" where
  "answer f r = (rbind (fst r) (\<lambda>x. Inr (f x)), snd r)"

definition is_right :: "'a res \<Rightarrow> bool" where
  "is_right r = (case r of Inr _ \<Rightarrow> True | Inl _ \<Rightarrow> False)"

definition ok_json :: "(string \<times> json) list \<Rightarrow> json" where
  "ok_json kvs = JObj ((''ok'', JBool True) # kvs)"

section \<open>Grants and requests\<close>

definition rpc_args :: "owner_env \<Rightarrow> json \<Rightarrow> string list list option res" where
  "rpc_args en req = (case jget req ''args'' of
       None \<Rightarrow> Inr None
     | Some v \<Rightarrow> if v = JNull then Inr None
         else rbind (ok_or (as_list (as_list as_str) v) (Json (ow_decode_error en v))) (\<lambda>ps. Inr (Some ps)))"

definition rpc_add :: "owner_env \<Rightarrow> ctx \<Rightarrow> json \<Rightarrow> node \<Rightarrow> json res \<times> node" where
  "rpc_add en cx req nd =
     (case rbind (validate_grant_fields req) (\<lambda>_.
           rbind (ok_or (jstr req ''tool'') (Usage ''usage: clix add <tool>'')) (\<lambda>tool.
           rbind (rpc_until (ow_now en) req) (\<lambda>until.
           rbind (rpc_schedule (ow_show en) req) (\<lambda>sched.
           rbind (rpc_args en req) (\<lambda>args. Inr (tool, until, sched, args)))))) of
        Inl e \<Rightarrow> (Inl e, nd)
      | Inr (tool, until, sched, args) \<Rightarrow>
          answer (\<lambda>g. ok_json [(''tool'', JStr (g_tool g))])
            (update cx (add_with_args (ow_host en) tool (json_string_list (jget req ''allow'')) (flag req ''once'' False)
               until sched args) nd))"

definition rpc_hands :: "store \<Rightarrow> json" where
  "rpc_hands s = JObj [(''hands'', JArr (map grant_json (hands s)))]"

definition rpc_remove :: "owner_env \<Rightarrow> ctx \<Rightarrow> json \<Rightarrow> node \<Rightarrow> json res \<times> node" where
  "rpc_remove en cx req nd = (case jstr req ''tool'' of
       None \<Rightarrow> (Inl (Usage ''usage: clix remove <tool>''), nd)
     | Some tool \<Rightarrow> answer (\<lambda>_. ok_json []) (update cx (remove_grant (ow_host en) tool) nd))"

definition rpc_pending :: "store \<Rightarrow> json" where
  "rpc_pending s = ok_json [(''requests'', JArr (map request_json (pending s)))]"

definition request_id :: "json \<Rightarrow> string res" where
  "request_id req = (case jstr req ''request_id'' of
       Some i \<Rightarrow> if i \<noteq> [] then Inr i else Inl (Usage ''provide a request ID from clix pending'')
     | None \<Rightarrow> Inl (Usage ''provide a request ID from clix pending''))"

definition rpc_allow :: "owner_env \<Rightarrow> ctx \<Rightarrow> json \<Rightarrow> node \<Rightarrow> json res \<times> node" where
  "rpc_allow en cx req nd =
     (case rbind (request_id req) (\<lambda>i.
           rbind (validate_grant_fields req) (\<lambda>_.
           rbind (rpc_until (ow_now en) req) (\<lambda>until.
           rbind (rpc_schedule (ow_show en) req) (\<lambda>sched. Inr (i, until, sched))))) of
        Inl e \<Rightarrow> (Inl e, nd)
      | Inr (i, until, sched) \<Rightarrow>
          (let allow = json_string_list (jget req ''allow'');
               sc = (if allow = [] then Requester else Bodies allow)
           in answer (\<lambda>g. ok_json [(''request_id'', JStr i), (''grant'', opt_json grant_json g)])
                (update cx (decide (ow_host en) i (Allow sc (flag req ''once'' True) until sched)) nd)))"

definition rpc_deny :: "owner_env \<Rightarrow> ctx \<Rightarrow> json \<Rightarrow> node \<Rightarrow> json res \<times> node" where
  "rpc_deny en cx req nd = (case request_id req of
       Inl e \<Rightarrow> (Inl e, nd)
     | Inr i \<Rightarrow> answer (\<lambda>_. ok_json [(''request_id'', JStr i)]) (update cx (decide (ow_host en) i Deny) nd))"

section \<open>History\<close>

definition log_line :: "owner_env \<Rightarrow> view \<Rightarrow> string" where
  "log_line en v = format_line (ow_debug en) (vw_job v) @
     (if take 6 (vw_provenance v) = ''legacy'' \<or> vw_invocation v = None then ''  ['' @ vw_provenance v @ '']'' else []) @
     (if \<not> vw_output_available v then ''  [output no longer retained]'' else []) @
     (if vw_local_warning v \<noteq> None then ''  [local uncertainty has not been saved]'' else [])"

definition rpc_log :: "owner_env \<Rightarrow> crypto \<Rightarrow> store \<Rightarrow> json" where
  "rpc_log en cr s = (let vs = views cr s in
     JObj [(''jobs'', JArr (map (\<lambda>v. job_json (vw_job v)) vs)), (''views'', JArr (map view_json vs)),
       (''lines'', strs_json (map (log_line en) vs)), (''history'', diagnostics s)])"

definition rpc_job_id :: "json \<Rightarrow> string res" where
  "rpc_job_id req = rbind (ok_or (jstr req ''job_id'') (Usage ''provide a job ID from clix log'')) (\<lambda>i.
     rbind (limits_identifier i) (\<lambda>_. Inr i))"

definition inspected :: "crypto \<Rightarrow> store \<Rightarrow> string \<Rightarrow> view res" where
  "inspected cr s i = (case views_for_job cr s i of
       [] \<Rightarrow> Inl (Usage (''job is not in this machine'' @ [CHR 0x27] @ ''s saved history''))
     | v # rest \<Rightarrow> if rest \<noteq> []
         then Inl (Usage ''job ID has conflicting invocations; inspect the history evidence before acting'')
         else Inr v)"

fun job_explanation :: "job_status \<Rightarrow> string" where
  "job_explanation Queued = ''Saved locally and awaiting delivery or execution.''"
| "job_explanation WaitingBody =
     ''The named machine is unreachable. This saved ID will be retried when it returns.''"
| "job_explanation WaitingCapacity =
     ''Execution capacity is full. This saved ID will be retried and the grant checked again before execution.''"
| "job_explanation Running =
     ''The runner accepted this job; a terminal outcome has not been recorded here.''"
| "job_explanation (Done _) =
     ''The runner recorded the exit status. Saved output may be retrieved while retained.''"
| "job_explanation (Denied _) = ''The tool was not admitted under the runner'' @ [CHR 0x27] @
     ''s current grant. Permission must be granted on that machine.''"
| "job_explanation (Failed _) =
     ''Inspect the recorded reason and provenance. A delivery failure does not prove that a remote process had no effects.''"
| "job_explanation (Uncertain _) = ''The command may have taken effect. Clix will not rerun it automatically. '' @
     ''Inspect its effects before a new attempt; any single-use reservation remains in place.''"

definition rpc_job_inspect :: "crypto \<Rightarrow> json \<Rightarrow> store \<Rightarrow> json res" where
  "rpc_job_inspect cr req s = rbind (rpc_job_id req) (\<lambda>i. rbind (inspected cr s i) (\<lambda>v.
     Inr (JObj [(''explanation'', JStr (job_explanation (j_status (vw_job v)))), (''view'', view_json v),
       (''history'', diagnostics s), (''storage'', storage_status s)])))"

definition rpc_job_output :: "crypto \<Rightarrow> json \<Rightarrow> store \<Rightarrow> json res" where
  "rpc_job_output cr req s = rbind (rpc_job_id req) (\<lambda>i. rbind (inspected cr s i) (\<lambda>v.
     if \<not> is_terminal (j_status (vw_job v))
     then Inl (Usage ''this job has no saved terminal output yet; inspect its status first'')
     else if \<not> vw_output_available v
     then Inl (Usage (''this job'' @ [CHR 0x27] @
       ''s output is no longer retained; its outcome and output digests remain in history''))
     else Inr (JObj [(''bytes'', bytes_json (if flag req ''stderr'' False then j_stderr (vw_job v) else j_stdout (vw_job v)))])))"

text \<open>\<open>others 0\<close> runs between reading the old row and adding the new one.\<close>

definition rpc_job_retry :: "owner_env \<Rightarrow> ctx \<Rightarrow> json \<Rightarrow> node \<Rightarrow> json res \<times> node" where
  "rpc_job_retry en cx req nd =
     (case rbind (rpc_job_id req) (\<lambda>i.
           rbind (ok_or (List.find (\<lambda>j. j_id j = i \<and> j_from j = st_body_name (fst nd)) (st_jobs (fst nd)))
             (Usage ''retry this job on its originating machine'')) (\<lambda>old.
           if \<not> is_terminal (j_status old)
           then Inl (Usage ''the original job is still pending or running; a retry would be another execution'')
           else Inr old)) of
        Inl e \<Rightarrow> (Inl e, nd)
      | Inr old \<Rightarrow>
          answer (\<lambda>j. ok_json [(''job_id'', JStr (j_id j))])
            (append_retry cx (ow_random en) (j_from old) (j_body old) (j_argv old) Queued (Some (j_id old))
              (ow_others en 0 nd)))"

definition rpc_status :: "mesh_handle \<Rightarrow> store \<Rightarrow> json" where
  "rpc_status mh s = JObj [(''body'', JStr (st_body_name s)), (''peers'', JArr (map peer_json (st_peers s))),
     (''pin_enabled'', JBool (st_pin_enabled s)), (''mesh_addr'', JStr (mh_addr mh)),
     (''outbound_requests'', JArr (map outbound_json (st_outbound_requests s))),
     (''history'', diagnostics s), (''storage'', storage_status s)]"

definition rpc_storage_prune :: "ctx \<Rightarrow> json \<Rightarrow> node \<Rightarrow> json res \<times> node" where
  "rpc_storage_prune cx req nd = (case ju64 req ''keep_output_jobs'' of
       None \<Rightarrow> (Inl (Usage ''missing output retention count''), nd)
     | Some keep \<Rightarrow> (case update cx (prune keep) nd of (r, nd') \<Rightarrow>
         (rbind r (\<lambda>removed. Inr (ok_json [(''output_bytes_removed'', nat_json removed),
            (''storage'', storage_status (fst nd'))])), nd')))"

section \<open>Running a tool\<close>

datatype exec_end = Answered | Refused clix_error | Cancelled

definition pruned_reply :: "string \<Rightarrow> clix_error" where
  "pruned_reply i = Usage (''job '' @ i @ '' completed but its saved output is no longer retained; use clix job inspect '' @ i)"

text \<open>The replies written, and the state at the end.  Every look at the job takes the lock several
  times; \<open>k\<close> counts the lock regions.  When the client sends more or leaves, the wait is dropped.\<close>

fun exec_poll :: "owner_env \<Rightarrow> bool \<Rightarrow> string \<Rightarrow> nat \<Rightarrow> nat \<Rightarrow> bool \<Rightarrow> json list \<Rightarrow> node \<Rightarrow> exec_end \<times> json list \<times> node" where
  "exec_poll en no_wait i 0 k reported out nd = (Cancelled, out, nd)"
| "exec_poll en no_wait i (Suc n) k reported out nd =
     (let nd1 = ow_others en k nd
      in case ensure_writable (fst nd1) of
           Inl e \<Rightarrow> (Refused e, out, nd1)
         | Inr _ \<Rightarrow>
             (let nd2 = ow_others en (k + 1) nd1
              in case find_job (fst nd2) i of
                   None \<Rightarrow> (Refused (Protocol ''accepted job disappeared''), out, nd2)
                 | Some j \<Rightarrow>
                     if is_terminal (j_status j) \<or> no_wait \<and> j_status j \<noteq> Queued then
                       (let nd3 = ow_others en (k + 2) nd2
                        in if j_id j \<in> st_output_pruned (fst nd3) then (Refused (pruned_reply (j_id j)), out, nd3)
                           else case ow_write en (length out) of
                                  Inl e \<Rightarrow> (Refused e, out, nd3)
                                | Inr _ \<Rightarrow> (Answered, out @ [exec_json j], nd3))
                     else if (j_status j = WaitingBody \<or> j_status j = WaitingCapacity) \<and> \<not> reported then
                       (case ow_write en (length out) of
                          Inl e \<Rightarrow> (Refused e, out, nd2)
                        | Inr _ \<Rightarrow> exec_poll en no_wait i n (k + 2) True (out @ [exec_json j]) nd2)
                     else exec_poll en no_wait i n (k + 2) reported out nd2))"

text \<open>Admission of the owner's own command: the saved row is the promise, the wait only watches it.\<close>

definition exec_accept :: "owner_env \<Rightarrow> ctx \<Rightarrow> string \<Rightarrow> string list \<Rightarrow> node \<Rightarrow> job res \<times> node" where
  "exec_accept en cx body argv nd =
     (let this = st_body_name (fst nd); nd1 = ow_others en 0 nd
      in if body \<noteq> this \<and> find_peer (fst nd1) body = None
         then (Inl (Usage (body @ '' is not a paired machine'')), nd1)
         else append_new cx (ow_random en) this body argv Queued (ow_others en 1 nd1))"

definition exec_request :: "owner_env \<Rightarrow> json \<Rightarrow> (string \<times> string list) res" where
  "exec_request en req =
     rbind (ok_or (jstr req ''body'') (Usage ''missing body'')) (\<lambda>body.
     rbind (ok_or (as_list as_str (jindex req ''argv'')) (Json (ow_decode_error en (jindex req ''argv'')))) (\<lambda>argv.
     if argv = [] then Inl (Usage (''usage: clix <machine> <cmd>'' @ ellipsis)) else Inr (body, argv)))"

definition rpc_exec :: "owner_env \<Rightarrow> ctx \<Rightarrow> json \<Rightarrow> limits \<Rightarrow> node \<Rightarrow> exec_end \<times> json list \<times> limits \<times> node" where
  "rpc_exec en cx req l nd =
     (let no_wait = flag req ''no_wait'' False
      in case rbind (exec_request en req) (\<lambda>ba. rbind (if no_wait then Inr l else acquire_waiter l) (\<lambda>l1. Inr (ba, l1))) of
           Inl e \<Rightarrow> (Refused e, [], l, nd)
         | Inr ((body, argv), l1) \<Rightarrow>
             (let done = (if no_wait then l1 else release_waiter l1)
              in case exec_accept en cx body argv nd of
                   (Inl e, nd1) \<Rightarrow> (Refused e, [], done, nd1)
                 | (Inr j, nd1) \<Rightarrow>
                     (case exec_poll en no_wait (j_id j) (ow_polls en) 2 False [] nd1 of
                        (r, out, nd2) \<Rightarrow> (r, out, done, nd2))))"

section \<open>Asking another machine for a tool\<close>

text \<open>\<open>None\<close>: the request is still neither delivered nor reported as waiting after all the looks.\<close>

fun request_poll :: "owner_env \<Rightarrow> string \<Rightarrow> string \<Rightarrow> nat \<Rightarrow> nat \<Rightarrow> node \<Rightarrow> json res option \<times> node" where
  "request_poll en body i 0 k nd = (None, nd)"
| "request_poll en body i (Suc n) k nd =
     (let nd1 = ow_others en k nd
      in case ensure_writable (fst nd1) of
           Inl e \<Rightarrow> (Some (Inl e), nd1)
         | Inr _ \<Rightarrow>
             (let nd2 = ow_others en (k + 1) nd1
              in case List.find (\<lambda>r. o_id r = i) (st_outbound_requests (fst nd2)) of
                   None \<Rightarrow> (Some (Inr (ok_json [(''status'', JStr ''delivered''), (''request_id'', JStr i)])), nd2)
                 | Some r \<Rightarrow>
                     (case o_error r of
                        Some e \<Rightarrow> (Some (Inl (Protocol e)), nd2)
                      | None \<Rightarrow>
                          if o_waiting r then (Some (Inr (ok_json [(''status'', JStr ''waiting''), (''body'', JStr body),
                            (''request_id'', JStr i)])), nd2)
                          else request_poll en body i n (k + 2) nd2)))"

definition add_outbound :: "outbound_request \<Rightarrow> store \<Rightarrow> (unit \<times> store) res" where
  "add_outbound r s = Inr ((), s\<lparr>st_outbound_requests := st_outbound_requests s @ [r]\<rparr>)"

text \<open>The last component tells whether the dispatcher was woken.\<close>

definition rpc_request :: "owner_env \<Rightarrow> ctx \<Rightarrow> json \<Rightarrow> node \<Rightarrow> json res option \<times> node \<times> bool" where
  "rpc_request en cx req nd =
     (let usage = Usage ''usage: clix request <machine> <tool>'';
          body = (case jstr req ''body'' of Some b \<Rightarrow> b | None \<Rightarrow> []);
          this = st_body_name (fst nd); dest = find_peer (fst nd) body
      in case rbind (case jstr req ''tool'' of Some t \<Rightarrow> if t \<noteq> [] then Inr t else Inl usage | None \<Rightarrow> Inl usage) (\<lambda>t.
              rbind (limits_tool t) (\<lambda>_. Inr t)) of
           Inl e \<Rightarrow> (Some (Inl e), nd, False)
         | Inr tool \<Rightarrow>
             if body = [] \<or> body = this then
               (case answer (\<lambda>r. ok_json [(''request'', request_json r)])
                       (update cx (upsert (new_id (ow_random en)) this tool) (ow_others en 0 nd)) of
                  (r, nd1) \<Rightarrow> (Some r, nd1, False))
             else (case rbind (ok_or dest (Usage (body @ '' is not a paired machine''))) (\<lambda>p.
                         rbind (new_id (ow_random en)) (\<lambda>i. Inr (p, i))) of
                     Inl e \<Rightarrow> (Some (Inl e), nd, False)
                   | Inr (p, i) \<Rightarrow>
                       (case update cx (add_outbound \<lparr>o_id = i, o_body = p_name p, o_tool = tool, o_waiting = False, o_error = None\<rparr>)
                               (ow_others en 0 nd) of
                          (Inl e, nd1) \<Rightarrow> (Some (Inl e), nd1, False)
                        | (Inr _, nd1) \<Rightarrow>
                            (case request_poll en body i (ow_polls en) 1 nd1 of (r, nd2) \<Rightarrow> (r, nd2, True)))))"

section \<open>Pairing\<close>

definition rpc_name :: "json \<Rightarrow> string option" where
  "rpc_name req = (case jstr req ''name'' of Some s \<Rightarrow> if s \<noteq> [] then Some s else None | None \<Rightarrow> None)"

definition rename_edit :: "crypto \<Rightarrow> pair_env \<Rightarrow> string \<Rightarrow> store \<Rightarrow> (unit \<times> store) res" where
  "rename_edit cr pe name s = (let s' = s\<lparr>st_body_name := name\<rparr> in rbind (validate_store cr pe s') (\<lambda>_. Inr ((), s')))"

definition apply_body_name :: "owner_env \<Rightarrow> ctx \<Rightarrow> string option \<Rightarrow> node \<Rightarrow> unit res \<times> node" where
  "apply_body_name en cx given nd =
     (let s = fst nd; name = (case given of Some n \<Rightarrow> n | None \<Rightarrow> st_body_name s)
      in case rbind (validate_name name) (\<lambda>_.
              rbind (refuse_command_name (ow_pair en) name ''this machine'') (\<lambda>_.
              if name \<noteq> st_body_name s \<and> (st_peers s \<noteq> [] \<or> st_jobs s \<noteq> [] \<or> st_grants s \<noteq> [])
              then Inl (Usage ''cannot rename a body after pairing or granting tools'') else Inr ())) of
           Inl e \<Rightarrow> (Inl e, nd)
         | Inr _ \<Rightarrow> update cx (rename_edit (cx_crypto cx) (ow_pair en) name) nd)"

definition tailscale_off :: clix_error where
  "tailscale_off = Usage ''Tailscale is off. Start it, then pair.''"

text \<open>The listener itself (\<open>complete_listen\<close>) is a task of its own that this starts.\<close>

definition rpc_pair_start :: "owner_env \<Rightarrow> ctx \<Rightarrow> json \<Rightarrow> mesh_handle \<Rightarrow> node \<Rightarrow> json res \<times> mesh_handle \<times> node" where
  "rpc_pair_start en cx req mh nd =
     (if mh_addr mh = [] then (Inl tailscale_off, mh, nd)
      else case apply_body_name en cx (rpc_name req) nd of
             (Inl e, nd1) \<Rightarrow> (Inl e, mh, nd1)
           | (Inr _, nd1) \<Rightarrow> (Inr (ok_json [(''phrase'', JStr (ow_phrase en)), (''addr'', JStr (mh_addr mh))]),
                set_pair_done (register_pair mh), nd1))"

definition rpc_pair_join :: "owner_env \<Rightarrow> ctx \<Rightarrow> json \<Rightarrow> mesh_handle \<Rightarrow> node \<Rightarrow> json res \<times> node" where
  "rpc_pair_join en cx req mh nd =
     (if mh_addr mh = [] then (Inl tailscale_off, nd)
      else case apply_body_name en cx (rpc_name req) nd of
             (Inl e, nd1) \<Rightarrow> (Inl e, nd1)
           | (Inr _, nd1) \<Rightarrow>
               (case jstr req ''phrase'' of
                  None \<Rightarrow> (Inl (Usage ''usage: clix pair <phrase>''), nd1)
                | Some ph \<Rightarrow>
                    answer (\<lambda>p. ok_json [(''name'', JStr (p_name p))])
                      (let any = pair_join_any cx (ow_pair en) (ow_sync en) (ow_online en) (str_bytes ph) (mh_addr mh) None nd1
                       in case jstr req ''addr'' of
                            None \<Rightarrow> any
                          | Some addr \<Rightarrow> if addr = [] then any
                              else pair_join cx (ow_pair en) (ow_sync en) (ow_dial en addr) (str_bytes ph) addr (mh_addr mh) nd1)))"

text \<open>\<open>ow_listened\<close>: what the listening task sent, \<open>None\<close> when it was dropped; it and others changed
  the state meanwhile.\<close>

definition rpc_pair_await :: "owner_env \<Rightarrow> mesh_handle \<Rightarrow> node \<Rightarrow> json res \<times> mesh_handle \<times> node" where
  "rpc_pair_await en mh nd =
     (case take_pair_done mh of
        (Inl e, mh1) \<Rightarrow> (Inl e, mh1, nd)
      | (Inr _, mh1) \<Rightarrow>
          (let nd1 = ow_others en 0 nd
           in case ow_listened en of
                None \<Rightarrow> (Inl (Io ''pair cancelled''), mh1, nd1)
              | Some (Inl e) \<Rightarrow> (Inl e, mh1, nd1)
              | Some (Inr p) \<Rightarrow>
                  (case pin_after_pair (ow_sync en) p nd1 of
                     (r, nd2) \<Rightarrow> (rbind r (\<lambda>_. Inr (ok_json [(''name'', JStr (p_name p))])), mh1, nd2))))"

section \<open>Dispatch\<close>

text \<open>\<open>pin_owner::rpc\<close>: switching synchronisation on or off; the operations on the tree are \<open>ow_pin\<close>.\<close>

definition pin_switch :: "owner_env \<Rightarrow> ctx \<Rightarrow> bool \<Rightarrow> node \<Rightarrow> json res \<times> node" where
  "pin_switch en cx enabled nd =
     (case (if enabled then ow_pin_root en else Inr ()) of
        Inl e \<Rightarrow> (Inl e, nd)
      | Inr _ \<Rightarrow>
          (case update cx (\<lambda>s. Inr ((), s\<lparr>st_pin_enabled := enabled\<rparr>)) nd of
             (r, nd') \<Rightarrow> (rbind r (\<lambda>_. Inr (ok_json [(''pin_enabled'', JBool enabled),
                (''body'', JStr (st_body_name (fst nd')))])), nd')))"

definition owner_pin_rpc :: "owner_env \<Rightarrow> ctx \<Rightarrow> string \<Rightarrow> json \<Rightarrow> node \<Rightarrow> json res \<times> node" where
  "owner_pin_rpc en cx op req nd =
     (if op = ''pin_on'' then pin_switch en cx True nd
      else if op = ''pin_off'' then pin_switch en cx False nd
      else ow_pin en req nd)"

definition pin_ops :: "string list" where
  "pin_ops = [''pin_recovery_list'', ''pin_recovery_inspect'', ''pin_recovery_resolve'', ''pin_recovery_discard'',
     ''pin_conflicts'', ''pin_take_peer'', ''pin_on'', ''pin_off'', ''pin_sync'']"

definition read_op :: "owner_env \<Rightarrow> ctx \<Rightarrow> string \<Rightarrow> json \<Rightarrow> sidecar \<Rightarrow> json res option" where
  "read_op en cx op req sc =
     (let s = fst (sc_node sc); cr = cx_crypto cx
      in if op = ''hands'' then Some (Inr (rpc_hands s))
         else if op = ''log'' then Some (Inr (rpc_log en cr s))
         else if op = ''job_inspect'' then Some (rpc_job_inspect cr req s)
         else if op = ''job_output'' then Some (rpc_job_output cr req s)
         else if op = ''storage_status'' then Some (Inr (storage_status s))
         else if op = ''status'' then Some (Inr (rpc_status (sc_mesh sc) s))
         else if op = ''pending'' then Some (Inr (rpc_pending s))
         else None)"

definition edit_op :: "owner_env \<Rightarrow> ctx \<Rightarrow> string \<Rightarrow> json \<Rightarrow> node \<Rightarrow> (json res \<times> node) option" where
  "edit_op en cx op req nd =
     (if op = ''add'' then Some (rpc_add en cx req nd)
      else if op = ''remove'' then Some (rpc_remove en cx req nd)
      else if op = ''job_retry'' then Some (rpc_job_retry en cx req nd)
      else if List.member pin_ops op then Some (owner_pin_rpc en cx op req nd)
      else if op = ''storage_prune'' then Some (rpc_storage_prune cx req nd)
      else if op = ''allow_request'' then Some (rpc_allow en cx req nd)
      else if op = ''deny_request'' then Some (rpc_deny en cx req nd)
      else None)"

text \<open>\<open>handle_rpc\<close>: the answer (\<open>None\<close>: none yet), the state, and whether the dispatcher was woken.\<close>

definition handle_rpc :: "owner_env \<Rightarrow> ctx \<Rightarrow> json \<Rightarrow> sidecar \<Rightarrow> json res option \<times> sidecar \<times> bool" where
  "handle_rpc en cx req sc =
     (case jstr req ''op'' of
        None \<Rightarrow> (Some (Inl (Usage ''missing op'')), sc, False)
      | Some op \<Rightarrow>
        (case read_op en cx op req sc of
           Some r \<Rightarrow> (Some r, sc, False)
         | None \<Rightarrow>
           (case edit_op en cx op req (sc_node sc) of
              Some (r, nd) \<Rightarrow> (Some r, sc\<lparr>sc_node := nd\<rparr>, op = ''job_retry'' \<and> is_right r)
            | None \<Rightarrow>
              if op = ''pair_start'' then (case rpc_pair_start en cx req (sc_mesh sc) (sc_node sc) of
                (r, mh, nd) \<Rightarrow> (Some r, sc\<lparr>sc_node := nd, sc_mesh := mh\<rparr>, False))
              else if op = ''pair_join'' then (case rpc_pair_join en cx req (sc_mesh sc) (sc_node sc) of
                (r, nd) \<Rightarrow> (Some r, sc\<lparr>sc_node := nd\<rparr>, False))
              else if op = ''pair_await'' then (case rpc_pair_await en (sc_mesh sc) (sc_node sc) of
                (r, mh, nd) \<Rightarrow> (Some r, sc\<lparr>sc_node := nd, sc_mesh := mh\<rparr>, False))
              else if op = ''request'' then (case rpc_request en cx req (sc_node sc) of
                (r, nd, w) \<Rightarrow> (r, sc\<lparr>sc_node := nd\<rparr>, w))
              else if op = ''allow'' \<or> op = ''deny'' then
                (Some (Inl (Usage ''update the Clix client and select a request ID from clix pending'')), sc, False)
              else (Some (Inl (Usage (''unknown op: '' @ op))), sc, False))))"

section \<open>Connections\<close>

definition error_json :: "string \<Rightarrow> json" where
  "error_json m = JObj [(''ok'', JBool False), (''error'', JStr m)]"

text \<open>Writing one reply, the \<open>k\<close>-th of this request: what was written, and whether the connection lives.\<close>

definition written :: "owner_env \<Rightarrow> nat \<Rightarrow> json \<Rightarrow> json list \<times> bool" where
  "written en k v = (case ow_write en k of Inr _ \<Rightarrow> ([v], True) | Inl _ \<Rightarrow> ([], False))"

definition serve_request :: "owner_env \<Rightarrow> ctx \<Rightarrow> json \<Rightarrow> sidecar \<Rightarrow> json list \<times> bool \<times> sidecar" where
  "serve_request en cx req sc =
     (if jstr req ''op'' = Some ''pin_recovery_export'' then
        (case ow_export en req (sc_node sc) of
           Inr _ \<Rightarrow> ([], False, sc)
         | Inl e \<Rightarrow> (fst (written en 0 (error_json (error_text e))), False, sc))
      else if jstr req ''op'' = Some ''exec'' then
        (case rpc_exec en cx req (sc_limits sc) (sc_node sc) of
           (r, out, l, nd) \<Rightarrow>
             (let sc' = sc\<lparr>sc_node := nd, sc_limits := l\<rparr>
              in case r of
                   Answered \<Rightarrow> (out, True, sc')
                 | Cancelled \<Rightarrow> (out, False, sc')
                 | Refused e \<Rightarrow> (case written en (length out) (error_json (error_text e)) of
                     (w, alive) \<Rightarrow> (out @ w, alive, sc'))))
      else (case handle_rpc en cx req sc of
              (None, sc', _) \<Rightarrow> ([], False, sc')
            | (Some r, sc', _) \<Rightarrow>
                (case written en 0 (case r of Inr v \<Rightarrow> v | Inl e \<Rightarrow> error_json (error_text e)) of
                   (w, alive) \<Rightarrow> (w, alive, sc'))))"

definition serve_line :: "owner_env \<Rightarrow> ctx \<Rightarrow> string \<Rightarrow> sidecar \<Rightarrow> json list \<times> bool \<times> sidecar" where
  "serve_line en cx line sc =
     (if line = [] then ([], True, sc)
      else case ow_parse en line of
             Inl m \<Rightarrow> (case written en 0 (error_json m) of (w, alive) \<Rightarrow> (w, alive, sc))
           | Inr req \<Rightarrow> serve_request en cx req sc)"

text \<open>What a request meets differs from line to line; a line that is late, too long, cut off or no
  UTF-8 ends the connection.\<close>

lemma owner_line_consumes: "owner_line late input = (Inr (Some line), rest) \<Longrightarrow> length rest < length input"
  unfolding owner_line_def by (drule limited_line_ok) auto

function serve_lines :: "(nat \<Rightarrow> bool \<times> owner_env \<times> ctx) \<Rightarrow> nat \<Rightarrow> bytes \<Rightarrow> sidecar \<Rightarrow> json list \<times> sidecar" where
  "serve_lines meet k input sc =
     (case meet k of (late, en, cx) \<Rightarrow>
        (case owner_line late input of
           (Inr (Some line), rest) \<Rightarrow>
             (case serve_line en cx line sc of
                (out, alive, sc') \<Rightarrow>
                  if alive then (case serve_lines meet (Suc k) rest sc' of (rest_out, sc'') \<Rightarrow> (out @ rest_out, sc''))
                  else (out, sc'))
         | _ \<Rightarrow> ([], sc)))"
  by pat_completeness auto
termination by (relation "measure (\<lambda>(_, _, input, _). length input)") (auto dest: owner_line_consumes [OF sym])

declare serve_lines.simps [simp del]

text \<open>The peer's user, when the socket tells it, has to be the user of the sidecar.\<close>

definition handle_connection :: "nat option \<Rightarrow> nat \<Rightarrow> (nat \<Rightarrow> bool \<times> owner_env \<times> ctx) \<Rightarrow> bytes \<Rightarrow> sidecar \<Rightarrow> json list \<times> sidecar" where
  "handle_connection peer_uid own_uid meet input sc =
     (if peer_uid = Some own_uid then serve_lines meet 0 input sc else ([], sc))"

section \<open>The client\<close>

datatype connect_kind = NotFound | ConnectRefused | OtherConnect string

definition connect_err :: "connect_kind \<Rightarrow> clix_error" where
  "connect_err k = (case k of OtherConnect m \<Rightarrow> Io m | _ \<Rightarrow> NoDaemon)"

definition still_waiting :: "json \<Rightarrow> bool" where
  "still_waiting v \<longleftrightarrow> jstr v ''status'' = Some ''waiting'' \<or> jstr v ''status'' = Some ''capacity_wait''"

text \<open>Reading answers until the one that counts; the messages shown meanwhile.\<close>

fun client_receive :: "(string \<Rightarrow> string + json) \<Rightarrow> bool \<Rightarrow> bool \<Rightarrow> string res list \<Rightarrow> string list \<times> json res" where
  "client_receive parse exec no_wait [] = ([], Inl (Io ''daemon closed the connection''))"
| "client_receive parse exec no_wait (Inl e # lines) = ([], Inl e)"
| "client_receive parse exec no_wait (Inr line # lines) =
     (case parse line of
        Inl m \<Rightarrow> ([], Inl (Json m))
      | Inr v \<Rightarrow>
          if jget v ''ok'' = Some (JBool False)
          then ([], Inl (Io (case jstr v ''error'' of Some m \<Rightarrow> m | None \<Rightarrow> ''request failed'')))
          else if exec \<and> still_waiting v \<and> \<not> no_wait
          then (case client_receive parse exec no_wait lines of
                  (shown, r) \<Rightarrow> ((case jstr v ''waiting'' of Some m \<Rightarrow> [m] | None \<Rightarrow> []) @ shown, r))
          else ([], Inr v))"

definition client_send :: "(string \<Rightarrow> string + json) \<Rightarrow> connect_kind option \<Rightarrow> unit res \<Rightarrow> string res list \<Rightarrow> json
    \<Rightarrow> string list \<times> json res" where
  "client_send parse connect sent lines req =
     (case connect of
        Some k \<Rightarrow> ([], Inl (connect_err k))
      | None \<Rightarrow> (case sent of
          Inl e \<Rightarrow> ([], Inl e)
        | Inr _ \<Rightarrow> client_receive parse (jindex req ''op'' = JStr ''exec'') (flag req ''no_wait'' False) lines))"

section \<open>What the client prints\<close>

text \<open>Standard output, standard error and the result.  A terminal says how writing, serde's readers and
  printers, and chrono's rendering behave.\<close>

record terminal =
  tm_out :: "bytes \<Rightarrow> unit res"
  tm_err :: "bytes \<Rightarrow> unit res"
  tm_pretty :: "json \<Rightarrow> string"
  tm_compact :: "json \<Rightarrow> string"
  tm_debug :: "string \<Rightarrow> string"
  tm_when :: "int \<Rightarrow> string"
  tm_read_grant :: "json \<Rightarrow> grant option"
  tm_read_view :: "json \<Rightarrow> view option"
  tm_decode_error :: "json \<Rightarrow> string"

type_synonym emitted = "bytes \<times> bytes \<times> unit res"

definition ln :: "string \<Rightarrow> bytes" where
  "ln s = str_bytes s @ [10]"

definition lns :: "string list \<Rightarrow> bytes" where
  "lns ss = concat (map ln ss)"

definition arr_of :: "json option \<Rightarrow> json list" where
  "arr_of v = (case Option.bind v as_arr of Some vs \<Rightarrow> vs | None \<Rightarrow> [])"

definition text_or :: "string \<Rightarrow> json \<Rightarrow> string" where
  "text_or d v = (case as_str v of Some s \<Rightarrow> s | None \<Rightarrow> d)"

definition history_line :: "json \<Rightarrow> string list" where
  "history_line p = (if jindex p ''complete'' = JBool True then []
     else [''history from '' @ text_or ''?'' (jindex p ''body'') @ '' is incomplete: '' @
       text_or (if jindex p ''unknown_authors'' = JBool True
         then ''pair the history authors explicitly to verify their records''
         else ''synchronization is pending'') (jindex p ''error'')])"

definition emit_history_status :: "json \<Rightarrow> bytes" where
  "emit_history_status h = lns (concat (map history_line (arr_of (Some (jindex h ''peers'')))))"

fun emit_hands :: "terminal \<Rightarrow> json list \<Rightarrow> emitted" where
  "emit_hands tm [] = ([], [], Inr ())"
| "emit_hands tm (h # hs) = (case tm_read_grant tm h of
     None \<Rightarrow> ([], [], Inl (Json (tm_decode_error tm h)))
   | Some g \<Rightarrow> (case emit_hands tm hs of (out, err, r) \<Rightarrow> (ln (describe_grant (tm_when tm) g) @ out, err, r)))"

definition emit_log :: "json \<Rightarrow> emitted" where
  "emit_log v = (lns (List.map_filter as_str (arr_of (jget v ''lines''))), emit_history_status (jindex v ''history''), Inr ())"

definition emit_output :: "terminal \<Rightarrow> json \<Rightarrow> emitted" where
  "emit_output tm v = (case as_list as_byte (jindex v ''bytes'') of
       None \<Rightarrow> ([], [], Inl (Json (tm_decode_error tm (jindex v ''bytes''))))
     | Some bs \<Rightarrow> (bs, [], tm_out tm bs))"

definition role_debug :: "role \<Rightarrow> string" where
  "role_debug r = (case r of Origin \<Rightarrow> ''Origin'' | Runner \<Rightarrow> ''Runner'' | LegacyObserver \<Rightarrow> ''LegacyObserver'')"

definition emit_inspect :: "terminal \<Rightarrow> json \<Rightarrow> emitted" where
  "emit_inspect tm v = (case tm_read_view tm (jindex v ''view'') of
       None \<Rightarrow> ([], [], Inl (Json (tm_decode_error tm (jindex v ''view''))))
     | Some w \<Rightarrow>
         (lns ([format_line (tm_debug tm) (vw_job w), vw_provenance w] @
            map (\<lambda>ob. ''observed by '' @ role_debug (ob_role ob) @ '': '' @ tm_compact tm (status_json (ob_status ob)) @
              (case ob_legacy_observer ob of Some b \<Rightarrow> '' (legacy observer '' @ b @ '')'' | None \<Rightarrow> [])) (vw_observations w) @
            (case vw_retry_of w of Some old \<Rightarrow> [''new attempt after '' @ old] | None \<Rightarrow> []) @
            [text_or [] (jindex v ''explanation''),
             ''saved output: '' @ (if vw_output_available w then ''available'' else ''not retained'') @ '' (stdout '' @
               decimal (or_bytes (vw_stdout w)) @ '' bytes, stderr '' @ decimal (or_bytes (vw_stderr w)) @ '' bytes)'']),
          lns (case vw_local_warning w of Some m \<Rightarrow> [m] | None \<Rightarrow> []) @ emit_history_status (jindex v ''history''), Inr ()))"

definition emit_pending :: "json \<Rightarrow> emitted" where
  "emit_pending v = (lns (map (\<lambda>r. text_or ''?'' (jindex r ''id'') @ ''  '' @ text_or ''?'' (jindex r ''from'') @ '' wants '' @
     text_or ''?'' (jindex r ''tool'')) (arr_of (jget v ''requests''))), [], Inr ())"

text \<open>\<open>as_i64\<close>, and the cast to an \<open>i32\<close>, which wraps.\<close>

fun as_i64 :: "json \<Rightarrow> int option" where
  "as_i64 (JInt i) = (if - (2 ^ 63) \<le> i \<and> i < 2 ^ 63 then Some i else None)"
| "as_i64 _ = None"

definition as_exit :: "int \<Rightarrow> int" where
  "as_exit i = sint (word_of_int i :: 32 word)"

definition job_bytes_of :: "terminal \<Rightarrow> json \<Rightarrow> string \<Rightarrow> bytes res" where
  "job_bytes_of tm v k = (let b = (case jget (jindex v ''job'') k of Some b \<Rightarrow> b | None \<Rightarrow> JArr [])
     in ok_or (as_list as_byte b) (Json (tm_decode_error tm b)))"

definition emit_done :: "terminal \<Rightarrow> json \<Rightarrow> emitted" where
  "emit_done tm v =
     (case rbind (job_bytes_of tm v ''stdout'') (\<lambda>out. rbind (job_bytes_of tm v ''stderr'') (\<lambda>err. Inr (out, err))) of
        Inl e \<Rightarrow> ([], [], Inl e)
      | Inr (out, err) \<Rightarrow>
          (case tm_out tm out of
             Inl e \<Rightarrow> (out, [], Inl e)
           | Inr _ \<Rightarrow>
               (out, err, rbind (tm_err tm err) (\<lambda>_.
                  rbind (ok_or (Option.bind (jget v ''exit'') as_i64) (Protocol ''completed command has no exit status'')) (\<lambda>n.
                  if as_exit n \<noteq> 0 then Inl (ToolExit (as_exit n)) else Inr ())))))"

definition emit_exec :: "terminal \<Rightarrow> bool \<Rightarrow> json \<Rightarrow> emitted" where
  "emit_exec tm no_wait v =
     (let status = jstr v ''status''
      in if still_waiting v then
           (if no_wait then lns (case Option.bind (jget v ''job'') (\<lambda>j. jstr j ''id'') of Some i \<Rightarrow> [i] | None \<Rightarrow> []) else [],
            lns (case jstr v ''waiting'' of Some m \<Rightarrow> [m] | None \<Rightarrow> []), Inr ())
         else if status \<in> {Some ''denied'', Some ''failed'', Some ''uncertain''} then
           ([], [], Inl (Io (case jstr v ''reason'' of Some r \<Rightarrow> r | None \<Rightarrow> ''denied'')))
         else if status \<in> {Some ''running'', Some ''queued''} \<and> no_wait then
           (lns (case as_str (jindex (jindex v ''job'') ''id'') of Some i \<Rightarrow> [i] | None \<Rightarrow> []), [], Inr ())
         else emit_done tm v)"

definition emit_status :: "json \<Rightarrow> emitted" where
  "emit_status v =
     (lns ((case jstr v ''body'' of Some b \<Rightarrow> [b] | None \<Rightarrow> []) @
        [''mesh: '' @ (case as_str (jindex v ''mesh_addr'') of Some a \<Rightarrow> if a \<noteq> [] then a else ''offline'' | None \<Rightarrow> ''offline''),
         ''pin: '' @ (if jindex v ''pin_enabled'' = JBool True then ''on'' else ''off (clix pin on to sync ~/src)'')] @
        map (\<lambda>p. ''paired: '' @ text_or ''?'' (jindex p ''name'') @ '' ('' @ text_or ''address unknown'' (jindex p ''addr'') @ '')'')
          (arr_of (Some (jindex v ''peers''))) @
        map (\<lambda>r. ''request '' @ text_or ''?'' (jindex r ''id'') @ '': '' @ text_or ''?'' (jindex r ''body'') @ '' wants '' @
            text_or ''?'' (jindex r ''tool'') @ '' ('' @ text_or ''waiting for delivery'' (jindex r ''error'') @ '')'')
          (arr_of (Some (jindex v ''outbound_requests'')))),
      emit_history_status (jindex v ''history'') @
        lns (case as_str (jindex (jindex v ''storage'') ''storage_error'') of
          Some e \<Rightarrow> [''storage unavailable: '' @ e @ ''. Repair storage and restart the sidecar; mutations are disabled.'']
        | None \<Rightarrow> []), Inr ())"

text \<open>\<open>pin_owner::emit\<close>.\<close>

definition pin_emit :: "terminal \<Rightarrow> json \<Rightarrow> emitted" where
  "pin_emit tm v = (ln (tm_pretty tm v), [],
     if jget v ''synced'' = Some (JBool False)
     then Inl (Usage (text_or ''pin synchronization did not complete'' (jindex v ''error''))) else Inr ())"

fun emit_rpc :: "terminal \<Rightarrow> cmd \<Rightarrow> json \<Rightarrow> emitted" where
  "emit_rpc tm CmdHands v = emit_hands tm (arr_of (jget v ''hands''))"
| "emit_rpc tm CmdLog v = emit_log v"
| "emit_rpc tm (CmdJob (JobOutput i err)) v = emit_output tm v"
| "emit_rpc tm (CmdJob (JobRetry i)) v = (ln (text_or ''?'' (jindex v ''job_id'')), [], Inr ())"
| "emit_rpc tm (CmdJob (JobInspect i)) v = emit_inspect tm v"
| "emit_rpc tm (CmdStorage st) v = (ln (tm_pretty tm v), [], Inr ())"
| "emit_rpc tm (CmdPin c) v = pin_emit tm v"
| "emit_rpc tm CmdPending v = emit_pending v"
| "emit_rpc tm (CmdExec body argv no_wait) v = emit_exec tm no_wait v"
| "emit_rpc tm CmdStatus v = emit_status v"
| "emit_rpc tm (CmdRequest body tool) v =
     ([], if jindex v ''status'' = JStr ''waiting'' then ln (body @ '' is unreachable; request for '' @ tool @
        '' is saved and will be delivered when it returns.'') else [], Inr ())"
| "emit_rpc tm (CmdPair None name) v = (lns (case jstr v ''phrase'' of Some p \<Rightarrow> [''pair with: '' @ p] | None \<Rightarrow> []), [], Inr ())"
| "emit_rpc tm _ v = ([], [], Inr ())"

section \<open>The grant the owner typed is the grant that is stored\<close>


section \<open>What the owner's command shows is the saved outcome\<close>

text \<open>The state after \<open>m\<close> more lock regions of other tasks.\<close>

definition later :: "owner_env \<Rightarrow> nat \<Rightarrow> nat \<Rightarrow> node \<Rightarrow> node" where
  "later en k m nd = foldl (\<lambda>u i. ow_others en i u) nd [k..<k + m]"

lemma later_steps: "later en k 0 nd = nd" "later en k (Suc m) nd = later en (Suc k) m (ow_others en k nd)"
proof -
  have "[k..<k + Suc m] = k # [Suc k..<Suc k + m]" by (simp add: upt_rec)
  then show "later en k (Suc m) nd = later en (Suc k) m (ow_others en k nd)" by (simp add: later_def)
qed (simp add: later_def)

lemma exec_poll_answered:
  assumes "exec_poll en no_wait i n k reported out nd = (Answered, out', nd')"
  shows "\<exists>m j waits. find_job (fst (later en k m nd)) i = Some j \<and> nd' = later en k (Suc m) nd \<and>
    i \<notin> st_output_pruned (fst nd') \<and> out' = out @ waits @ [exec_json j] \<and>
    length waits \<le> (if reported then 0 else 1) \<and> list_all still_waiting waits \<and> set waits \<subseteq> range exec_json \<and>
    (\<not> no_wait \<longrightarrow> is_terminal (j_status j))"
  using assms
proof (induction n arbitrary: k reported out nd)
  case (Suc n)
  let ?nd1 = "ow_others en k nd" and ?nd2 = "ow_others en (k + 1) (ow_others en k nd)"
  have two: "later en k 2 nd = ?nd2" by (simp add: numeral_2_eq_2 later_steps)
  have shift: "later en (k + 2) m ?nd2 = later en k (Suc (Suc m)) nd" for m by (simp add: later_steps)
  from Suc.prems obtain u j where w: "ensure_writable (fst ?nd1) = Inr u" and j: "find_job (fst ?nd2) i = Some j"
    by (auto simp: Let_def simp del: find_job_None split: sum.splits option.splits)
  have id: "j_id j = i" using find_job_Some [OF j] by simp
  show ?case
  proof (cases "is_terminal (j_status j) \<or> no_wait \<and> j_status j \<noteq> Queued")
    case True
    then have "i \<notin> st_output_pruned (fst (ow_others en (k + 2) ?nd2))" "out' = out @ [exec_json j]"
      "nd' = ow_others en (k + 2) ?nd2" "\<not> no_wait \<longrightarrow> is_terminal (j_status j)"
      using Suc.prems w j id by (auto simp: Let_def split: if_splits sum.splits)
    moreover have "later en k (Suc 2) nd = ow_others en (k + 2) ?nd2" by (simp add: numeral_2_eq_2 later_steps)
    ultimately show ?thesis using j two
      by (intro exI [of _ 2] exI [of _ j] exI [of _ "[]"]) simp
  next
    case False
    show ?thesis
    proof (cases "(j_status j = WaitingBody \<or> j_status j = WaitingCapacity) \<and> \<not> reported")
      case True
      then have "exec_poll en no_wait i n (k + 2) True (out @ [exec_json j]) ?nd2 = (Answered, out', nd')"
        using Suc.prems w j False by (auto simp: Let_def split: sum.splits)
      from Suc.IH [OF this] obtain m j' where
        "find_job (fst (later en (k + 2) m ?nd2)) i = Some j'" "nd' = later en (k + 2) (Suc m) ?nd2"
        "i \<notin> st_output_pruned (fst nd')" "out' = (out @ [exec_json j]) @ [exec_json j']"
        "\<not> no_wait \<longrightarrow> is_terminal (j_status j')" by auto
      moreover have "still_waiting (exec_json j)"
        using True by (auto simp: still_waiting_def exec_json_def waiting_json_def jstr_def)
      ultimately show ?thesis using True unfolding shift
        by (intro exI [of _ "Suc (Suc m)"] exI [of _ j'] exI [of _ "[exec_json j]"]) simp
    next
      case False
      with \<open>\<not> (is_terminal (j_status j) \<or> no_wait \<and> j_status j \<noteq> Queued)\<close>
      have "exec_poll en no_wait i n (k + 2) reported out ?nd2 = (Answered, out', nd')"
        using Suc.prems w j by (auto simp: Let_def)
      from Suc.IH [OF this] show ?thesis unfolding shift by blast
    qed
  qed
qed simp

text \<open>Accepting a command saves its row before anything waits for it.\<close>

lemma append_retry_saves:
  assumes "append_retry cx random from body argv st retry_of (s, disk) = (Inr j, s', disk')"
  shows "new_id random = Inr (j_id j) \<and> limits_invocation (j_id j) argv = Inr () \<and>
    j = \<lparr>j_id = j_id j, j_body = body, j_argv = argv, j_from = from, j_status = st, j_stdout = [], j_stderr = []\<rparr> \<and>
    map job_core (st_jobs s') = map job_core (st_jobs s) @ [job_core j] \<and> st_grants s' = st_grants s \<and>
    st_retry_links s' = (case retry_of of None \<Rightarrow> st_retry_links s | Some old \<Rightarrow> (st_retry_links s)(j_id j \<mapsto> old)) \<and>
    disk' = Some (durable s')"
proof -
  from assms obtain i where i: "new_id random = Inr i" "limits_invocation i argv = Inr ()"
    and j: "j = \<lparr>j_id = i, j_body = body, j_argv = argv, j_from = from, j_status = st, j_stdout = [], j_stderr = []\<rparr>"
    and "\<exists>u. update cx (append_edit j retry_of) (s, disk) = (Inr u, s', disk')"
    by (auto simp: append_retry_def result_simps split: sum.splits prod.splits)
  then obtain u n1 where "append_edit j retry_of s = Inr (u, n1)" and o: "outcome s' = outcome n1"
    and disk: "disk' = Some (durable s')" using update_ok by metis
  then have n1: "n1 = s\<lparr>st_jobs := st_jobs s @ [j],
      st_retry_links := (case retry_of of None \<Rightarrow> st_retry_links s | Some old \<Rightarrow> (st_retry_links s)(j_id j \<mapsto> old))\<rparr>"
    by (simp add: append_edit_def)
  have "map job_core (st_jobs s') = map job_core (st_jobs s) @ [job_core j]" using outcomeD(10) [OF o] n1 by simp
  moreover have "st_grants s' = st_grants s" using outcomeD(5) [OF o] n1 by simp
  moreover have "st_retry_links s' = (case retry_of of None \<Rightarrow> st_retry_links s | Some old \<Rightarrow> (st_retry_links s)(j_id j \<mapsto> old))"
    using outcomeD(4) [OF o] n1 by simp
  moreover have "j_id j = i" by (simp add: j)
  ultimately show ?thesis using i disk j by simp
qed

lemma exec_json_ok: "still_waiting (exec_json j) \<Longrightarrow> jget (exec_json j) ''ok'' = Some (JBool True)"
  by (cases "j_status j") (auto simp: exec_json_def reason_json_def waiting_json_def still_waiting_def jstr_def)

lemma client_receive_last:
  assumes "list_all still_waiting waits" and "\<forall>v \<in> set (waits @ [exec_json j]). parse (line v) = Inr v"
    and "is_terminal (j_status j)"
    and "set waits \<subseteq> range exec_json"
  shows "snd (client_receive parse True False (map (\<lambda>v. Inr (line v)) (waits @ [exec_json j]))) = Inr (exec_json j)"
  using assms
proof (induction waits)
  case Nil
  then show ?case
    by (cases "j_status j") (auto simp: exec_json_def reason_json_def still_waiting_def jstr_def)
next
  case (Cons v waits)
  then have "jget v ''ok'' = Some (JBool True)" using exec_json_ok by auto
  with Cons show ?case by (auto split: prod.splits)
qed

lemma as_exit_fits: "- (2 ^ 31) \<le> n \<Longrightarrow> n < 2 ^ 31 \<Longrightarrow> as_exit n = n"
  by (simp add: as_exit_def signed_of_int signed_take_bit_int_eq_self)

text \<open>What the terminal of the owner shows of a settled row.\<close>

definition shown_outcome :: "job \<Rightarrow> emitted" where
  "shown_outcome j = (case j_status j of
       Done n \<Rightarrow> (j_stdout j, j_stderr j, if n = 0 then Inr () else Inl (ToolExit n))
     | Denied r \<Rightarrow> ([], [], Inl (Io r))
     | Failed r \<Rightarrow> ([], [], Inl (Io r))
     | Uncertain r \<Rightarrow> ([], [], Inl (Io r))
     | _ \<Rightarrow> ([], [], Inr ()))"

lemma emit_exec_shows:
  assumes "is_terminal (j_status j)" "exit_fits (j_status j)"
    and tm: "\<And>bs. tm_out tm bs = Inr ()" "\<And>bs. tm_err tm bs = Inr ()"
  shows "emit_exec tm False (exec_json j) = shown_outcome j"
proof (cases "j_status j")
  case (Done n)
  then have n: "- (2 ^ 31) \<le> n" "n < 2 ^ 31" using assms(2) by auto
  have "job_bytes_of tm (exec_json j) ''stdout'' = Inr (j_stdout j)" "job_bytes_of tm (exec_json j) ''stderr'' = Inr (j_stderr j)"
    using Done by (simp_all add: job_bytes_of_def exec_json_def jindex_def job_json_def bytes_round ok_or_def)
  moreover have "Option.bind (jget (exec_json j) ''exit'') as_i64 = Some n" using Done n by (simp add: exec_json_def)
  ultimately have "emit_done tm (exec_json j) = shown_outcome j"
    using Done tm as_exit_fits [OF n] by (simp add: emit_done_def ok_or_def shown_outcome_def)
  moreover have "jstr (exec_json j) ''status'' = Some ''done''" using Done by (simp add: exec_json_def jstr_def)
  ultimately show ?thesis by (simp add: emit_exec_def still_waiting_def)
qed (use assms(1) in \<open>auto simp: emit_exec_def exec_json_def reason_json_def still_waiting_def jstr_def shown_outcome_def\<close>)

text \<open>C27: When the owner's waiting command ends with an answer, the command had been accepted by a saved
  row with its machine and arguments, the client (skipping the notices of waiting) ends with that
  row as it was found settled, and the terminal shows exactly its output and exit status or the
  reason it has none; other tasks act between all the looks.  The waiter permit is back.\<close>

theorem exec_shows_saved_outcome:
  assumes run: "rpc_exec en cx req l nd = (Answered, out, l', nd')"
    and waiting: "flag req ''no_wait'' False = False"
    and lines: "\<forall>v \<in> set out. parse (line v) = Inr v"
    and "\<forall>bs. tm_out tm bs = Inr () \<and> tm_err tm bs = Inr ()"
  shows "l' = l \<and> (\<exists>body argv row nd1 m j. exec_request en req = Inr (body, argv) \<and>
    exec_accept en cx body argv nd = (Inr row, nd1) \<and> j_body row = body \<and> j_argv row = argv \<and> j_status row = Queued \<and>
    job_core row \<in> set (map job_core (st_jobs (fst nd1))) \<and> snd nd1 = Some (durable (fst nd1)) \<and>
    find_job (fst (later en 2 m nd1)) (j_id row) = Some j \<and> is_terminal (j_status j) \<and>
    snd (client_receive parse True False (map (\<lambda>v. Inr (line v)) out)) = Inr (exec_json j) \<and>
    (exit_fits (j_status j) \<longrightarrow> emit_exec tm False (exec_json j) = shown_outcome j))"
proof -
  from run waiting obtain body argv l1 row nd1 where
    req: "exec_request en req = Inr (body, argv)" and l1: "acquire_waiter l = Inr l1" and l': "l' = release_waiter l1"
    and acc: "exec_accept en cx body argv nd = (Inr row, nd1)"
    and poll: "exec_poll en False (j_id row) (ow_polls en) 2 False [] nd1 = (Answered, out, nd')"
    by (auto simp: rpc_exec_def Let_def result_simps split: sum.splits prod.splits)
  have "l' = l" using l1 unfolding l'
    by (auto simp: acquire_waiter_def release_waiter_def try_permit_def result_simps split: if_splits)
  obtain a d s1 d1 where ad: "ow_others en 1 (ow_others en 0 nd) = (a, d)" "nd1 = (s1, d1)" by (metis surj_pair)
  with acc have "append_retry cx (ow_random en) (st_body_name (fst nd)) body argv Queued None (a, d) = (Inr row, s1, d1)"
    by (auto simp: exec_accept_def Let_def append_new_def split: if_splits)
  from append_retry_saves [OF this] have row: "j_body row = body" "j_argv row = argv" "j_status row = Queued"
    "job_core row \<in> set (map job_core (st_jobs (fst nd1)))" "snd nd1 = Some (durable (fst nd1))"
    unfolding ad by (metis job.select_convs(2), metis job.select_convs(3), metis job.select_convs(5), simp_all)
  from exec_poll_answered [OF poll] obtain m j waits where
    m: "find_job (fst (later en 2 m nd1)) (j_id row) = Some j" "out = waits @ [exec_json j]"
      "list_all still_waiting waits" "set waits \<subseteq> range exec_json" "is_terminal (j_status j)" by auto
  have "snd (client_receive parse True False (map (\<lambda>v. Inr (line v)) out)) = Inr (exec_json j)"
    using client_receive_last [OF m(3) _ m(5,4)] lines unfolding m(2) by blast
  moreover have "exit_fits (j_status j) \<longrightarrow> emit_exec tm False (exec_json j) = shown_outcome j"
    using emit_exec_shows [OF m(5)] assms(4) by blast
  ultimately show ?thesis using \<open>l' = l\<close> req acc row m(1,5) by blast
qed

section \<open>A wait ends as soon as the job is settled\<close>

text \<open>At look \<open>t\<close> the store is writable and the row there; the row is settled.\<close>

definition readable :: "owner_env \<Rightarrow> node \<Rightarrow> nat \<Rightarrow> string \<Rightarrow> nat \<Rightarrow> bool" where
  "readable en nd k i t \<longleftrightarrow> st_write_error (fst (later en k (Suc (2 * t)) nd)) = None \<and>
     find_job (fst (later en k (Suc (Suc (2 * t))) nd)) i \<noteq> None"

definition settled :: "owner_env \<Rightarrow> node \<Rightarrow> nat \<Rightarrow> string \<Rightarrow> nat \<Rightarrow> bool" where
  "settled en nd k i t \<longleftrightarrow> (case find_job (fst (later en k (Suc (Suc (2 * t))) nd)) i of
       Some j \<Rightarrow> is_terminal (j_status j) | None \<Rightarrow> False)"

lemma look_shift:
  "readable en (ow_others en (k + 1) (ow_others en k nd)) (k + 2) i t = readable en nd k i (Suc t)"
  "settled en (ow_others en (k + 1) (ow_others en k nd)) (k + 2) i t = settled en nd k i (Suc t)"
  by (simp_all add: readable_def settled_def later_steps)

lemma exec_poll_ends:
  assumes "t < n" "\<forall>u \<le> t. readable en nd k i u" "settled en nd k i t" "\<forall>w. ow_write en w = Inr ()"
  shows "fst (exec_poll en no_wait i n k reported out nd) \<in> {Answered, Refused (pruned_reply i)}"
  using assms
proof (induction n arbitrary: t k reported out nd)
  case (Suc n)
  let ?nd1 = "ow_others en k nd" and ?nd2 = "ow_others en (k + 1) (ow_others en k nd)"
  have 0: "readable en nd k i 0" using Suc.prems(2) by simp
  then have w: "ensure_writable (fst ?nd1) = Inr ()" by (simp add: readable_def later_steps result_simps)
  from 0 obtain j where j: "find_job (fst ?nd2) i = Some j"
    by (auto simp: readable_def later_steps simp del: find_job_None)
  have id: "j_id j = i" using find_job_Some [OF j] by simp
  show ?case
  proof (cases "is_terminal (j_status j) \<or> no_wait \<and> j_status j \<noteq> Queued")
    case True
    with w j id Suc.prems(4) show ?thesis by (simp add: Let_def)
  next
    case unsettled: False
    have "t \<noteq> 0"
    proof
      assume "t = 0"
      with Suc.prems(3) j unsettled show False by (simp add: settled_def later_steps)
    qed
    then obtain t' where t: "t = Suc t'" by (cases t) auto
    have prems: "t' < n" "\<forall>u \<le> t'. readable en ?nd2 (k + 2) i u" "settled en ?nd2 (k + 2) i t'"
      using Suc.prems(1-3) unfolding look_shift t by auto
    obtain rep' out2 where rec: "exec_poll en no_wait i (Suc n) k reported out nd = exec_poll en no_wait i n (k + 2) rep' out2 ?nd2"
      using w j unsettled Suc.prems(4) by (cases "(j_status j = WaitingBody \<or> j_status j = WaitingCapacity) \<and> \<not> reported")
        (auto simp: Let_def)
    show ?thesis unfolding rec by (rule Suc.IH [OF prems Suc.prems(4)])
  qed
qed simp

text \<open>C28: An accepted command whose row stays readable and is settled at look \<open>t\<close>, while the client is
  still there, ends: with the answer, or with the notice that its output was pruned, and with its
  permit returned.\<close>

theorem exec_wait_ends:
  assumes "exec_request en req = Inr (body, argv)" and "exec_accept en cx body argv nd = (Inr row, nd1)"
    and "0 < l_waiters l" and "\<forall>w. ow_write en w = Inr ()"
    and "t < ow_polls en" and "\<forall>u \<le> t. readable en nd1 2 (j_id row) u" and "settled en nd1 2 (j_id row) t"
  shows "\<exists>r out nd'. rpc_exec en cx req l nd = (r, out, l, nd') \<and> r \<in> {Answered, Refused (pruned_reply (j_id row))}"
proof -
  let ?nw = "flag req ''no_wait'' False"
  obtain l1 where l1: "(if ?nw then Inr l else acquire_waiter l) = Inr l1" "(if ?nw then l1 else release_waiter l1) = l"
  proof (cases ?nw)
    case False
    with assms(3) that [of "l\<lparr>l_waiters := l_waiters l - 1\<rparr>"] show thesis
      by (simp add: acquire_waiter_def release_waiter_def try_permit_def)
  qed simp
  obtain r out nd' where poll: "exec_poll en ?nw (j_id row) (ow_polls en) 2 False [] nd1 = (r, out, nd')"
    by (metis surj_pair)
  then have "rpc_exec en cx req l nd = (r, out, l, nd')"
    using assms(1,2) l1 by (simp add: rpc_exec_def Let_def)
  moreover have "r \<in> {Answered, Refused (pruned_reply (j_id row))}"
    using exec_poll_ends [OF assms(5-7,4), of ?nw False "[]"] poll by simp
  ultimately show ?thesis by blast
qed

section \<open>A retry is a new attempt\<close>

text \<open>A retry starts from a settled job of this very machine, saves a new queued row under a fresh
  identifier with the same destination and arguments and a link to the old one, and leaves every
  other row and every grant as they were.\<close>

theorem retry_is_new_attempt:
  assumes "rpc_job_retry en cx req nd = (Inr v, nd')"
  shows "\<exists>old i. old \<in> set (st_jobs (fst nd)) \<and> jstr req ''job_id'' = Some (j_id old) \<and>
    j_from old = st_body_name (fst nd) \<and> is_terminal (j_status old) \<and>
    v = ok_json [(''job_id'', JStr i)] \<and>
    map job_core (st_jobs (fst nd')) = map job_core (st_jobs (fst (ow_others en 0 nd))) @
      [\<lparr>j_id = i, j_body = j_body old, j_argv = j_argv old, j_from = j_from old, j_status = Queued, j_stdout = [], j_stderr = []\<rparr>] \<and>
    st_retry_links (fst nd') i = Some (j_id old) \<and> st_grants (fst nd') = st_grants (fst (ow_others en 0 nd)) \<and>
    snd nd' = Some (durable (fst nd'))"
proof -
  obtain a d s' d' where ad: "ow_others en 0 nd = (a, d)" "nd' = (s', d')" by (metis surj_pair)
  from assms obtain i old where i: "jstr req ''job_id'' = Some i"
    and old: "List.find (\<lambda>j. j_id j = i \<and> j_from j = st_body_name (fst nd)) (st_jobs (fst nd)) = Some old"
    and t: "is_terminal (j_status old)"
    and app: "answer (\<lambda>j. ok_json [(''job_id'', JStr (j_id j))]) (append_retry cx (ow_random en) (j_from old) (j_body old)
      (j_argv old) Queued (Some (j_id old)) (a, d)) = (Inr v, s', d')"
    unfolding ad by (auto simp: rpc_job_retry_def rpc_job_id_def result_simps ad split: sum.splits if_splits)
  then obtain j where j: "append_retry cx (ow_random en) (j_from old) (j_body old) (j_argv old) Queued (Some (j_id old)) (a, d) =
      (Inr j, s', d')" and v: "v = ok_json [(''job_id'', JStr (j_id j))]"
    by (cases "append_retry cx (ow_random en) (j_from old) (j_body old) (j_argv old) Queued (Some (j_id old)) (a, d)")
      (auto simp: answer_def result_simps)
  from append_retry_saves [OF j] have
    "job_core j = \<lparr>j_id = j_id j, j_body = j_body old, j_argv = j_argv old, j_from = j_from old, j_status = Queued, j_stdout = [], j_stderr = []\<rparr>"
    by (metis job_core_def job.update_convs(6,7))
  with append_retry_saves [OF j] v i t find_Some_set [OF old] show ?thesis
    unfolding ad by (intro exI [of _ old] exI [of _ "j_id j"]) auto
qed

section \<open>Renaming\<close>

text \<open>A machine changes its name only before it is paired and has no job and no grant, to the valid
  name the owner gave, which is no command.\<close>

theorem rename_only_when_unused:
  assumes "apply_body_name en cx given nd = (r, nd')" and "st_body_name (fst nd') \<noteq> st_body_name (fst nd)"
  shows "st_peers (fst nd) = [] \<and> st_jobs (fst nd) = [] \<and> st_grants (fst nd) = [] \<and>
    given = Some (st_body_name (fst nd')) \<and> validate_name (st_body_name (fst nd')) = Inr () \<and>
    st_body_name (fst nd') \<notin> set (pe_commands (ow_pair en))"
proof -
  let ?s = "fst nd" and ?name = "case given of Some n \<Rightarrow> n | None \<Rightarrow> st_body_name (fst nd)"
  obtain s' d' where nd': "nd' = (s', d')" by (metis surj_pair)
  from assms have ok: "validate_name ?name = Inr ()" "refuse_command_name (ow_pair en) ?name ''this machine'' = Inr ()"
    "?name = st_body_name ?s \<or> st_peers ?s = [] \<and> st_jobs ?s = [] \<and> st_grants ?s = []"
    and up: "update cx (rename_edit (cx_crypto cx) (ow_pair en) ?name) (fst nd, snd nd) = (r, s', d')"
    unfolding nd' by (auto simp: apply_body_name_def Let_def result_simps split: sum.splits if_splits)
  from up have "st_body_name s' = st_body_name ?s \<or> st_body_name s' = ?name"
  proof (cases rule: update_steps)
    case (saved v)
    obtain n1 where n1: "rename_edit (cx_crypto cx) (ow_pair en) ?name ?s = Inr (v, n1)" and o: "outcome s' = outcome n1"
      using saved(2) by (rule update_next_outcome)
    from n1 have "n1 = ?s\<lparr>st_body_name := ?name\<rparr>" by (auto simp: rename_edit_def Let_def result_simps)
    then show ?thesis using outcomeD(1) [OF o] by simp
  qed simp_all
  with assms(2) have new: "st_body_name s' = ?name" "?name \<noteq> st_body_name ?s" by (auto simp: nd')
  then have "given = Some (st_body_name s')" by (cases given) auto
  moreover have "?name \<notin> set (pe_commands (ow_pair en))"
    using ok(2) by (auto simp: refuse_command_name_def list_ex_iff split: if_splits)
  ultimately show ?thesis using ok new by (simp add: nd')
qed

end
