(* ===== verification/Clix_Pin.thy ===== *)
theory Clix_Pin
  imports Clix_Store Clix_Grant "HOL-Library.List_Lexorder" "HOL-Library.Char_ord"
begin

text \<open>
  The manifests of \<open>src/pin.rs\<close>: which paths take part, the fingerprints of their contents, the
  three-way comparison that decides what a synchronisation changes on which side, and the baselines a
  machine keeps of its last synchronisation with each paired machine.
\<close>

section \<open>Constants and paths\<close>

definition RECOVERY :: string where "RECOVERY = ''.clix-recovery''"
definition MAX_FILE :: nat where "MAX_FILE = 16 * 1024 * 1024"
definition MAX_RECEIPT :: nat where "MAX_RECEIPT = 64 * 1024"
definition MAX_RECOVERY_BYTES :: nat where "MAX_RECOVERY_BYTES = 256 * 1024 * 1024"
definition MAX_RECOVERY_ENTRIES :: nat where "MAX_RECOVERY_ENTRIES = 4096"
definition RECOVERY_RESERVE :: nat where "RECOVERY_RESERVE = 1024 * 1024"
definition RECOVERY_LOCK :: string where "RECOVERY_LOCK = ''.lock''"
definition MAX_PIN_ENTRIES :: nat where "MAX_PIN_ENTRIES = 4096"
definition MAX_RECOVERY_PAGE :: nat where "MAX_RECOVERY_PAGE = 128"

definition conflict :: "string \<Rightarrow> string \<Rightarrow> string \<Rightarrow> clix_error" where
  "conflict path a b = PinConflict (''src/'' @ path) a b"

definition changed :: "string \<Rightarrow> clix_error" where
  "changed path = PinConflict (''src/'' @ path) ''scanned version'' ''current version''"

text \<open>Repository metadata never takes part.\<close>

definition excluded :: "string \<Rightarrow> bool" where
  "excluded rel \<longleftrightarrow> list_ex (\<lambda>part. part = ''.git'') (split_char slash rel)"

definition normal_comps :: "string \<Rightarrow> bool" where
  "normal_comps p \<longleftrightarrow> \<not> fst (path_comps p) \<and> list_all (\<lambda>c. c \<noteq> ''.'' \<and> c \<noteq> ''..'') (snd (path_comps p))"

definition valid_path :: "string \<Rightarrow> unit res" where
  "valid_path rel =
     (if rel = [] \<or> \<not> normal_comps rel \<or> list_ex (\<lambda>c. c = RECOVERY) (split_char slash rel) \<or> excluded rel
      then Inl (Protocol ''invalid pin path'') else Inr ())"

section \<open>Fingerprints\<close>

definition fingerprint :: "crypto \<Rightarrow> bytes \<Rightarrow> 32 word \<Rightarrow> fingerprint" where
  "fingerprint cr bs mode = \<lparr>fp_hash = hash cr bs, fp_mode = mode\<rparr>"

definition fingerprint_json :: "fingerprint \<Rightarrow> json" where
  "fingerprint_json f = JObj [(''hash'', JStr (fp_hash f)), (''mode'', JInt (uint (fp_mode f)))]"

text \<open>The reader refuses unknown fields.\<close>

fun as_u32 :: "json \<Rightarrow> 32 word option" where
  "as_u32 (JInt i) = (if 0 \<le> i \<and> i < 2 ^ 32 then Some (word_of_int i) else None)"
| "as_u32 _ = None"

definition only_fields :: "string list \<Rightarrow> json \<Rightarrow> bool" where
  "only_fields ks v = (case v of JObj kvs \<Rightarrow> list_all (\<lambda>(k, _). List.member ks k) kvs | _ \<Rightarrow> True)"

definition fingerprint_of_json :: "json \<Rightarrow> fingerprint option" where
  "fingerprint_of_json v =
     (if \<not> only_fields [''hash'', ''mode''] v then None
      else Option.bind (Clix_Json.fields 2 [''hash'', ''mode''] v) (\<lambda>m.
           Option.bind (fld m ''hash'' as_str) (\<lambda>h.
           Option.bind (fld m ''mode'' as_u32) (\<lambda>w. Some \<lparr>fp_hash = h, fp_mode = w\<rparr>))))"

definition manifest_json :: "manifest \<Rightarrow> json" where
  "manifest_json m = JObj (map (\<lambda>(p, f). (p, fingerprint_json f)) m)"

definition manifest_of_json :: "json \<Rightarrow> manifest option" where
  "manifest_of_json v = (case v of
       JObj kvs \<Rightarrow> map_option (\<lambda>ms. foldl (\<lambda>m (p, f). bt_insert p f m) [] ms)
         (collect (\<lambda>(p, x). map_option (Pair p) (fingerprint_of_json x)) kvs)
     | _ \<Rightarrow> None)"

text \<open>File contents cross the mesh as hexadecimal text.\<close>

fun hex_value :: "char \<Rightarrow> nat option" where
  "hex_value c = (let n = (of_char c :: nat) in
     if 48 \<le> n \<and> n \<le> 57 then Some (n - 48) else if 97 \<le> n \<and> n \<le> 102 then Some (n - 87)
     else if 65 \<le> n \<and> n \<le> 70 then Some (n - 55) else None)"

fun unhex_pairs :: "string \<Rightarrow> bytes res" where
  "unhex_pairs (a # b # s) = (case (hex_value a, hex_value b) of
     (Some h, Some l) \<Rightarrow> rbind (unhex_pairs s) (\<lambda>bs. Inr (of_nat (h * 16 + l) # bs))
   | _ \<Rightarrow> Inl (Protocol ''invalid pin content''))"
| "unhex_pairs _ = Inr []"

definition unhex :: "string \<Rightarrow> bytes res" where
  "unhex s = (if \<not> even (length s) \<or> MAX_FILE * 2 < length s then Inl (Protocol ''invalid pin content'')
     else unhex_pairs s)"

section \<open>Planning\<close>

record change =
  pc_path :: string
  pc_expected :: "fingerprint option"
  pc_new :: "fingerprint option"
  pc_to_remote :: bool

definition merge_in :: "string \<Rightarrow> fingerprint option \<Rightarrow> manifest \<Rightarrow> manifest" where
  "merge_in p f m = (case f of Some x \<Rightarrow> bt_insert p x m | None \<Rightarrow> m)"

definition plan_path :: "string \<Rightarrow> string \<Rightarrow> manifest \<Rightarrow> manifest \<Rightarrow> manifest \<Rightarrow> string
    \<Rightarrow> change list \<times> manifest \<Rightarrow> (change list \<times> manifest) res" where
  "plan_path a b local remote base path acc =
     (case acc of (changes, merged) \<Rightarrow>
     rbind (valid_path path) (\<lambda>_.
     let l = bt_get local path; r = bt_get remote path; old = bt_get base path
     in if l = r then Inr (changes, merge_in path l merged)
        else if l = old then Inr (changes @ [\<lparr>pc_path = path, pc_expected = l, pc_new = r, pc_to_remote = False\<rparr>],
          merge_in path r merged)
        else if r = old then Inr (changes @ [\<lparr>pc_path = path, pc_expected = r, pc_new = l, pc_to_remote = True\<rparr>],
          merge_in path l merged)
        else Inl (conflict path a b)))"

definition plan_paths :: "manifest \<Rightarrow> manifest \<Rightarrow> manifest \<Rightarrow> string list" where
  "plan_paths local remote base = sort (remdups (bt_keys local @ bt_keys remote @ bt_keys base))"

definition plan :: "manifest \<Rightarrow> manifest \<Rightarrow> manifest \<Rightarrow> string \<Rightarrow> string \<Rightarrow> (change list \<times> manifest) res" where
  "plan local remote base a b = fold_r (plan_path a b local remote base) (plan_paths local remote base) ([], [])"

section \<open>Baselines\<close>

definition pin_key :: "bytes \<Rightarrow> string" where
  "pin_key pk = hex pk"

definition without_excluded :: "manifest \<Rightarrow> manifest" where
  "without_excluded m = filter (\<lambda>(p, _). \<not> excluded p) m"

definition baseline :: "store \<Rightarrow> bytes \<Rightarrow> manifest" where
  "baseline s pk = without_excluded (case pi_peers (st_pin_index s) (pin_key pk) of Some m \<Rightarrow> m | None \<Rightarrow> [])"

definition common_baseline :: "manifest \<Rightarrow> manifest \<Rightarrow> manifest \<Rightarrow> manifest \<Rightarrow> manifest res" where
  "common_baseline a b local remote =
     (if a = b then Inr a
      else if local = remote then Inr local
      else Inl (conflict ''(sync baseline)'' ''local baseline'' ''peer baseline''))"

text \<open>\<open>now\<close> is the time in milliseconds.\<close>

definition record_edit :: "bytes \<Rightarrow> manifest \<Rightarrow> nat \<Rightarrow> store \<Rightarrow> (unit \<times> store) res" where
  "record_edit pk m now s = Inr ((), s\<lparr>st_pin_index := \<lparr>pi_peers = (pi_peers (st_pin_index s))(pin_key pk \<mapsto> m),
     pi_last_sync = Some now, pi_hashes = map (\<lambda>(p, f). (p, fp_hash f)) m, pi_last_error = None\<rparr>\<rparr>)"

definition record_sync :: "ctx \<Rightarrow> bytes \<Rightarrow> manifest \<Rightarrow> nat \<Rightarrow> node \<Rightarrow> unit res \<times> node" where
  "record_sync cx pk m now nd = update cx (record_edit pk m now) nd"

definition ensure_enabled :: "store \<Rightarrow> unit res" where
  "ensure_enabled s = (if \<not> st_pin_enabled s
     then Inl (Usage (''pin is off on '' @ st_body_name s @ ''; enable it there with clix pin on'')) else Inr ())"

section \<open>Listings of a paired machine\<close>

record listing =
  li_files :: manifest
  li_baseline :: manifest

definition listing_of_json :: "json \<Rightarrow> listing option" where
  "listing_of_json v =
     Option.bind (Clix_Json.fields 2 [''files'', ''baseline''] v) (\<lambda>m.
     Option.bind (fld m ''files'' manifest_of_json) (\<lambda>f.
     Option.bind (fld m ''baseline'' manifest_of_json) (\<lambda>b. Some \<lparr>li_files = f, li_baseline = b\<rparr>)))"

definition validate_listing :: "listing \<Rightarrow> listing res" where
  "validate_listing li =
     (if MAX_PIN_ENTRIES < length (li_files li) \<or> MAX_PIN_ENTRIES < length (li_baseline li)
      then Inl (Protocol ''peer pin listing exceeds 4096 entries'')
      else let clean = \<lparr>li_files = without_excluded (li_files li), li_baseline = without_excluded (li_baseline li)\<rparr>
           in rbind (fold_r (\<lambda>p _. valid_path p) (bt_keys (li_files clean) @ bt_keys (li_baseline clean)) ())
                (\<lambda>_. Inr clean))"

section \<open>A plan merges\<close>

text \<open>What a three-way merge means for one path: the side that changed wins.\<close>

definition merged_version :: "'a \<Rightarrow> 'a \<Rightarrow> 'a \<Rightarrow> 'a" where
  "merged_version l r old = (if l = r then l else if l = old then r else l)"

definition conflicting :: "'a \<Rightarrow> 'a \<Rightarrow> 'a \<Rightarrow> bool" where
  "conflicting l r old \<longleftrightarrow> l \<noteq> r \<and> l \<noteq> old \<and> r \<noteq> old"

text \<open>Doing the changes of a plan on one side.\<close>

definition applied :: "change list \<Rightarrow> bool \<Rightarrow> (string \<Rightarrow> fingerprint option) \<Rightarrow> string \<Rightarrow> fingerprint option" where
  "applied cs side m = foldl (\<lambda>f c. f(pc_path c := pc_new c)) m (filter (\<lambda>c. pc_to_remote c = side) cs)"

text \<open>What a plan has established for the paths it has been through.\<close>

definition planned :: "manifest \<Rightarrow> manifest \<Rightarrow> manifest \<Rightarrow> string set \<Rightarrow> change list \<times> manifest \<Rightarrow> bool" where
  "planned l r old D acc \<longleftrightarrow> (case acc of (cs, m) \<Rightarrow> bt_ok m \<and>
     (\<forall>p. bt_get m p = (if p \<in> D then merged_version (bt_get l p) (bt_get r p) (bt_get old p) else None)) \<and>
     (\<forall>p \<in> D. valid_path p = Inr () \<and> \<not> conflicting (bt_get l p) (bt_get r p) (bt_get old p)) \<and>
     (\<forall>p. applied cs False (bt_get l) p = (if p \<in> D then bt_get m p else bt_get l p)) \<and>
     (\<forall>p. applied cs True (bt_get r) p = (if p \<in> D then bt_get m p else bt_get r p)) \<and>
     pc_path ` set cs \<subseteq> D \<and> distinct (map pc_path cs) \<and>
     (\<forall>c \<in> set cs. pc_expected c = bt_get (if pc_to_remote c then r else l) (pc_path c) \<and>
        pc_new c = bt_get m (pc_path c) \<and> pc_new c \<noteq> pc_expected c))"

lemma bt_get_merge_in: "bt_ok m \<Longrightarrow> bt_get m p = None \<Longrightarrow> bt_get (merge_in p f m) q = (if q = p then f else bt_get m q)"
  by (cases f) (simp_all add: merge_in_def bt_get_def map_of_bt_insert)

lemma bt_ok_merge_in: "bt_ok m \<Longrightarrow> bt_ok (merge_in p f m)"
  by (cases f) (simp_all add: merge_in_def bt_ok_insert)

lemma applied_snoc: "applied (cs @ [c]) side f = (if pc_to_remote c = side then (applied cs side f)(pc_path c := pc_new c)
    else applied cs side f)"
  by (simp add: applied_def)

lemma planned_extend:
  assumes pl: "planned l r old D (cs, m)" and p: "p \<notin> D" "valid_path p = Inr ()"
    and x: "x = merged_version (bt_get l p) (bt_get r p) (bt_get old p)" "\<not> conflicting (bt_get l p) (bt_get r p) (bt_get old p)"
    and cs': "bt_get l p = bt_get r p \<and> x = bt_get l p \<and> cs' = cs \<or>
      (\<exists>tr. cs' = cs @ [\<lparr>pc_path = p, pc_expected = bt_get (if tr then r else l) p, pc_new = x, pc_to_remote = tr\<rparr>] \<and>
        x = bt_get (if tr then l else r) p \<and> bt_get l p \<noteq> bt_get r p)"
  shows "planned l r old (insert p D) (cs', merge_in p x m)"
proof -
  from pl p(1) have m: "bt_ok m" "bt_get m p = None" "p \<notin> pc_path ` set cs" by (auto simp: planned_def)
  define m' where "m' = merge_in p x m"
  have get: "\<forall>q. bt_get m' q = (if q = p then x else bt_get m q)" using m by (simp add: m'_def bt_get_merge_in)
  have ok: "bt_ok m'" using m(1) by (simp add: m'_def bt_ok_merge_in)
  from cs' have "planned l r old (insert p D) (cs', m')"
  proof (elim disjE exE conjE)
    assume "cs' = cs" "bt_get l p = bt_get r p" "x = bt_get l p"
    with pl p x ok m(3) get show ?thesis unfolding planned_def by auto
  next
    fix tr
    assume "cs' = cs @ [\<lparr>pc_path = p, pc_expected = bt_get (if tr then r else l) p, pc_new = x, pc_to_remote = tr\<rparr>]"
      "x = bt_get (if tr then l else r) p" "bt_get l p \<noteq> bt_get r p"
    with pl p x ok m(3) get show ?thesis unfolding planned_def by (cases tr) (auto simp: applied_snoc)
  qed
  then show ?thesis by (simp add: m'_def)
qed

lemma plan_path_planned:
  assumes "planned l r old D acc" "p \<notin> D" "plan_path a b l r old p acc = Inr acc'"
  shows "planned l r old (insert p D) acc'"
proof -
  obtain cs m where acc: "acc = (cs, m)" by fastforce
  let ?l = "bt_get l p" and ?r = "bt_get r p" and ?o = "bt_get old p"
  have valid: "valid_path p = Inr ()" using assms(3) by (auto simp: plan_path_def acc result_simps)
  from assms(3) valid consider
      (same) "?l = ?r" "acc' = (cs, merge_in p ?l m)"
    | (take) "?l \<noteq> ?r" "?l = ?o" "acc' = (cs @ [\<lparr>pc_path = p, pc_expected = ?l, pc_new = ?r, pc_to_remote = False\<rparr>], merge_in p ?r m)"
    | (send) "?l \<noteq> ?r" "?l \<noteq> ?o" "?r = ?o" "acc' = (cs @ [\<lparr>pc_path = p, pc_expected = ?r, pc_new = ?l, pc_to_remote = True\<rparr>], merge_in p ?l m)"
    by (auto simp: plan_path_def acc Let_def split: if_splits)
  then show ?thesis
  proof cases
    case same
    show ?thesis unfolding same(2)
      by (rule planned_extend [OF assms(1) [unfolded acc] assms(2) valid]) (use same in \<open>auto simp: merged_version_def conflicting_def\<close>)
  next
    case take
    show ?thesis unfolding take(3)
      by (rule planned_extend [OF assms(1) [unfolded acc] assms(2) valid]) (use take in \<open>auto simp: merged_version_def conflicting_def\<close>)
  next
    case send
    show ?thesis unfolding send(4)
      by (rule planned_extend [OF assms(1) [unfolded acc] assms(2) valid]) (use send in \<open>auto simp: merged_version_def conflicting_def\<close>)
  qed
qed

lemma plan_fold_planned:
  "planned l r old D acc \<Longrightarrow> distinct ps \<Longrightarrow> set ps \<inter> D = {} \<Longrightarrow> fold_r (plan_path a b l r old) ps acc = Inr acc' \<Longrightarrow>
     planned l r old (D \<union> set ps) acc'"
proof (induction ps arbitrary: D acc)
  case (Cons p ps)
  then obtain acc1 where acc1: "plan_path a b l r old p acc = Inr acc1" "fold_r (plan_path a b l r old) ps acc1 = Inr acc'"
    by (auto simp: result_simps)
  with Cons.prems have "planned l r old (insert p D) acc1" using plan_path_planned [of l r old D acc p a b acc1] by simp
  from Cons.IH [OF this _ _ acc1(2)] Cons.prems have "planned l r old (insert p D \<union> set ps) acc'" by auto
  then show ?case by simp
qed simp

text \<open>C20: A plan is the three-way merge of the two trees over their last common state: for every path
  the side that changed wins, both trees reach the same merged manifest by doing the changes meant for
  them, and each change is planned against the version that side has now.  No path was changed
  differently on both sides, and none is outside the tree, in \<open>.git\<close> or in the recovery directory.\<close>

theorem plan_merges:
  assumes "plan local remote base a b = Inr (cs, m)"
  shows "(\<forall>p. bt_get m p = merged_version (bt_get local p) (bt_get remote p) (bt_get base p) \<and>
      \<not> conflicting (bt_get local p) (bt_get remote p) (bt_get base p)) \<and>
    applied cs False (bt_get local) = bt_get m \<and> applied cs True (bt_get remote) = bt_get m \<and>
    distinct (map pc_path cs) \<and>
    (\<forall>c \<in> set cs. valid_path (pc_path c) = Inr () \<and> pc_new c = bt_get m (pc_path c) \<and>
      pc_expected c = bt_get (if pc_to_remote c then remote else local) (pc_path c) \<and> pc_new c \<noteq> pc_expected c)"
proof -
  let ?D = "set (plan_paths local remote base)"
  have "planned local remote base {} ([], [])" by (simp add: planned_def bt_ok_def applied_def)
  moreover have "distinct (plan_paths local remote base)" by (simp add: plan_paths_def)
  ultimately have *: "planned local remote base ?D (cs, m)"
    using plan_fold_planned [of local remote base "{}" "([], [])"] assms by (auto simp: plan_def)
  have out: "bt_get local p = None \<and> bt_get remote p = None \<and> bt_get base p = None" if "p \<notin> ?D" for p
    using that by (auto simp: plan_paths_def bt_keys_def bt_get_def map_of_eq_None_iff)
  have m: "bt_get m p = merged_version (bt_get local p) (bt_get remote p) (bt_get base p) \<and>
      \<not> conflicting (bt_get local p) (bt_get remote p) (bt_get base p)" for p
    using * out [of p] by (cases "p \<in> ?D") (auto simp: planned_def merged_version_def conflicting_def)
  have "applied cs False (bt_get local) p = bt_get m p" "applied cs True (bt_get remote) p = bt_get m p" for p
    using * out [of p] by (cases "p \<in> ?D"; simp add: planned_def)+
  then have sides: "applied cs False (bt_get local) = bt_get m" "applied cs True (bt_get remote) = bt_get m" by blast+
  from * have "pc_path ` set cs \<subseteq> ?D" "\<forall>p \<in> ?D. valid_path p = Inr ()" "distinct (map pc_path cs)"
    "\<forall>c \<in> set cs. pc_expected c = bt_get (if pc_to_remote c then remote else local) (pc_path c) \<and>
      pc_new c = bt_get m (pc_path c) \<and> pc_new c \<noteq> pc_expected c"
    unfolding planned_def prod.case by blast+
  then show ?thesis using m sides by blast
qed

text \<open>A plan fails only on an invalid path or on one that both sides changed differently, and says which.\<close>

theorem plan_fails_on_conflict:
  assumes "plan local remote base a b = Inl e"
  shows "\<exists>p \<in> set (plan_paths local remote base). valid_path p = Inl e \<or>
    (e = conflict p a b \<and> conflicting (bt_get local p) (bt_get remote p) (bt_get base p))"
proof -
  have "fold_r (plan_path a b local remote base) ps acc = Inl e \<Longrightarrow> \<exists>p \<in> set ps. valid_path p = Inl e \<or>
    (e = conflict p a b \<and> conflicting (bt_get local p) (bt_get remote p) (bt_get base p))" for ps acc
  proof (induction ps arbitrary: acc)
    case (Cons p ps)
    then show ?case
      by (auto simp: result_simps plan_path_def Let_def conflicting_def split: prod.splits if_splits)
  qed simp
  then show ?thesis using assms by (simp add: plan_def)
qed

lemma plan_path_ok_iff:
  "(\<exists>x. plan_path a b l r old p acc = Inr x) \<longleftrightarrow> valid_path p = Inr () \<and> \<not> conflicting (bt_get l p) (bt_get r p) (bt_get old p)"
  by (cases acc; cases "valid_path p") (auto simp: plan_path_def conflicting_def Let_def)

lemma plan_ok_iff:
  "(\<exists>x. plan l r old a b = Inr x) \<longleftrightarrow> (\<forall>p \<in> set (plan_paths l r old). valid_path p = Inr () \<and>
     \<not> conflicting (bt_get l p) (bt_get r p) (bt_get old p))"
proof -
  have "(\<exists>x. fold_r (plan_path a b l r old) ps acc = Inr x) \<longleftrightarrow>
      (\<forall>p \<in> set ps. valid_path p = Inr () \<and> \<not> conflicting (bt_get l p) (bt_get r p) (bt_get old p))" for ps acc
  proof (induction ps arbitrary: acc)
    case (Cons p ps)
    show ?case
    proof (cases "plan_path a b l r old p acc")
      case (Inl e)
      with plan_path_ok_iff [of a b l r old p acc] show ?thesis by auto
    next
      case (Inr acc')
      with plan_path_ok_iff [of a b l r old p acc] Cons.IH [of acc'] show ?thesis by auto
    qed
  qed simp
  then show ?thesis by (simp add: plan_def)
qed

end
