(* ===== verification/Clix_Tree.thy ===== *)
theory Clix_Tree
  imports Clix_Pin Clix_Job
begin

text \<open>
  The pinned directory of \<open>src/pin.rs\<close>: reading and scanning the tree, and the recovery directory with its
  receipts.  The file system is a value: directories are lists of named nodes, every operation that
  changes one returns the changed one (in \<open>Clix_Publish\<close>).  A \<open>pin_env\<close> holds the outcomes of the system calls, the metadata new files get, serde's reading
  and writing of JSON text, and what other processes do to the files right before publication
  (\<open>pv_others\<close>; they are not taken to move the directories on the way).
\<close>

section \<open>Files\<close>

text \<open>\<open>pf_mode\<close> are the nine permission bits; times are seconds and nanoseconds.\<close>

record pin_file =
  pf_bytes :: bytes
  pf_mode :: "32 word"
  pf_dev :: nat
  pf_ino :: nat
  pf_mtime :: "int \<times> int"
  pf_ctime :: "int \<times> int"

datatype pin_node = Reg pin_file | Dir "(string \<times> pin_node) list" | Link | Special

type_synonym entries = "(string \<times> pin_node) list"

text \<open>The recovery directory stands beside the other entries of the root; its lock file is not listed.\<close>

record pin_tree =
  pt_path :: string
  pt_entries :: entries
  pt_recovery :: "entries option"

text \<open>One replacement of a receipt: a temporary file is created, written, renamed, the directory
  synced; a failure may leave the temporary file with what was written so far.\<close>

record receipt_io =
  ri_random :: "bytes res"
  ri_create :: "unit res"
  ri_write :: "(bytes \<times> clix_error) option"
  ri_rename :: "unit res"
  ri_sync :: "unit res"

record pin_env =
  pv_crypto :: crypto
  pv_host :: host
  pv_canonical :: "string \<Rightarrow> string option"
  pv_errno :: "string \<Rightarrow> string"
  pv_encode :: "json \<Rightarrow> bytes"
  pv_parse :: "bytes \<Rightarrow> json option"
  pv_parse_error :: "bytes \<Rightarrow> string"
  pv_torn :: "pin_file \<Rightarrow> bool"
  pv_other_size :: nat
  pv_open :: "unit res"
  pv_lock :: "unit res"
  pv_random :: "bytes res"
  pv_parent :: "(nat \<times> clix_error) option"
  pv_receipt :: "nat \<Rightarrow> receipt_io"
  pv_stage :: "((bytes \<times> 32 word) option \<times> clix_error) option"
  pv_new_file :: "bytes \<Rightarrow> 32 word \<Rightarrow> pin_file"
  pv_ctime :: "pin_file \<Rightarrow> int \<times> int"
  pv_sync :: "unit res"
  pv_previous :: "unit res"
  pv_unlink :: "unit res"
  pv_final :: "unit res"
  pv_others :: "pin_tree \<Rightarrow> pin_tree"

definition os :: "pin_env \<Rightarrow> string \<Rightarrow> clix_error" where
  "os pv e = Io (pv_errno pv e)"

definition parts :: "string \<Rightarrow> string list" where
  "parts p = split_char slash p"

text \<open>Resolving a path beneath a directory without following links (\<open>openat2\<close>).\<close>

fun walk :: "pin_env \<Rightarrow> entries \<Rightarrow> string list \<Rightarrow> pin_node option res" where
  "walk pv es [] = Inr (Some (Dir es))"
| "walk pv es (p # ps) =
     (if p = [] \<or> p = ''.'' then walk pv es ps
      else case map_of es p of
             None \<Rightarrow> Inr None
           | Some (Dir sub) \<Rightarrow> walk pv sub ps
           | Some Link \<Rightarrow> Inl (os pv ''ELOOP'')
           | Some n \<Rightarrow> if ps = [] then Inr (Some n) else Inl (os pv ''ENOTDIR''))"

definition read_file :: "pin_env \<Rightarrow> pin_tree \<Rightarrow> string \<Rightarrow> (fingerprint \<times> bytes) option res" where
  "read_file pv t path =
     rbind (valid_path path) (\<lambda>_.
     rbind (walk pv (pt_entries t) (parts path)) (\<lambda>n.
     case n of
       None \<Rightarrow> Inr None
     | Some (Reg f) \<Rightarrow>
         if MAX_FILE < length (pf_bytes f) then Inl (Protocol (''pin file exceeds 16 MiB: '' @ path))
         else if pv_torn pv f then Inl (changed path)
         else Inr (Some (fingerprint (pv_crypto pv) (pf_bytes f) (pf_mode f), pf_bytes f))
     | Some _ \<Rightarrow> Inl (Protocol (''pin supports regular files only: '' @ path))))"

section \<open>Receipts\<close>

datatype recovery_state = RsPending | RsRetained | RsResolved | RsDiscarding

record receipt =
  rc_path :: string
  rc_expected :: "fingerprint option"
  rc_replacement :: "fingerprint option"
  rc_version :: string
  rc_state :: recovery_state
  rc_source :: "string option"
  rc_discard_token :: "string option"

fun state_name :: "recovery_state \<Rightarrow> string" where
  "state_name RsPending = ''pending''"
| "state_name RsRetained = ''retained''"
| "state_name RsResolved = ''resolved''"
| "state_name RsDiscarding = ''discarding''"

definition state_named :: "string \<Rightarrow> recovery_state option" where
  "state_named t = (if t = ''pending'' then Some RsPending else if t = ''retained'' then Some RsRetained
     else if t = ''resolved'' then Some RsResolved else if t = ''discarding'' then Some RsDiscarding else None)"

fun state_of_json :: "json \<Rightarrow> recovery_state option" where
  "state_of_json (JStr t) = state_named t"
| "state_of_json (JObj [(t, JNull)]) = state_named t"
| "state_of_json _ = None"

definition receipt_json :: "receipt \<Rightarrow> json" where
  "receipt_json r = JObj ([(''path'', JStr (rc_path r)), (''expected'', opt_json fingerprint_json (rc_expected r)),
     (''replacement'', opt_json fingerprint_json (rc_replacement r)), (''version'', JStr (rc_version r)),
     (''state'', JStr (state_name (rc_state r)))] @
     (case rc_source r of None \<Rightarrow> [] | Some x \<Rightarrow> [(''source_receipt'', JStr x)]) @
     (case rc_discard_token r of None \<Rightarrow> [] | Some x \<Rightarrow> [(''discard_token'', JStr x)]))"

definition receipt_fields :: "string list" where
  "receipt_fields = [''path'', ''expected'', ''replacement'', ''version'', ''state'', ''source_receipt'', ''discard_token'']"

definition receipt_of_json :: "json \<Rightarrow> receipt option" where
  "receipt_of_json v =
     (if \<not> only_fields receipt_fields v then None
      else Option.bind (Clix_Json.fields 5 receipt_fields v) (\<lambda>m.
           Option.bind (fld m ''path'' as_str) (\<lambda>p.
           Option.bind (fld_opt m ''expected'' fingerprint_of_json) (\<lambda>e.
           Option.bind (fld_opt m ''replacement'' fingerprint_of_json) (\<lambda>r.
           Option.bind (fld m ''version'' as_str) (\<lambda>v.
           Option.bind (fld m ''state'' state_of_json) (\<lambda>st.
           Option.bind (fld_opt m ''source_receipt'' as_str) (\<lambda>src.
           Option.bind (fld_opt m ''discard_token'' as_str) (\<lambda>d.
           Some \<lparr>rc_path = p, rc_expected = e, rc_replacement = r, rc_version = v, rc_state = st, rc_source = src,
             rc_discard_token = d\<rparr>)))))))))"

definition ends_with :: "string \<Rightarrow> string \<Rightarrow> bool" where
  "ends_with suf s \<longleftrightarrow> length suf \<le> length s \<and> drop (length s - length suf) s = suf"

definition is_receipt_name :: "string \<Rightarrow> bool" where
  "is_receipt_name n \<longleftrightarrow> ends_with ''.json'' n"

definition valid_recovery_name :: "string \<Rightarrow> unit res" where
  "valid_recovery_name name =
     (if name = [] \<or> 200 < length name \<or> name = RECOVERY_LOCK \<or> \<not> normal_comps name \<or> length (snd (path_comps name)) \<noteq> 1
      then Inl (Protocol ''invalid recovery ID'') else Inr ())"

definition parse_receipt :: "pin_env \<Rightarrow> bytes \<Rightarrow> string \<Rightarrow> receipt res" where
  "parse_receipt pv bs i =
     rbind (ok_or (Option.bind (pv_parse pv bs) receipt_of_json)
       (Protocol (''invalid recovery receipt '' @ i @ '': '' @ pv_parse_error pv bs))) (\<lambda>r.
     rbind (if rc_path r \<noteq> [] \<or> rc_state r \<noteq> RsDiscarding then valid_path (rc_path r) else Inr ()) (\<lambda>_.
     rbind (valid_recovery_name (rc_version r)) (\<lambda>_.
     if (is_receipt_name (rc_version r) \<and> \<not> (rc_state r = RsDiscarding \<and> rc_path r = [])) \<or>
        (ends_with ''.tmp'' (rc_version r) \<and> rc_state r \<noteq> RsDiscarding)
     then Inl (Protocol ''recovery version must name a data file'') else Inr r)))"

section \<open>The recovery directory\<close>

definition open_internal :: "pin_env \<Rightarrow> entries \<Rightarrow> string \<Rightarrow> pin_file option res" where
  "open_internal pv dir name =
     rbind (valid_recovery_name name) (\<lambda>_.
     case map_of dir name of
       None \<Rightarrow> Inr None
     | Some (Reg f) \<Rightarrow> Inr (Some f)
     | Some Link \<Rightarrow> Inl (os pv ''ELOOP'')
     | Some _ \<Rightarrow> Inl (Protocol ''recovery entries must be regular files''))"

definition read_internal :: "pin_env \<Rightarrow> entries \<Rightarrow> string \<Rightarrow> nat \<Rightarrow> bytes res" where
  "read_internal pv dir name mx =
     rbind (open_internal pv dir name) (\<lambda>f.
     rbind (ok_or f (Usage ''recovery version is absent'')) (\<lambda>g.
     if mx < length (pf_bytes g) then Inl (Usage ''recovery read exceeds the supported size; data was preserved'')
     else Inr (pf_bytes g)))"

record version =
  rv_fingerprint :: fingerprint
  rv_bytes :: nat
  rv_device :: nat
  rv_inode :: nat
  rv_modified :: "int \<times> int"
  rv_changed :: "int \<times> int"

definition version_from_metadata :: "pin_file \<Rightarrow> string \<Rightarrow> version" where
  "version_from_metadata f h = \<lparr>rv_fingerprint = \<lparr>fp_hash = h, fp_mode = pf_mode f\<rparr>, rv_bytes = length (pf_bytes f),
     rv_device = pf_dev f, rv_inode = pf_ino f, rv_modified = pf_mtime f, rv_changed = pf_ctime f\<rparr>"

definition matches_version :: "pin_file \<Rightarrow> version \<Rightarrow> bool" where
  "matches_version f v \<longleftrightarrow> pf_dev f = rv_device v \<and> pf_ino f = rv_inode v \<and> length (pf_bytes f) = rv_bytes v \<and>
     pf_mode f = fp_mode (rv_fingerprint v) \<and> pf_mtime f = rv_modified v \<and> pf_ctime f = rv_changed v"

definition snapshot_file :: "pin_env \<Rightarrow> pin_file \<Rightarrow> version res" where
  "snapshot_file pv f = (if pv_torn pv f then Inl (changed ''recovery version changed while inspecting'')
     else Inr (version_from_metadata f (hash (pv_crypto pv) (pf_bytes f))))"

definition internal_snapshot :: "pin_env \<Rightarrow> entries \<Rightarrow> string \<Rightarrow> version option res" where
  "internal_snapshot pv dir name = rbind (open_internal pv dir name) (\<lambda>f. case f of None \<Rightarrow> Inr None
     | Some g \<Rightarrow> rbind (snapshot_file pv g) (\<lambda>v. Inr (Some v)))"

definition utf8_name :: "string \<Rightarrow> bool" where
  "utf8_name n \<longleftrightarrow> utf8_ok (map of_char n)"

definition recovery_names :: "entries \<Rightarrow> string list res" where
  "recovery_names dir =
     (if \<not> list_all utf8_name (map fst dir) then Inl (Protocol ''recovery filename must be UTF-8'')
      else if MAX_RECOVERY_ENTRIES + 16 < length dir
      then Inl (Usage ''recovery directory exceeds its entry limit; no data was deleted'')
      else Inr (sort (map fst dir)))"

definition for_each_recovery_name :: "(string \<Rightarrow> pin_node \<Rightarrow> 'a \<Rightarrow> 'a res) \<Rightarrow> entries \<Rightarrow> 'a \<Rightarrow> 'a res" where
  "for_each_recovery_name visit dir acc = fold_r (\<lambda>(name, n) acc.
     if \<not> utf8_name name then Inl (Protocol ''recovery filename must be UTF-8'')
     else rbind (valid_recovery_name name) (\<lambda>_. visit name n acc)) dir acc"

fun node_size :: "pin_env \<Rightarrow> pin_node \<Rightarrow> nat" where
  "node_size pv (Reg f) = length (pf_bytes f)"
| "node_size pv _ = pv_other_size pv"

record usage =
  us_bytes :: nat
  us_entries :: nat
  us_admission_blocked :: bool

definition usage_from_totals :: "nat \<Rightarrow> nat \<Rightarrow> usage" where
  "usage_from_totals b n = \<lparr>us_bytes = b, us_entries = n,
     us_admission_blocked = (MAX_RECOVERY_BYTES \<le> sat_add b RECOVERY_RESERVE \<or> MAX_RECOVERY_ENTRIES \<le> sat_add n 8)\<rparr>"

definition add_usage :: "pin_env \<Rightarrow> pin_node \<Rightarrow> nat \<times> nat \<Rightarrow> nat \<times> nat" where
  "add_usage pv n acc = (sat_add (fst acc) (node_size pv n), sat_add (snd acc) 1)"

definition recovery_usage :: "pin_env \<Rightarrow> entries \<Rightarrow> usage res" where
  "recovery_usage pv dir = rbind (for_each_recovery_name (\<lambda>_ n acc. Inr (add_usage pv n acc)) dir (0, 0))
     (\<lambda>(b, k). Inr (usage_from_totals b k))"

definition admit_recovery :: "pin_env \<Rightarrow> entries \<Rightarrow> nat \<Rightarrow> nat \<Rightarrow> unit res" where
  "admit_recovery pv dir extra_bytes extra_entries =
     rbind (recovery_usage pv dir) (\<lambda>u.
     if MAX_RECOVERY_BYTES < sat_add (sat_add (us_bytes u) extra_bytes) RECOVERY_RESERVE \<or>
        MAX_RECOVERY_ENTRIES < sat_add (sat_add (us_entries u) extra_entries) 8
     then Inl (Usage (''pin recovery capacity reached ('' @ decimal (us_bytes u) @ '' bytes, '' @ decimal (us_entries u) @
       '' entries); review retained versions before syncing''))
     else Inr ())"

definition review :: "string \<Rightarrow> string \<Rightarrow> string \<Rightarrow> clix_error" where
  "review path msg name = changed (path @ msg @ RECOVERY @ ''/'' @ name)"

text \<open>One receipt of the directory, and what the receipts so far refer to.\<close>

definition check_receipt :: "pin_env \<Rightarrow> entries \<Rightarrow> string \<Rightarrow> string list \<Rightarrow> string list res" where
  "check_receipt pv dir name referenced =
     rbind (read_internal pv dir name MAX_RECEIPT) (\<lambda>raw.
     rbind (ok_or (pv_parse pv raw) (Protocol (''invalid recovery receipt '' @ name @ '': '' @ pv_parse_error pv raw))) (\<lambda>value.
     let path = (case as_str (jindex value ''path'') of Some p \<Rightarrow> p | None \<Rightarrow> ''unknown path'') in
     if jstr value ''state'' \<noteq> Some ''retained'' \<and> jstr value ''state'' \<noteq> Some ''resolved''
     then Inl (changed (path @ ''; owner must review '' @ RECOVERY @ ''/'' @ name @ '' before syncing''))
     else rbind (parse_receipt pv raw name) (\<lambda>r.
          rbind (internal_snapshot pv dir (rc_version r)) (\<lambda>actual.
          if map_option rv_fingerprint actual \<noteq> rc_expected r
          then Inl (review path ''; retained version changed, review '' name)
          else Inr (rc_version r # referenced)))))"

text \<open>A receipt that is being resolved by the owner is not checked, and owns its version.\<close>

definition owned_by_ignored :: "pin_env \<Rightarrow> entries \<Rightarrow> string list \<Rightarrow> string \<Rightarrow> bool" where
  "owned_by_ignored pv dir ignored name \<longleftrightarrow> list_ex (\<lambda>i.
     case rbind (read_internal pv dir i MAX_RECEIPT) (\<lambda>b. parse_receipt pv b i) of
       Inr r \<Rightarrow> rc_version r = name | Inl _ \<Rightarrow> False) ignored"

definition check_recovery_except :: "pin_env \<Rightarrow> string list \<Rightarrow> pin_tree \<Rightarrow> unit res" where
  "check_recovery_except pv ignored t = (case pt_recovery t of
       None \<Rightarrow> Inr ()
     | Some dir \<Rightarrow>
         rbind (recovery_usage pv dir) (\<lambda>u.
         if MAX_RECOVERY_BYTES < us_bytes u \<or> MAX_RECOVERY_ENTRIES < us_entries u
         then Inl (Usage ''pin recovery storage is over its limit; use clix pin list and review retained versions'')
         else rbind (recovery_names dir) (\<lambda>names.
              rbind (fold_r (\<lambda>name ref. if \<not> is_receipt_name name \<or> List.member ignored name then Inr ref
                  else check_receipt pv dir name ref) names []) (\<lambda>referenced.
              fold_r (\<lambda>name _. if is_receipt_name name \<or> List.member referenced name \<or> owned_by_ignored pv dir ignored name
                  then Inr ()
                  else Inl (changed (''unreferenced recovery data '' @ name @ ''; inspect it before syncing''))) names ()))))"

definition check_recovery :: "pin_env \<Rightarrow> pin_tree \<Rightarrow> unit res" where
  "check_recovery pv t = check_recovery_except pv [] t"

section \<open>Scanning\<close>

definition join_path :: "string \<Rightarrow> string \<Rightarrow> string" where
  "join_path prefix name = (if prefix = [] then name else prefix @ ''/'' @ name)"

text \<open>\<open>scan_dir\<close>: the entries in the order the directory returns them.\<close>

fun scan_dir :: "pin_env \<Rightarrow> string \<Rightarrow> entries \<Rightarrow> nat \<times> manifest \<Rightarrow> (nat \<times> manifest) res"
  and scan_node :: "pin_env \<Rightarrow> string \<Rightarrow> pin_node \<Rightarrow> nat \<times> manifest \<Rightarrow> (nat \<times> manifest) res" where
  "scan_dir pv prefix [] acc = Inr acc"
| "scan_dir pv prefix ((name, n) # es) acc =
     (if \<not> utf8_name name then Inl (Protocol ''pin requires UTF-8 filenames'')
      else if MAX_PIN_ENTRIES < fst acc + 1 \<or> prefix \<noteq> [] \<and> 64 \<le> length (parts prefix)
      then Inl (Usage ''pin tree exceeds 4096 entries or 64 directories of depth'')
      else rbind (scan_node pv (join_path prefix name) n (fst acc + 1, snd acc)) (scan_dir pv prefix es))"
| "scan_node pv path n acc =
     (if excluded path then Inr acc
      else case n of
             Dir sub \<Rightarrow> scan_dir pv path sub acc
           | Reg f \<Rightarrow>
               rbind (valid_path path) (\<lambda>_.
               if MAX_FILE < length (pf_bytes f) then Inl (Protocol (''pin file exceeds 16 MiB: '' @ path))
               else if pv_torn pv f then Inl (changed path)
               else Inr (fst acc, bt_insert path (fingerprint (pv_crypto pv) (pf_bytes f) (pf_mode f)) (snd acc)))
           | _ \<Rightarrow> Inl (Protocol (''unsupported pin entry (symlink or special file): '' @ path)))"

definition scan_tree :: "pin_env \<Rightarrow> pin_tree \<Rightarrow> manifest res" where
  "scan_tree pv t = rbind (check_recovery pv t) (\<lambda>_.
     rbind (scan_dir pv [] (pt_entries t) (0, [])) (\<lambda>acc. Inr (snd acc)))"

text \<open>The tree, and what is scanned in it, when it could be opened.\<close>

definition open_scan :: "pin_env \<Rightarrow> pin_tree \<Rightarrow> manifest res" where
  "open_scan pv t = rbind (pv_open pv) (\<lambda>_. scan_tree pv t)"

end
