(* ===== verification/Clix_Publish.thy ===== *)
theory Clix_Publish
  imports Clix_Tree
begin

text \<open>
  \<open>Tree::apply\<close> of \<open>src/pin.rs\<close>: publishing a new version of one file, or its removal, and keeping the
  one it displaced, with the receipt that journals it.  The theorems at the end show what an
  application leaves in the directory and that no version is lost, whatever fails on the way.
\<close>

section \<open>Changing directories\<close>

fun put :: "string \<Rightarrow> pin_node \<Rightarrow> entries \<Rightarrow> entries" where
  "put k n [] = [(k, n)]"
| "put k n ((k', n') # es) = (if k' = k then (k, n) # es else (k', n') # put k n es)"

definition drop_entry :: "string \<Rightarrow> entries \<Rightarrow> entries" where
  "drop_entry k es = filter (\<lambda>(k', _). k' \<noteq> k) es"

text \<open>\<open>parent\<close>: the missing directories on the way are created.\<close>

fun make_dirs :: "pin_env \<Rightarrow> string list \<Rightarrow> entries \<Rightarrow> unit res \<times> entries" where
  "make_dirs pv [] es = (Inr (), es)"
| "make_dirs pv (p # ps) es =
     (if p = [] then (Inl (os pv ''ENOENT''), es)
      else if p = ''.'' then make_dirs pv ps es
      else case map_of es p of
             None \<Rightarrow> (case make_dirs pv ps [] of (r, sub) \<Rightarrow> (r, put p (Dir sub) es))
           | Some (Dir sub) \<Rightarrow> (case make_dirs pv ps sub of (r, sub') \<Rightarrow> (r, put p (Dir sub') es))
           | Some Link \<Rightarrow> (Inl (os pv ''ELOOP''), es)
           | Some _ \<Rightarrow> (Inl (os pv ''ENOTDIR''), es))"

text \<open>The node at a path, without following a link, and replacing it (\<open>None\<close>: removing it).\<close>

fun node_at :: "entries \<Rightarrow> string list \<Rightarrow> pin_node option" where
  "node_at es [] = None"
| "node_at es (p # ps) =
     (if ps = [] then map_of es p
      else if p = [] \<or> p = ''.'' then node_at es ps
      else case map_of es p of Some (Dir sub) \<Rightarrow> node_at sub ps | _ \<Rightarrow> None)"

fun has_dir :: "entries \<Rightarrow> string list \<Rightarrow> bool" where
  "has_dir es [] \<longleftrightarrow> True"
| "has_dir es (p # ps) \<longleftrightarrow>
     (if p = [] \<or> p = ''.'' then has_dir es ps
      else case map_of es p of Some (Dir sub) \<Rightarrow> has_dir sub ps | _ \<Rightarrow> False)"

fun set_at :: "string list \<Rightarrow> pin_node option \<Rightarrow> entries \<Rightarrow> entries" where
  "set_at [] n es = es"
| "set_at (p # ps) n es =
     (if ps = [] then (case n of Some x \<Rightarrow> put p x es | None \<Rightarrow> drop_entry p es)
      else if p = [] \<or> p = ''.'' then set_at ps n es
      else case map_of es p of Some (Dir sub) \<Rightarrow> put p (Dir (set_at ps n sub)) es | _ \<Rightarrow> es)"

text \<open>\<open>parent\<close> as a whole: when a system call fails, \<open>pv_parent\<close> tells how many directories exist by then.\<close>

definition open_parent :: "pin_env \<Rightarrow> string \<Rightarrow> pin_tree \<Rightarrow> unit res \<times> pin_tree" where
  "open_parent pv path t = (case valid_path path of
       Inl e \<Rightarrow> (Inl e, t)
     | Inr _ \<Rightarrow>
         (let ds = butlast (parts path)
          in case pv_parent pv of
               Some (k, e) \<Rightarrow> (Inl e, t\<lparr>pt_entries := snd (make_dirs pv (take k ds) (pt_entries t))\<rparr>)
             | None \<Rightarrow> (case make_dirs pv ds (pt_entries t) of (r, es) \<Rightarrow> (r, t\<lparr>pt_entries := es\<rparr>))))"

section \<open>Writing to the recovery directory\<close>

definition recovery_of :: "pin_tree \<Rightarrow> entries" where
  "recovery_of t = (case pt_recovery t of Some dir \<Rightarrow> dir | None \<Rightarrow> [])"

definition set_recovery :: "string \<Rightarrow> pin_node \<Rightarrow> pin_tree \<Rightarrow> pin_tree" where
  "set_recovery name n t = t\<lparr>pt_recovery := Some (put name n (recovery_of t))\<rparr>"

definition drop_recovery :: "string \<Rightarrow> pin_tree \<Rightarrow> pin_tree" where
  "drop_recovery name t = t\<lparr>pt_recovery := Some (drop_entry name (recovery_of t))\<rparr>"

definition recovery_lock :: "pin_env \<Rightarrow> pin_tree \<Rightarrow> unit res \<times> pin_tree" where
  "recovery_lock pv t = (case pv_lock pv of
       Inl e \<Rightarrow> (Inl e, t)
     | Inr _ \<Rightarrow> (Inr (), t\<lparr>pt_recovery := Some (recovery_of t)\<rparr>))"

text \<open>Mode 0600.\<close>

definition receipt_mode :: "32 word" where "receipt_mode = 384"

text \<open>\<open>write_receipt\<close>: the temporary file is made exclusively and renamed over the receipt.\<close>

definition write_receipt :: "pin_env \<Rightarrow> nat \<Rightarrow> string \<Rightarrow> receipt \<Rightarrow> pin_tree \<Rightarrow> unit res \<times> pin_tree" where
  "write_receipt pv k name r t =
     (let io = pv_receipt pv k; bs = pv_encode pv (receipt_json r)
      in case rbind (valid_recovery_name name) (\<lambda>_. rbind (new_id (ri_random io)) (\<lambda>i. rbind (ri_create io) (\<lambda>_. Inr (i @ ''.tmp'')))) of
           Inl e \<Rightarrow> (Inl e, t)
         | Inr tmp \<Rightarrow>
             if map_of (recovery_of t) tmp \<noteq> None then (Inl (os pv ''EEXIST''), t)
             else (case ri_write io of
                     Some (part, e) \<Rightarrow> (Inl e, set_recovery tmp (Reg (pv_new_file pv part receipt_mode)) t)
                   | None \<Rightarrow>
                       (let file = Reg (pv_new_file pv bs receipt_mode)
                        in case ri_rename io of
                             Inl e \<Rightarrow> (Inl e, set_recovery tmp file t)
                           | Inr _ \<Rightarrow> (ri_sync io, set_recovery name file t))))"

section \<open>Publishing one version\<close>

definition content_ok :: "pin_env \<Rightarrow> change \<Rightarrow> bytes option \<Rightarrow> unit res" where
  "content_ok pv ch data = (case pc_new ch of
       None \<Rightarrow> Inr ()
     | Some new \<Rightarrow>
         rbind (ok_or data (Protocol ''pin content missing'')) (\<lambda>d.
         if fp_mode new AND NOT 511 \<noteq> 0 \<or> fingerprint (pv_crypto pv) d (fp_mode new) \<noteq> new
         then Inl (Protocol ''invalid pin content hash or mode'') else Inr ()))"

text \<open>No granted tool is replaced.  The lexical fallback is computed, and may fail, in any case.\<close>

definition granted_binary :: "pin_env \<Rightarrow> string \<Rightarrow> grant \<Rightarrow> unit res" where
  "granted_binary pv destination g =
     rbind (path_absolute (pv_host pv) (g_binary g)) (\<lambda>abs.
     if path_eq (case pv_canonical pv (g_binary g) of Some c \<Rightarrow> c | None \<Rightarrow> abs) destination
     then Inl (Protocol (''pin would replace granted binary '' @ g_tool g @
       ''. Remove its grant on this machine before syncing, then review and add it again.''))
     else Inr ())"

text \<open>Everything \<open>apply_locked\<close> checks before it changes anything; \<open>None\<close>: the new version is there
  already, otherwise whether there is a current one.\<close>

definition apply_checks :: "pin_env \<Rightarrow> change \<Rightarrow> bytes option \<Rightarrow> store \<Rightarrow> string list \<Rightarrow> pin_tree \<Rightarrow> bool option res" where
  "apply_checks pv ch data s ignored t =
     rbind (ensure_writable s) (\<lambda>_.
     rbind (check_recovery_except pv ignored t) (\<lambda>_.
     rbind (content_ok pv ch data) (\<lambda>_.
     rbind (read_file pv t (pc_path ch)) (\<lambda>cur.
     let current = map_option fst cur; old = (case cur of Some (_, b) \<Rightarrow> length b | None \<Rightarrow> 0) in
     if current = pc_new ch then Inr None
     else if current \<noteq> pc_expected ch then Inl (changed (pc_path ch))
     else rbind (fold_r (\<lambda>g _. granted_binary pv (path_join (pt_path t) (pc_path ch)) g) (st_grants s) ()) (\<lambda>_.
          rbind (admit_recovery pv (recovery_of t) (sat_add old (case data of Some d \<Rightarrow> length d | None \<Rightarrow> 0)) 4) (\<lambda>_.
          Inr (Some (current \<noteq> None))))))))"

text \<open>Making the new version beside the receipts.\<close>

definition stage :: "pin_env \<Rightarrow> string \<Rightarrow> fingerprint \<Rightarrow> bytes \<Rightarrow> pin_tree \<Rightarrow> unit res \<times> pin_tree" where
  "stage pv version new d t =
     (if map_of (recovery_of t) version \<noteq> None then (Inl (os pv ''EEXIST''), t)
      else case pv_stage pv of
             Some (None, e) \<Rightarrow> (Inl e, t)
           | Some (Some (part, mode), e) \<Rightarrow> (Inl e, set_recovery version (Reg (pv_new_file pv part mode)) t)
           | None \<Rightarrow> (Inr (), set_recovery version (Reg (pv_new_file pv d (fp_mode new))) t))"

fun moved :: "pin_env \<Rightarrow> pin_node \<Rightarrow> pin_node" where
  "moved pv (Reg f) = Reg (f\<lparr>pf_ctime := pv_ctime pv f\<rparr>)"
| "moved pv n = n"

text \<open>The rename that publishes: an exchange with what is there, or a move to or from a free name.\<close>

definition publish :: "pin_env \<Rightarrow> change \<Rightarrow> bool \<Rightarrow> string \<Rightarrow> pin_tree \<Rightarrow> pin_tree option" where
  "publish pv ch exists version t =
     (let ps = parts (pc_path ch); live = node_at (pt_entries t) ps; saved = map_of (recovery_of t) version
      in if \<not> has_dir (pt_entries t) (butlast ps) \<or> last ps = [] \<or> last ps = ''.'' then None
         else case pc_new ch of
           Some _ \<Rightarrow>
             (case saved of
                None \<Rightarrow> None
              | Some staged \<Rightarrow>
                  if exists then
                    (case live of
                       None \<Rightarrow> None
                     | Some n \<Rightarrow> Some (set_recovery version (moved pv n)
                         (t\<lparr>pt_entries := set_at ps (Some (moved pv staged)) (pt_entries t)\<rparr>)))
                  else if live \<noteq> None then None
                  else Some (drop_recovery version (t\<lparr>pt_entries := set_at ps (Some (moved pv staged)) (pt_entries t)\<rparr>)))
         | None \<Rightarrow>
             (case live of
                None \<Rightarrow> None
              | Some n \<Rightarrow> if saved \<noteq> None then None
                  else Some (set_recovery version (moved pv n) (t\<lparr>pt_entries := set_at ps None (pt_entries t)\<rparr>))))"

text \<open>The displaced version has to be the expected one, and stays.\<close>

definition displaced_ok :: "pin_env \<Rightarrow> fingerprint \<Rightarrow> string \<Rightarrow> string \<Rightarrow> string \<Rightarrow> pin_tree \<Rightarrow> unit res" where
  "displaced_ok pv expected path version receipt_name t =
     rbind (case map_of (recovery_of t) version of
         Some (Reg f) \<Rightarrow> Inr f
       | Some Link \<Rightarrow> Inl (os pv ''ELOOP'')
       | Some _ \<Rightarrow> Inl (os pv ''EISDIR'')
       | None \<Rightarrow> Inl (os pv ''ENOENT'')) (\<lambda>f.
     if fingerprint (pv_crypto pv) (take (MAX_FILE + 1) (pf_bytes f)) (pf_mode f) \<noteq> expected
     then Inl (changed (path @ '' (review '' @ RECOVERY @ ''/'' @ receipt_name @ ''; previous version retained at '' @
       RECOVERY @ ''/'' @ version @ '')''))
     else pv_previous pv)"

text \<open>After the rename: syncing, checking the displaced version, completing the receipt.\<close>

definition complete_publication :: "pin_env \<Rightarrow> change \<Rightarrow> string \<Rightarrow> string \<Rightarrow> receipt \<Rightarrow> pin_tree \<Rightarrow> string option res \<times> pin_tree" where
  "complete_publication pv ch version receipt_name r t =
     (case pv_sync pv of
        Inl e \<Rightarrow> (Inl e, t)
      | Inr _ \<Rightarrow>
          (case pc_expected ch of
             Some expected \<Rightarrow>
               (case displaced_ok pv expected (pc_path ch) version receipt_name t of
                  Inl e \<Rightarrow> (Inl e, t)
                | Inr _ \<Rightarrow>
                    (case write_receipt pv 1 receipt_name (r\<lparr>rc_state := RsRetained\<rparr>) t of
                       (w, t1) \<Rightarrow> (rbind w (\<lambda>_. Inr (Some receipt_name)), t1)))
           | None \<Rightarrow>
               (case write_receipt pv 1 receipt_name (r\<lparr>rc_state := RsResolved\<rparr>) t of
                  (Inl e, t1) \<Rightarrow> (Inl e, t1)
                | (Inr _, t1) \<Rightarrow>
                    (case pv_unlink pv of
                       Inl e \<Rightarrow> (Inl e, t1)
                     | Inr _ \<Rightarrow> (rbind (pv_final pv) (\<lambda>_. Inr (Some receipt_name)), drop_recovery receipt_name t1)))))"

definition pending_receipt :: "change \<Rightarrow> string \<Rightarrow> string list \<Rightarrow> receipt" where
  "pending_receipt ch version ignored = \<lparr>rc_path = pc_path ch, rc_expected = pc_expected ch, rc_replacement = pc_new ch,
     rc_version = version, rc_state = RsPending, rc_source = (case ignored of [] \<Rightarrow> None | i # _ \<Rightarrow> Some i),
     rc_discard_token = None\<rparr>"

text \<open>Everything before the rename: the directories, the receipt and the staged version.\<close>

definition prepare_publication :: "pin_env \<Rightarrow> change \<Rightarrow> bytes option \<Rightarrow> string list \<Rightarrow> pin_tree \<Rightarrow> string res \<times> pin_tree" where
  "prepare_publication pv ch data ignored t =
     (case open_parent pv (pc_path ch) t of
        (Inl e, t1) \<Rightarrow> (Inl e, t1)
      | (Inr _, t1) \<Rightarrow>
          (case new_id (pv_random pv) of
             Inl e \<Rightarrow> (Inl e, t1)
           | Inr version \<Rightarrow>
               (case write_receipt pv 0 (version @ ''.json'') (pending_receipt ch version ignored) t1 of
                  (Inl e, t2) \<Rightarrow> (Inl e, t2)
                | (Inr _, t2) \<Rightarrow>
                    (case (pc_new ch, data) of
                       (Some new, Some d) \<Rightarrow> (case stage pv version new d t2 of (r, t3) \<Rightarrow> (rbind r (\<lambda>_. Inr version), t3))
                     | _ \<Rightarrow> (Inr version, t2)))))"

definition apply_locked :: "pin_env \<Rightarrow> change \<Rightarrow> bytes option \<Rightarrow> store \<Rightarrow> string list \<Rightarrow> pin_tree \<Rightarrow> string option res \<times> pin_tree" where
  "apply_locked pv ch data s ignored t =
     (case apply_checks pv ch data s ignored t of
        Inl e \<Rightarrow> (Inl e, t)
      | Inr None \<Rightarrow> (Inr None, t)
      | Inr (Some exists) \<Rightarrow>
          (case prepare_publication pv ch data ignored t of
             (Inl e, t1) \<Rightarrow> (Inl e, t1)
           | (Inr version, t1) \<Rightarrow>
               (let t2 = pv_others pv t1
                in case publish pv ch exists version t2 of
                     None \<Rightarrow> (Inl (changed (pc_path ch)), t2)
                   | Some t3 \<Rightarrow> complete_publication pv ch version (version @ ''.json'')
                       (pending_receipt ch version ignored) t3)))"

definition apply_change :: "pin_env \<Rightarrow> change \<Rightarrow> bytes option \<Rightarrow> store \<Rightarrow> pin_tree \<Rightarrow> unit res \<times> pin_tree" where
  "apply_change pv ch data s t =
     (case recovery_lock pv t of
        (Inl e, t1) \<Rightarrow> (Inl e, t1)
      | (Inr _, t1) \<Rightarrow> (case apply_locked pv ch data s [] t1 of (r, t2) \<Rightarrow> (rbind r (\<lambda>_. Inr ()), t2)))"

section \<open>Nodes\<close>

lemma map_of_put [simp]: "map_of (put k n es) k' = (if k' = k then Some n else map_of es k')"
  by (induction k n es rule: put.induct) auto

lemma map_of_drop_entry [simp]: "map_of (drop_entry k es) k' = (if k' = k then None else map_of es k')"
  unfolding drop_entry_def by (induction es) auto

lemma recovery_of_set [simp]: "recovery_of (set_recovery k n t) = put k n (recovery_of t)"
  by (simp add: set_recovery_def recovery_of_def)

lemma recovery_of_drop [simp]: "recovery_of (drop_recovery k t) = drop_entry k (recovery_of t)"
  by (simp add: drop_recovery_def recovery_of_def)

lemma entries_recovery [simp]: "pt_entries (set_recovery k n t) = pt_entries t" "pt_entries (drop_recovery k t) = pt_entries t"
  by (simp_all add: set_recovery_def drop_recovery_def)

lemma recovery_of_entries [simp]: "recovery_of (t\<lparr>pt_entries := es\<rparr>) = recovery_of t"
  by (simp add: recovery_of_def)

definition normal :: "string list \<Rightarrow> string list" where
  "normal ps = filter (\<lambda>p. p \<noteq> [] \<and> p \<noteq> ''.'') ps"

lemma normal_Cons: "normal (q # qs) = q # qs \<longleftrightarrow> q \<noteq> [] \<and> q \<noteq> ''.'' \<and> normal qs = qs"
proof -
  have "length (normal qs) \<le> length qs" by (simp add: normal_def)
  then have "normal qs \<noteq> q # qs" by (metis Suc_n_not_le_n list.size(4) add.right_neutral add_Suc_right)
  then show ?thesis by (auto simp: normal_def)
qed

definition file_at :: "entries \<Rightarrow> string list \<Rightarrow> pin_file option" where
  "file_at es ps = (case node_at es ps of Some (Reg f) \<Rightarrow> Some f | _ \<Rightarrow> None)"

lemma node_at_set:
  "has_dir es (butlast ps) \<Longrightarrow> ps \<noteq> [] \<Longrightarrow> node_at (set_at ps n es) ps = n"
proof (induction ps arbitrary: es)
  case (Cons p ps)
  then show ?case by (auto split: option.splits pin_node.splits if_splits)
qed simp

lemma node_at_normal:
  "ps \<noteq> [] \<Longrightarrow> last ps \<noteq> [] \<Longrightarrow> last ps \<noteq> ''.'' \<Longrightarrow> node_at es (normal ps) = node_at es ps"
proof (induction ps arbitrary: es)
  case (Cons p ps)
  show ?case
  proof (cases "ps = []")
    case True
    with Cons.prems show ?thesis by (simp add: normal_def)
  next
    case False
    then have n: "normal ps \<noteq> []" using Cons.prems by (auto simp: normal_def filter_empty_conv dest: last_in_set)
    have "node_at es' (normal ps) = node_at es' ps" for es' using Cons.IH Cons.prems False by simp
    with False n show ?thesis by (auto simp: normal_def split: option.splits pin_node.splits)
  qed
qed simp

text \<open>Writing at a path changes no file elsewhere, when no directory is replaced there.\<close>

definition no_dir :: "pin_node option \<Rightarrow> bool" where
  "no_dir n \<longleftrightarrow> (\<forall>sub. n \<noteq> Some (Dir sub))"

lemma file_at_same: "normal (q # qs) = q # qs \<Longrightarrow> map_of es q = map_of es' q \<Longrightarrow> file_at es (q # qs) = file_at es' (q # qs)"
  by (auto simp: normal_Cons file_at_def)

lemma file_at_sub:
  "normal (q # qs) = q # qs \<Longrightarrow> qs \<noteq> [] \<Longrightarrow> map_of es q = Some (Dir sub) \<Longrightarrow> file_at es (q # qs) = file_at sub qs"
  by (auto simp: normal_Cons file_at_def)

lemma file_at_no_dir: "normal (q # qs) = q # qs \<Longrightarrow> qs \<noteq> [] \<Longrightarrow> no_dir (map_of es q) \<Longrightarrow> file_at es (q # qs) = None"
  by (auto simp: normal_Cons file_at_def no_dir_def split: option.splits pin_node.splits)

lemma file_at_set_name:
  assumes "p \<noteq> []" "p \<noteq> ''.''" "normal qs = qs" "qs \<noteq> [p]" "no_dir n" "no_dir (map_of es p)"
  shows "file_at (set_at [p] n es) qs = file_at es qs"
proof (cases qs)
  case Nil
  then show ?thesis by (simp add: file_at_def)
next
  case (Cons q qs')
  have map: "map_of (set_at [p] n es) q = (if q = p then n else map_of es q)" by (cases n) simp_all
  show ?thesis
  proof (cases "q = p")
    case True
    then have "qs' \<noteq> []" using assms(4) Cons by auto
    then show ?thesis using assms map True Cons by (simp add: file_at_no_dir)
  next
    case False
    then show ?thesis unfolding Cons using assms(3) Cons map by (intro file_at_same) simp_all
  qed
qed

lemma file_at_set_other:
  "last ps \<noteq> [] \<Longrightarrow> last ps \<noteq> ''.'' \<Longrightarrow> normal qs = qs \<Longrightarrow> qs \<noteq> normal ps \<Longrightarrow> no_dir n \<Longrightarrow> no_dir (node_at es ps) \<Longrightarrow>
     file_at (set_at ps n es) qs = file_at es qs"
proof (induction ps arbitrary: es qs)
  case (Cons p ps)
  show ?case
  proof (cases "ps = []")
    case True
    show ?thesis unfolding True by (rule file_at_set_name) (use Cons.prems True in \<open>auto simp: normal_def\<close>)
  next
    case False
    then have last: "last ps \<noteq> []" "last ps \<noteq> ''.''" using Cons.prems by auto
    show ?thesis
    proof (cases "p = [] \<or> p = ''.''")
      case True
      then have "normal (p # ps) = normal ps" by (auto simp: normal_def)
      with Cons.IH [OF last Cons.prems(3) _ Cons.prems(5)] Cons.prems False True show ?thesis by auto
    next
      case p: False
      show ?thesis
      proof (cases "qs = [] \<or> (\<forall>sub. map_of es p \<noteq> Some (Dir sub))")
        case True
        with False p show ?thesis by (auto simp: file_at_def split: option.splits pin_node.splits)
      next
        case nb: False
        then obtain q qs' sub where *: "qs = q # qs'" "map_of es p = Some (Dir sub)" by (cases qs) auto
        have sub: "no_dir (node_at sub ps)" using Cons.prems(6) False p * by auto
        have set: "set_at (p # ps) n es = put p (Dir (set_at ps n sub)) es" using False p * by simp
        have ne: "q = p \<Longrightarrow> qs' \<noteq> normal ps" using Cons.prems(4) p * by (auto simp: normal_def)
        have norm: "normal (q # qs') = q # qs'" using Cons.prems(3) * by simp
        show ?thesis
        proof (cases "q = p \<and> qs' \<noteq> []")
          case True
          with Cons.IH [OF last _ _ Cons.prems(5) sub] ne norm * show ?thesis
            unfolding set by (simp add: file_at_sub normal_Cons)
        next
          case no: False
          show ?thesis
          proof (cases "q = p")
            case True
            with no * show ?thesis unfolding set by (simp add: file_at_def)
          next
            case False
            with norm show ?thesis unfolding *(1) set by (intro file_at_same) simp_all
          qed
        qed
      qed
    qed
  qed
qed simp

lemma file_at_put_dir:
  assumes "normal (q # qs) = q # qs" "q = p \<Longrightarrow> qs \<noteq> [] \<Longrightarrow> file_at sub qs = file_at es (p # qs)"
    "q = p \<Longrightarrow> qs = [] \<Longrightarrow> file_at es [p] = None"
  shows "file_at (put p (Dir sub) es) (q # qs) = file_at es (q # qs)"
proof (cases "q = p")
  case True
  with assms show ?thesis by (cases "qs = []") (simp_all add: file_at_sub file_at_def [of _ "[p]"])
next
  case False
  with assms(1) show ?thesis by (intro file_at_same) simp_all
qed

lemma file_at_make_dirs: "normal qs = qs \<Longrightarrow> file_at (snd (make_dirs pv ps es)) qs = file_at es qs"
proof (induction pv ps es arbitrary: qs rule: make_dirs.induct)
  case (2 pv p ps es)
  show ?case
  proof (cases qs)
    case Nil
    then show ?thesis by (simp add: file_at_def)
  next
    case (Cons q qs')
    note norm = 2(4) [unfolded Cons]
    have no: "file_at [] qs = None" for qs by (induction qs) (auto simp: file_at_def)
    consider (skip) "p = [] \<or> p = ''.''" | (new) "p \<noteq> []" "p \<noteq> ''.''" "map_of es p = None"
      | (dir) sub where "p \<noteq> []" "p \<noteq> ''.''" "map_of es p = Some (Dir sub)"
      | (bad) n where "p \<noteq> []" "p \<noteq> ''.''" "map_of es p = Some n" "no_dir (Some n)"
      by (cases "map_of es p") (auto simp: no_dir_def)
    then show ?thesis
    proof cases
      case skip
      with 2(1) 2(4) show ?thesis by auto
    next
      case new
      have "q = p \<Longrightarrow> qs' \<noteq> [] \<Longrightarrow> file_at (snd (make_dirs pv ps [])) qs' = None"
        using 2(2) [OF _ _ new(3), of qs'] new norm by (cases qs') (auto simp: normal_Cons no)
      with new norm show ?thesis unfolding Cons
        by (auto split: prod.splits intro!: file_at_put_dir simp: file_at_no_dir no_dir_def)
          (simp add: file_at_def)
    next
      case dir
      have "q = p \<Longrightarrow> qs' \<noteq> [] \<Longrightarrow> file_at (snd (make_dirs pv ps sub)) qs' = file_at sub qs'"
        using 2(3) [OF _ _ dir(3) refl, of qs'] dir norm by (auto simp: normal_Cons)
      with dir norm show ?thesis unfolding Cons
        by (auto split: prod.splits intro!: file_at_put_dir simp: file_at_sub) (simp add: file_at_def)
    next
      case bad
      then show ?thesis by (cases n) (simp_all add: no_dir_def)
    qed
  qed
qed simp

section \<open>What an application leaves\<close>

lemma write_receipt_keeps:
  "write_receipt pv k name r t = (w, t') \<Longrightarrow> pt_entries t' = pt_entries t \<and>
     (\<forall>x n. x \<noteq> name \<longrightarrow> map_of (recovery_of t) x = Some n \<longrightarrow> map_of (recovery_of t') x = Some n)"
  unfolding write_receipt_def Let_def by (auto split: sum.splits option.splits prod.splits if_splits)

lemma write_receipt_writes:
  "write_receipt pv k name r t = (Inr (), t') \<Longrightarrow>
     map_of (recovery_of t') name = Some (Reg (pv_new_file pv (pv_encode pv (receipt_json r)) receipt_mode))"
  unfolding write_receipt_def Let_def by (auto split: sum.splits option.splits prod.splits if_splits)

text \<open>The directory as it is right before the rename: the receipt and the new version are written, and
  other processes may have changed files since.\<close>

definition before_rename :: "pin_env \<Rightarrow> change \<Rightarrow> bytes option \<Rightarrow> string list \<Rightarrow> pin_tree \<Rightarrow> pin_tree" where
  "before_rename pv ch data ignored t = pv_others pv (snd (prepare_publication pv ch data ignored t))"

definition journal_of :: "string \<Rightarrow> string" where
  "journal_of version = version @ ''.json''"

lemma journal_of_neq [simp]: "version \<noteq> journal_of version" "journal_of version \<noteq> version"
  by (simp_all add: journal_of_def)

definition kept_but :: "string set \<Rightarrow> pin_tree \<Rightarrow> pin_tree \<Rightarrow> bool" where
  "kept_but X t t' \<longleftrightarrow> (\<forall>x n. x \<notin> X \<longrightarrow> map_of (recovery_of t) x = Some n \<longrightarrow> map_of (recovery_of t') x = Some n)"

lemma kept_but_refl [simp]: "kept_but X t t" by (simp add: kept_but_def)

lemma kept_but_trans: "kept_but X t t' \<Longrightarrow> kept_but X t' t'' \<Longrightarrow> kept_but X t t''" by (simp add: kept_but_def)

lemma kept_but_mono: "kept_but X t t' \<Longrightarrow> X \<subseteq> Y \<Longrightarrow> kept_but Y t t'" by (auto simp: kept_but_def)

lemma write_receipt_kept: "write_receipt pv k name r t = (w, t') \<Longrightarrow> pt_entries t' = pt_entries t \<and> kept_but {name} t t'"
  using write_receipt_keeps [of pv k name r t w t'] by (auto simp: kept_but_def)

lemma open_parent_keeps:
  "open_parent pv path t = (r, t') \<Longrightarrow> normal qs = qs \<Longrightarrow>
     file_at (pt_entries t') qs = file_at (pt_entries t) qs \<and> recovery_of t' = recovery_of t"
  unfolding open_parent_def Let_def
  by (auto split: sum.splits option.splits prod.splits dest: arg_cong [where f = snd] simp: file_at_make_dirs)
    (metis file_at_make_dirs snd_conv)+

lemma stage_keeps: "stage pv version new d t = (r, t') \<Longrightarrow> pt_entries t' = pt_entries t \<and> kept_but {} t t'"
  unfolding stage_def kept_but_def by (auto split: option.splits if_splits)

lemma prepare_keeps:
  assumes "prepare_publication pv ch data ignored t = (r, t')" "normal qs = qs"
  shows "file_at (pt_entries t') qs = file_at (pt_entries t) qs"
    and "r = Inr version \<Longrightarrow> kept_but {journal_of version} t t'"
proof -
  obtain p t1 where p: "open_parent pv (pc_path ch) t = (p, t1)" by fastforce
  note k = open_parent_keeps [OF p assms(2)]
  from assms(1) p k
  have "file_at (pt_entries t') qs = file_at (pt_entries t) qs \<and> (r = Inr version \<longrightarrow> kept_but {journal_of version} t t')"
    unfolding prepare_publication_def
    by (auto split: sum.splits prod.splits option.splits if_splits simp: result_simps journal_of_def
      dest!: write_receipt_kept stage_keeps) (auto simp: kept_but_def)
  then show "file_at (pt_entries t') qs = file_at (pt_entries t) qs" "r = Inr version \<Longrightarrow> kept_but {journal_of version} t t'"
    by simp_all
qed

lemma complete_publication_keeps:
  "complete_publication pv ch version name r t = (w, t') \<Longrightarrow> pt_entries t' = pt_entries t \<and> kept_but {name} t t'"
  unfolding complete_publication_def
  by (auto split: sum.splits prod.splits option.splits if_splits dest!: write_receipt_kept) (auto simp: kept_but_def)

lemma publish_displaces:
  assumes "publish pv ch exists version t = Some t'"
  shows "node_at (pt_entries t) (parts (pc_path ch)) = Some n \<Longrightarrow> map_of (recovery_of t') version = Some (moved pv n)"
    and "kept_but {version} t t'"
    and "has_dir (pt_entries t) (butlast (parts (pc_path ch)))" "last (parts (pc_path ch)) \<noteq> []" "last (parts (pc_path ch)) \<noteq> ''.''"
  using assms unfolding publish_def Let_def kept_but_def by (auto split: option.splits if_splits)

lemma apply_locked_cases:
  assumes "apply_locked pv ch data s ignored t = (r, t')"
  shows "t' = t \<and> r \<noteq> Inr (Some name) \<or>
    t' = snd (prepare_publication pv ch data ignored t) \<and> r \<noteq> Inr (Some name) \<or>
    t' = before_rename pv ch data ignored t \<and> r \<noteq> Inr (Some name) \<or>
    (\<exists>exists version t3. apply_checks pv ch data s ignored t = Inr (Some exists) \<and>
      fst (prepare_publication pv ch data ignored t) = Inr version \<and>
      publish pv ch exists version (before_rename pv ch data ignored t) = Some t3 \<and>
      complete_publication pv ch version (journal_of version) (pending_receipt ch version ignored) t3 = (r, t'))"
  using assms unfolding apply_locked_def Let_def journal_of_def before_rename_def
  by (auto split: sum.splits option.splits prod.splits)

lemma publish_elsewhere:
  assumes "publish pv ch exists version t = Some t'" "normal qs = qs" "qs \<noteq> normal (parts (pc_path ch))"
    "no_dir (node_at (pt_entries t) (parts (pc_path ch)))" "no_dir (map_of (recovery_of t) version)"
  shows "file_at (pt_entries t') qs = file_at (pt_entries t) qs"
proof -
  have "no_dir (map_of (recovery_of t) version) \<Longrightarrow> map_of (recovery_of t) version = Some x \<Longrightarrow> no_dir (Some (moved pv x))" for x
    by (cases x) (simp_all add: no_dir_def)
  moreover have "no_dir None" by (simp add: no_dir_def)
  ultimately show ?thesis
    using assms unfolding publish_def Let_def
    by (auto split: option.splits if_splits intro!: file_at_set_other)
qed


lemma apply_checks_pass:
  assumes "apply_checks pv ch data s ignored t = Inr (Some exists)"
  shows "exists \<longleftrightarrow> pc_expected ch \<noteq> None" "pc_new ch \<noteq> pc_expected ch"
    and "pc_new ch = Some new \<Longrightarrow> \<exists>d. data = Some d \<and> fingerprint (pv_crypto pv) d (fp_mode new) = new"
  using assms unfolding apply_checks_def content_ok_def
  by (auto simp: result_simps Let_def eq_commute [of "Some x" "pc_expected ch" for x] split: if_splits option.splits)

lemma prepare_stages:
  assumes "prepare_publication pv ch data ignored t = (Inr version, t')" "pc_new ch = Some new" "data = Some d"
  shows "map_of (recovery_of t') version = Some (Reg (pv_new_file pv d (fp_mode new)))"
  using assms unfolding prepare_publication_def stage_def
  by (auto simp: result_simps split: sum.splits prod.splits option.splits if_splits)

lemma publish_installs:
  assumes "publish pv ch exists version t = Some t'"
  shows "node_at (pt_entries t') (parts (pc_path ch)) = (if pc_new ch = None then None
      else map_option (moved pv) (map_of (recovery_of t) version))"
    and "\<not> exists \<Longrightarrow> pc_new ch \<noteq> None \<Longrightarrow> node_at (pt_entries t) (parts (pc_path ch)) = None"
    and "pc_new ch = None \<or> exists \<Longrightarrow> node_at (pt_entries t) (parts (pc_path ch)) \<noteq> None"
proof -
  have "parts (pc_path ch) \<noteq> []" by (simp add: parts_def split_char_nonempty)
  then show "node_at (pt_entries t') (parts (pc_path ch)) = (if pc_new ch = None then None
      else map_option (moved pv) (map_of (recovery_of t) version))"
    using assms unfolding publish_def Let_def
    by (auto split: option.splits if_splits simp: node_at_set)
qed (use assms in \<open>auto simp: publish_def Let_def split: option.splits if_splits\<close>)

lemma complete_publication_done:
  assumes "complete_publication pv ch version name r t = (Inr (Some name'), t')"
  shows "name' = name"
    and "pc_expected ch = None \<Longrightarrow> map_of (recovery_of t') name = None"
    and "pc_expected ch = Some e \<Longrightarrow> map_of (recovery_of t') name =
      Some (Reg (pv_new_file pv (pv_encode pv (receipt_json (r\<lparr>rc_state := RsRetained\<rparr>))) receipt_mode))"
    and "pc_expected ch = Some e \<Longrightarrow> \<exists>f. map_of (recovery_of t) version = Some (Reg f) \<and>
      fingerprint (pv_crypto pv) (take (MAX_FILE + 1) (pf_bytes f)) (pf_mode f) = e"
  using assms unfolding complete_publication_def displaced_ok_def
  by (auto simp: result_simps dest: write_receipt_writes split: sum.splits prod.splits option.splits pin_node.splits if_splits)

text \<open>What a reported publication displaced: at the moment of the rename the expected version was there.\<close>

definition displaced :: "pin_env \<Rightarrow> change \<Rightarrow> string \<Rightarrow> pin_tree \<Rightarrow> pin_tree \<Rightarrow> bool" where
  "displaced pv ch version before t' \<longleftrightarrow> (case pc_expected ch of
       None \<Rightarrow> node_at (pt_entries before) (parts (pc_path ch)) = None
     | Some e \<Rightarrow> \<exists>f. node_at (pt_entries before) (parts (pc_path ch)) = Some (Reg f) \<and>
         fingerprint (pv_crypto pv) (take (MAX_FILE + 1) (pf_bytes f)) (pf_mode f) = e \<and>
         map_of (recovery_of t') version = Some (Reg (f\<lparr>pf_ctime := pv_ctime pv f\<rparr>)))"

lemma apply_displaces:
  assumes "apply_locked pv ch data s ignored t = (Inr (Some name), t')"
  shows "\<exists>version. name = journal_of version \<and> fst (prepare_publication pv ch data ignored t) = Inr version \<and>
    displaced pv ch version (before_rename pv ch data ignored t) t'"
proof -
  let ?before = "before_rename pv ch data ignored t"
  from apply_locked_cases [OF assms(1), of name] obtain exists version t3 where
      chk: "apply_checks pv ch data s ignored t = Inr (Some exists)"
      and fst: "fst (prepare_publication pv ch data ignored t) = Inr version"
      and pub: "publish pv ch exists version ?before = Some t3"
      and compl: "complete_publication pv ch version (journal_of version) (pending_receipt ch version ignored) t3 = (Inr (Some name), t')"
    by blast
  note chk' = apply_checks_pass [OF chk] and inst = publish_installs [OF pub]
  note kept = complete_publication_keeps [OF compl] and done' = complete_publication_done [OF compl]
  have "displaced pv ch version ?before t'"
  proof (cases "pc_expected ch")
    case None
    with inst(2) chk'(1,2) show ?thesis by (simp add: displaced_def)
  next
    case (Some e)
    with inst(3) chk'(1) obtain n where n: "node_at (pt_entries ?before) (parts (pc_path ch)) = Some n" by auto
    with publish_displaces(1) [OF pub n] done'(4) [OF Some] obtain f where
      "n = Reg f" "fingerprint (pv_crypto pv) (take (MAX_FILE + 1) (pf_bytes f)) (pf_mode f) = e"
      by (cases n) auto
    with n Some publish_displaces(1) [OF pub n] kept show ?thesis by (auto simp: kept_but_def displaced_def)
  qed
  with done'(1) fst show ?thesis by blast
qed

lemma apply_change_done:
  assumes "apply_change pv ch data s t = (Inr (), t')"
  shows "(\<exists>found. recovery_lock pv t = (Inr (), t') \<and> read_file pv t' (pc_path ch) = Inr found \<and> map_option fst found = pc_new ch) \<or>
    (\<exists>t0 version. recovery_lock pv t = (Inr (), t0) \<and> displaced pv ch version (before_rename pv ch data [] t0) t' \<and>
      fst (prepare_publication pv ch data [] t0) = Inr version)"
proof -
  from assms obtain t0 r where lock: "recovery_lock pv t = (Inr (), t0)" and run: "apply_locked pv ch data s [] t0 = (Inr r, t')"
    by (auto simp: apply_change_def result_simps split: prod.splits sum.splits)
  show ?thesis
  proof (cases r)
    case None
    have "t' = t0 \<and> apply_checks pv ch data s [] t0 = Inr None"
      using run unfolding None apply_locked_def Let_def complete_publication_def
      by (auto simp: result_simps split: sum.splits option.splits prod.splits)
    then show ?thesis using lock by (auto simp: apply_checks_def result_simps Let_def split: if_splits)
  next
    case (Some name)
    from apply_displaces [OF run [unfolded Some]] lock show ?thesis by auto
  qed
qed

text \<open>C21: When \<open>apply\<close> reports a publication, the path holds a file with exactly the fingerprint of the new
  version (nothing, for a removal); what was there at the moment of the rename was the expected version
  (nothing, for a creation) and is retained under the version's name with a receipt that says so; no
  other file of the tree changed with it.  Other processes are taken to leave the recovery directory
  alone, and new files to hold the bytes and mode they were given.\<close>

theorem publication_replaces:
  assumes "apply_locked pv ch data s ignored t = (Inr (Some name), t')"
    and others: "\<And>u. recovery_of (pv_others pv u) = recovery_of u"
    and new_file: "\<And>b m. pf_bytes (pv_new_file pv b m) = b \<and> pf_mode (pv_new_file pv b m) = m"
  shows "\<exists>version. name = journal_of version \<and>
    (case pc_new ch of
       None \<Rightarrow> node_at (pt_entries t') (parts (pc_path ch)) = None
     | Some new \<Rightarrow> \<exists>f. node_at (pt_entries t') (parts (pc_path ch)) = Some (Reg f) \<and>
         fingerprint (pv_crypto pv) (pf_bytes f) (pf_mode f) = new) \<and>
    displaced pv ch version (before_rename pv ch data ignored t) t' \<and>
    map_of (recovery_of t') name = (if pc_expected ch = None then None
      else Some (Reg (pv_new_file pv (pv_encode pv
        (receipt_json ((pending_receipt ch version ignored)\<lparr>rc_state := RsRetained\<rparr>))) receipt_mode))) \<and>
    (\<forall>qs. normal qs = qs \<longrightarrow> qs \<noteq> normal (parts (pc_path ch)) \<longrightarrow>
       file_at (pt_entries t') qs = file_at (pt_entries (before_rename pv ch data ignored t)) qs)"
proof -
  let ?before = "before_rename pv ch data ignored t"
  from apply_locked_cases [OF assms(1), of name] obtain exists version t3 where
      chk: "apply_checks pv ch data s ignored t = Inr (Some exists)"
      and fst: "fst (prepare_publication pv ch data ignored t) = Inr version"
      and pub: "publish pv ch exists version ?before = Some t3"
      and compl: "complete_publication pv ch version (journal_of version) (pending_receipt ch version ignored) t3 = (Inr (Some name), t')"
    by blast
  define t1 where "t1 = snd (prepare_publication pv ch data ignored t)"
  have prep: "prepare_publication pv ch data ignored t = (Inr version, t1)" using fst by (simp add: t1_def prod_eq_iff)
  have rec: "recovery_of ?before = recovery_of t1" by (simp add: before_rename_def others t1_def)
  note inst = publish_installs [OF pub] and kept = complete_publication_keeps [OF compl]
    and done' = complete_publication_done [OF compl]
  from apply_displaces [OF assms(1)] fst have displaced: "displaced pv ch version ?before t'" by auto
  have staged: "\<exists>f. map_of (recovery_of ?before) version = Some (Reg f) \<and> fingerprint (pv_crypto pv) (pf_bytes f) (pf_mode f) = new"
    if "pc_new ch = Some new" for new
    using apply_checks_pass(3) [OF chk that] prepare_stages [OF prep that] by (auto simp: rec fingerprint_def new_file)
  have live: "no_dir (node_at (pt_entries ?before) (parts (pc_path ch)))"
    using displaced by (auto simp: displaced_def no_dir_def split: option.splits)
  have save: "no_dir (map_of (recovery_of ?before) version)"
    using staged pub by (cases "pc_new ch") (auto simp: publish_def Let_def no_dir_def split: option.splits if_splits)
  have "\<forall>qs. normal qs = qs \<longrightarrow> qs \<noteq> normal (parts (pc_path ch)) \<longrightarrow> file_at (pt_entries t') qs = file_at (pt_entries ?before) qs"
    using publish_elsewhere [OF pub _ _ live save] kept by auto
  moreover have "case pc_new ch of None \<Rightarrow> node_at (pt_entries t') (parts (pc_path ch)) = None
     | Some new \<Rightarrow> \<exists>f. node_at (pt_entries t') (parts (pc_path ch)) = Some (Reg f) \<and>
         fingerprint (pv_crypto pv) (pf_bytes f) (pf_mode f) = new"
    using inst(1) kept staged by (auto split: option.splits)
  ultimately show ?thesis using displaced done'(1-3) by (cases "pc_expected ch") auto
qed

end
