(* ===== verification/Clix_Scan.thy ===== *)
theory Clix_Scan
  imports Clix_Publish
begin

text \<open>
  What a scan of the pinned directory (\<open>Tree::scan\<close> of \<open>src/pin.rs\<close>) means: the manifest lists exactly the
  files of the tree, by their paths, with the fingerprints of their contents.
\<close>

section \<open>Directories as the kernel keeps them\<close>

text \<open>Names are single path components, and every name occurs once in its directory.\<close>

fun entries_ok :: "entries \<Rightarrow> bool" and node_ok :: "pin_node \<Rightarrow> bool" where
  "entries_ok [] \<longleftrightarrow> True"
| "entries_ok ((name, n) # es) \<longleftrightarrow> piece name \<and> map_of es name = None \<and> node_ok n \<and> entries_ok es"
| "node_ok (Dir sub) \<longleftrightarrow> entries_ok sub"
| "node_ok _ \<longleftrightarrow> True"

text \<open>The file below a node at a list of components.\<close>

definition below :: "pin_node \<Rightarrow> string list \<Rightarrow> pin_file option" where
  "below n qs = (case n of
       Reg f \<Rightarrow> if qs = [] then Some f else None
     | Dir sub \<Rightarrow> file_at sub qs
     | _ \<Rightarrow> None)"

lemma file_at_below: "normal (q # qs) = q # qs \<Longrightarrow> file_at es (q # qs) = Option.bind (map_of es q) (\<lambda>n. below n qs)"
  by (cases "map_of es q") (auto simp: normal_Cons file_at_def below_def split: pin_node.splits)

lemma file_at_Nil [simp]: "file_at es [] = None"
  by (simp add: file_at_def)

lemma parts_inj: "parts p = parts q \<Longrightarrow> p = q"
proof -
  have "split_char c p = split_char c q \<Longrightarrow> p = q" for c
  proof (induction p arbitrary: q)
    case Nil
    then show ?case by (cases q) (auto split: list.splits if_splits)
  next
    case (Cons x p)
    obtain a as where p: "split_char c p = a # as" by (metis list.exhaust split_char_nonempty)
    from Cons.prems p obtain y q' where q: "q = y # q'" by (cases q) (auto split: if_splits)
    obtain b bs where q': "split_char c q' = b # bs" by (metis list.exhaust split_char_nonempty)
    from Cons.prems p q q' Cons.IH [of q'] show ?case by (auto split: if_splits)
  qed
  then show "parts p = parts q \<Longrightarrow> p = q" by (simp add: parts_def)
qed

lemma excluded_parts: "excluded p \<longleftrightarrow> ''.git'' \<in> set (parts p)"
  by (auto simp: excluded_def parts_def list_ex_iff)

text \<open>A directory's prefix, empty for the root, and the components it stands for.\<close>

definition prefix_is :: "string \<Rightarrow> string list \<Rightarrow> bool" where
  "prefix_is prefix pre \<longleftrightarrow> (if prefix = [] then pre = [] else parts prefix = pre)"

lemma join_path_parts:
  assumes "prefix_is prefix pre" "piece name"
  shows "parts (join_path prefix name) = pre @ [name]" "join_path prefix name \<noteq> []"
  using assms split_char_append [of slash prefix name] split_char_no_sep [of slash name]
  by (auto simp: prefix_is_def join_path_def parts_def piece_def split: if_splits)

section \<open>What a scan adds\<close>

text \<open>The manifest \<open>m'\<close> is \<open>m\<close> with the files that \<open>look\<close> finds below \<open>pre\<close>.\<close>

definition scanned :: "pin_env \<Rightarrow> string list \<Rightarrow> (string list \<Rightarrow> pin_file option) \<Rightarrow> manifest \<Rightarrow> manifest \<Rightarrow> bool" where
  "scanned pv pre look m m' \<longleftrightarrow> bt_ok m' \<and> (\<forall>p.
     (\<forall>qs f. parts p = pre @ qs \<longrightarrow> normal qs = qs \<longrightarrow> look qs = Some f \<longrightarrow> \<not> excluded p \<longrightarrow>
        bt_get m' p = Some (fingerprint (pv_crypto pv) (pf_bytes f) (pf_mode f)) \<and> valid_path p = Inr () \<and>
        length (pf_bytes f) \<le> MAX_FILE) \<and>
     ((\<nexists>qs f. parts p = pre @ qs \<and> normal qs = qs \<and> look qs = Some f \<and> \<not> excluded p) \<longrightarrow> bt_get m' p = bt_get m p))"

lemma scanned_none: "bt_ok m \<Longrightarrow> (\<And>qs. normal qs = qs \<Longrightarrow> look qs = None) \<Longrightarrow> scanned pv pre look m m"
  by (simp add: scanned_def)

lemma scanned_cons:
  assumes head: "scanned pv (pre @ [name]) (below n) m m1" and tail: "scanned pv pre (file_at es) m1 m'"
    and ok: "piece name" "map_of es name = None"
  shows "scanned pv pre (file_at ((name, n) # es)) m m'"
  unfolding scanned_def
proof (intro conjI allI impI)
  show "bt_ok m'" using tail by (simp add: scanned_def)
next
  fix p qs f
  assume p: "parts p = pre @ qs" "normal qs = qs" "file_at ((name, n) # es) qs = Some f" "\<not> excluded p"
  then obtain q qs' where qs: "qs = q # qs'" by (cases qs) auto
  have "bt_get m' p = Some (fingerprint (pv_crypto pv) (pf_bytes f) (pf_mode f)) \<and> valid_path p = Inr () \<and> length (pf_bytes f) \<le> MAX_FILE"
  proof (cases "q = name")
    case True
    then have "below n qs' = Some f" "file_at es qs = None" using p qs ok by (simp_all add: file_at_below)
    moreover have "parts p = (pre @ [name]) @ qs'" "normal qs' = qs'" using p qs True by (simp_all add: normal_Cons)
    moreover have "bt_get m' p = bt_get m1 p" using tail calculation(2) p by (auto simp: scanned_def)
    ultimately show ?thesis using head p by (auto simp: scanned_def)
  next
    case False
    then have "file_at es qs = Some f" using p qs by (simp add: file_at_below)
    then show ?thesis using tail p by (auto simp: scanned_def)
  qed
  then show "bt_get m' p = Some (fingerprint (pv_crypto pv) (pf_bytes f) (pf_mode f))" "valid_path p = Inr ()"
    "length (pf_bytes f) \<le> MAX_FILE" by simp_all
next
  fix p
  assume no: "\<nexists>qs f. parts p = pre @ qs \<and> normal qs = qs \<and> file_at ((name, n) # es) qs = Some f \<and> \<not> excluded p"
  have "\<nexists>qs f. parts p = pre @ qs \<and> normal qs = qs \<and> file_at es qs = Some f \<and> \<not> excluded p"
  proof (intro notI, elim exE conjE)
    fix qs f
    assume *: "parts p = pre @ qs" "normal qs = qs" "file_at es qs = Some f" "\<not> excluded p"
    then obtain q qs' where qs: "qs = q # qs'" by (cases qs) auto
    with * ok have "q \<noteq> name" by (auto simp: file_at_below)
    with * qs no show False by (auto simp: file_at_below)
  qed
  moreover have "\<nexists>qs f. parts p = (pre @ [name]) @ qs \<and> normal qs = qs \<and> below n qs = Some f \<and> \<not> excluded p"
  proof (intro notI, elim exE conjE)
    fix qs f
    assume *: "parts p = (pre @ [name]) @ qs" "normal qs = qs" "below n qs = Some f" "\<not> excluded p"
    then have "normal (name # qs) = name # qs" using ok(1) by (simp add: normal_Cons piece_def)
    with * no show False by (auto simp: file_at_below dest: spec [of _ "name # qs"])
  qed
  ultimately show "bt_get m' p = bt_get m p" using head tail by (auto simp: scanned_def)
qed

lemma scan_adds:
  "scan_dir pv prefix es acc = Inr acc' \<Longrightarrow> entries_ok es \<Longrightarrow> bt_ok (snd acc) \<Longrightarrow> prefix_is prefix pre \<Longrightarrow>
     scanned pv pre (file_at es) (snd acc) (snd acc')"
  "scan_node pv path n acc = Inr acc' \<Longrightarrow> node_ok n \<Longrightarrow> bt_ok (snd acc) \<Longrightarrow> path \<noteq> [] \<Longrightarrow> parts path = pre \<Longrightarrow>
     scanned pv pre (below n) (snd acc) (snd acc')"
proof (induction pv prefix es acc and pv path n acc arbitrary: acc' pre and acc' pre rule: scan_dir_scan_node.induct)
  case (1 pv prefix acc)
  have "file_at [] qs = None" for qs by (induction qs) (auto simp: file_at_def)
  with 1 show ?case by (auto intro: scanned_none)
next
  case (2 pv prefix name n es acc)
  from "2.prems"(1) obtain acc1 where
      head: "scan_node pv (join_path prefix name) n (fst acc + 1, snd acc) = Inr acc1"
      and tail: "scan_dir pv prefix es acc1 = Inr acc'"
      and no: "\<not> \<not> utf8_name name" "\<not> (MAX_PIN_ENTRIES < fst acc + 1 \<or> prefix \<noteq> [] \<and> 64 \<le> length (parts prefix))"
    by (auto simp: result_simps split: if_splits)
  have ok: "piece name" "map_of es name = None" "node_ok n" "entries_ok es" using "2.prems"(2) by simp_all
  have h: "scanned pv (pre @ [name]) (below n) (snd acc) (snd acc1)"
    using "2.IH"(1) [OF no head ok(3)] "2.prems"(3) join_path_parts [OF "2.prems"(4) ok(1)] by simp
  moreover have "scanned pv pre (file_at es) (snd acc1) (snd acc')"
    using "2.IH"(2) [OF no head tail ok(4)] h "2.prems"(4) by (simp add: scanned_def)
  ultimately show ?case using scanned_cons ok(1,2) by blast
next
  case (3 pv path n acc)
  show ?case
  proof (cases "excluded path")
    case True
    then have "parts p = pre @ qs \<Longrightarrow> excluded p" for p qs using "3.prems"(5) by (auto simp: excluded_parts)
    with True "3.prems" show ?thesis by (auto simp: scanned_def)
  next
    case False
    show ?thesis
    proof (cases n)
      case (Dir sub)
      have "scanned pv pre (file_at sub) (snd acc) (snd acc')"
        using "3.IH" [OF False Dir] "3.prems" False Dir by (simp add: prefix_is_def)
      then show ?thesis by (simp add: Dir below_def [abs_def])
    next
      case (Reg f)
      let ?fp = "fingerprint (pv_crypto pv) (pf_bytes f) (pf_mode f)"
      have here: "parts p = pre \<longleftrightarrow> p = path" for p using "3.prems"(5) parts_inj by auto
      have acc': "acc' = (fst acc, bt_insert path ?fp (snd acc))" "valid_path path = Inr ()" "length (pf_bytes f) \<le> MAX_FILE"
        using "3.prems"(1) False Reg by (auto simp: result_simps split: if_splits)
      have ok: "bt_ok (snd acc')" using "3.prems"(3) by (simp add: acc'(1) bt_ok_insert)
      have get: "bt_get (snd acc') p = (if p = path then Some ?fp else bt_get (snd acc) p)" for p
        using "3.prems"(3) by (simp add: acc'(1) bt_get_def map_of_bt_insert)
      have look: "below n qs = Some g \<longleftrightarrow> qs = [] \<and> g = f" for qs g by (auto simp: Reg below_def)
      show ?thesis unfolding scanned_def look using ok get here acc'(2,3) False by (auto simp: normal_def)
    qed (use "3.prems" False in simp_all)
  qed
qed

text \<open>C32: A successful scan lists exactly the files of the tree: every path of the manifest is valid, written
  without empty or \<open>.\<close> components and outside \<open>.git\<close>, and there is a file of at most 16 MiB with that
  fingerprint at it; every file that is not under \<open>.git\<close> is listed.  The manifest is ordered, without
  duplicates.\<close>

theorem scan_exact:
  assumes "scan_tree pv t = Inr m" "entries_ok (pt_entries t)"
  shows "bt_ok m \<and> (\<forall>p fp. bt_get m p = Some fp \<longleftrightarrow> normal (parts p) = parts p \<and> \<not> excluded p \<and>
      (\<exists>f. file_at (pt_entries t) (parts p) = Some f \<and> fp = fingerprint (pv_crypto pv) (pf_bytes f) (pf_mode f))) \<and>
    (\<forall>p fp. bt_get m p = Some fp \<longrightarrow> valid_path p = Inr ())"
proof -
  from assms(1) obtain acc where "scan_dir pv [] (pt_entries t) (0, []) = Inr acc" "m = snd acc"
    by (auto simp: scan_tree_def result_simps)
  then have *: "scanned pv [] (file_at (pt_entries t)) [] m"
    using scan_adds(1) [of pv "[]" "pt_entries t" "(0, [])" acc "[]"] assms(2) by (simp add: bt_ok_def prefix_is_def)
  have "bt_get m p = Some fp \<longleftrightarrow> normal (parts p) = parts p \<and> \<not> excluded p \<and>
      (\<exists>f. file_at (pt_entries t) (parts p) = Some f \<and> fp = fingerprint (pv_crypto pv) (pf_bytes f) (pf_mode f))"
      "bt_get m p = Some fp \<Longrightarrow> valid_path p = Inr ()" for p fp
  proof -
    consider (listed) f where "normal (parts p) = parts p" "file_at (pt_entries t) (parts p) = Some f" "\<not> excluded p"
      | (absent) "\<nexists>qs f. parts p = [] @ qs \<and> normal qs = qs \<and> file_at (pt_entries t) qs = Some f \<and> \<not> excluded p"
      by (metis append_Nil)
    then have "(bt_get m p = Some fp \<longleftrightarrow> normal (parts p) = parts p \<and> \<not> excluded p \<and>
      (\<exists>f. file_at (pt_entries t) (parts p) = Some f \<and> fp = fingerprint (pv_crypto pv) (pf_bytes f) (pf_mode f))) \<and>
      (bt_get m p = Some fp \<longrightarrow> valid_path p = Inr ())"
    proof cases
      case listed
      with * show ?thesis by (auto simp: scanned_def)
    next
      case absent
      with * show ?thesis by (auto simp: scanned_def)
    qed
    then show "bt_get m p = Some fp \<longleftrightarrow> normal (parts p) = parts p \<and> \<not> excluded p \<and>
      (\<exists>f. file_at (pt_entries t) (parts p) = Some f \<and> fp = fingerprint (pv_crypto pv) (pf_bytes f) (pf_mode f))"
      "bt_get m p = Some fp \<Longrightarrow> valid_path p = Inr ()" by blast+
  qed
  with * show ?thesis by (auto simp: scanned_def)
qed

section \<open>Applying keeps the directory well-formed\<close>

definition tree_ok :: "pin_tree \<Rightarrow> bool" where
  "tree_ok t \<longleftrightarrow> entries_ok (pt_entries t) \<and> entries_ok (recovery_of t)"

lemma entries_ok_put: "entries_ok es \<Longrightarrow> piece k \<Longrightarrow> node_ok n \<Longrightarrow> entries_ok (put k n es)"
  by (induction k n es rule: put.induct) auto

lemma entries_ok_drop: "entries_ok es \<Longrightarrow> entries_ok (drop_entry k es)"
proof (induction es)
  case (Cons e es)
  obtain name n where e: "e = (name, n)" by fastforce
  have "map_of (drop_entry k es) name = None" using Cons.prems by (simp add: e)
  with Cons e show ?case by (simp add: drop_entry_def)
qed (simp add: drop_entry_def)

lemma entries_ok_node: "entries_ok es \<Longrightarrow> map_of es k = Some n \<Longrightarrow> node_ok n \<and> piece k"
  by (induction es) (auto split: if_splits)

lemma parts_piece: "p \<in> set (parts path) \<Longrightarrow> p \<noteq> [] \<Longrightarrow> p \<noteq> ''.'' \<Longrightarrow> piece p"
  using split_char_pieces [of p slash path] by (auto simp: parts_def piece_def)

lemma make_dirs_ok: "entries_ok es \<Longrightarrow> (\<forall>p \<in> set ps. p = [] \<or> p = ''.'' \<or> piece p) \<Longrightarrow> entries_ok (snd (make_dirs pv ps es))"
  by (induction pv ps es rule: make_dirs.induct)
    (auto split: option.splits pin_node.splits prod.splits intro!: entries_ok_put dest: entries_ok_node)

lemma set_at_ok:
  "entries_ok es \<Longrightarrow> (\<forall>p \<in> set ps. p = [] \<or> p = ''.'' \<or> piece p) \<Longrightarrow> ps \<noteq> [] \<Longrightarrow> piece (last ps) \<Longrightarrow>
     (\<forall>x. n = Some x \<longrightarrow> node_ok x) \<Longrightarrow> entries_ok (set_at ps n es)"
proof (induction ps n es rule: set_at.induct)
  case (2 p ps n es)
  then show ?case
    by (auto split: option.splits pin_node.splits intro!: entries_ok_put entries_ok_drop dest: entries_ok_node)
qed simp

lemma node_at_ok: "entries_ok es \<Longrightarrow> node_at es ps = Some n \<Longrightarrow> node_ok n"
proof (induction ps arbitrary: es)
  case (Cons p ps)
  show ?case
  proof (cases "ps = []")
    case True
    with Cons.prems show ?thesis by (auto dest: entries_ok_node)
  next
    case False
    with Cons.prems Cons.IH show ?thesis
      by (auto split: option.splits pin_node.splits if_splits dest: entries_ok_node)
  qed
qed simp

lemma moved_ok [simp]: "node_ok (moved pv n) = node_ok n"
  by (cases n) simp_all

lemma tree_ok_set: "tree_ok t \<Longrightarrow> piece k \<Longrightarrow> node_ok n \<Longrightarrow> tree_ok (set_recovery k n t)"
  by (simp add: tree_ok_def entries_ok_put)

lemma tree_ok_drop: "tree_ok t \<Longrightarrow> tree_ok (drop_recovery k t)"
  by (simp add: tree_ok_def entries_ok_drop)

lemma tree_ok_entries: "tree_ok t \<Longrightarrow> entries_ok es \<Longrightarrow> tree_ok (t\<lparr>pt_entries := es\<rparr>)"
  by (simp add: tree_ok_def)

text \<open>Names: identifiers are hexadecimal digits and hyphens.\<close>

lemma hex_no_slash: "slash \<notin> set (hex bs)"
proof -
  have digit: "slash \<noteq> hex_digit d" if "d < 16" for d
  proof -
    have "\<forall>d \<in> set [0..<16]. slash \<noteq> hex_digit d" by code_simp
    then show ?thesis using that by simp
  qed
  have "unat (b :: byte) div 16 < 16" "unat b mod 16 < 16" for b
    using unsigned_less [of b, where 'a = nat] by simp_all
  then have "slash \<noteq> hex_digit (unat b div 16)" "slash \<noteq> hex_digit (unat b mod 16)" for b :: byte
    using digit by blast+
  then show ?thesis by (auto simp: hex_def hex_byte_def)
qed

lemma new_id_piece: "new_id random = Inr i \<Longrightarrow> piece (i @ suffix) \<longleftrightarrow> slash \<notin> set suffix"
  using hex_no_slash by (auto simp: new_id_def uuid_text_def piece_def split: sum.splits)

lemma write_receipt_ok: "write_receipt pv k name r t = (w, t') \<Longrightarrow> tree_ok t \<Longrightarrow> piece name \<Longrightarrow> tree_ok t'"
  unfolding write_receipt_def Let_def
  by (auto simp: result_simps new_id_piece intro!: tree_ok_set split: sum.splits option.splits prod.splits if_splits)

lemma open_parent_ok:
  assumes "open_parent pv path t = (r, t')" "tree_ok t"
  shows "tree_ok t'"
proof -
  let ?ds = "butlast (parts path)"
  have "\<forall>p \<in> set ?ds. p = [] \<or> p = ''.'' \<or> piece p" using parts_piece in_set_butlastD by metis
  then have "entries_ok (snd (make_dirs pv (take k ?ds) (pt_entries t)))" for k
    using assms(2) make_dirs_ok [of "pt_entries t" "take k ?ds" pv] by (auto simp: tree_ok_def dest: in_set_takeD)
  from this this [of "length ?ds"] show ?thesis
    using assms unfolding open_parent_def Let_def
    by (auto intro!: tree_ok_entries split: sum.splits option.splits prod.splits)
qed

lemma prepare_ok:
  assumes "prepare_publication pv ch data ignored t = (r, t')" "tree_ok t"
  shows "tree_ok t'" and "r = Inr version \<Longrightarrow> piece version"
proof -
  obtain p t1 where p: "open_parent pv (pc_path ch) t = (p, t1)" by fastforce
  note t1 = open_parent_ok [OF p assms(2)]
  have names: "piece v" "piece (v @ ''.json'')" if "new_id (pv_random pv) = Inr v" for v
    using new_id_piece [OF that, of "[]"] new_id_piece [OF that, of "''.json''"] by simp_all
  have stage: "tree_ok u'" if "stage pv v new d u = (x, u')" "tree_ok u" "piece v" for v new d u x u'
    using that unfolding stage_def by (auto intro!: tree_ok_set split: option.splits if_splits)
  show "tree_ok t'" "r = Inr version \<Longrightarrow> piece version"
    using assms(1) p t1 names unfolding prepare_publication_def
    by (auto simp: result_simps split: sum.splits prod.splits option.splits dest!: write_receipt_ok stage)
qed

lemma publish_ok:
  assumes "publish pv ch exists version t = Some t'" "tree_ok t" "piece version"
  shows "tree_ok t'"
proof -
  let ?ps = "parts (pc_path ch)"
  have comps: "\<forall>p \<in> set ?ps. p = [] \<or> p = ''.'' \<or> piece p" using parts_piece by blast
  have ne: "?ps \<noteq> []" by (simp add: parts_def)
  have name: "piece (last ?ps)" using publish_displaces(4,5) [OF assms(1)] last_in_set [OF ne] parts_piece by blast
  have node: "node_at (pt_entries t) ?ps = Some n \<Longrightarrow> node_ok n" "map_of (recovery_of t) version = Some n \<Longrightarrow> node_ok n" for n
    using assms(2) node_at_ok entries_ok_node by (auto simp: tree_ok_def)
  have "entries_ok (set_at ?ps n (pt_entries t))" if "\<forall>x. n = Some x \<longrightarrow> node_ok x" for n
    using set_at_ok [OF _ comps ne name that] assms(2) by (simp add: tree_ok_def)
  then show ?thesis
    using assms(1,2,3) node unfolding publish_def Let_def
    by (auto split: option.splits if_splits intro!: tree_ok_set tree_ok_drop tree_ok_entries)
qed

lemma complete_publication_ok:
  "complete_publication pv ch version name r t = (w, t') \<Longrightarrow> tree_ok t \<Longrightarrow> piece name \<Longrightarrow> tree_ok t'"
  unfolding complete_publication_def
  by (auto split: sum.splits prod.splits option.splits if_splits dest!: write_receipt_ok intro: tree_ok_drop)


end
