(* ===== verification/Clix_Pin_Sync.thy ===== *)
theory Clix_Pin_Sync
  imports Clix_Publish Clix_Deliver Clix_Pair
begin

text \<open>
  Synchronisation of the pinned directory (\<open>src/pin.rs\<close>): the two-machine \<open>sync\<close>, synchronising with a
  paired machine over the mesh, the four operations a paired machine may call, and the owner's
  inspection of conflicts.  A machine is its node and its pinned directory.  The store is unlocked
  between the lock regions of the code: \<open>py_others i j\<close> is what other tasks and processes do to node and
  directory before the \<open>j\<close>-th stage of the \<open>i\<close>-th step; \<open>py_pin i\<close> are the outcomes of that step's file
  operations and \<open>py_call i\<close> what the paired machine answers to it.
\<close>

type_synonym pin_host = "node \<times> pin_tree"

abbreviation host_store :: "pin_host \<Rightarrow> store" where
  "host_store h \<equiv> fst (fst h)"

record pin_sync_env =
  py_ctx :: ctx
  py_pin :: "nat \<Rightarrow> pin_env"
  py_call :: "nat \<Rightarrow> string \<Rightarrow> bytes \<Rightarrow> json \<Rightarrow> json res"
  py_others :: "nat \<Rightarrow> nat \<Rightarrow> pin_host \<Rightarrow> pin_host"
  py_now :: nat
  py_dir :: "string option \<times> string option"
  py_decode_error :: "json \<Rightarrow> string"

section \<open>Roots and authority\<close>

text \<open>The variables \<open>CLIX_PIN\<close> and \<open>HOME\<close>.\<close>

definition pin_dir :: "string option \<times> string option \<Rightarrow> string" where
  "pin_dir env = (case env of (pin, home) \<Rightarrow>
     (case Option.bind pin (\<lambda>s. if s = [] then None else Some s) of
        Some s \<Rightarrow> s
      | None \<Rightarrow> path_join (case home of Some h \<Rightarrow> h | None \<Rightarrow> []) ''src''))"

definition pin_root :: "string option \<times> string option \<Rightarrow> store \<Rightarrow> string" where
  "pin_root env s = (case st_pin_dir s of Some d \<Rightarrow> d | None \<Rightarrow> pin_dir env)"

definition current_sync_authority :: "pin_sync_env \<Rightarrow> store \<Rightarrow> peer \<Rightarrow> string \<Rightarrow> unit res" where
  "current_sync_authority py s peer root =
     rbind (ensure_writable s) (\<lambda>_.
     if pin_root (py_dir py) s \<noteq> root \<or>
        \<not> list_ex (\<lambda>p. p_name p = p_name peer \<and> p_owner_pk p = p_owner_pk peer) (st_peers s)
     then Inl (changed ''pin root or peer identity changed during synchronization'')
     else Inr ())"

definition read_expected :: "pin_env \<Rightarrow> change \<Rightarrow> pin_tree \<Rightarrow> (fingerprint \<times> bytes) option res" where
  "read_expected pv ch t = rbind (read_file pv t (pc_path ch)) (\<lambda>data.
     if map_option fst data \<noteq> pc_new ch then Inl (changed (pc_path ch)) else Inr data)"

section \<open>Two machines in one process\<close>

text \<open>\<open>ea k\<close> and \<open>eb k\<close> are the outcomes of the file operations of the \<open>k\<close>-th step on either side.\<close>

definition sync_change :: "pin_env \<Rightarrow> pin_env \<Rightarrow> store \<Rightarrow> store \<Rightarrow> change \<Rightarrow> pin_tree \<times> pin_tree \<Rightarrow> unit res \<times> pin_tree \<times> pin_tree" where
  "sync_change ea eb sa sb ch ts = (case ts of (ta, tb) \<Rightarrow>
     if pc_to_remote ch then
       (case read_expected ea ch ta of
          Inl e \<Rightarrow> (Inl e, ta, tb)
        | Inr data \<Rightarrow> (case apply_change eb ch (map_option snd data) sb tb of (r, tb') \<Rightarrow> (r, ta, tb')))
     else
       (case read_expected eb ch tb of
          Inl e \<Rightarrow> (Inl e, ta, tb)
        | Inr data \<Rightarrow> (case apply_change ea ch (map_option snd data) sa ta of (r, ta') \<Rightarrow> (r, ta', tb))))"

fun sync_changes :: "(nat \<Rightarrow> pin_env) \<Rightarrow> (nat \<Rightarrow> pin_env) \<Rightarrow> store \<Rightarrow> store \<Rightarrow> nat \<Rightarrow> change list
    \<Rightarrow> pin_tree \<times> pin_tree \<Rightarrow> unit res \<times> pin_tree \<times> pin_tree" where
  "sync_changes ea eb sa sb k [] ts = (Inr (), ts)"
| "sync_changes ea eb sa sb k (c # cs) ts =
     (case sync_change (ea k) (eb k) sa sb c ts of
        (Inl e, ts') \<Rightarrow> (Inl e, ts')
      | (Inr _, ts') \<Rightarrow> sync_changes ea eb sa sb (Suc k) cs ts')"

text \<open>Everything \<open>sync\<close> decides before the first change: the public keys, the changes and the merged tree.\<close>

definition sync_plan :: "crypto \<Rightarrow> pin_env \<Rightarrow> pin_env \<Rightarrow> store \<Rightarrow> store \<Rightarrow> pin_tree \<Rightarrow> pin_tree
    \<Rightarrow> (bytes \<times> bytes \<times> change list \<times> manifest) res" where
  "sync_plan cr ea eb sa sb ta tb =
     rbind (ensure_writable sa) (\<lambda>_.
     rbind (ensure_writable sb) (\<lambda>_.
     rbind (pv_open ea) (\<lambda>_.
     rbind (pv_open eb) (\<lambda>_.
     rbind (scan_tree ea ta) (\<lambda>af.
     rbind (scan_tree eb tb) (\<lambda>bf.
     rbind (owner_pk cr (st_owner_sk sa)) (\<lambda>apk.
     rbind (owner_pk cr (st_owner_sk sb)) (\<lambda>bpk.
     rbind (common_baseline (baseline sa bpk) (baseline sb apk) af bf) (\<lambda>base.
     rbind (plan af bf base (st_body_name sa) (st_body_name sb)) (\<lambda>(changes, merged).
     Inr (apk, bpk, changes, merged)))))))))))"

text \<open>Step 0 opens and scans, step \<open>k + 1\<close> makes the \<open>k\<close>-th change, the step after the last scans again.\<close>

definition sync :: "ctx \<Rightarrow> ctx \<Rightarrow> (nat \<Rightarrow> pin_env) \<Rightarrow> (nat \<Rightarrow> pin_env) \<Rightarrow> nat \<Rightarrow> nat \<Rightarrow> pin_host \<Rightarrow> pin_host
    \<Rightarrow> unit res \<times> pin_host \<times> pin_host" where
  "sync ca cb ea eb nowa nowb a b = (case (a, b) of ((na, ta), (nb, tb)) \<Rightarrow>
     (case sync_plan (cx_crypto ca) (ea 0) (eb 0) (fst na) (fst nb) ta tb of
        Inl e \<Rightarrow> (Inl e, a, b)
      | Inr (apk, bpk, changes, merged) \<Rightarrow>
          (case sync_changes ea eb (fst na) (fst nb) 1 changes (ta, tb) of
             (Inl e, ta', tb') \<Rightarrow> (Inl e, (na, ta'), (nb, tb'))
           | (Inr _, ta', tb') \<Rightarrow>
               (let k = Suc (length changes) in
                case rbind (scan_tree (ea k) ta') (\<lambda>af. if af \<noteq> merged then Inr False
                       else rbind (scan_tree (eb k) tb') (\<lambda>bf. Inr (bf = merged))) of
                  Inl e \<Rightarrow> (Inl e, (na, ta'), (nb, tb'))
                | Inr same \<Rightarrow>
                    if \<not> same then (Inl (changed ''(tree changed during sync)''), (na, ta'), (nb, tb'))
                    else (case record_sync ca bpk merged nowa na of
                            (Inl e, na') \<Rightarrow> (Inl e, (na', ta'), (nb, tb'))
                          | (Inr _, na') \<Rightarrow>
                              (case record_sync cb apk merged nowb nb of
                                 (r, nb') \<Rightarrow> (r, (na', ta'), (nb', tb'))))))))"

section \<open>With a paired machine\<close>

definition pin_list_query :: json where
  "pin_list_query = JObj [(''op'', JStr ''pin_list'')]"

definition pin_get_query :: "string \<Rightarrow> fingerprint \<Rightarrow> json" where
  "pin_get_query path f = JObj [(''op'', JStr ''pin_get''), (''path'', JStr path), (''expected'', fingerprint_json f)]"

definition pin_put_query :: "change \<Rightarrow> bytes option \<Rightarrow> json" where
  "pin_put_query ch data = JObj [(''op'', JStr ''pin_put''), (''path'', JStr (pc_path ch)),
     (''expected'', opt_json fingerprint_json (pc_expected ch)), (''new'', opt_json fingerprint_json (pc_new ch)),
     (''content'', opt_json (\<lambda>b. JStr (hex b)) data)]"

definition pin_commit_query :: "manifest \<Rightarrow> json" where
  "pin_commit_query m = JObj [(''op'', JStr ''pin_commit''), (''manifest'', manifest_json m)]"

definition content_of_reply :: "json \<Rightarrow> bytes res" where
  "content_of_reply v = rbind (ok_or (jstr v ''content'') (Protocol ''missing pin content'')) unhex"

definition listing_of_reply :: "pin_sync_env \<Rightarrow> json \<Rightarrow> listing res" where
  "listing_of_reply py v = rbind (ok_or (listing_of_json v) (Json (py_decode_error py v))) validate_listing"

definition push_change :: "pin_sync_env \<Rightarrow> string \<Rightarrow> peer \<Rightarrow> string \<Rightarrow> nat \<Rightarrow> change \<Rightarrow> pin_host \<Rightarrow> unit res \<times> pin_host" where
  "push_change py addr peer root i ch h =
     (let h1 = py_others py i 0 h
      in case read_expected (py_pin py i) ch (snd h1) of
           Inl e \<Rightarrow> (Inl e, h1)
         | Inr data \<Rightarrow>
             (let h2 = py_others py i 1 h1
              in case current_sync_authority py (host_store h2) peer root of
                   Inl e \<Rightarrow> (Inl e, h2)
                 | Inr _ \<Rightarrow> (rbind (py_call py i addr (p_owner_pk peer) (pin_put_query ch (map_option snd data))) (\<lambda>_. Inr ()),
                     py_others py i 2 h2)))"

definition pull_change :: "pin_sync_env \<Rightarrow> string \<Rightarrow> peer \<Rightarrow> string \<Rightarrow> nat \<Rightarrow> change \<Rightarrow> pin_host \<Rightarrow> unit res \<times> pin_host" where
  "pull_change py addr peer root i ch h =
     (let h1 = py_others py i 0 h
      in case (case pc_new ch of
                 None \<Rightarrow> Inr None
               | Some f \<Rightarrow> rbind (py_call py i addr (p_owner_pk peer) (pin_get_query (pc_path ch) f)) (\<lambda>v.
                   rbind (content_of_reply v) (\<lambda>b. Inr (Some b)))) of
           Inl e \<Rightarrow> (Inl e, h1)
         | Inr data \<Rightarrow>
             (case current_sync_authority py (host_store h1) peer root of
                Inl e \<Rightarrow> (Inl e, h1)
              | Inr _ \<Rightarrow> (case apply_change (py_pin py i) ch data (host_store h1) (snd h1) of (r, t) \<Rightarrow> (r, (fst h1, t)))))"

fun peer_changes :: "pin_sync_env \<Rightarrow> string \<Rightarrow> peer \<Rightarrow> string \<Rightarrow> nat \<Rightarrow> change list \<Rightarrow> pin_host \<Rightarrow> unit res \<times> pin_host" where
  "peer_changes py addr peer root i [] h = (Inr (), h)"
| "peer_changes py addr peer root i (c # cs) h =
     (case (if pc_to_remote c then push_change else pull_change) py addr peer root i c h of
        (Inl e, h') \<Rightarrow> (Inl e, h')
      | (Inr _, h') \<Rightarrow> peer_changes py addr peer root (Suc i) cs h')"

definition scanned_as :: "pin_env \<Rightarrow> manifest \<Rightarrow> string \<Rightarrow> pin_tree \<Rightarrow> unit res" where
  "scanned_as pv m msg t = rbind (scan_tree pv t) (\<lambda>files. if files \<noteq> m then Inl (changed msg) else Inr ())"

text \<open>The end of a synchronisation: scan, commit with the paired machine, scan again, record.\<close>

definition finish_sync :: "pin_sync_env \<Rightarrow> string \<Rightarrow> peer \<Rightarrow> string \<Rightarrow> nat \<Rightarrow> manifest \<Rightarrow> pin_host \<Rightarrow> unit res \<times> pin_host" where
  "finish_sync py addr peer root k merged h =
     (let h1 = py_others py k 0 h
      in case scanned_as (py_pin py k) merged ''(tree changed during sync)'' (snd h1) of
           Inl e \<Rightarrow> (Inl e, h1)
         | Inr _ \<Rightarrow>
             (let h2 = py_others py k 1 h1
              in case current_sync_authority py (host_store h2) peer root of
                   Inl e \<Rightarrow> (Inl e, h2)
                 | Inr _ \<Rightarrow>
                     (let h3 = py_others py k 2 h2
                      in case rbind (py_call py k addr (p_owner_pk peer) (pin_commit_query merged))
                                (\<lambda>_. scanned_as (py_pin py (Suc k)) merged ''(tree changed during commit)'' (snd h3)) of
                           Inl e \<Rightarrow> (Inl e, h3)
                         | Inr _ \<Rightarrow>
                             (let h4 = py_others py k 3 h3
                              in case current_sync_authority py (host_store h4) peer root of
                                   Inl e \<Rightarrow> (Inl e, h4)
                                 | Inr _ \<Rightarrow> (case record_sync (py_ctx py) (p_owner_pk peer) merged (py_now py) (fst h4) of
                                     (r, nd) \<Rightarrow> (r, (nd, snd h4)))))))"

definition sync_target :: "pin_sync_env \<Rightarrow> string \<Rightarrow> store \<Rightarrow> (peer \<times> string \<times> string) res" where
  "sync_target py name s =
     rbind (ensure_writable s) (\<lambda>_.
     rbind (ok_or (find_peer s name) (Usage (name @ '' is not paired''))) (\<lambda>p.
     Inr (p, pin_root (py_dir py) s, st_body_name s)))"

text \<open>What is to be done: the changes, in order, and the tree they lead to.\<close>

definition peer_plan :: "pin_sync_env \<Rightarrow> string \<Rightarrow> string \<Rightarrow> peer \<Rightarrow> manifest \<Rightarrow> json \<Rightarrow> store \<Rightarrow> (change list \<times> manifest) res" where
  "peer_plan py local_name name peer local reply s =
     rbind (listing_of_reply py reply) (\<lambda>remote.
     rbind (common_baseline (baseline s (p_owner_pk peer)) (li_baseline remote) local (li_files remote)) (\<lambda>base.
     plan local (li_files remote) base local_name name))"

definition sync_with_peer :: "pin_sync_env \<Rightarrow> string \<Rightarrow> string \<Rightarrow> pin_host \<Rightarrow> unit res \<times> pin_host" where
  "sync_with_peer py addr name h =
     (case sync_target py name (host_store h) of
        Inl e \<Rightarrow> (Inl e, h)
      | Inr (peer, root, local_name) \<Rightarrow>
          (let h1 = py_others py 0 0 h
           in case open_scan (py_pin py 0) (snd h1) of
                Inl e \<Rightarrow> (Inl e, h1)
              | Inr local \<Rightarrow>
                  (let h2 = py_others py 0 1 h1
                   in case rbind (py_call py 0 addr (p_owner_pk peer) pin_list_query)
                             (\<lambda>v. peer_plan py local_name name peer local v (host_store h2)) of
                        Inl e \<Rightarrow> (Inl e, h2)
                      | Inr (changes, merged) \<Rightarrow>
                          (case peer_changes py addr peer root 1 changes h2 of
                             (Inl e, h3) \<Rightarrow> (Inl e, h3)
                           | (Inr _, h3) \<Rightarrow> finish_sync py addr peer root (Suc (length changes)) merged h3))))"

definition sync_after_pair :: "pin_sync_env \<Rightarrow> peer \<Rightarrow> pin_host \<Rightarrow> unit res \<times> pin_host" where
  "sync_after_pair py peer h = (case p_addr peer of
       None \<Rightarrow> (Inl Unreachable, h)
     | Some addr \<Rightarrow> sync_with_peer py addr (p_name peer) h)"

section \<open>What a paired machine may call\<close>

text \<open>A version in a request: \<open>null\<close> for no file.\<close>

definition opt_fingerprint :: "json \<Rightarrow> fingerprint option option" where
  "opt_fingerprint v = (if v = JNull then Some None else map_option Some (fingerprint_of_json v))"

definition ok_reply :: json where
  "ok_reply = JObj [(''ok'', JBool True)]"

definition rpc_list :: "pin_sync_env \<Rightarrow> peer \<Rightarrow> pin_host \<Rightarrow> json res \<times> pin_host" where
  "rpc_list py peer h =
     (case ensure_enabled (host_store h) of
        Inl e \<Rightarrow> (Inl e, h)
      | Inr _ \<Rightarrow>
          (let h1 = py_others py 0 0 h
           in (rbind (open_scan (py_pin py 0) (snd h1)) (\<lambda>files.
               Inr (JObj [(''files'', manifest_json files), (''baseline'', manifest_json (baseline (host_store h) (p_owner_pk peer)))])),
               h1)))"

definition get_version :: "pin_sync_env \<Rightarrow> json \<Rightarrow> pin_tree \<Rightarrow> json res" where
  "get_version py req t =
     rbind (ok_or (jstr req ''path'') (Protocol ''missing pin path'')) (\<lambda>path.
     rbind (ok_or (fingerprint_of_json (jindex req ''expected'')) (Json (py_decode_error py (jindex req ''expected'')))) (\<lambda>expected.
     rbind (pv_open (py_pin py 0)) (\<lambda>_.
     rbind (read_file (py_pin py 0) t path) (\<lambda>found.
     rbind (ok_or found (changed path)) (\<lambda>(actual, bs).
     if actual \<noteq> expected then Inl (changed path) else Inr (JObj [(''content'', JStr (hex bs))]))))))"

definition rpc_get :: "pin_sync_env \<Rightarrow> json \<Rightarrow> pin_host \<Rightarrow> json res \<times> pin_host" where
  "rpc_get py req h =
     (case ensure_enabled (host_store h) of
        Inl e \<Rightarrow> (Inl e, h)
      | Inr _ \<Rightarrow> (let h1 = py_others py 0 0 h in (get_version py req (snd h1), h1)))"

text \<open>A write, checked against the receiver's own baseline; the store stays locked throughout.\<close>

definition put_request :: "pin_sync_env \<Rightarrow> peer \<Rightarrow> json \<Rightarrow> store \<Rightarrow> (change \<times> bytes option) res" where
  "put_request py peer req s =
     rbind (ensure_enabled s) (\<lambda>_.
     rbind (ok_or (jstr req ''path'') (Protocol ''missing pin path'')) (\<lambda>path.
     if jget req ''expected'' = None \<or> jget req ''new'' = None
     then Inl (Protocol ''pin write requires version preconditions'')
     else
     rbind (ok_or (opt_fingerprint (jindex req ''expected'')) (Json (py_decode_error py (jindex req ''expected'')))) (\<lambda>expected.
     rbind (ok_or (opt_fingerprint (jindex req ''new'')) (Json (py_decode_error py (jindex req ''new'')))) (\<lambda>new.
     rbind (valid_path path) (\<lambda>_.
     if bt_get (baseline s (p_owner_pk peer)) path \<noteq> expected
     then Inl (conflict path (p_name peer) (st_body_name s @ '' (local change since last sync)''))
     else
     rbind (case jstr req ''content'' of None \<Rightarrow> Inr None | Some t \<Rightarrow> rbind (unhex t) (\<lambda>b. Inr (Some b))) (\<lambda>data.
     Inr (\<lparr>pc_path = path, pc_expected = expected, pc_new = new, pc_to_remote = False\<rparr>, data)))))))"

definition rpc_put :: "pin_sync_env \<Rightarrow> peer \<Rightarrow> json \<Rightarrow> pin_host \<Rightarrow> json res \<times> pin_host" where
  "rpc_put py peer req h =
     (case rbind (put_request py peer req (host_store h)) (\<lambda>x. rbind (pv_open (py_pin py 0)) (\<lambda>_. Inr x)) of
        Inl e \<Rightarrow> (Inl e, h)
      | Inr (ch, data) \<Rightarrow>
          (case apply_change (py_pin py 0) ch data (host_store h) (snd h) of
             (r, t) \<Rightarrow> (rbind r (\<lambda>_. Inr ok_reply), (fst h, t))))"

definition rpc_commit :: "pin_sync_env \<Rightarrow> peer \<Rightarrow> json \<Rightarrow> pin_host \<Rightarrow> json res \<times> pin_host" where
  "rpc_commit py peer req h =
     (case rbind (ensure_enabled (host_store h)) (\<lambda>_.
           rbind (ok_or (manifest_of_json (jindex req ''manifest'')) (Json (py_decode_error py (jindex req ''manifest'')))) (\<lambda>m.
           rbind (open_scan (py_pin py 0) (snd h)) (\<lambda>files.
           if files \<noteq> m then Inl (changed ''(tree changed before commit)'') else Inr m))) of
        Inl e \<Rightarrow> (Inl e, h)
      | Inr m \<Rightarrow> (case record_sync (py_ctx py) (p_owner_pk peer) m (py_now py) (fst h) of
          (r, nd) \<Rightarrow> (rbind r (\<lambda>_. Inr ok_reply), (nd, snd h))))"

text \<open>The mesh's dispatch of the four operations.\<close>

definition pin_serve :: "pin_sync_env \<Rightarrow> string \<Rightarrow> peer \<Rightarrow> json \<Rightarrow> pin_host \<Rightarrow> json res \<times> pin_host" where
  "pin_serve py op peer req h =
     (if op = ''pin_list'' then rpc_list py peer h
      else if op = ''pin_get'' then rpc_get py req h
      else if op = ''pin_put'' then rpc_put py peer req h
      else rpc_commit py peer req h)"

section \<open>Conflicts\<close>

record conflict_snapshot =
  cs_peer :: string
  cs_peer_key :: string
  cs_path :: string
  cs_local :: "fingerprint option"
  cs_remote :: "fingerprint option"
  cs_local_baseline :: "fingerprint option"
  cs_remote_baseline :: "fingerprint option"
  cs_token :: string

record conflict_report =
  cf_peer :: string
  cf_baseline_mismatch :: bool
  cf_conflicts :: "conflict_snapshot list"

definition snapshot_of :: "crypto \<Rightarrow> peer \<Rightarrow> string \<Rightarrow> fingerprint option \<Rightarrow> fingerprint option
    \<Rightarrow> fingerprint option \<Rightarrow> fingerprint option \<Rightarrow> conflict_snapshot" where
  "snapshot_of cr peer path l r a b =
     \<lparr>cs_peer = p_name peer, cs_peer_key = pin_key (p_owner_pk peer), cs_path = path, cs_local = l, cs_remote = r,
      cs_local_baseline = a, cs_remote_baseline = b,
      cs_token = hash cr (cr_to_vec cr (JArr ([JStr (p_name peer), JStr (pin_key (p_owner_pk peer)), JStr path] @
        map (opt_json fingerprint_json) [l, r, a, b])))\<rparr>"

definition owner_peer :: "pin_sync_env \<Rightarrow> string \<Rightarrow> store \<Rightarrow> (peer \<times> bytes \<times> string \<times> manifest) res" where
  "owner_peer py name s =
     rbind (ensure_enabled s) (\<lambda>_.
     rbind (ok_or (find_peer s name) (Usage (name @ '' is not paired''))) (\<lambda>p.
     Inr (p, st_owner_sk s, pin_root (py_dir py) s, baseline s (p_owner_pk p))))"

definition peer_listing :: "pin_sync_env \<Rightarrow> nat \<Rightarrow> peer \<Rightarrow> listing res" where
  "peer_listing py i peer = rbind (ok_or (p_addr peer) Unreachable) (\<lambda>addr.
     rbind (py_call py i addr (p_owner_pk peer) pin_list_query) (listing_of_reply py))"

definition conflict_paths :: "manifest \<Rightarrow> manifest \<Rightarrow> manifest \<Rightarrow> manifest \<Rightarrow> string list" where
  "conflict_paths l r a b = sort (remdups (bt_keys l @ bt_keys r @ bt_keys a @ bt_keys b))"

definition in_conflict :: "manifest \<Rightarrow> manifest \<Rightarrow> manifest \<Rightarrow> manifest \<Rightarrow> string \<Rightarrow> bool" where
  "in_conflict l r a b p \<longleftrightarrow> bt_get l p \<noteq> bt_get r p \<and>
     (bt_get a p \<noteq> bt_get b p \<or> bt_get l p \<noteq> bt_get a p \<and> bt_get r p \<noteq> bt_get a p)"

definition report_conflicts :: "crypto \<Rightarrow> peer \<Rightarrow> string \<Rightarrow> manifest \<Rightarrow> listing \<Rightarrow> manifest \<Rightarrow> conflict_report" where
  "report_conflicts cr peer name local remote base =
     \<lparr>cf_peer = name, cf_baseline_mismatch = (base \<noteq> li_baseline remote),
      cf_conflicts = map (\<lambda>p. snapshot_of cr peer p (bt_get local p) (bt_get (li_files remote) p) (bt_get base p)
          (bt_get (li_baseline remote) p))
        (filter (in_conflict local (li_files remote) base (li_baseline remote))
          (conflict_paths local (li_files remote) base (li_baseline remote)))\<rparr>"

definition inspect_peer_conflicts :: "pin_sync_env \<Rightarrow> string \<Rightarrow> pin_host \<Rightarrow> conflict_report res \<times> pin_host" where
  "inspect_peer_conflicts py name h =
     (case owner_peer py name (host_store h) of
        Inl e \<Rightarrow> (Inl e, h)
      | Inr (peer, sk, root, base) \<Rightarrow>
          (let h1 = py_others py 0 0 h
           in case open_scan (py_pin py 0) (snd h1) of
                Inl e \<Rightarrow> (Inl e, h1)
              | Inr local \<Rightarrow>
                  (rbind (peer_listing py 0 peer) (\<lambda>remote.
                   Inr (report_conflicts (cx_crypto (py_ctx py)) peer name local remote base)), py_others py 0 1 h1)))"

text \<open>Taking the paired machine's version of one path, on this machine only.\<close>

definition take_content :: "pin_sync_env \<Rightarrow> peer \<Rightarrow> conflict_snapshot \<Rightarrow> bytes option res" where
  "take_content py peer c = (case cs_remote c of
       None \<Rightarrow> Inr None
     | Some f \<Rightarrow> rbind (ok_or (p_addr peer) Unreachable) (\<lambda>addr.
         rbind (py_call py 1 addr (p_owner_pk peer) (pin_get_query (cs_path c) f)) (\<lambda>v.
         rbind (content_of_reply v) (\<lambda>b. Inr (Some b)))))"

definition same_baseline :: "manifest \<Rightarrow> conflict_snapshot \<Rightarrow> bool" where
  "same_baseline base c \<longleftrightarrow> bt_get base (cs_path c) = cs_local_baseline c"

definition take_target :: "pin_sync_env \<Rightarrow> conflict_snapshot \<Rightarrow> store \<Rightarrow> (peer \<times> string) res" where
  "take_target py c s = rbind (owner_peer py (cs_peer c) s) (\<lambda>(peer, sk, root, base).
     if pin_key (p_owner_pk peer) \<noteq> cs_peer_key c \<or> \<not> same_baseline base c
     then Inl (changed ''pin peer or baseline changed'') else Inr (peer, root))"

definition take_change :: "conflict_snapshot \<Rightarrow> change" where
  "take_change c = \<lparr>pc_path = cs_path c, pc_expected = cs_local c, pc_new = cs_remote c, pc_to_remote = False\<rparr>"

definition take_checks :: "pin_sync_env \<Rightarrow> conflict_snapshot \<Rightarrow> peer \<Rightarrow> string \<Rightarrow> store \<Rightarrow> unit res" where
  "take_checks py c peer root s =
     rbind (current_sync_authority py s peer root) (\<lambda>_.
     if \<not> same_baseline (baseline s (p_owner_pk peer)) c then Inl (changed ''pin peer or baseline changed'')
     else pv_open (py_pin py 1))"

definition take_peer_conflict :: "pin_sync_env \<Rightarrow> conflict_snapshot \<Rightarrow> pin_host \<Rightarrow> unit res \<times> pin_host" where
  "take_peer_conflict py c h =
     (case inspect_peer_conflicts py (cs_peer c) h of
        (Inl e, h1) \<Rightarrow> (Inl e, h1)
      | (Inr refreshed, h1) \<Rightarrow>
          if \<not> List.member (cf_conflicts refreshed) c
          then (Inl (changed ''pin conflict inspection is stale; inspect again''), h1)
          else case take_target py c (host_store h1) of
                 Inl e \<Rightarrow> (Inl e, h1)
               | Inr (peer, root) \<Rightarrow>
                   (let h2 = py_others py 1 0 h1
                    in case rbind (take_content py peer c) (\<lambda>data.
                              rbind (take_checks py c peer root (host_store h2)) (\<lambda>_. Inr data)) of
                         Inl e \<Rightarrow> (Inl e, h2)
                       | Inr data \<Rightarrow> (case apply_change (py_pin py 1) (take_change c) data (host_store h2) (snd h2) of
                           (r, t) \<Rightarrow> (r, (fst h2, t)))))"

record sync_status =
  ss_peer :: string
  ss_synced :: bool
  ss_error :: "string option"

text \<open>A failed synchronisation is recorded, and reported as a status, not as an error.\<close>

definition owner_pin_sync :: "pin_sync_env \<Rightarrow> string \<Rightarrow> pin_host \<Rightarrow> sync_status res \<times> pin_host" where
  "owner_pin_sync py name h =
     (case rbind (owner_peer py name (host_store h)) (\<lambda>(peer, _). ok_or (p_addr peer) Unreachable) of
        Inl e \<Rightarrow> (Inl e, h)
      | Inr addr \<Rightarrow>
          (case sync_with_peer py addr name h of
             (Inr _, h1) \<Rightarrow> (Inr \<lparr>ss_peer = name, ss_synced = True, ss_error = None\<rparr>, h1)
           | (Inl e, h1) \<Rightarrow>
               (case update (py_ctx py) (\<lambda>s. Inr ((), s\<lparr>st_pin_index := (st_pin_index s)\<lparr>pi_last_error := Some (error_text e)\<rparr>\<rparr>)) (fst h1) of
                  (r, nd) \<Rightarrow> (rbind r (\<lambda>_. Inr \<lparr>ss_peer = name, ss_synced = False, ss_error = Some (error_text e)\<rparr>),
                    (nd, snd h1)))))"

section \<open>What is recorded\<close>

lemma outcome_pin:
  assumes "outcome s' = outcome n"
  shows "st_pin_index s' = st_pin_index n" "st_pin_enabled s' = st_pin_enabled n" "st_pin_dir s' = st_pin_dir n"
  using arg_cong [OF assms, of st_pin_index] arg_cong [OF assms, of st_pin_enabled] arg_cong [OF assms, of st_pin_dir]
  by (simp_all add: outcome_def)

text \<open>What the owner decided, the switch and the place of the pinned directory included.\<close>

definition pin_frame :: "store \<Rightarrow> (grant list \<times> peer list \<times> string \<times> bytes) \<times> bool \<times> string option" where
  "pin_frame s = (authority s, st_pin_enabled s, st_pin_dir s)"

lemma record_edit_frame:
  assumes "update cx edit nd = (r, nd')" "\<And>n v. edit (fst nd) = Inr (v, n) \<Longrightarrow> n = (fst nd)\<lparr>st_pin_index := st_pin_index n\<rparr>"
  shows "pin_frame (fst nd') = pin_frame (fst nd)"
proof -
  obtain s d where nd: "nd = (s, d)" by fastforce
  obtain s' d' where nd': "nd' = (s', d')" by fastforce
  from assms(1) [unfolded nd nd'] have "pin_frame s' = pin_frame s"
  proof (cases rule: update_steps)
    case (saved v)
    with assms(1) nd nd' obtain n1 where n1: "edit s = Inr (v, n1)" "outcome s' = outcome n1"
      using update_ok [of cx edit s d v s' d'] by metis
    obtain ix where n1': "n1 = s\<lparr>st_pin_index := ix\<rparr>" using assms(2) [of v n1] n1(1) nd by auto
    have "authority n1 = authority s" by (simp add: n1' authority_def permissions_def)
    then show ?thesis using authority_outcome [OF n1(2)] outcome_pin(2,3) [OF n1(2)] by (simp add: n1' pin_frame_def)
  qed (simp_all add: pin_frame_def)
  then show ?thesis by (simp add: nd nd')
qed

lemma record_sync_frame: "record_sync cx pk m now nd = (r, nd') \<Longrightarrow> pin_frame (fst nd') = pin_frame (fst nd)"
  unfolding record_sync_def by (erule record_edit_frame) (simp add: record_edit_def)

lemma record_sync_index:
  assumes "record_sync cx pk m now nd = (Inr (), nd')"
  shows "pi_peers (st_pin_index (fst nd')) (pin_key pk) = Some m" "pi_last_error (st_pin_index (fst nd')) = None"
    "pi_last_sync (st_pin_index (fst nd')) = Some now" "snd nd' = Some (durable (fst nd'))"
proof -
  obtain s d where nd: "nd = (s, d)" by fastforce
  obtain s' d' where nd': "nd' = (s', d')" by fastforce
  from assms [unfolded nd nd' record_sync_def] obtain n1 where
      n1: "record_edit pk m now s = Inr ((), n1)" "outcome s' = outcome n1" "d' = Some (durable s')"
    by (rule update_ok)
  note outcome_pin(1) [OF n1(2)]
  with n1(1,3) show "pi_peers (st_pin_index (fst nd')) (pin_key pk) = Some m" "pi_last_error (st_pin_index (fst nd')) = None"
    "pi_last_sync (st_pin_index (fst nd')) = Some now" "snd nd' = Some (durable (fst nd'))"
    by (auto simp: record_edit_def nd')
qed

section \<open>Synchronisations end in the merge\<close>


text \<open>Two machines in one process end with the same tree, and with it as their baseline for each other.\<close>

theorem sync_converges:
  assumes "sync ca cb ea eb nowa nowb (na, ta) (nb, tb) = (Inr (), (na', ta'), (nb', tb'))"
  shows "\<exists>apk bpk cs m. sync_plan (cx_crypto ca) (ea 0) (eb 0) (fst na) (fst nb) ta tb = Inr (apk, bpk, cs, m) \<and>
    scan_tree (ea (Suc (length cs))) ta' = Inr m \<and> scan_tree (eb (Suc (length cs))) tb' = Inr m \<and>
    pi_peers (st_pin_index (fst na')) (pin_key bpk) = Some m \<and> pi_peers (st_pin_index (fst nb')) (pin_key apk) = Some m"
  using assms unfolding sync_def Let_def
  by (auto simp: result_simps split: sum.splits prod.splits if_splits dest: record_sync_index(1))

section \<open>What a paired machine can do\<close>

lemma put_request_checks:
  assumes "put_request py peer req s = Inr (ch, data)"
  shows "st_pin_enabled s" "valid_path (pc_path ch) = Inr ()" "jstr req ''path'' = Some (pc_path ch)"
    "opt_fingerprint (jindex req ''new'') = Some (pc_new ch)"
    "pc_expected ch = bt_get (baseline s (p_owner_pk peer)) (pc_path ch)"
  using assms unfolding put_request_def ensure_enabled_def by (auto simp: result_simps split: if_splits)


text \<open>While synchronisation is off, a paired machine reads nothing, writes nothing and records nothing; and
  whatever it calls, it moves nothing but the pin index of the store: the owner's grants, pairings and
  identity, the switch and the pinned directory's place stay.\<close>

lemma pin_serve_off: "\<not> st_pin_enabled (host_store h) \<Longrightarrow> pin_serve py op peer req h = (r, h') \<Longrightarrow> \<exists>e. r = Inl e \<and> h' = h"
  by (auto simp: pin_serve_def rpc_list_def rpc_get_def rpc_put_def rpc_commit_def put_request_def ensure_enabled_def
      split: if_splits)

lemma rpc_commit_frame:
  "rpc_commit py peer req h = (r, h') \<Longrightarrow> snd h' = snd h \<and> pin_frame (host_store h') = pin_frame (host_store h)"
  unfolding rpc_commit_def by (auto split: sum.splits prod.splits dest!: record_sync_frame)

theorem pin_serve_scope:
  assumes "pin_serve py op peer req h = (r, h')" "\<And>i j g. py_others py i j g = g"
  shows "pin_frame (host_store h') = pin_frame (host_store h) \<and>
    (\<not> st_pin_enabled (host_store h) \<longrightarrow> h' = h \<and> (\<exists>e. r = Inl e)) \<and>
    (op \<in> {''pin_list'', ''pin_get''} \<longrightarrow> h' = h) \<and> (op \<noteq> ''pin_put'' \<longrightarrow> snd h' = snd h)"
proof -
  have put: "rpc_put py peer req h = (r, h') \<Longrightarrow> fst h' = fst h"
    by (auto simp: rpc_put_def split: sum.splits prod.splits)
  have "pin_frame (host_store h') = pin_frame (host_store h) \<and> (op \<in> {''pin_list'', ''pin_get''} \<longrightarrow> h' = h) \<and>
      (op \<noteq> ''pin_put'' \<longrightarrow> snd h' = snd h)"
    using assms put rpc_commit_frame [of py peer req h r h']
    by (auto simp: pin_serve_def rpc_list_def rpc_get_def Let_def split: if_splits sum.splits)
  with pin_serve_off [OF _ assms(1)] show ?thesis by blast
qed

text \<open>The operations on the pinned directory as the mesh calls them.\<close>

definition mesh_pin :: "pin_sync_env \<Rightarrow> pin_tree \<Rightarrow> pin_rpc" where
  "mesh_pin py t op peer req nd = (case pin_serve py op peer req (nd, t) of (r, nd', t') \<Rightarrow> (r, nd'))"

text \<open>No other task between the steps of an operation.\<close>

definition undisturbed :: "pin_sync_env \<Rightarrow> pin_sync_env" where
  "undisturbed py = py\<lparr>py_others := (\<lambda>_ _ h. h)\<rparr>"

interpretation served_pin: pin_operations "mesh_pin (undisturbed py) t" for py t
proof
  fix op peer req nd
  obtain r nd' t' where run: "pin_serve (undisturbed py) op peer req (nd, t) = (r, nd', t')" by (metis prod.exhaust)
  have "pin_frame (host_store (nd', t')) = pin_frame (host_store (nd, t))"
    using pin_serve_scope [OF run] by (simp add: undisturbed_def)
  then show "authority (fst (snd (mesh_pin (undisturbed py) t op peer req nd))) = authority (fst nd)"
    by (simp add: mesh_pin_def run pin_frame_def)
qed

section \<open>Conflicts\<close>

lemma no_key: "p \<notin> set (bt_keys m) \<Longrightarrow> bt_get m p = None"
  by (simp add: bt_keys_def bt_get_def map_of_eq_None_iff)

lemma report_empty_iff:
  "cf_conflicts (report_conflicts cr peer name l remote base) = [] \<longleftrightarrow>
     (\<forall>p. \<not> in_conflict l (li_files remote) base (li_baseline remote) p)"
proof -
  have "in_conflict l r a b p \<Longrightarrow> p \<in> set (conflict_paths l r a b)" for r a b p
    using no_key [of p l] no_key [of p r] by (auto simp: in_conflict_def conflict_paths_def)
  then show ?thesis by (auto simp: report_conflicts_def filter_empty_conv)
qed

text \<open>C34: The owner's conflict report is exact: synchronising can be planned if and only if the report
  lists no conflict and no mismatch of the baselines, or the trees agree already.\<close>

theorem conflict_report_exact:
  assumes "\<forall>p \<in> set (conflict_paths local (li_files remote) base (li_baseline remote)). valid_path p = Inr ()"
  shows "(\<exists>x. rbind (common_baseline base (li_baseline remote) local (li_files remote))
      (\<lambda>old. plan local (li_files remote) old a b) = Inr x) \<longleftrightarrow>
    cf_conflicts (report_conflicts cr peer name local remote base) = [] \<and>
    (\<not> cf_baseline_mismatch (report_conflicts cr peer name local remote base) \<or> local = li_files remote)"
proof -
  let ?r = "li_files remote" and ?rb = "li_baseline remote"
  have valid: "valid_path p = Inr ()" if "p \<in> set (plan_paths local ?r old)" "old = base \<or> old = local" for p old
    using that assms by (auto simp: plan_paths_def conflict_paths_def)
  have out: "\<not> conflicting (bt_get local p) (bt_get ?r p) (bt_get old p)" if "p \<notin> set (plan_paths local ?r old)" for p old
    using that no_key [of p local] no_key [of p ?r] by (auto simp: plan_paths_def conflicting_def)
  have plan: "(\<exists>x. plan local ?r old a b = Inr x) \<longleftrightarrow> (\<forall>p. \<not> conflicting (bt_get local p) (bt_get ?r p) (bt_get old p))"
    if "old = base \<or> old = local" for old
    using plan_ok_iff [of local ?r old a b] valid [OF _ that] out [of _ old] by blast
  have mm: "cf_baseline_mismatch (report_conflicts cr peer name local remote base) \<longleftrightarrow> base \<noteq> ?rb"
    by (simp add: report_conflicts_def)
  show ?thesis
  proof (cases "base = ?rb")
    case True
    with plan [of base] mm show ?thesis
      by (simp add: common_baseline_def report_empty_iff in_conflict_def conflicting_def)
  next
    case False
    with plan [of local] show ?thesis
      by (auto simp: common_baseline_def report_empty_iff mm in_conflict_def conflicting_def)
  qed
qed

text \<open>Taking the paired machine's version of a path needs the token of a current report: it succeeds
  only if a fresh inspection lists exactly that conflict, the peer and the baseline are still the
  inspected ones, and what is displaced on this machine is the inspected local version, which is
  retained.  Only reading operations are sent to the paired machine.\<close>

theorem taken_as_inspected:
  assumes "take_peer_conflict py c h = (Inr (), h')"
  shows "\<exists>rep h1 (peer :: peer) data. inspect_peer_conflicts py (cs_peer c) h = (Inr rep, h1) \<and> c \<in> set (cf_conflicts rep) \<and>
    pin_key (p_owner_pk peer) = cs_peer_key c \<and>
    bt_get (baseline (host_store (py_others py 1 0 h1)) (p_owner_pk peer)) (cs_path c) = cs_local_baseline c \<and>
    st_pin_enabled (host_store h1) \<and> fst h' = fst (py_others py 1 0 h1) \<and>
    ((\<exists>found. recovery_lock (py_pin py 1) (snd (py_others py 1 0 h1)) = (Inr (), snd h') \<and>
        read_file (py_pin py 1) (snd h') (cs_path c) = Inr found \<and> map_option fst found = cs_remote c) \<or>
     (\<exists>t0 version. recovery_lock (py_pin py 1) (snd (py_others py 1 0 h1)) = (Inr (), t0) \<and>
        displaced (py_pin py 1) (take_change c) version (before_rename (py_pin py 1) (take_change c) data [] t0) (snd h')))"
proof -
  obtain rep h1 peer root data where
      rep: "inspect_peer_conflicts py (cs_peer c) h = (Inr rep, h1)" "c \<in> set (cf_conflicts rep)"
      and target: "take_target py c (host_store h1) = Inr (peer, root)"
      and checks: "take_checks py c peer root (host_store (py_others py 1 0 h1)) = Inr ()"
      and run: "apply_change (py_pin py 1) (take_change c) data (host_store (py_others py 1 0 h1)) (snd (py_others py 1 0 h1)) = (Inr (), snd h')"
      and frame: "fst h' = fst (py_others py 1 0 h1)"
    using assms unfolding take_peer_conflict_def Let_def
    by (auto simp: result_simps List.member_iff split: sum.splits prod.splits if_splits)
  from target checks have "pin_key (p_owner_pk peer) = cs_peer_key c" "st_pin_enabled (host_store h1)"
      "bt_get (baseline (host_store (py_others py 1 0 h1)) (p_owner_pk peer)) (cs_path c) = cs_local_baseline c"
    by (auto simp: take_target_def owner_peer_def ensure_enabled_def take_checks_def same_baseline_def result_simps split: if_splits)
  moreover have sel: "pc_path (take_change c) = cs_path c" "pc_new (take_change c) = cs_remote c"
    by (simp_all add: take_change_def)
  ultimately show ?thesis
    by (intro exI [of _ rep] exI [of _ h1] exI [of _ peer] exI [of _ data])
      (use rep frame apply_change_done [OF run, unfolded sel] in blast)
qed

end
