(* ===== verification/Clix_Recovery.thy ===== *)
theory Clix_Recovery
  imports Clix_Pin_Sync
begin

text \<open>
  The owner's operations on the recovery directory (\<open>src/pin.rs\<close>): inspecting one entry, listing a page,
  reading a version, resolving and discarding.  Every decision of the owner carries the token of an
  inspection, a digest of everything the inspection saw.  \<open>re_others k\<close> is what other processes do to
  the directory before the \<open>k\<close>-th observation of an operation, \<open>re_pin k\<close> are that observation's file
  operations.
\<close>

record recovery_env =
  re_pin :: "nat \<Rightarrow> pin_env"
  re_others :: "nat \<Rightarrow> pin_tree \<Rightarrow> pin_tree"

section \<open>Inspection\<close>

definition version_json :: "version \<Rightarrow> json" where
  "version_json v = JObj [(''fingerprint'', fingerprint_json (rv_fingerprint v)), (''bytes'', nat_json (rv_bytes v)),
     (''device'', nat_json (rv_device v)), (''inode'', nat_json (rv_inode v)),
     (''modified_seconds'', JInt (fst (rv_modified v))), (''modified_nanoseconds'', JInt (snd (rv_modified v))),
     (''changed_seconds'', JInt (fst (rv_changed v))), (''changed_nanoseconds'', JInt (snd (rv_changed v)))]"

record inspection =
  in_id :: string
  in_recorded :: bool
  in_receipt :: receipt
  in_live :: "version option"
  in_retained :: "version option"
  in_token :: string
  in_explanation :: string

definition token_of :: "pin_env \<Rightarrow> json list \<Rightarrow> string" where
  "token_of pv vs = hash (pv_crypto pv) (cr_to_vec (pv_crypto pv) (JArr vs))"

text \<open>An artifact no receipt owns, or a receipt that cannot be read.\<close>

definition owned_elsewhere :: "pin_env \<Rightarrow> entries \<Rightarrow> string \<Rightarrow> unit res" where
  "owned_elsewhere pv dir i = for_each_recovery_name (\<lambda>name _ _.
     if name \<noteq> i \<and> is_receipt_name name then
       (case rbind (read_internal pv dir name MAX_RECEIPT) (\<lambda>b. parse_receipt pv b name) of
          Inr r \<Rightarrow> if rc_version r = i then Inl (Usage (''this version belongs to receipt '' @ name @ ''; inspect that ID'')) else Inr ()
        | Inl e \<Rightarrow> if \<not> is_receipt_name i then Inl e else Inr ())
     else Inr ()) dir ()"

definition artifact_inspection :: "pin_env \<Rightarrow> entries \<Rightarrow> string \<Rightarrow> string \<Rightarrow> inspection res" where
  "artifact_inspection pv dir i explanation =
     rbind (owned_elsewhere pv dir i) (\<lambda>_.
     rbind (internal_snapshot pv dir i) (\<lambda>found.
     rbind (ok_or found (Usage ''recovery artifact is absent'')) (\<lambda>kept.
     Inr \<lparr>in_id = i, in_recorded = False,
       in_receipt = \<lparr>rc_path = [], rc_expected = Some (rv_fingerprint kept), rc_replacement = None, rc_version = i,
         rc_state = RsResolved, rc_source = None, rc_discard_token = None\<rparr>,
       in_live = None, in_retained = Some kept, in_token = token_of pv [JStr i, version_json kept],
       in_explanation = explanation @ ''; export retained bytes or explicitly discard only this artifact''\<rparr>)))"

text \<open>The live file, opened without following links; a page keeps what it saw of each path.\<close>

type_synonym live_cache = "string \<rightharpoonup> version option"

definition open_live :: "pin_env \<Rightarrow> pin_tree \<Rightarrow> string \<Rightarrow> pin_node option res" where
  "open_live pv t path = rbind (valid_path path) (\<lambda>_. walk pv (pt_entries t) (parts path))"

fun snapshot_node :: "pin_env \<Rightarrow> pin_node \<Rightarrow> version res" where
  "snapshot_node pv (Reg f) = snapshot_file pv f"
| "snapshot_node pv _ = Inl (Protocol ''recovery supports regular files only'')"

fun node_matches :: "pin_node option \<Rightarrow> version option \<Rightarrow> bool" where
  "node_matches (Some (Reg f)) (Some v) = matches_version f v"
| "node_matches None None = True"
| "node_matches _ _ = False"

definition cached_live_snapshot :: "pin_env \<Rightarrow> pin_tree \<Rightarrow> string \<Rightarrow> live_cache \<Rightarrow> version option res \<times> live_cache" where
  "cached_live_snapshot pv t path cache =
     (case open_live pv t path of
        Inl e \<Rightarrow> (Inl e, cache)
      | Inr n \<Rightarrow>
          (case cache path of
             Some seen \<Rightarrow> (if node_matches n seen then Inr seen
                else Inl (changed ''live version changed during recovery listing''), cache)
           | None \<Rightarrow>
               (case n of
                  None \<Rightarrow> (Inr None, cache(path \<mapsto> None))
                | Some f \<Rightarrow> (case snapshot_node pv f of
                    Inl e \<Rightarrow> (Inl e, cache)
                  | Inr v \<Rightarrow> (Inr (Some v), cache(path \<mapsto> Some v))))))"

definition explanation_of :: "receipt \<Rightarrow> fingerprint option \<Rightarrow> fingerprint option \<Rightarrow> string" where
  "explanation_of r l ret =
     (if rc_state r = RsPending then
        (if l = rc_expected r \<and> (ret = rc_replacement r \<or> ret = None)
         then ''publication may be staged or not started; live and saved versions require an owner choice''
         else if l = rc_replacement r \<and> ret = rc_expected r
         then ''publication appears applied but completion was not recorded; review both versions''
         else ''interrupted publication is ambiguous; no version is chosen automatically'')
      else if rc_state r = RsDiscarding
      then ''an explicit discard was interrupted; repeat discard with the recorded or current token''
      else if ret \<noteq> rc_expected r then ''retained inode changed after publication or review; data is preserved''
      else ''retained version is available for owner inspection'')"

definition recorded_inspection :: "pin_env \<Rightarrow> string \<Rightarrow> receipt \<Rightarrow> version option \<Rightarrow> version option \<Rightarrow> inspection" where
  "recorded_inspection pv i r live kept =
     \<lparr>in_id = i, in_recorded = True, in_receipt = r, in_live = live, in_retained = kept,
      in_token = token_of pv [receipt_json r, opt_json version_json live, opt_json version_json kept, JStr i],
      in_explanation = explanation_of r (map_option rv_fingerprint live) (map_option rv_fingerprint kept)\<rparr>"

definition inspection_cached :: "pin_env \<Rightarrow> pin_tree \<Rightarrow> string \<Rightarrow> live_cache \<Rightarrow> inspection res \<times> live_cache" where
  "inspection_cached pv t i cache =
     (let dir = recovery_of t in
      case valid_recovery_name i of
        Inl e \<Rightarrow> (Inl e, cache)
      | Inr _ \<Rightarrow>
          if \<not> is_receipt_name i
          then (artifact_inspection pv dir i ''unreferenced saved or staged data; no original path is inferred'', cache)
          else
            (case rbind (open_internal pv dir i) (\<lambda>f. ok_or f (Usage ''recovery receipt is absent'')) of
               Inl e \<Rightarrow> (Inl e, cache)
             | Inr f \<Rightarrow>
                 if MAX_RECEIPT < length (pf_bytes f)
                 then (artifact_inspection pv dir i ''receipt exceeds 64 KiB; raw metadata only, no original path is inferred'', cache)
                 else
                   (case parse_receipt pv (pf_bytes f) i of
                      Inl _ \<Rightarrow> (artifact_inspection pv dir i ''malformed receipt; raw metadata only, no original path is inferred'', cache)
                    | Inr r \<Rightarrow>
                        (case (if rc_path r = [] then (Inr None, cache) else cached_live_snapshot pv t (rc_path r) cache) of
                           (Inl e, cache') \<Rightarrow> (Inl e, cache')
                         | (Inr live, cache') \<Rightarrow>
                             (rbind (internal_snapshot pv dir (rc_version r))
                                (\<lambda>kept. Inr (recorded_inspection pv i r live kept)), cache')))))"

definition inspect_entry :: "pin_env \<Rightarrow> pin_tree \<Rightarrow> string \<Rightarrow> inspection res" where
  "inspect_entry pv t i = fst (inspection_cached pv t i Map.empty)"

text \<open>Every operation starts by opening the tree and taking the lock, which creates the recovery directory.\<close>

definition with_recovery :: "pin_env \<Rightarrow> pin_tree \<Rightarrow> (pin_tree \<Rightarrow> 'a res \<times> pin_tree) \<Rightarrow> 'a res \<times> pin_tree" where
  "with_recovery pv t act =
     (case pv_open pv of
        Inl e \<Rightarrow> (Inl e, t)
      | Inr _ \<Rightarrow> (case recovery_lock pv t of (Inl e, t') \<Rightarrow> (Inl e, t') | (Inr _, t') \<Rightarrow> act t'))"

definition recovery_inspect :: "recovery_env \<Rightarrow> string \<Rightarrow> pin_tree \<Rightarrow> inspection res \<times> pin_tree" where
  "recovery_inspect re i t = with_recovery (re_pin re 0) t (\<lambda>t1. (inspect_entry (re_pin re 0) t1 i, t1))"

text \<open>An inspection that has to be the one the owner acts on.\<close>

definition inspect_as :: "pin_env \<Rightarrow> pin_tree \<Rightarrow> string \<Rightarrow> string \<Rightarrow> string \<Rightarrow> inspection res" where
  "inspect_as pv t i token msg = rbind (inspect_entry pv t i) (\<lambda>view.
     if in_token view \<noteq> token then Inl (changed msg) else Inr view)"

section \<open>Listing\<close>

record recovery_entry =
  en_id :: string
  en_path :: "string option"
  en_state :: string
  en_problem :: "string option"

record recovery_list =
  rl_body :: string
  rl_usage :: usage
  rl_blocked :: bool
  rl_entries :: "recovery_entry list"
  rl_next_cursor :: "string option"

text \<open>The names after the cursor, at most one more than fits.\<close>

definition page_name :: "string option \<Rightarrow> nat \<Rightarrow> string \<Rightarrow> string list \<Rightarrow> string list" where
  "page_name cursor limit name names =
     (if (case cursor of None \<Rightarrow> True | Some c \<Rightarrow> c < name) then
        (let ns = (if List.member names name then names else insort name names)
         in if limit + 1 < length ns then butlast ns else ns)
      else names)"

definition page_totals :: "pin_env \<Rightarrow> string option \<Rightarrow> nat \<Rightarrow> entries \<Rightarrow> ((nat \<times> nat) \<times> string list) res" where
  "page_totals pv cursor limit dir = for_each_recovery_name
     (\<lambda>name n (u, names). Inr (add_usage pv n u, page_name cursor limit name names)) dir ((0, 0), [])"

definition cut_page :: "nat \<Rightarrow> string list \<Rightarrow> string option \<times> string list" where
  "cut_page limit names = (if limit < length names
     then (let ns = butlast names in (if ns = [] then None else Some (last ns), ns)) else (None, names))"

definition linked_names :: "pin_env \<Rightarrow> entries \<Rightarrow> string list \<Rightarrow> string list res" where
  "linked_names pv dir names = for_each_recovery_name (\<lambda>i _ linked.
     if is_receipt_name i then
       (case rbind (read_internal pv dir i MAX_RECEIPT) (\<lambda>b. parse_receipt pv b i) of
          Inr r \<Rightarrow> if List.member names (rc_version r) then Inr (rc_version r # linked) else Inr linked
        | Inl _ \<Rightarrow> Inr linked)
     else Inr linked) dir []"

definition healthy :: "inspection \<Rightarrow> bool" where
  "healthy v \<longleftrightarrow> (rc_state (in_receipt v) = RsRetained \<or> rc_state (in_receipt v) = RsResolved) \<and>
     map_option rv_fingerprint (in_retained v) = rc_expected (in_receipt v)"

definition receipt_entry :: "string \<Rightarrow> inspection res \<Rightarrow> recovery_entry" where
  "receipt_entry i r = (case r of
       Inr v \<Rightarrow>
         if \<not> in_recorded v then \<lparr>en_id = i, en_path = None, en_state = ''unreferenced'', en_problem = Some (in_explanation v)\<rparr>
         else \<lparr>en_id = i, en_path = Some (rc_path (in_receipt v)), en_state = state_name (rc_state (in_receipt v)),
           en_problem = (if healthy v then None else Some (in_explanation v))\<rparr>
     | Inl e \<Rightarrow> \<lparr>en_id = i, en_path = None, en_state = ''invalid'', en_problem = Some (error_text e)\<rparr>)"

text \<open>The receipts of the page, the \<open>k\<close>-th observed in the tree \<open>see k\<close>.\<close>

fun receipt_entries :: "(nat \<Rightarrow> pin_env \<times> pin_tree) \<Rightarrow> nat \<Rightarrow> string list \<Rightarrow> live_cache \<Rightarrow> recovery_entry list \<times> live_cache" where
  "receipt_entries see k [] cache = ([], cache)"
| "receipt_entries see k (i # is) cache =
     (case inspection_cached (fst (see k)) (snd (see k)) i cache of
        (r, cache') \<Rightarrow> (case receipt_entries see (Suc k) is cache' of (es, c) \<Rightarrow> (receipt_entry i r # es, c)))"

fun recheck_entries :: "(nat \<Rightarrow> pin_env \<times> pin_tree) \<Rightarrow> nat \<Rightarrow> recovery_entry list \<Rightarrow> live_cache \<Rightarrow> recovery_entry list" where
  "recheck_entries see k [] cache = []"
| "recheck_entries see k (e # es) cache =
     (case en_path e of
        Some path \<Rightarrow>
          if path \<noteq> [] then
            (case cached_live_snapshot (fst (see k)) (snd (see k)) path cache of
               (Inl x, cache') \<Rightarrow> e\<lparr>en_problem := Some (error_text x)\<rparr> # recheck_entries see (Suc k) es cache'
             | (Inr _, cache') \<Rightarrow> e # recheck_entries see (Suc k) es cache')
          else e # recheck_entries see (Suc k) es cache
      | None \<Rightarrow> e # recheck_entries see (Suc k) es cache)"

definition unreferenced_entry :: "string \<Rightarrow> recovery_entry" where
  "unreferenced_entry i = \<lparr>en_id = i, en_path = None, en_state = ''unreferenced'',
     en_problem = Some ''unreferenced recovery data; preserved, never automatically deleted''\<rparr>"

definition page_entries :: "(nat \<Rightarrow> pin_env \<times> pin_tree) \<Rightarrow> string list \<Rightarrow> string list \<Rightarrow> recovery_entry list" where
  "page_entries see names linked =
     (let receipts = filter is_receipt_name names
      in case receipt_entries see 2 receipts Map.empty of
           (es, cache) \<Rightarrow> sort_key en_id (recheck_entries see (2 + length receipts) es cache @
             map unreferenced_entry (filter (\<lambda>i. \<not> is_receipt_name i \<and> \<not> List.member linked i) names)))"

definition list_page :: "recovery_env \<Rightarrow> string \<Rightarrow> string option \<Rightarrow> nat \<Rightarrow> pin_tree \<Rightarrow> recovery_list res" where
  "list_page re body cursor limit t =
     (let see = (\<lambda>k. (re_pin re k, re_others re k t)) in
      rbind (page_totals (re_pin re 0) cursor limit (recovery_of (snd (see 0)))) (\<lambda>((b, k), names).
      case cut_page limit names of (nxt, shown) \<Rightarrow>
      rbind (linked_names (re_pin re 1) (recovery_of (snd (see 1))) shown) (\<lambda>linked.
      let usage = usage_from_totals b k; es = page_entries see shown linked
      in Inr \<lparr>rl_body = body, rl_usage = usage,
           rl_blocked = (us_admission_blocked usage \<or> list_ex (\<lambda>e. en_problem e \<noteq> None) es),
           rl_entries = es, rl_next_cursor = nxt\<rparr>)))"

definition list_recovery_page :: "recovery_env \<Rightarrow> string \<Rightarrow> string option \<Rightarrow> nat \<Rightarrow> pin_tree \<Rightarrow> recovery_list res \<times> pin_tree" where
  "list_recovery_page re body cursor limit t =
     (if limit = 0 \<or> MAX_RECOVERY_PAGE < limit then (Inl (Usage ''recovery page size must be 1 through 128''), t)
      else case (case cursor of None \<Rightarrow> Inr () | Some c \<Rightarrow> valid_recovery_name c) of
             Inl e \<Rightarrow> (Inl e, t)
           | Inr _ \<Rightarrow> with_recovery (re_pin re 0) t (\<lambda>t1. (list_page re body cursor limit t1, t1)))"

end
