(* ===== verification/Clix_Listing.thy ===== *)
theory Clix_Listing
  imports Clix_Recovery "HOL-Library.Multiset"
begin

text \<open>
  The pages of \<open>clix pin recovery list\<close> (\<open>list_recovery_page\<close> of \<open>src/pin.rs\<close>) together: following the cursors lists the
  recovery directory completely.
\<close>

section \<open>The smallest names, kept while reading\<close>

lemma take_insort:
  assumes "sorted xs" and "x \<notin> set xs"
  shows "take m (insort x xs) = (let ns = insort x (take m xs) in if m < length ns then butlast ns else ns)"
  using assms
proof (induction xs arbitrary: m)
  case Nil
  then show ?case by (cases m) auto
next
  case (Cons y ys)
  show ?case
  proof (cases m)
    case (Suc k)
    show ?thesis
    proof (cases "x \<le> y")
      case True
      moreover have "butlast (y # take k ys) = take k (y # ys)" if "k \<le> length ys"
        using butlast_take [of "Suc k" "y # ys"] that by simp
      ultimately show ?thesis by (cases "k \<le> length ys") (simp_all add: Suc Let_def not_le take_Cons')
    next
      case False
      have "insort x (take k ys) \<noteq> []" by (metis insort_not_Nil)
      with False Cons show ?thesis by (simp add: Suc Let_def)
    qed
  qed (cases "x \<le> y"; simp)
qed

lemma fold_smallest:
  assumes "distinct xs" and "\<forall>x \<in> set xs. x \<notin> set done_names" and "m > 0"
  shows "fold (\<lambda>x ns. if P x then (let ns = (if List.member ns x then ns else insort x ns) in if m < length ns then butlast ns else ns) else ns)
      xs (take m (sort (filter P done_names))) = take m (sort (filter P (done_names @ xs)))"
  using assms
proof (induction xs arbitrary: done_names)
  case (Cons x xs)
  let ?f = "\<lambda>x ns. if P x then (let ns = (if List.member ns x then ns else insort x ns) in if m < length ns then butlast ns else ns) else ns"
  let ?S = "sort (filter P done_names)"
  have "x \<notin> set (take m ?S)" using Cons.prems(2) in_set_takeD [of x m ?S] by auto
  moreover have "sort (filter P (done_names @ [x])) = (if P x then insort x ?S else ?S)"
    by (auto intro: properties_for_sort simp: sorted_insort)
  moreover have "x \<notin> set ?S" using Cons.prems(2) by simp
  ultimately have "?f x (take m ?S) = take m (sort (filter P (done_names @ [x])))"
    using take_insort [of ?S x m] by (simp add: Let_def)
  moreover have "\<forall>y \<in> set xs. y \<notin> set (done_names @ [x])" using Cons.prems(1,2) by auto
  ultimately show ?case using Cons.IH [of "done_names @ [x]"] Cons.prems(1,3) by simp
qed simp

lemma sorted_after:
  assumes "sorted_wrt (<) (L :: 'a::linorder list)" and "0 < k" and "k \<le> length L"
  shows "filter (\<lambda>x. last (take k L) < x) L = drop k L"
proof -
  have l: "last (take k L) = L ! (k - 1)" using assms by (subst last_conv_nth) auto
  have "filter (\<lambda>x. L ! (k - 1) < x) (take k L) = []"
  proof (subst filter_empty_conv, intro ballI)
    fix x
    assume "x \<in> set (take k L)"
    then obtain i where i: "i < k" "i < length L" "x = L ! i" by (auto simp: in_set_conv_nth)
    then have "i = k - 1 \<or> L ! i < L ! (k - 1)" using assms(2,3) sorted_wrt_nth_less [OF assms(1), of i "k - 1"] by linarith
    then show "\<not> L ! (k - 1) < x" by (auto simp: i(3))
  qed
  moreover have "filter (\<lambda>x. L ! (k - 1) < x) (drop k L) = drop k L"
    using assms by (auto simp: filter_id_conv in_set_conv_nth sorted_wrt_iff_nth_less)
  ultimately have "filter (\<lambda>x. L ! (k - 1) < x) (take k L @ drop k L) = drop k L" by (simp only: filter_append append_Nil)
  then show ?thesis by (simp only: append_take_drop_id l)
qed

section \<open>One page\<close>

definition after :: "string option \<Rightarrow> string \<Rightarrow> bool" where
  "after cursor name \<longleftrightarrow> (case cursor of None \<Rightarrow> True | Some c \<Rightarrow> c < name)"

definition names_valid :: "entries \<Rightarrow> bool" where
  "names_valid dir \<longleftrightarrow> list_all (\<lambda>(name, n). utf8_name name \<and> valid_recovery_name name = Inr ()) dir"

text \<open>A data file some readable receipt names is shown with that receipt.\<close>

definition owned :: "pin_env \<Rightarrow> entries \<Rightarrow> string \<Rightarrow> bool" where
  "owned pv dir v \<longleftrightarrow> list_ex (\<lambda>(i, n). is_receipt_name i \<and>
     (case rbind (read_internal pv dir i MAX_RECEIPT) (\<lambda>b. parse_receipt pv b i) of Inr r \<Rightarrow> rc_version r = v | Inl e \<Rightarrow> False)) dir"

definition listed :: "pin_env \<Rightarrow> entries \<Rightarrow> string \<Rightarrow> bool" where
  "listed pv dir i \<longleftrightarrow> is_receipt_name i \<or> \<not> owned pv dir i"

lemma for_each_pure:
  "for_each_recovery_name (\<lambda>name n acc. Inr (f name n acc)) dir acc = Inr r \<longleftrightarrow>
     names_valid dir \<and> r = fold (\<lambda>(name, n). f name n) dir acc"
  unfolding for_each_recovery_name_def names_valid_def
proof (induction dir arbitrary: acc)
  case (Cons x dir)
  obtain name n where x: "x = (name, n)" by fastforce
  show ?case using Cons [of "f name n acc"] by (cases "valid_recovery_name name") (simp_all add: x)
qed auto

lemma fold_pair:
  "fold (\<lambda>(name, n) (u, ns). (g n u, h name ns)) dir (u0, ns0) = (fold (\<lambda>(name, n). g n) dir u0, fold h (map fst dir) ns0)"
  by (induction dir arbitrary: u0 ns0) auto

lemma page_totals_ok:
  "page_totals pv cursor limit dir = Inr r \<longleftrightarrow>
     names_valid dir \<and> r = (fold (\<lambda>(name, n). add_usage pv n) dir (0, 0), fold (page_name cursor limit) (map fst dir) [])"
proof -
  have "(\<lambda>name n (u, names). Inr (add_usage pv n u, page_name cursor limit name names)) =
      (\<lambda>name n acc. (Inr (case acc of (u, names) \<Rightarrow> (add_usage pv n u, page_name cursor limit name names)) :: ((nat \<times> nat) \<times> string list) res))"
    by (intro ext) (simp add: prod.case_eq_if)
  then have "page_totals pv cursor limit dir = Inr r \<longleftrightarrow> names_valid dir \<and>
      r = fold (\<lambda>(name, n) (u, names). (add_usage pv n u, page_name cursor limit name names)) dir ((0, 0), [])"
    by (simp only: page_totals_def for_each_pure)
  then show ?thesis by (simp only: fold_pair)
qed

lemma page_names:
  assumes "distinct (map fst dir)"
  shows "fold (page_name cursor limit) (map fst dir) [] = take (Suc limit) (sort (filter (after cursor) (map fst dir)))"
proof -
  have "page_name cursor limit = (\<lambda>x ns. if after cursor x
      then (let ns = (if List.member ns x then ns else insort x ns) in if Suc limit < length ns then butlast ns else ns) else ns)"
    by (intro ext) (simp add: page_name_def after_def Let_def)
  then show ?thesis using fold_smallest [OF assms, of "[]" "Suc limit" "after cursor"] by simp
qed

lemma cut_page_names:
  "0 < limit \<Longrightarrow> cut_page limit (take (Suc limit) ns) = (if limit < length ns then Some (last (take limit ns)) else None, take limit ns)"
  using butlast_take [of "Suc limit" ns] by (auto simp: cut_page_def Let_def)

lemma fold_collect:
  "set (fold (\<lambda>(i, n) ls. if R i then filter (List.member names) (own i) @ ls else ls) xs ls) =
     set ls \<union> {v \<in> set names. list_ex (\<lambda>(i, n). R i \<and> v \<in> set (own i)) xs}"
  by (induction xs arbitrary: ls) (auto split: if_splits)

lemma linked_ok:
  assumes "names_valid dir"
  obtains ls where "linked_names pv dir names = Inr ls" "set ls = {v \<in> set names. owned pv dir v}"
proof -
  let ?own = "\<lambda>i. case rbind (read_internal pv dir i MAX_RECEIPT) (\<lambda>b. parse_receipt pv b i) of Inr r \<Rightarrow> [rc_version r] | Inl e \<Rightarrow> []"
  let ?g = "\<lambda>i (n :: pin_node) ls. if is_receipt_name i then filter (List.member names) (?own i) @ ls else ls"
  have "(\<lambda>i (n :: pin_node) linked. if is_receipt_name i then
       (case rbind (read_internal pv dir i MAX_RECEIPT) (\<lambda>b. parse_receipt pv b i) of
          Inr r \<Rightarrow> if List.member names (rc_version r) then Inr (rc_version r # linked) else Inr linked
        | Inl e \<Rightarrow> Inr linked) else Inr linked) = (\<lambda>i n linked. (Inr (?g i n linked) :: string list res))"
    by (intro ext) (auto split: sum.splits)
  then have "linked_names pv dir names = Inr (fold (\<lambda>(i, n). ?g i n) dir [])"
    using assms by (simp only: linked_names_def for_each_pure simp_thms)
  moreover have "owned pv dir v \<longleftrightarrow> list_ex (\<lambda>(i, n). is_receipt_name i \<and> v \<in> set (?own i)) dir" for v
    unfolding owned_def by (intro arg_cong2 [where f = list_ex] ext) (auto split: sum.splits)
  ultimately show thesis using that [of "fold (\<lambda>(i, n). ?g i n) dir []"] fold_collect [of is_receipt_name names ?own dir "[]"] by simp
qed

lemma receipt_entries_ids: "map en_id (fst (receipt_entries see k is cache)) = is"
proof (induction see k "is" cache rule: receipt_entries.induct)
  case (2 see k i "is" cache)
  then show ?case by (auto simp: receipt_entry_def split: prod.splits sum.splits)
qed simp

lemma recheck_entries_ids: "map en_id (recheck_entries see k es cache) = map en_id es"
  by (induction see k es cache rule: recheck_entries.induct) (auto split: option.splits prod.splits sum.splits)

lemma map_sort_key: "map f (sort_key f xs) = sort (map f xs)"
  by (rule properties_for_sort [symmetric]) simp_all

lemma page_entries_ids:
  assumes "sorted names"
  shows "map en_id (page_entries see names linked) = filter (\<lambda>i. is_receipt_name i \<or> i \<notin> set linked) names"
proof -
  obtain es cache where es: "receipt_entries see 2 (filter is_receipt_name names) Map.empty = (es, cache)" by fastforce
  then have "map en_id es = filter is_receipt_name names" using receipt_entries_ids by (metis fst_conv)
  then have "map en_id (page_entries see names linked) =
      sort (filter is_receipt_name names @ filter (\<lambda>i. \<not> is_receipt_name i \<and> i \<notin> set linked) names)"
    by (simp add: page_entries_def Let_def es map_sort_key recheck_entries_ids unreferenced_entry_def comp_def)
  also have "\<dots> = filter (\<lambda>i. is_receipt_name i \<or> i \<notin> set linked) names"
  proof (rule properties_for_sort)
    show "mset (filter (\<lambda>i. is_receipt_name i \<or> i \<notin> set linked) names) =
        mset (filter is_receipt_name names @ filter (\<lambda>i. \<not> is_receipt_name i \<and> i \<notin> set linked) names)"
      by (induction names) auto
    show "sorted (filter (\<lambda>i. is_receipt_name i \<or> i \<notin> set linked) names)" using assms sorted_wrt_filter by blast
  qed
  finally show ?thesis .
qed

text \<open>A page, when no other process touches the directory: the next names in order, and the cursor after them.\<close>

lemma list_page_ids:
  fixes cursor :: "string option"
  assumes alone: "\<And>k. re_others re k t = t" and dir: "recovery_of t = dir" and ok: "names_valid dir" "distinct (map fst dir)" and "0 < limit"
  defines "ns \<equiv> sort (filter (after cursor) (map fst dir))"
  obtains p where "list_page re body cursor limit t = Inr p"
    "map en_id (rl_entries p) = filter (listed (re_pin re 1) dir) (take limit ns)"
    "rl_next_cursor p = (if limit < length ns then Some (last (take limit ns)) else None)"
proof -
  obtain b k where u: "page_totals (re_pin re 0) cursor limit dir = Inr ((b, k), take (Suc limit) ns)"
    using page_totals_ok [of "re_pin re 0" cursor limit dir] ok page_names [OF ok(2)] unfolding ns_def by (metis prod.exhaust)
  obtain ls where ls: "linked_names (re_pin re 1) dir (take limit ns) = Inr ls"
    "set ls = {v \<in> set (take limit ns). owned (re_pin re 1) dir v}" by (rule linked_ok [OF ok(1)])
  have "sorted (take limit ns)" by (simp add: ns_def sorted_wrt_take)
  note ids = page_entries_ids [OF this, where linked = ls]
  have "filter (\<lambda>i. is_receipt_name i \<or> i \<notin> set ls) (take limit ns) = filter (listed (re_pin re 1) dir) (take limit ns)"
    by (rule filter_cong) (auto simp: listed_def ls(2))
  with u ls ids show thesis
    by (intro that [of "the (case list_page re body cursor limit t of Inr p \<Rightarrow> Some p)"])
      (simp_all add: list_page_def alone dir cut_page_names [OF \<open>0 < limit\<close>] Let_def)
qed

section \<open>All pages\<close>

text \<open>The owner follows the cursors, at most so many times.\<close>

fun walk_pages :: "nat \<Rightarrow> recovery_env \<Rightarrow> string \<Rightarrow> string option \<Rightarrow> nat \<Rightarrow> pin_tree \<Rightarrow> recovery_list list option" where
  "walk_pages 0 re body cursor limit t = None"
| "walk_pages (Suc k) re body cursor limit t =
     (case list_recovery_page re body cursor limit t of
        (Inl e, t') \<Rightarrow> None
      | (Inr p, t') \<Rightarrow> (case rl_next_cursor p of
          None \<Rightarrow> Some [p]
        | Some c \<Rightarrow> map_option (Cons p) (walk_pages k re body (Some c) limit t')))"

lemma after_last:
  assumes "distinct xs" and "0 < limit" and "limit < length (sort (filter (after cursor) xs))"
  defines "ns \<equiv> sort (filter (after cursor) xs)"
  shows "sort (filter (after (Some (last (take limit ns)))) xs) = drop limit ns"
proof -
  let ?c = "last (take limit ns)"
  have "?c \<in> set (take limit ns)" using assms(2,3) by (intro last_in_set) (metis ns_def length_0_conv less_nat_zero_code take_eq_Nil)
  then have "after cursor ?c" by (auto simp: ns_def dest: in_set_takeD)
  then have "filter (after (Some ?c)) xs = filter (\<lambda>x. ?c < x) (filter (after cursor) xs)"
    unfolding filter_filter by (intro filter_cong) (auto simp: after_def split: option.splits)
  then have "sort (filter (after (Some ?c)) xs) = filter (\<lambda>x. ?c < x) ns"
    by (simp add: ns_def filter_sort)
  also have "\<dots> = drop limit ns"
    using assms by (intro sorted_after) (auto simp: strict_sorted_iff ns_def)
  finally show ?thesis .
qed

lemma page_call:
  assumes "list_page re body cursor limit t = Inr p" and "0 < limit" and "limit \<le> MAX_RECOVERY_PAGE"
    and "pv_open (re_pin re 0) = Inr ()" and "recovery_lock (re_pin re 0) t = (Inr (), t)"
    and "\<forall>c. cursor = Some c \<longrightarrow> valid_recovery_name c = Inr ()"
  shows "list_recovery_page re body cursor limit t = (Inr p, t)"
  using assms by (auto simp: list_recovery_page_def with_recovery_def split: option.splits)

lemma page_size: "map en_id es = filter P (take n ns) \<Longrightarrow> length es \<le> n"
  by (metis length_filter_le length_map length_take min.cobounded2 order_trans)

lemma walk_pages_from:
  assumes alone: "\<And>k. re_others re k t = t" and dir: "recovery_of t = dir" and ok: "names_valid dir" "distinct (map fst dir)"
    and limit: "0 < limit" "limit \<le> MAX_RECOVERY_PAGE"
    and lock: "pv_open (re_pin re 0) = Inr ()" "recovery_lock (re_pin re 0) t = (Inr (), t)"
    and "\<forall>c. cursor = Some c \<longrightarrow> valid_recovery_name c = Inr ()"
    and "length (sort (filter (after cursor) (map fst dir))) \<le> Suc k * limit"
  shows "\<exists>ps. walk_pages (Suc k) re body cursor limit t = Some ps \<and> (\<forall>p \<in> set ps. length (rl_entries p) \<le> limit) \<and>
    concat (map (\<lambda>p. map en_id (rl_entries p)) ps) = filter (listed (re_pin re 1) dir) (sort (filter (after cursor) (map fst dir)))"
  using assms(9,10)
proof (induction k arbitrary: cursor)
  case (0 cursor)
  obtain p where p: "list_page re body cursor limit t = Inr p"
      "map en_id (rl_entries p) = filter (listed (re_pin re 1) dir) (take limit (sort (filter (after cursor) (map fst dir))))"
      "rl_next_cursor p = (if limit < length (sort (filter (after cursor) (map fst dir)))
         then Some (last (take limit (sort (filter (after cursor) (map fst dir))))) else None)"
    by (rule list_page_ids [OF alone dir ok limit(1)])
  have "length (rl_entries p) \<le> limit" by (rule page_size [OF p(2)])
  moreover have "list_recovery_page re body cursor limit t = (Inr p, t)" by (rule page_call [OF p(1) limit lock 0(1)])
  ultimately show ?case using p 0(2) by simp
next
  case (Suc k cursor)
  let ?ns = "sort (filter (after cursor) (map fst dir))" and ?names = "map fst dir"
  let ?c = "last (take limit ?ns)"
  obtain p where p: "list_page re body cursor limit t = Inr p"
      "map en_id (rl_entries p) = filter (listed (re_pin re 1) dir) (take limit ?ns)"
      "rl_next_cursor p = (if limit < length ?ns then Some ?c else None)"
    by (rule list_page_ids [OF alone dir ok limit(1)])
  have size: "length (rl_entries p) \<le> limit" by (rule page_size [OF p(2)])
  have call: "list_recovery_page re body cursor limit t = (Inr p, t)" by (rule page_call [OF p(1) limit lock Suc.prems(1)])
  show ?case
  proof (cases "limit < length ?ns")
    case False
    with p size call show ?thesis by simp
  next
    case True
    then have "?c \<in> set (take limit ?ns)" using limit(1) by (intro last_in_set) (metis length_0_conv less_nat_zero_code take_eq_Nil)
    then have "?c \<in> set ?names" by (auto dest: in_set_takeD)
    then have c: "\<forall>c. Some ?c = Some c \<longrightarrow> valid_recovery_name c = Inr ()"
      using ok(1) by (auto simp: names_valid_def list_all_iff)
    note rest = after_last [OF ok(2) limit(1) True]
    have "length (sort (filter (after (Some ?c)) ?names)) \<le> Suc k * limit" unfolding rest using Suc.prems(2) by simp
    from Suc.IH [OF c this] obtain ps where ps: "walk_pages (Suc k) re body (Some ?c) limit t = Some ps"
        "\<forall>p \<in> set ps. length (rl_entries p) \<le> limit"
        "concat (map (\<lambda>p. map en_id (rl_entries p)) ps) = filter (listed (re_pin re 1) dir) (drop limit ?ns)"
      unfolding rest by blast
    have "filter (listed (re_pin re 1) dir) (take limit ?ns) @ filter (listed (re_pin re 1) dir) (drop limit ?ns) = filter (listed (re_pin re 1) dir) ?ns"
      by (metis append_take_drop_id filter_append)
    moreover have "walk_pages (Suc (Suc k)) re body cursor limit t = Some (p # ps)"
      using call p(3) True ps(1) by (simp del: walk_pages.simps(2) add: walk_pages.simps(2) [of "Suc k"])
    ultimately show ?thesis using size ps(2,3) p(2) by (intro exI [of _ "p # ps"]) simp
  qed
qed

text \<open>C26: 
  C99: following the cursors of the recovery listing from its first page, with any page size, ends after at most one
  page more than the directory's entries fill, and lists every receipt and every data file that no readable receipt
  names exactly once, in order: a page never skips or repeats what another one should show.
\<close>

theorem recovery_pages_complete:
  assumes "list_recovery_page re body None limit t0 = (Inr p0, t)" and alone: "\<And>k u. re_others re k u = u"
    and names: "distinct (map fst (recovery_of t0))"
  shows "\<exists>ps. walk_pages (Suc (length (recovery_of t0) div limit)) re body None limit t0 = Some ps \<and> hd ps = p0 \<and>
    concat (map (\<lambda>p. map en_id (rl_entries p)) ps) = filter (listed (re_pin re 1) (recovery_of t0)) (sort (map fst (recovery_of t0))) \<and>
    (\<forall>p \<in> set ps. length (rl_entries p) \<le> limit)"
proof -
  let ?dir = "recovery_of t0"
  from assms(1) have limit: "0 < limit" "limit \<le> MAX_RECOVERY_PAGE" and lock: "pv_open (re_pin re 0) = Inr ()" "pv_lock (re_pin re 0) = Inr ()"
      and t: "t = t0\<lparr>pt_recovery := Some ?dir\<rparr>" and page: "list_page re body None limit t = Inr p0"
    by (auto simp: list_recovery_page_def with_recovery_def recovery_lock_def split: if_splits sum.splits)
  have dir: "recovery_of t = ?dir" by (simp add: t recovery_of_def)
  then have locked: "recovery_lock (re_pin re 0) t = (Inr (), t)" by (simp add: recovery_lock_def lock t)
  have "names_valid ?dir" using page by (auto simp: list_page_def Let_def result_simps alone dir page_totals_ok)
  moreover have "length (sort (filter (after None) (map fst ?dir))) \<le> Suc (length ?dir div limit) * limit"
    using limit(1) by (simp add: after_def) (metis add.commute div_mult_mod_eq less_imp_le mod_less_divisor nat_add_left_cancel_le)
  ultimately obtain ps where ps: "walk_pages (Suc (length ?dir div limit)) re body None limit t = Some ps"
      "\<forall>p \<in> set ps. length (rl_entries p) \<le> limit"
      "concat (map (\<lambda>p. map en_id (rl_entries p)) ps) = filter (listed (re_pin re 1) ?dir) (sort (filter (after None) (map fst ?dir)))"
    using walk_pages_from [OF alone dir _ names limit lock(1) locked, of None "length ?dir div limit" body] by auto
  have call: "list_recovery_page re body None limit t = (Inr p0, t)" using page_call [OF page limit lock(1) locked] by simp
  then have same: "walk_pages (Suc k) re body None limit t0 = walk_pages (Suc k) re body None limit t" for k
    using assms(1) call by simp
  have "hd ps = p0" using ps(1) call by (auto split: option.splits)
  with ps same show ?thesis by (auto simp: after_def)
qed

end
