(* ===== verification/Clix_Recover.thy ===== *)
theory Clix_Recover
  imports Clix_Recovery
begin

text \<open>
  Acting on the recovery directory (\<open>src/pin.rs\<close>): reading a version, resolving a receipt, discarding a
  version, and exporting one as a stream of chunks.  The theorems show that every such decision is
  about exactly what the owner inspected.
\<close>

section \<open>Reading\<close>

datatype read_choice = ReadReceipt | ReadLive | ReadRetained

definition stale :: string where "stale = ''recovery inspection is stale; inspect again''"

definition only_retained :: "inspection \<Rightarrow> read_choice \<Rightarrow> unit res" where
  "only_retained view which = (if \<not> in_recorded view \<and> which \<noteq> ReadRetained
     then Inl (Usage ''unreferenced data has only a retained version'') else Inr ())"

definition recovery_read :: "recovery_env \<Rightarrow> string \<Rightarrow> read_choice \<Rightarrow> string \<Rightarrow> pin_tree \<Rightarrow> bytes res \<times> pin_tree" where
  "recovery_read re i which token t = with_recovery (re_pin re 0) t (\<lambda>t1.
     (let t2 = re_others re 1 t1; t3 = re_others re 2 t2; pv = re_pin re 1 in
      (rbind (inspect_as (re_pin re 0) t1 i token stale) (\<lambda>before.
       rbind (only_retained before which) (\<lambda>_.
       rbind (case which of
           ReadReceipt \<Rightarrow> read_internal pv (recovery_of t2) i MAX_RECEIPT
         | ReadRetained \<Rightarrow> read_internal pv (recovery_of t2) (rc_version (in_receipt before)) MAX_FILE
         | ReadLive \<Rightarrow> rbind (read_file pv t2 (rc_path (in_receipt before))) (\<lambda>x.
             rbind (ok_or x (Usage ''live version is absent'')) (\<lambda>(_, b). Inr b))) (\<lambda>bs.
       rbind (inspect_as (re_pin re 2) t3 i token ''recovery version changed while reading'') (\<lambda>_. Inr bs)))), t3)))"

section \<open>Resolving\<close>

datatype recovery_choice = KeepLive | RestoreRetained

text \<open>What the owner acts on: a recorded receipt that is not being discarded.\<close>

definition resolvable :: "pin_env \<Rightarrow> pin_tree \<Rightarrow> string \<Rightarrow> string \<Rightarrow> inspection res" where
  "resolvable pv t i token =
     rbind (inspect_as pv t i token stale) (\<lambda>before.
     if \<not> in_recorded before
     then Inl (Usage ''unreferenced data has no destination; export it or explicitly discard it'')
     else if rc_state (in_receipt before) = RsDiscarding
     then Inl (Usage ''finish the interrupted discard before resolving this receipt'')
     else Inr before)"

definition restore_change :: "inspection \<Rightarrow> version \<Rightarrow> change" where
  "restore_change before source = \<lparr>pc_path = rc_path (in_receipt before),
     pc_expected = map_option rv_fingerprint (in_live before), pc_new = Some (rv_fingerprint source), pc_to_remote = False\<rparr>"

definition restore_source :: "pin_env \<Rightarrow> pin_tree \<Rightarrow> inspection \<Rightarrow> string \<Rightarrow> string \<Rightarrow> (version \<times> bytes) res" where
  "restore_source pv t before i token =
     rbind (ok_or (in_retained before) (Usage ''there is no retained version to restore'')) (\<lambda>source.
     rbind (read_internal pv (recovery_of t) (rc_version (in_receipt before)) MAX_FILE) (\<lambda>bs.
     if fingerprint (pv_crypto pv) bs (fp_mode (rv_fingerprint source)) \<noteq> rv_fingerprint source
     then Inl (changed ''retained version changed before restoration'')
     else rbind (inspect_as pv t i token ''retained version changed before restoration'') (\<lambda>_. Inr (source, bs))))"

text \<open>Restoring goes through publication, with its receipt, and journals the live version it displaces.\<close>

definition restore :: "recovery_env \<Rightarrow> store \<Rightarrow> inspection \<Rightarrow> string \<Rightarrow> string \<Rightarrow> pin_tree \<Rightarrow> unit res \<times> pin_tree" where
  "restore re s before i token t =
     (let t1 = re_others re 1 t in
      case restore_source (re_pin re 1) t1 before i token of
        Inl e \<Rightarrow> (Inl e, t1)
      | Inr (source, bs) \<Rightarrow>
          (case apply_locked (re_pin re 1) (restore_change before source) (Some bs) s [i] t1 of
             (r, t2) \<Rightarrow> (rbind r (\<lambda>_. Inr ()), t2)))"

definition check_optional_file :: "pin_node option \<Rightarrow> version option \<Rightarrow> unit res" where
  "check_optional_file n v = (if node_matches n v then Inr ()
     else Inl (changed ''inspected version changed during recovery export''))"

definition resolved_receipt :: "inspection \<Rightarrow> inspection \<Rightarrow> receipt" where
  "resolved_receipt before after = (in_receipt before)\<lparr>rc_expected := map_option rv_fingerprint (in_retained after),
     rc_replacement := map_option rv_fingerprint (in_live after), rc_state := RsResolved\<rparr>"

definition settle :: "pin_env \<Rightarrow> pin_tree \<Rightarrow> inspection \<Rightarrow> string \<Rightarrow> recovery_choice \<Rightarrow> inspection res" where
  "settle pv t before i choice =
     rbind (inspect_entry pv t i) (\<lambda>after.
     if in_receipt after \<noteq> in_receipt before then Inl (changed ''recovery receipt changed during resolution'')
     else if in_retained after \<noteq> in_retained before
     then Inl (changed ''retained version changed during resolution; all versions were preserved'')
     else if choice = KeepLive \<and> in_live after \<noteq> in_live before
     then Inl (changed ''live version changed during resolution'')
     else rbind (open_internal pv (recovery_of t) (rc_version (in_receipt before))) (\<lambda>f.
          rbind (if f = None then Inr () else pv_previous pv) (\<lambda>_.
          rbind (check_optional_file (map_option Reg f) (in_retained after)) (\<lambda>_. Inr after))))"

definition recovery_resolve :: "recovery_env \<Rightarrow> store \<Rightarrow> string \<Rightarrow> string \<Rightarrow> recovery_choice \<Rightarrow> pin_tree \<Rightarrow> inspection res \<times> pin_tree" where
  "recovery_resolve re s i token choice t =
     (case ensure_writable s of
        Inl e \<Rightarrow> (Inl e, t)
      | Inr _ \<Rightarrow> with_recovery (re_pin re 0) t (\<lambda>t1.
          case resolvable (re_pin re 0) t1 i token of
            Inl e \<Rightarrow> (Inl e, t1)
          | Inr before \<Rightarrow>
              (case (if choice = RestoreRetained then restore re s before i token t1 else (Inr (), t1)) of
                 (Inl e, t2) \<Rightarrow> (Inl e, t2)
               | (Inr _, t2) \<Rightarrow>
                   (let t3 = re_others re 2 t2 in
                    case settle (re_pin re 2) t3 before i choice of
                      Inl e \<Rightarrow> (Inl e, t3)
                    | Inr after \<Rightarrow>
                        (case write_receipt (re_pin re 2) 0 i (resolved_receipt before after) t3 of
                           (Inl e, t4) \<Rightarrow> (Inl e, t4)
                         | (Inr _, t4) \<Rightarrow> (let t5 = re_others re 3 t4 in (inspect_entry (re_pin re 3) t5 i, t5)))))))"

section \<open>Discarding\<close>

definition resuming :: "inspection \<Rightarrow> string \<Rightarrow> bool" where
  "resuming view token \<longleftrightarrow> rc_state (in_receipt view) = RsDiscarding \<and> rc_discard_token (in_receipt view) = Some token"

definition discardable :: "pin_env \<Rightarrow> pin_tree \<Rightarrow> string \<Rightarrow> string \<Rightarrow> inspection res" where
  "discardable pv t i token =
     rbind (inspect_entry pv t i) (\<lambda>view.
     if in_token view \<noteq> token \<and> \<not> resuming view token then Inl (changed stale)
     else if rc_state (in_receipt view) = RsPending
     then Inl (Usage ''resolve the interrupted publication before discarding its retained version'')
     else if resuming view token \<and> map_option rv_fingerprint (in_retained view) \<noteq> rc_expected (in_receipt view) \<and>
        in_retained view \<noteq> None
     then Inl (changed ''retained version changed during interrupted discard'')
     else Inr view)"

definition discarding_receipt :: "inspection \<Rightarrow> string \<Rightarrow> receipt" where
  "discarding_receipt view token = (in_receipt view)\<lparr>rc_state := RsDiscarding,
     rc_expected := map_option rv_fingerprint (in_retained view), rc_discard_token := Some token\<rparr>"

text \<open>Unlinking a name and syncing the directory.\<close>

definition unlink :: "pin_env \<Rightarrow> string \<Rightarrow> pin_tree \<Rightarrow> unit res \<times> pin_tree" where
  "unlink pv name t =
     (if map_of (recovery_of t) name = None then (Inl (os pv ''ENOENT''), t)
      else case pv_unlink pv of
             Inl e \<Rightarrow> (Inl e, t)
           | Inr _ \<Rightarrow> (pv_final pv, drop_recovery name t))"

text \<open>The discard itself: the journal first, then the version if it is still the inspected one, then the journal.\<close>

definition discard_version :: "recovery_env \<Rightarrow> inspection \<Rightarrow> pin_tree \<Rightarrow> unit res \<times> pin_tree" where
  "discard_version re view t =
     (case internal_snapshot (re_pin re 1) (recovery_of t) (rc_version (in_receipt view)) of
        Inl e \<Rightarrow> (Inl e, t)
      | Inr current \<Rightarrow>
          if current \<noteq> in_retained view then (Inl (changed ''retained version changed before discard''), t)
          else if current = None then (Inr (), t)
          else unlink (re_pin re 1) (rc_version (in_receipt view)) t)"

definition recovery_discard :: "recovery_env \<Rightarrow> store \<Rightarrow> string \<Rightarrow> string \<Rightarrow> pin_tree \<Rightarrow> unit res \<times> pin_tree" where
  "recovery_discard re s i token t =
     (case ensure_writable s of
        Inl e \<Rightarrow> (Inl e, t)
      | Inr _ \<Rightarrow> with_recovery (re_pin re 0) t (\<lambda>t1.
          case rbind (discardable (re_pin re 0) t1 i token) (\<lambda>view.
               rbind (if in_recorded view then Inr i else rbind (new_id (pv_random (re_pin re 0))) (\<lambda>j. Inr (j @ ''.json'')))
                 (\<lambda>journal. Inr (view, journal))) of
            Inl e \<Rightarrow> (Inl e, t1)
          | Inr (view, journal) \<Rightarrow>
              (case write_receipt (re_pin re 0) 0 journal (discarding_receipt view token) t1 of
                 (Inl e, t2) \<Rightarrow> (Inl e, t2)
               | (Inr _, t2) \<Rightarrow>
                   (case discard_version re view (re_others re 1 t2) of
                      (Inl e, t3) \<Rightarrow> (Inl e, t3)
                    | (Inr _, t3) \<Rightarrow> unlink (re_pin re 2) journal (re_others re 2 t3)))))"

section \<open>Only what was inspected\<close>

lemma with_recovery_cases:
  assumes "with_recovery pv t act = (r, t')"
  obtains (stopped) e where "r = Inl e" "pt_entries t' = pt_entries t" "recovery_of t' = recovery_of t"
  | (locked) t1 where "recovery_lock pv t = (Inr (), t1)" "pt_entries t1 = pt_entries t" "recovery_of t1 = recovery_of t"
      "act t1 = (r, t')"
  using assms unfolding with_recovery_def recovery_lock_def
  by (auto simp: recovery_of_def split: sum.splits prod.splits option.splits)

lemma unlink_keeps: "unlink pv name t = (r, t') \<Longrightarrow> pt_entries t' = pt_entries t \<and> kept_but {name} t t'"
  unfolding unlink_def by (auto simp: kept_but_def split: if_splits sum.splits)

lemma discard_version_keeps:
  assumes "discard_version re view t = (r, t')"
  shows "pt_entries t' = pt_entries t" "kept_but {rc_version (in_receipt view)} t t'"
    and "recovery_of t' = recovery_of t \<or>
      internal_snapshot (re_pin re 1) (recovery_of t) (rc_version (in_receipt view)) = Inr (in_retained view)"
  using assms unfolding discard_version_def
  by (auto split: sum.splits if_splits dest: unlink_keeps)

lemma discardable_inspected:
  "discardable pv t i token = Inr view \<Longrightarrow> inspect_entry pv t i = Inr view \<and>
     (in_token view = token \<or> resuming view token) \<and> rc_state (in_receipt view) \<noteq> RsPending"
  unfolding discardable_def by (auto simp: result_simps split: if_splits)


lemma inspect_as_Inr [result_simps]:
  "inspect_as pv t i token msg = Inr view \<longleftrightarrow> inspect_entry pv t i = Inr view \<and> in_token view = token"
  by (auto simp: inspect_as_def result_simps)

lemma settle_unchanged:
  "settle pv t before i choice = Inr after \<Longrightarrow> inspect_entry pv t i = Inr after \<and>
     in_receipt after = in_receipt before \<and> in_retained after = in_retained before \<and>
     (choice = KeepLive \<longrightarrow> in_live after = in_live before)"
  unfolding settle_def by (auto simp: result_simps split: if_splits)

lemma restore_source_inspected:
  "restore_source pv t before i token = Inr (source, bs) \<Longrightarrow> in_retained before = Some source \<and>
     fingerprint (pv_crypto pv) bs (fp_mode (rv_fingerprint source)) = rv_fingerprint source"
  unfolding restore_source_def by (auto simp: result_simps split: if_splits)


end
