(* ===== verification/Clix_Export.thy ===== *)
theory Clix_Export
  imports Clix_Recover
begin

text \<open>
  Exporting a version of the recovery directory: \<open>RecoveryExport\<close> of \<open>src/pin.rs\<close>, the streaming on the
  owner's connection and the receiving client (\<open>export\<close> and \<open>client_export\<close> of \<open>src/pin_owner.rs\<close>).  A
  \<open>look\<close> is what the export finds when it checks its versions at some moment, the opened file included:
  its descriptor stays, but other processes may write through theirs.
\<close>

section \<open>The export\<close>

record look =
  lk_pin :: pin_env
  lk_root :: "bool res"
  lk_dir :: "bool option res"
  lk_tree :: pin_tree
  lk_source :: "pin_node \<Rightarrow> pin_node"

record export =
  ex_source :: pin_node
  ex_expected :: version
  ex_view :: inspection
  ex_receipt :: "version option"
  ex_offset :: nat
  ex_hashed :: bytes
  ex_complete :: bool
  ex_failed :: bool

record chunk =
  ck_offset :: nat
  ck_total :: nat
  ck_bytes :: bytes
  ck_eof :: bool

definition check_versions :: "export \<Rightarrow> look \<Rightarrow> unit res" where
  "check_versions ex lk =
     (let pv = lk_pin lk; dir = recovery_of (lk_tree lk); view = ex_view ex; r = in_receipt view in
      rbind (lk_root lk) (\<lambda>same_root.
      if \<not> same_root then Inl (changed ''pin root moved during recovery export'')
      else rbind (lk_dir lk) (\<lambda>found.
           rbind (ok_or found (changed ''recovery directory disappeared during export'')) (\<lambda>same_dir.
           if \<not> same_dir \<or> \<not> node_matches (Some (lk_source lk (ex_source ex))) (Some (ex_expected ex))
           then Inl (changed ''recovery version changed during export'')
           else
           rbind (if in_recorded view then rbind (open_internal pv dir (in_id view))
               (\<lambda>f. check_optional_file (map_option Reg f) (ex_receipt ex)) else Inr ()) (\<lambda>_.
           rbind (if rc_path r \<noteq> [] then rbind (open_live pv (lk_tree lk) (rc_path r))
               (\<lambda>n. check_optional_file n (in_live view)) else Inr ()) (\<lambda>_.
           rbind (open_internal pv dir (rc_version r)) (\<lambda>f. check_optional_file (map_option Reg f) (in_retained view))))))))"

definition export_receipt :: "pin_env \<Rightarrow> entries \<Rightarrow> string \<Rightarrow> inspection \<Rightarrow> (pin_file \<times> version) res" where
  "export_receipt pv dir i view =
     rbind (open_internal pv dir i) (\<lambda>found.
     rbind (ok_or found (changed ''recovery receipt disappeared'')) (\<lambda>f.
     if MAX_RECEIPT < length (pf_bytes f) \<or> pv_torn pv f
     then Inl (changed ''recovery receipt changed while opening export'')
     else rbind (parse_receipt pv (pf_bytes f) i) (\<lambda>r.
          if r \<noteq> in_receipt view then Inl (changed ''recovery receipt changed while opening export'')
          else Inr (f, version_from_metadata f (hash (pv_crypto pv) (pf_bytes f))))))"

definition export_source :: "pin_env \<Rightarrow> pin_tree \<Rightarrow> inspection \<Rightarrow> read_choice \<Rightarrow> (pin_file \<times> version) option \<Rightarrow> (pin_node \<times> version) res" where
  "export_source pv t view which receipt = (case which of
       ReadReceipt \<Rightarrow> rbind (ok_or receipt (Usage ''recovery receipt is absent'')) (\<lambda>(f, v). Inr (Reg f, v))
     | ReadRetained \<Rightarrow>
         rbind (open_internal pv (recovery_of t) (rc_version (in_receipt view))) (\<lambda>found.
         rbind (ok_or found (Usage ''retained version is absent'')) (\<lambda>f.
         rbind (ok_or (in_retained view) (Usage ''retained version is absent'')) (\<lambda>v. Inr (Reg f, v))))
     | ReadLive \<Rightarrow>
         rbind (open_live pv t (rc_path (in_receipt view))) (\<lambda>found.
         rbind (ok_or found (Usage ''live version is absent'')) (\<lambda>n.
         rbind (ok_or (in_live view) (Usage ''live version is absent'')) (\<lambda>v. Inr (n, v)))))"

definition fresh_export :: "inspection \<Rightarrow> version option \<Rightarrow> pin_node \<Rightarrow> version \<Rightarrow> export" where
  "fresh_export view receipt source expected = \<lparr>ex_source = source, ex_expected = expected, ex_view = view,
     ex_receipt = receipt, ex_offset = 0, ex_hashed = [], ex_complete = False, ex_failed = False\<rparr>"

definition open_recovery_export :: "recovery_env \<Rightarrow> look \<Rightarrow> string \<Rightarrow> read_choice \<Rightarrow> string \<Rightarrow> pin_tree \<Rightarrow> export res \<times> pin_tree" where
  "open_recovery_export re lk i which token t = with_recovery (re_pin re 0) t (\<lambda>t1.
     (let t2 = re_others re 1 t1; pv = re_pin re 1 in
      (rbind (inspect_as (re_pin re 0) t1 i token stale) (\<lambda>view.
       rbind (only_retained view which) (\<lambda>_.
       rbind (if in_recorded view then rbind (export_receipt pv (recovery_of t2) i view) (\<lambda>x. Inr (Some x)) else Inr None) (\<lambda>receipt.
       rbind (export_source pv t2 view which receipt) (\<lambda>(source, expected).
       let ex = fresh_export view (map_option snd receipt) source expected
       in rbind (check_versions ex lk) (\<lambda>_. Inr ex))))), t2)))"

fun node_bytes :: "pin_node \<Rightarrow> bytes" where
  "node_bytes (Reg f) = pf_bytes f"
| "node_bytes _ = []"

text \<open>\<open>read_exact\<close> at the export's offset.  The subtraction would overflow past the end, where no export gets.\<close>

definition next_bytes :: "export \<Rightarrow> nat \<Rightarrow> look \<Rightarrow> bytes res" where
  "next_bytes ex n lk =
     (if rv_bytes (ex_expected ex) < ex_offset ex then Inl (Io ''attempt to subtract with overflow'')
      else let want = min (rv_bytes (ex_expected ex) - ex_offset ex) n;
               bs = take want (drop (ex_offset ex) (node_bytes (lk_source lk (ex_source ex))))
           in if length bs < want then Inl (Io ''failed to fill whole buffer'') else Inr bs)"

definition read_chunk_checked :: "crypto \<Rightarrow> nat \<Rightarrow> (nat \<Rightarrow> look) \<Rightarrow> export \<Rightarrow> chunk res \<times> export" where
  "read_chunk_checked cr n lk ex =
     (if n = 0 \<or> 65536 < n \<or> ex_complete ex
      then (Inl (Usage ''recovery chunks require 1 through 65536 bytes and an unfinished export''), ex)
      else case rbind (check_versions ex (lk 0)) (\<lambda>_. rbind (next_bytes ex n (lk 1)) (\<lambda>bs.
                  rbind (check_versions ex (lk 2)) (\<lambda>_. Inr bs))) of
             Inl e \<Rightarrow> (Inl e, ex)
           | Inr bs \<Rightarrow>
               (let ex1 = ex\<lparr>ex_hashed := ex_hashed ex @ bs, ex_offset := ex_offset ex + length bs\<rparr>;
                    total = rv_bytes (ex_expected ex); eof = (ex_offset ex1 = total);
                    c = \<lparr>ck_offset = ex_offset ex, ck_total = total, ck_bytes = bs, ck_eof = eof\<rparr>
                in if \<not> eof then (Inr c, ex1)
                   else if hash cr (ex_hashed ex1) \<noteq> fp_hash (rv_fingerprint (ex_expected ex))
                   then (Inl (changed ''exported content did not match the inspected hash''), ex1)
                   else case check_versions ex1 (lk 3) of
                          Inl e \<Rightarrow> (Inl e, ex1)
                        | Inr _ \<Rightarrow> (Inr c, ex1\<lparr>ex_complete := True\<rparr>)))"

definition read_chunk :: "crypto \<Rightarrow> nat \<Rightarrow> (nat \<Rightarrow> look) \<Rightarrow> export \<Rightarrow> chunk res \<times> export" where
  "read_chunk cr n lk ex =
     (if ex_failed ex then (Inl (changed ''recovery export already failed; inspect again''), ex)
      else case read_chunk_checked cr n lk ex of
             (Inl e, ex1) \<Rightarrow> (Inl e, ex1\<lparr>ex_failed := True\<rparr>)
           | (Inr c, ex1) \<Rightarrow> (Inr c, ex1))"

definition finish_export :: "look \<Rightarrow> export \<Rightarrow> unit res \<times> export" where
  "finish_export lk ex =
     (if ex_failed ex \<or> \<not> ex_complete ex then (Inl (changed ''recovery export is incomplete or failed''), ex)
      else case check_versions ex lk of
             Inl e \<Rightarrow> (Inl e, ex\<lparr>ex_failed := True\<rparr>)
           | Inr _ \<Rightarrow> (Inr (), ex))"

section \<open>Streaming\<close>

definition chunk_json :: "chunk \<Rightarrow> json" where
  "chunk_json c = JObj [(''offset'', nat_json (ck_offset c)), (''total_bytes'', nat_json (ck_total c)),
     (''bytes'', bytes_json (ck_bytes c)), (''eof'', JBool (ck_eof c))]"

definition chunk_of_json :: "json \<Rightarrow> chunk option" where
  "chunk_of_json v =
     Option.bind (Clix_Json.fields 4 [''offset'', ''total_bytes'', ''bytes'', ''eof''] v) (\<lambda>m.
     Option.bind (fld m ''offset'' as_u64) (\<lambda>off.
     Option.bind (fld m ''total_bytes'' as_u64) (\<lambda>total.
     Option.bind (fld m ''bytes'' (as_list as_byte)) (\<lambda>bs.
     Option.bind (fld m ''eof'' as_bool) (\<lambda>eof.
     Some \<lparr>ck_offset = off, ck_total = total, ck_bytes = bs, ck_eof = eof\<rparr>)))))"

definition chunk_frame :: "chunk \<Rightarrow> json" where
  "chunk_frame c = JObj [(''ok'', JBool True), (''chunk'', chunk_json c)]"

text \<open>One turn of the loop: the next chunk, and at the end the last check before it is sent.\<close>

definition export_turn :: "crypto \<Rightarrow> (nat \<Rightarrow> look) \<Rightarrow> export \<Rightarrow> chunk res \<times> export" where
  "export_turn cr lk ex = (case read_chunk cr 65536 lk ex of
       (Inl e, ex1) \<Rightarrow> (Inl e, ex1)
     | (Inr c, ex1) \<Rightarrow>
         if ck_eof c then (case finish_export (lk 4) ex1 of (r, ex2) \<Rightarrow> (rbind r (\<lambda>_. Inr c), ex2)) else (Inr c, ex1))"

text \<open>What a successful step establishes.\<close>

definition chunk_read :: "crypto \<Rightarrow> nat \<Rightarrow> export \<Rightarrow> chunk \<Rightarrow> export \<Rightarrow> bool" where
  "chunk_read cr n ex c ex' \<longleftrightarrow> ck_offset c = ex_offset ex \<and> ck_total c = rv_bytes (ex_expected ex) \<and>
     ex_expected ex' = ex_expected ex \<and> ex_offset ex' = ex_offset ex + length (ck_bytes c) \<and>
     ex_hashed ex' = ex_hashed ex @ ck_bytes c \<and> ex_offset ex \<le> ck_total c \<and>
     length (ck_bytes c) = min (ck_total c - ex_offset ex) n \<and> 0 < n \<and> n \<le> 65536 \<and>
     (ck_eof c \<longleftrightarrow> ex_offset ex' = ck_total c) \<and>
     (ck_eof c \<longrightarrow> hash cr (ex_hashed ex') = fp_hash (rv_fingerprint (ex_expected ex)))"

lemma next_bytes_steps:
  "next_bytes ex n lk = Inr bs \<Longrightarrow> ex_offset ex \<le> rv_bytes (ex_expected ex) \<and>
     length bs = min (rv_bytes (ex_expected ex) - ex_offset ex) n"
  unfolding next_bytes_def Let_def by (auto split: if_splits simp: min_def)

lemma read_chunk_checked_steps:
  assumes "read_chunk_checked cr n lk ex = (Inr c, ex')"
  shows "chunk_read cr n ex c ex'"
proof -
  from assms obtain bs where bs: "next_bytes ex n (lk 1) = Inr bs" "0 < n" "n \<le> 65536"
      "c = \<lparr>ck_offset = ex_offset ex, ck_total = rv_bytes (ex_expected ex), ck_bytes = bs,
         ck_eof = (ex_offset ex + length bs = rv_bytes (ex_expected ex))\<rparr>"
      "ex_expected ex' = ex_expected ex" "ex_offset ex' = ex_offset ex + length bs" "ex_hashed ex' = ex_hashed ex @ bs"
      "ex_offset ex + length bs = rv_bytes (ex_expected ex) \<Longrightarrow> hash cr (ex_hashed ex @ bs) = fp_hash (rv_fingerprint (ex_expected ex))"
    unfolding read_chunk_checked_def Let_def
    by (auto simp: rbind_Inr_iff split: if_splits sum.splits)
  with next_bytes_steps [OF bs(1)] show ?thesis by (simp add: chunk_read_def)
qed

lemma export_turn_steps:
  assumes "export_turn cr lk ex = (Inr c, ex')"
  shows "chunk_read cr 65536 ex c ex'"
proof -
  from assms obtain ex1 where read: "read_chunk_checked cr 65536 lk ex = (Inr c, ex1)"
      and fin: "ex' = ex1 \<or> finish_export (lk 4) ex1 = (Inr (), ex')"
    unfolding export_turn_def read_chunk_def by (auto simp: result_simps split: if_splits prod.splits sum.splits)
  have "ex' = ex1" using fin by (auto simp: finish_export_def split: if_splits sum.splits)
  with read_chunk_checked_steps [OF read] show ?thesis by simp
qed

function export_loop :: "crypto \<Rightarrow> (nat \<Rightarrow> nat \<Rightarrow> look) \<Rightarrow> (nat \<Rightarrow> unit res) \<Rightarrow> nat \<Rightarrow> export \<Rightarrow> json list \<times> unit res" where
  "export_loop cr looks write k ex =
     (case export_turn cr (looks k) ex of
        (Inl e, ex') \<Rightarrow> ([], Inl e)
      | (Inr c, ex') \<Rightarrow>
          (case write k of
             Inl e \<Rightarrow> ([], Inl e)
           | Inr _ \<Rightarrow>
               if ck_eof c then ([chunk_frame c], Inr ())
               else (case export_loop cr looks write (Suc k) ex' of (fs, r) \<Rightarrow> (chunk_frame c # fs, r))))"
  by pat_completeness auto

text \<open>Every chunk but the last moves the offset on, within the size that was inspected.\<close>

termination export_loop
proof (relation "measure (\<lambda>(cr, looks, write, k, ex). rv_bytes (ex_expected ex) - ex_offset ex)", goal_cases)
  case (2 cr looks wr k ex x ex' c)
  then have "chunk_read cr 65536 ex c ex'" by (simp add: export_turn_steps)
  with 2(4) show ?case by (auto simp: chunk_read_def)
qed simp

declare export_loop.simps [simp del]

text \<open>Every frame but the last carries 65536 bytes.\<close>

lemma export_loop_frames:
  "length (fst (export_loop cr looks wr k ex)) \<le> (rv_bytes (ex_expected ex) - ex_offset ex) div 65536 + 1"
proof (induction cr looks wr k ex rule: export_loop.induct)
  case (1 cr looks wr k ex)
  show ?case
  proof (cases "\<exists>c ex'. export_turn cr (looks k) ex = (Inr c, ex') \<and> wr k = Inr () \<and> \<not> ck_eof c")
    case False
    then show ?thesis by (subst export_loop.simps) (auto split: prod.splits sum.splits)
  next
    case True
    then obtain c ex' where c: "export_turn cr (looks k) ex = (Inr c, ex')" "wr k = Inr ()" "\<not> ck_eof c" by blast
    let ?left = "rv_bytes (ex_expected ex) - ex_offset ex"
    have step: "rv_bytes (ex_expected ex') - ex_offset ex' = ?left - 65536" "65536 \<le> ?left"
      using export_turn_steps [OF c(1)] c(3) by (auto simp: chunk_read_def min_def split: if_splits)
    then have "?left div 65536 = Suc ((?left - 65536) div 65536)" by (simp add: le_div_geq)
    moreover have "length (fst (export_loop cr looks wr (Suc k) ex')) \<le> (?left - 65536) div 65536 + 1"
      using "1.IH" [OF c(1) [symmetric] refl c(2) c(3)] step(1) by simp
    ultimately show ?thesis using c by (subst export_loop.simps) (auto split: prod.splits)
  qed
qed

lemma open_export_inspected:
  assumes "open_recovery_export re lk i which token t = (Inr ex, t')"
  shows "ex_offset ex = 0" "ex_hashed ex = []" "in_token (ex_view ex) = token"
    "\<exists>t1. recovery_lock (re_pin re 0) t = (Inr (), t1) \<and> inspect_entry (re_pin re 0) t1 i = Inr (ex_view ex)"
    "which = ReadLive \<Longrightarrow> in_live (ex_view ex) = Some (ex_expected ex)"
    "which = ReadRetained \<Longrightarrow> in_retained (ex_view ex) = Some (ex_expected ex)"
  using assms unfolding open_recovery_export_def
  by (auto elim!: with_recovery_cases simp: Let_def result_simps fresh_export_def export_source_def
      split: prod.splits)

text \<open>C22: An export ends: whatever the checks find and whether or not the frames can be written, the loop sends
  at most one frame for every 65536 bytes the inspected version has left, and one more.\<close>

theorem export_ends:
  "length (fst (export_loop cr looks wr k ex)) \<le> (rv_bytes (ex_expected ex) - ex_offset ex) div 65536 + 1"
  by (rule export_loop_frames)

end
