(* ===== verification/Clix_Pin_Owner.thy ===== *)
theory Clix_Pin_Owner
  imports Clix_Export Clix_Rpc
begin

text \<open>
  The owner's commands about the pinned directory (\<open>src/pin_owner.rs\<close>): their dispatch in the daemon, the
  streaming of an export on the owner's connection, and the client that receives it.  The operations
  are those of \<open>Clix_Pin_Sync\<close>, \<open>Clix_Recovery\<close> and \<open>Clix_Recover\<close>.
\<close>

record pin_owner_env =
  po_sync :: pin_sync_env
  po_recovery :: recovery_env
  po_create_root :: "unit res"
  po_decode_error :: "json \<Rightarrow> string"

section \<open>Answers\<close>

definition conflict_json :: "conflict_snapshot \<Rightarrow> json" where
  "conflict_json c = JObj [(''peer'', JStr (cs_peer c)), (''peer_key'', JStr (cs_peer_key c)), (''path'', JStr (cs_path c)),
     (''local'', opt_json fingerprint_json (cs_local c)), (''remote'', opt_json fingerprint_json (cs_remote c)),
     (''local_baseline'', opt_json fingerprint_json (cs_local_baseline c)),
     (''remote_baseline'', opt_json fingerprint_json (cs_remote_baseline c)), (''token'', JStr (cs_token c))]"

definition report_json :: "conflict_report \<Rightarrow> json" where
  "report_json r = JObj [(''peer'', JStr (cf_peer r)), (''baseline_mismatch'', JBool (cf_baseline_mismatch r)),
     (''conflicts'', JArr (map conflict_json (cf_conflicts r)))]"

definition sync_status_json :: "sync_status \<Rightarrow> json" where
  "sync_status_json st = JObj [(''peer'', JStr (ss_peer st)), (''synced'', JBool (ss_synced st)),
     (''error'', opt_json JStr (ss_error st))]"

definition inspection_json :: "inspection \<Rightarrow> json" where
  "inspection_json v = JObj [(''id'', JStr (in_id v)), (''recorded'', JBool (in_recorded v)),
     (''receipt'', receipt_json (in_receipt v)), (''live'', opt_json version_json (in_live v)),
     (''retained'', opt_json version_json (in_retained v)), (''token'', JStr (in_token v)),
     (''explanation'', JStr (in_explanation v))]"

definition usage_json :: "usage \<Rightarrow> json" where
  "usage_json u = JObj [(''bytes'', nat_json (us_bytes u)), (''entries'', nat_json (us_entries u)),
     (''limit_bytes'', nat_json MAX_RECOVERY_BYTES), (''limit_entries'', nat_json MAX_RECOVERY_ENTRIES),
     (''admission_blocked'', JBool (us_admission_blocked u))]"

definition recovery_entry_json :: "recovery_entry \<Rightarrow> json" where
  "recovery_entry_json e = JObj [(''id'', JStr (en_id e)), (''path'', opt_json JStr (en_path e)),
     (''state'', JStr (en_state e)), (''problem'', opt_json JStr (en_problem e))]"

definition recovery_list_json :: "recovery_list \<Rightarrow> json" where
  "recovery_list_json l = JObj [(''body'', JStr (rl_body l)), (''usage'', usage_json (rl_usage l)),
     (''blocked'', JBool (rl_blocked l)), (''entries'', JArr (map recovery_entry_json (rl_entries l))),
     (''next_cursor'', opt_json JStr (rl_next_cursor l))]"

section \<open>Dispatch\<close>

text \<open>A field that has to be there and not empty.\<close>

definition pin_field :: "json \<Rightarrow> string \<Rightarrow> string res" where
  "pin_field req name = (case jstr req name of
       Some t \<Rightarrow> if t = [] then Inl (Usage (''missing '' @ name)) else Inr t
     | None \<Rightarrow> Inl (Usage (''missing '' @ name)))"

definition choice_of_json :: "json \<Rightarrow> recovery_choice option" where
  "choice_of_json v = (case v of
       JStr t \<Rightarrow> if t = ''keep_live'' then Some KeepLive else if t = ''restore_retained'' then Some RestoreRetained else None
     | JObj [(t, JNull)] \<Rightarrow> if t = ''keep_live'' then Some KeepLive else if t = ''restore_retained'' then Some RestoreRetained else None
     | _ \<Rightarrow> None)"

definition read_of_json :: "json \<Rightarrow> read_choice option" where
  "read_of_json v = (case v of
       JStr t \<Rightarrow> if t = ''receipt'' then Some ReadReceipt else if t = ''live'' then Some ReadLive
         else if t = ''retained'' then Some ReadRetained else None
     | JObj [(t, JNull)] \<Rightarrow> if t = ''receipt'' then Some ReadReceipt else if t = ''live'' then Some ReadLive
         else if t = ''retained'' then Some ReadRetained else None
     | _ \<Rightarrow> None)"

definition host_answer :: "('a \<Rightarrow> json) \<Rightarrow> 'a res \<times> pin_host \<Rightarrow> json res \<times> pin_host" where
  "host_answer f r = (rbind (fst r) (\<lambda>x. Inr (f x)), snd r)"

definition on_tree :: "('a \<Rightarrow> json) \<Rightarrow> pin_host \<Rightarrow> 'a res \<times> pin_tree \<Rightarrow> json res \<times> pin_host" where
  "on_tree f h r = (rbind (fst r) (\<lambda>x. Inr (f x)), (fst h, snd r))"

definition set_pin_enabled :: "ctx \<Rightarrow> unit res \<Rightarrow> bool \<Rightarrow> pin_host \<Rightarrow> json res \<times> pin_host" where
  "set_pin_enabled cx root enabled h =
     (case (if enabled then root else Inr ()) of
        Inl e \<Rightarrow> (Inl e, h)
      | Inr _ \<Rightarrow>
          (case update cx (\<lambda>s. Inr ((), s\<lparr>st_pin_enabled := enabled\<rparr>)) (fst h) of
             (r, nd) \<Rightarrow> (rbind r (\<lambda>_. Inr (ok_json [(''pin_enabled'', JBool enabled),
                (''body'', JStr (st_body_name (fst nd)))])), (nd, snd h))))"

definition take_message :: string where
  "take_message = ''Peer version adopted on this machine; displaced local data is retained. Run pin sync to check convergence.''"

definition take_peer :: "pin_owner_env \<Rightarrow> json \<Rightarrow> pin_host \<Rightarrow> json res \<times> pin_host" where
  "take_peer po req h =
     (case pin_field req ''body'' of
        Inl e \<Rightarrow> (Inl e, h)
      | Inr body \<Rightarrow>
          (case inspect_peer_conflicts (po_sync po) body h of
             (Inl e, h1) \<Rightarrow> (Inl e, h1)
           | (Inr found, h1) \<Rightarrow>
               (case rbind (pin_field req ''path'') (\<lambda>path. rbind (pin_field req ''token'') (\<lambda>token.
                      rbind (ok_or (List.find (\<lambda>c. cs_path c = path \<and> cs_token c = token) (cf_conflicts found))
                        (Usage ''pin conflict changed; inspect conflicts again before choosing a version'')) (\<lambda>c. Inr (path, c)))) of
                  Inl e \<Rightarrow> (Inl e, h1)
                | Inr (path, c) \<Rightarrow> host_answer (\<lambda>_. ok_json [(''path'', JStr path), (''message'', JStr take_message)])
                    (take_peer_conflict (po_sync po) c h1))))"

definition recovery_lookup :: "pin_owner_env \<Rightarrow> string \<Rightarrow> json \<Rightarrow> pin_host \<Rightarrow> json res \<times> pin_host" where
  "recovery_lookup po op req h =
     (if op = ''pin_recovery_list'' then
        (if (case jget req ''after'' of None \<Rightarrow> False | Some v \<Rightarrow> v \<noteq> JNull \<and> as_str v = None)
         then (Inl (Usage ''after must be a recovery ID''), h)
         else on_tree recovery_list_json h (list_recovery_page (po_recovery po) (st_body_name (host_store h))
                (as_str (jindex req ''after'')) MAX_RECOVERY_PAGE (snd h)))
      else (case pin_field req ''id'' of
              Inl e \<Rightarrow> (Inl e, h)
            | Inr i \<Rightarrow> on_tree inspection_json h (recovery_inspect (po_recovery po) i (snd h))))"

definition recovery_act :: "pin_owner_env \<Rightarrow> string \<Rightarrow> json \<Rightarrow> pin_host \<Rightarrow> json res \<times> pin_host" where
  "recovery_act po op req h =
     (if op = ''pin_recovery_resolve'' then
        (case rbind (ok_or (choice_of_json (jindex req ''choice'')) (Json (po_decode_error po (jindex req ''choice'')))) (\<lambda>choice.
              rbind (pin_field req ''id'') (\<lambda>i. rbind (pin_field req ''token'') (\<lambda>token. Inr (choice, i, token)))) of
           Inl e \<Rightarrow> (Inl e, h)
         | Inr (choice, i, token) \<Rightarrow> on_tree inspection_json h (recovery_resolve (po_recovery po) (host_store h) i token choice (snd h)))
      else if op = ''pin_recovery_discard'' then
        (case rbind (pin_field req ''id'') (\<lambda>i. rbind (pin_field req ''token'') (\<lambda>token. Inr (i, token))) of
           Inl e \<Rightarrow> (Inl e, h)
         | Inr (i, token) \<Rightarrow> on_tree (\<lambda>_. ok_json [(''message'', JStr ''Inspected retained data discarded; live pins are preserved.'')]) h
             (recovery_discard (po_recovery po) (host_store h) i token (snd h)))
      else (Inl (Usage ''unknown pin owner operation''), h))"

definition pin_owner_rpc :: "pin_owner_env \<Rightarrow> json \<Rightarrow> pin_host \<Rightarrow> json res \<times> pin_host" where
  "pin_owner_rpc po req h =
     (case pin_field req ''op'' of
        Inl e \<Rightarrow> (Inl e, h)
      | Inr op \<Rightarrow>
          if op = ''pin_on'' then set_pin_enabled (py_ctx (po_sync po)) (po_create_root po) True h
          else if op = ''pin_off'' then set_pin_enabled (py_ctx (po_sync po)) (po_create_root po) False h
          else if op = ''pin_sync'' then
            (case pin_field req ''body'' of
               Inl e \<Rightarrow> (Inl e, h)
             | Inr body \<Rightarrow> host_answer sync_status_json (owner_pin_sync (po_sync po) body h))
          else if op = ''pin_conflicts'' then
            (case pin_field req ''body'' of
               Inl e \<Rightarrow> (Inl e, h)
             | Inr body \<Rightarrow> host_answer report_json (inspect_peer_conflicts (po_sync po) body h))
          else if op = ''pin_take_peer'' then take_peer po req h
          else if op = ''pin_recovery_list'' \<or> op = ''pin_recovery_inspect'' then recovery_lookup po op req h
          else recovery_act po op req h)"

text \<open>The owner socket's parameter for these operations, instantiated by them.\<close>

definition pin_of_owner :: "pin_owner_env \<Rightarrow> pin_tree \<Rightarrow> json \<Rightarrow> node \<Rightarrow> json res \<times> node" where
  "pin_of_owner po t req nd = (case pin_owner_rpc po req (nd, t) of (r, nd', t') \<Rightarrow> (r, nd'))"

lemma owner_socket_pin:
  assumes "ow_pin en = pin_of_owner po t" "ow_pin_root en = po_create_root po" "cx = py_ctx (po_sync po)"
    and "jstr req ''op'' = Some op" "op \<noteq> []"
  shows "owner_pin_rpc en cx op req nd = pin_of_owner po t req nd"
  using assms unfolding owner_pin_rpc_def pin_of_owner_def pin_owner_rpc_def pin_switch_def
  by (auto simp: pin_field_def set_pin_enabled_def split: sum.splits prod.splits)

section \<open>Export\<close>

definition export_request :: "pin_owner_env \<Rightarrow> json \<Rightarrow> (string \<times> string \<times> read_choice) res" where
  "export_request po req =
     rbind (pin_field req ''id'') (\<lambda>i.
     rbind (pin_field req ''token'') (\<lambda>token.
     rbind (ok_or (read_of_json (jindex req ''version'')) (Json (po_decode_error po (jindex req ''version'')))) (\<lambda>which.
     Inr (i, token, which))))"

text \<open>The frames written and how it ended; \<open>look\<close> and \<open>looks\<close> are what the export finds at its checks.\<close>

definition serve_export :: "pin_owner_env \<Rightarrow> look \<Rightarrow> (nat \<Rightarrow> nat \<Rightarrow> look) \<Rightarrow> (nat \<Rightarrow> unit res) \<Rightarrow> json \<Rightarrow> pin_host
    \<Rightarrow> json list \<times> unit res \<times> pin_host" where
  "serve_export po look looks wr req h =
     (case export_request po req of
        Inl e \<Rightarrow> ([], Inl e, h)
      | Inr (i, token, which) \<Rightarrow>
          (case open_recovery_export (po_recovery po) look i which token (snd h) of
             (Inl e, t) \<Rightarrow> ([], Inl e, (fst h, t))
           | (Inr ex, t) \<Rightarrow> (case export_loop (cx_crypto (py_ctx (po_sync po))) looks wr 0 ex of
               (fs, r) \<Rightarrow> (fs, r, (fst h, t)))))"

text \<open>The client: connecting and sending, each line as far as it is read, what becomes of its output.\<close>

record export_client =
  xc_connect :: "connect_kind option"
  xc_sent :: "unit res"
  xc_parse :: "bytes \<Rightarrow> string + json"
  xc_decode_error :: "json \<Rightarrow> string"
  xc_output :: "nat \<Rightarrow> unit res"
  xc_flush :: "unit res"

definition FRAME_BYTES :: nat where "FRAME_BYTES = 512 * 1024"

definition ended :: clix_error where
  "ended = Protocol ''pin export ended without a verified complete stream''"

definition read_frame :: "export_client \<Rightarrow> bytes \<Rightarrow> chunk res" where
  "read_frame xc raw =
     (if FRAME_BYTES < length raw \<or> raw = [] \<or> last raw \<noteq> 10 then Inl ended
      else case xc_parse xc raw of
             Inl m \<Rightarrow> Inl (Json m)
           | Inr v \<Rightarrow>
               if jindex v ''ok'' \<noteq> JBool True then Inl (Io (text_or ''pin export failed'' (jindex v ''error'')))
               else ok_or (chunk_of_json (jindex v ''chunk'')) (Json (xc_decode_error xc (jindex v ''chunk''))))"

definition accept_chunk :: "nat \<Rightarrow> nat option \<Rightarrow> chunk \<Rightarrow> nat res" where
  "accept_chunk off tot c =
     (if ck_offset c \<noteq> off \<or> 65536 < length (ck_bytes c) \<or> (case tot of None \<Rightarrow> False | Some n \<Rightarrow> n \<noteq> ck_total c)
      then Inl (Protocol ''pin export stream boundary changed'')
      else if u64_max < off + length (ck_bytes c) then Inl (Protocol ''pin export size overflow'')
      else let off' = off + length (ck_bytes c) in
           if ck_total c < off' \<or> (ck_eof c \<and> off' \<noteq> ck_total c) \<or> (\<not> ck_eof c \<and> ck_bytes c = [])
           then Inl (Protocol ''pin export stream length is inconsistent'') else Inr off')"

text \<open>The result and the bytes on standard output; the stream ends where the lines end.\<close>

fun client_loop :: "export_client \<Rightarrow> nat \<Rightarrow> nat \<Rightarrow> nat option \<Rightarrow> bytes res list \<Rightarrow> unit res \<times> bytes" where
  "client_loop xc k off tot [] = (Inl ended, [])"
| "client_loop xc k off tot (l # ls) =
     (case rbind l (\<lambda>raw. rbind (read_frame xc raw) (\<lambda>c. rbind (accept_chunk off tot c) (\<lambda>off'. Inr (c, off')))) of
        Inl e \<Rightarrow> (Inl e, [])
      | Inr (c, off') \<Rightarrow>
          (case xc_output xc k of
             Inl e \<Rightarrow> (Inl e, [])
           | Inr _ \<Rightarrow>
               if ck_eof c then (xc_flush xc, ck_bytes c)
               else (case client_loop xc (Suc k) off' (Some (ck_total c)) ls of (r, out) \<Rightarrow> (r, ck_bytes c @ out))))"

definition client_export :: "export_client \<Rightarrow> bytes res list \<Rightarrow> unit res \<times> bytes" where
  "client_export xc lines = (case xc_connect xc of
       Some k \<Rightarrow> (Inl (connect_err k), [])
     | None \<Rightarrow> (case xc_sent xc of Inl e \<Rightarrow> (Inl e, []) | Inr _ \<Rightarrow> client_loop xc 0 0 None lines))"

section \<open>An export arrives whole\<close>

lemma chunk_round [json_round]:
  "ck_offset c \<le> u64_max \<Longrightarrow> ck_total c \<le> u64_max \<Longrightarrow> chunk_of_json (chunk_json c) = Some c"
  by (simp add: chunk_of_json_def chunk_json_def Clix_Json.fields_def fld_def json_round)

text \<open>How the frames travel: serde's text of a frame, one line without a newline of its own, is read back as
  the same value, and that of a chunk of 65536 bytes is within the client's limit.\<close>

definition carries :: "(json \<Rightarrow> bytes) \<Rightarrow> export_client \<Rightarrow> bool" where
  "carries enc xc \<longleftrightarrow>
     (\<forall>c. ck_offset c \<le> u64_max \<and> ck_total c \<le> u64_max \<and> length (ck_bytes c) \<le> 65536 \<longrightarrow>
        xc_parse xc (enc (chunk_frame c) @ [10]) = Inr (chunk_frame c) \<and> length (enc (chunk_frame c)) < FRAME_BYTES) \<and>
     xc_connect xc = None \<and> xc_sent xc = Inr () \<and> (\<forall>k. xc_output xc k = Inr ()) \<and> xc_flush xc = Inr ()"

definition lines_of :: "(json \<Rightarrow> bytes) \<Rightarrow> json list \<Rightarrow> bytes res list" where
  "lines_of enc fs = map (\<lambda>v. Inr (enc v @ [10])) fs"

lemma frame_arrives:
  assumes "carries enc xc" "chunk_read cr 65536 ex c ex'" "ck_total c \<le> u64_max" "tot = None \<or> tot = Some (ck_total c)"
  shows "rbind (read_frame xc (enc (chunk_frame c) @ [10])) (\<lambda>c. rbind (accept_chunk (ex_offset ex) tot c) (\<lambda>off'. Inr (c, off'))) =
    Inr (c, ex_offset ex')"
proof -
  have c: "ck_offset c \<le> u64_max" "length (ck_bytes c) \<le> 65536" "ex_offset ex' \<le> ck_total c"
    using assms(2,3) by (auto simp: chunk_read_def)
  with assms(3) have len: "length (enc (chunk_frame c)) < FRAME_BYTES" "xc_parse xc (enc (chunk_frame c) @ [10]) = Inr (chunk_frame c)"
    using assms(1) unfolding carries_def by blast+
  then have "read_frame xc (enc (chunk_frame c) @ [10]) = Inr c"
    using c(1) assms(3) by (simp add: read_frame_def chunk_frame_def jindex_def json_round)
  moreover have "accept_chunk (ex_offset ex) tot c = Inr (ex_offset ex')"
    using assms(2-4) c by (auto simp: accept_chunk_def chunk_read_def Let_def split: option.splits)
  ultimately show ?thesis by simp
qed

lemma export_loop_arrives:
  assumes "carries enc xc" "rv_bytes (ex_expected ex) \<le> u64_max"
  shows "export_loop cr looks wr k ex = (fs, Inr ()) \<Longrightarrow> tot = None \<or> tot = Some (rv_bytes (ex_expected ex)) \<Longrightarrow>
    \<exists>out. client_loop xc j (ex_offset ex) tot (lines_of enc fs) = (Inr (), out) \<and>
      hash cr (ex_hashed ex @ out) = fp_hash (rv_fingerprint (ex_expected ex)) \<and>
      ex_offset ex + length out = rv_bytes (ex_expected ex)"
  using assms(2)
proof (induction cr looks wr k ex arbitrary: fs tot j rule: export_loop.induct)
  case (1 cr looks wr k ex)
  from "1.prems"(1) obtain c ex' where turn: "export_turn cr (looks k) ex = (Inr c, ex')" and w: "wr k = Inr ()"
      and fs: "ck_eof c \<and> fs = [chunk_frame c] \<or>
        (\<exists>gs. \<not> ck_eof c \<and> export_loop cr looks wr (Suc k) ex' = (gs, Inr ()) \<and> fs = chunk_frame c # gs)"
    by (subst (asm) export_loop.simps) (auto split: prod.splits sum.splits if_splits)
  note step = export_turn_steps [OF turn]
  have c: "ck_total c = rv_bytes (ex_expected ex)" "ex_expected ex' = ex_expected ex"
    "ex_hashed ex' = ex_hashed ex @ ck_bytes c" "ex_offset ex' = ex_offset ex + length (ck_bytes c)"
    using step by (simp_all add: chunk_read_def)
  have frame: "rbind (read_frame xc (enc (chunk_frame c) @ [10])) (\<lambda>c. rbind (accept_chunk (ex_offset ex) tot c) (\<lambda>off'. Inr (c, off'))) =
      Inr (c, ex_offset ex')"
    using frame_arrives [OF assms(1) step] "1.prems"(2,3) c(1) by simp
  have out: "xc_output xc j = Inr ()" "xc_flush xc = Inr ()" using assms(1) by (simp_all add: carries_def)
  from fs show ?case
  proof (elim disjE exE conjE)
    assume eof: "ck_eof c" "fs = [chunk_frame c]"
    with frame out step c show ?thesis by (auto simp: lines_of_def chunk_read_def)
  next
    fix gs
    assume more: "\<not> ck_eof c" "export_loop cr looks wr (Suc k) ex' = (gs, Inr ())" "fs = chunk_frame c # gs"
    have "\<exists>out. client_loop xc (Suc j) (ex_offset ex') (Some (ck_total c)) (lines_of enc gs) = (Inr (), out) \<and>
        hash cr (ex_hashed ex' @ out) = fp_hash (rv_fingerprint (ex_expected ex')) \<and>
        ex_offset ex' + length out = rv_bytes (ex_expected ex')"
      using "1.IH" [OF turn [symmetric] refl w more(1,2)] "1.prems"(3) c by simp
    with frame out more c show ?thesis by (auto simp: lines_of_def)
  qed
qed

text \<open>C23: An export the daemon completes arrives whole: the client ends with success, and what it printed
  has the length and the hash of the version the owner inspected under the given token, no matter what
  other processes do to the files meanwhile.  serde's text is taken to be read back as written.\<close>

theorem export_arrives_whole:
  assumes "serve_export po lk looks wr req h = (fs, Inr (), h')" and "carries enc xc"
  shows "\<exists>i token which view expected. export_request po req = Inr (i, token, which) \<and> in_token view = token \<and>
    (\<exists>t1. recovery_lock (re_pin (po_recovery po) 0) (snd h) = (Inr (), t1) \<and>
      inspect_entry (re_pin (po_recovery po) 0) t1 i = Inr view) \<and>
    (which = ReadLive \<longrightarrow> in_live view = Some expected) \<and> (which = ReadRetained \<longrightarrow> in_retained view = Some expected) \<and>
    (rv_bytes expected \<le> u64_max \<longrightarrow> (\<exists>out. client_export xc (lines_of enc fs) = (Inr (), out) \<and>
      hash (cx_crypto (py_ctx (po_sync po))) out = fp_hash (rv_fingerprint expected) \<and> length out = rv_bytes expected))"
proof -
  let ?cr = "cx_crypto (py_ctx (po_sync po))"
  from assms(1) obtain i token which ex t where req: "export_request po req = Inr (i, token, which)"
      and opened: "open_recovery_export (po_recovery po) lk i which token (snd h) = (Inr ex, t)"
      and loop: "export_loop ?cr looks wr 0 ex = (fs, Inr ())"
    by (auto simp: serve_export_def split: sum.splits prod.splits)
  note ex = open_export_inspected [OF opened]
  have "\<exists>out. client_export xc (lines_of enc fs) = (Inr (), out) \<and>
      hash ?cr out = fp_hash (rv_fingerprint (ex_expected ex)) \<and> length out = rv_bytes (ex_expected ex)"
    if "rv_bytes (ex_expected ex) \<le> u64_max"
    using export_loop_arrives [OF assms(2) that loop, of None 0] assms(2) ex(1,2) by (auto simp: client_export_def carries_def)
  then show ?thesis using req ex by blast
qed

text \<open>The client believes no stream that stops early or does not fit together.\<close>

theorem client_needs_complete_stream:
  assumes "client_loop xc k off tot ls = (Inr (), out)"
  shows "\<exists>cs. cs \<noteq> [] \<and> length cs \<le> length ls \<and>
    list_all2 (\<lambda>l c. \<exists>raw. l = Inr raw \<and> read_frame xc raw = Inr c) (take (length cs) ls) cs \<and>
    out = concat (map ck_bytes cs) \<and> off + length out = ck_total (last cs) \<and> ck_eof (last cs) \<and>
    (\<forall>n. tot = Some n \<longrightarrow> ck_total (last cs) = n)"
  using assms
proof (induction xc k off tot ls arbitrary: out rule: client_loop.induct)
  case (2 xc k off tot l ls)
  from "2.prems" obtain raw c off' where l: "l = Inr raw" "read_frame xc raw = Inr c" "accept_chunk off tot c = Inr off'"
      and rest: "xc_output xc k = Inr ()" "ck_eof c \<and> out = ck_bytes c \<or> (\<exists>more. \<not> ck_eof c \<and>
        client_loop xc (Suc k) off' (Some (ck_total c)) ls = (Inr (), more) \<and> out = ck_bytes c @ more)"
    by (auto simp: result_simps split: sum.splits prod.splits if_splits)
  have acc: "off' = off + length (ck_bytes c)" "ck_eof c \<longrightarrow> off' = ck_total c" "\<forall>n. tot = Some n \<longrightarrow> ck_total c = n"
    using l(3) by (auto simp: accept_chunk_def Let_def split: if_splits)
  from rest(2) show ?case
  proof (elim disjE exE conjE)
    assume "ck_eof c" "out = ck_bytes c"
    with l acc show ?thesis by (intro exI [of _ "[c]"]) auto
  next
    fix more
    assume more: "\<not> ck_eof c" "client_loop xc (Suc k) off' (Some (ck_total c)) ls = (Inr (), more)" "out = ck_bytes c @ more"
    have "\<exists>cs. cs \<noteq> [] \<and> length cs \<le> length ls \<and>
      list_all2 (\<lambda>l c. \<exists>raw. l = Inr raw \<and> read_frame xc raw = Inr c) (take (length cs) ls) cs \<and>
      more = concat (map ck_bytes cs) \<and> off' + length more = ck_total (last cs) \<and> ck_eof (last cs) \<and>
      ck_total (last cs) = ck_total c"
      using "2.IH" [OF _ refl rest(1) more(1,2)] l by (simp add: result_simps)
    then obtain cs where "cs \<noteq> []" "length cs \<le> length ls" "ck_eof (last cs)" "ck_total (last cs) = ck_total c"
      "list_all2 (\<lambda>l c. \<exists>raw. l = Inr raw \<and> read_frame xc raw = Inr c) (take (length cs) ls) cs"
      "more = concat (map ck_bytes cs)" "off' + length more = ck_total (last cs)" by blast
    with l acc more show ?thesis by (intro exI [of _ "c # cs"]) auto
  qed
qed simp

end
