(* ===== verification/Clix_Transport.thy ===== *)
theory Clix_Transport
  imports Clix_Pin_Sync
begin

text \<open>
  Authenticated connections: \<open>src/transport.rs\<close>, and the two ends of a mesh call, \<open>call\<close> and \<open>serve_conn\<close> of
  \<open>src/mesh.rs\<close>.  The handshake is rustls'; what the program gives it are the verifiers below, and what
  it relies on is that a completed handshake passed them (\<open>completed\<close>).
\<close>

section \<open>Identities\<close>

text \<open>The key formats of \<open>ed25519_dalek\<close> and \<open>rustls\<close>: a text is the error.\<close>

record tls_lib =
  td_point :: "bytes \<Rightarrow> string + unit"
  td_weak :: "bytes \<Rightarrow> bool"
  td_to_der :: "bytes \<Rightarrow> string + bytes"
  td_of_der :: "bytes \<Rightarrow> string + bytes"
  td_pkcs8 :: "bytes \<Rightarrow> string + bytes"
  td_load :: "bytes \<Rightarrow> string + bytes option"
  td_verify13 :: "bytes \<Rightarrow> bytes \<Rightarrow> bytes \<Rightarrow> string + unit"
  td_versions :: "string + unit"

definition tls_error :: "string \<Rightarrow> clix_error" where
  "tls_error m = Io (''mesh authentication failed: '' @ m)"

definition tls :: "string + 'a \<Rightarrow> 'a res" where
  "tls r = (case r of Inl m \<Rightarrow> Inl (tls_error m) | Inr x \<Rightarrow> Inr x)"

definition unknown_peer :: string where "unknown_peer = ''unknown paired identity''"

definition ALPN :: bytes where "ALPN = str_bytes ''clix/1''"

definition public_key_der :: "tls_lib \<Rightarrow> bytes \<Rightarrow> bytes res" where
  "public_key_der lb pk =
     (if length pk \<noteq> 32 then Inl (tls_error ''invalid Ed25519 public key length'')
      else rbind (tls (td_point lb pk)) (\<lambda>_.
           if td_weak lb pk then Inl (tls_error ''weak Ed25519 public key'') else tls (td_to_der lb pk)))"

text \<open>The key a machine presents: one raw public key, and the secret the library signs with.\<close>

record certified_key =
  ck_chain :: "bytes list"
  ck_secret :: bytes

definition identity :: "tls_lib \<Rightarrow> bytes \<Rightarrow> certified_key res" where
  "identity lb sk =
     (if length sk \<noteq> 32 then Inl (tls_error ''invalid Ed25519 secret key length'')
      else rbind (tls (td_pkcs8 lb sk)) (\<lambda>doc.
           rbind (tls (td_load lb doc)) (\<lambda>spki.
           rbind (ok_or spki (tls_error ''identity has no public key'')) (\<lambda>k.
           Inr \<lparr>ck_chain = [k], ck_secret = sk\<rparr>))))"

section \<open>Verifiers\<close>

datatype sig_scheme = ED25519 | OtherScheme
datatype tls_version = TLS12 | TLS13

record signed_struct =
  dss_scheme :: sig_scheme
  dss_signature :: bytes

definition verify_signature :: "tls_lib \<Rightarrow> bytes \<Rightarrow> bytes \<Rightarrow> signed_struct \<Rightarrow> string + unit" where
  "verify_signature lb msg cert d =
     (if dss_scheme d \<noteq> ED25519 then Inl ''Ed25519 signature required'' else td_verify13 lb msg cert (dss_signature d))"

definition reject_tls12 :: "string + unit" where
  "reject_tls12 = Inl ''TLS 1.3 required''"

definition expected_server :: "bytes \<Rightarrow> bytes \<Rightarrow> bytes list \<Rightarrow> string + unit" where
  "expected_server spki ee others = (if others \<noteq> [] \<or> ee \<noteq> spki then Inl unknown_peer else Inr ())"

text \<open>Looked up in the store as it is at that moment.\<close>

definition paired_clients :: "tls_lib \<Rightarrow> store \<Rightarrow> bytes \<Rightarrow> bytes list \<Rightarrow> string + unit" where
  "paired_clients lb s ee others =
     (if others \<noteq> [] then Inl unknown_peer
      else if \<not> list_ex (\<lambda>p. public_key_der lb (p_owner_pk p) = Inr ee) (st_peers s) then Inl unknown_peer
      else Inr ())"

record tls_config =
  tc_versions :: "tls_version list"
  tc_key :: certified_key
  tc_verify_peer :: "store \<Rightarrow> bytes \<Rightarrow> bytes list \<Rightarrow> string + unit"
  tc_verify12 :: "bytes \<Rightarrow> bytes \<Rightarrow> signed_struct \<Rightarrow> string + unit"
  tc_verify13 :: "bytes \<Rightarrow> bytes \<Rightarrow> signed_struct \<Rightarrow> string + unit"
  tc_schemes :: "sig_scheme list"
  tc_raw_keys :: bool
  tc_client_auth :: bool
  tc_alpn :: "bytes list"
  tc_sni :: bool
  tc_early_data :: bool
  tc_resumption :: bool

definition client_config :: "tls_lib \<Rightarrow> bytes \<Rightarrow> bytes \<Rightarrow> tls_config res" where
  "client_config lb sk expected_pk =
     rbind (public_key_der lb expected_pk) (\<lambda>spki.
     rbind (tls (td_versions lb)) (\<lambda>_.
     rbind (identity lb sk) (\<lambda>key.
     Inr \<lparr>tc_versions = [TLS13], tc_key = key, tc_verify_peer = (\<lambda>_. expected_server spki),
       tc_verify12 = (\<lambda>_ _ _. reject_tls12), tc_verify13 = verify_signature lb, tc_schemes = [ED25519],
       tc_raw_keys = True, tc_client_auth = True, tc_alpn = [ALPN], tc_sni = False, tc_early_data = False,
       tc_resumption = False\<rparr>)))"

definition server_config :: "tls_lib \<Rightarrow> store \<Rightarrow> tls_config res" where
  "server_config lb s =
     rbind (identity lb (st_owner_sk s)) (\<lambda>key.
     rbind (tls (td_versions lb)) (\<lambda>_.
     Inr \<lparr>tc_versions = [TLS13], tc_key = key, tc_verify_peer = paired_clients lb,
       tc_verify12 = (\<lambda>_ _ _. reject_tls12), tc_verify13 = verify_signature lb, tc_schemes = [ED25519],
       tc_raw_keys = True, tc_client_auth = True, tc_alpn = [ALPN], tc_sni = False, tc_early_data = False,
       tc_resumption = False\<rparr>))"

section \<open>Handshakes\<close>

record session =
  ts_certs :: "bytes list option"
  ts_alpn :: "bytes option"

text \<open>How a handshake ends: not within ten seconds, with an error, or in a session.\<close>

datatype handshake = HsTimedOut | HsFailed io_kind string | HsDone session

definition peer_pk :: "tls_lib \<Rightarrow> bytes list option \<Rightarrow> bytes res" where
  "peer_pk lb certs = (case certs of
       Some [cert] \<Rightarrow> tls (td_of_der lb cert)
     | _ \<Rightarrow> Inl (tls_error ''missing or ambiguous peer identity''))"

definition negotiated :: "session \<Rightarrow> session res" where
  "negotiated se = (if ts_alpn se \<noteq> Some ALPN then Inl (tls_error ''Clix protocol was not negotiated'') else Inr se)"

definition tls_connect :: "tls_lib \<Rightarrow> bytes \<Rightarrow> bytes \<Rightarrow> handshake \<Rightarrow> session res" where
  "tls_connect lb sk expected_pk hs =
     rbind (client_config lb sk expected_pk) (\<lambda>_.
     case hs of HsTimedOut \<Rightarrow> Inl Unreachable | HsFailed k m \<Rightarrow> Inl (network_error k m) | HsDone se \<Rightarrow> negotiated se)"

definition tls_accept :: "tls_lib \<Rightarrow> store \<Rightarrow> handshake \<Rightarrow> peer res" where
  "tls_accept lb s hs =
     rbind (case hs of HsTimedOut \<Rightarrow> Inl (tls_error ''handshake timed out'') | HsFailed k m \<Rightarrow> Inl (tls_error m)
       | HsDone se \<Rightarrow> negotiated se) (\<lambda>se.
     rbind (peer_pk lb (ts_certs se)) (\<lambda>pk.
     ok_or (List.find (\<lambda>p. p_owner_pk p = pk) (st_peers s)) (tls_error ''unknown paired identity'')))"

text \<open>What rustls promises of a session it returns: the peer sent a chain the verifier accepted in the
  state at that moment, and signed this handshake (\<open>msg\<close>) so that the verifier for the negotiated
  version accepted the signature under the chain's first key.\<close>

definition completed :: "tls_config \<Rightarrow> store \<Rightarrow> bytes \<Rightarrow> session \<Rightarrow> bool" where
  "completed cfg s msg se \<longleftrightarrow> (\<exists>ee others d. ts_certs se = Some (ee # others) \<and> tc_verify_peer cfg s ee others = Inr () \<and>
     ((TLS13 \<in> set (tc_versions cfg) \<and> tc_verify13 cfg msg ee d = Inr ()) \<or>
      (TLS12 \<in> set (tc_versions cfg) \<and> tc_verify12 cfg msg ee d = Inr ())))"

text \<open>A signature over this handshake that verifies under a machine's key.\<close>

definition proved :: "tls_lib \<Rightarrow> bytes \<Rightarrow> bytes \<Rightarrow> bool" where
  "proved lb msg pk \<longleftrightarrow> (\<exists>spki sig. public_key_der lb pk = Inr spki \<and> td_verify13 lb msg spki sig = Inr ())"

lemma tls_Inr [result_simps]: "tls r = Inr x \<longleftrightarrow> r = Inr x"
  by (cases r) (simp_all add: tls_def)

lemma public_key_der_Inr: "public_key_der lb pk = Inr spki \<Longrightarrow> td_to_der lb pk = Inr spki"
  by (auto simp: public_key_der_def result_simps split: if_splits)

lemma verify_signature_Inr: "verify_signature lb msg cert d = Inr () \<Longrightarrow> \<exists>sig. td_verify13 lb msg cert sig = Inr ()"
  by (auto simp: verify_signature_def split: if_splits)

lemma connected_to_expected:
  assumes "client_config lb sk pk = Inr cfg" "completed cfg s msg se"
  shows "proved lb msg pk"
  using assms unfolding client_config_def completed_def proved_def
  by (auto simp: result_simps expected_server_def reject_tls12_def dest: verify_signature_Inr split: if_splits)

lemma accepted_proved:
  assumes cfg: "server_config lb s0 = Inr cfg" and c: "completed cfg s1 msg se"
    and acc: "tls_accept lb s2 (HsDone se) = Inr peer"
    and der: "\<And>pk spki. td_to_der lb pk = Inr spki \<Longrightarrow> td_of_der lb spki = Inr pk"
  shows "peer \<in> set (st_peers s2) \<and> proved lb msg (p_owner_pk peer) \<and>
    (\<exists>q \<in> set (st_peers s1). p_owner_pk q = p_owner_pk peer)"
proof -
  from cfg c obtain ee d where ee: "ts_certs se = Some [ee]" "verify_signature lb msg ee d = Inr ()"
      and "list_ex (\<lambda>p. public_key_der lb (p_owner_pk p) = Inr ee) (st_peers s1)"
    unfolding server_config_def completed_def
    by (auto simp: result_simps paired_clients_def reject_tls12_def split: if_splits)
  then obtain q where q: "q \<in> set (st_peers s1)" "public_key_der lb (p_owner_pk q) = Inr ee" by (auto simp: list_ex_iff)
  from acc ee(1) obtain pk where pk: "td_of_der lb ee = Inr pk" "List.find (\<lambda>p. p_owner_pk p = pk) (st_peers s2) = Some peer"
    by (auto simp: tls_accept_def negotiated_def peer_pk_def result_simps split: if_splits)
  have "pk = p_owner_pk q" using der [OF public_key_der_Inr [OF q(2)]] pk(1) by simp
  then have "p_owner_pk peer = p_owner_pk q" "peer \<in> set (st_peers s2)" using find_Some_set [OF pk(2)] by auto
  then show ?thesis using q verify_signature_Inr [OF ee(2)] unfolding proved_def by metis
qed

section \<open>Serving a connection\<close>

text \<open>What a connection brings: \<open>cn_others\<close> is what other tasks do to the store during the handshake and
  until the request is handled, the bytes are those that arrive in time.\<close>

record conn =
  cn_nodelay :: "unit res"
  cn_preface :: "bytes res"
  cn_handshake :: handshake
  cn_others :: "nat \<Rightarrow> node \<Rightarrow> node"
  cn_timeout :: bool
  cn_input :: bytes
  cn_parse :: "bytes \<Rightarrow> string + json"
  cn_write :: "unit res"

definition receive_request :: "conn \<Rightarrow> json res" where
  "receive_request cn =
     (if cn_timeout cn then Inl Unreachable
      else rbind (read_frame (cn_input cn)) (\<lambda>(d, _). case cn_parse cn d of Inl m \<Rightarrow> Inl (Json m) | Inr v \<Rightarrow> Inr v))"

definition response_of :: "json res \<Rightarrow> json" where
  "response_of r = (case r of Inr v \<Rightarrow> v | Inl e \<Rightarrow> error_reply e)"

record served =
  sv_result :: "unit res"
  sv_sent :: "bytes option"
  sv_handle :: mesh_handle
  sv_node :: node
  sv_limits :: limits
  sv_child :: "child option"

definition serve_conn :: "tls_lib \<Rightarrow> ctx \<Rightarrow> mesh_env \<Rightarrow> pin_rpc \<Rightarrow> conn \<Rightarrow> mesh_handle \<Rightarrow> limits \<Rightarrow> node \<Rightarrow> served" where
  "serve_conn lb cx env pin cn h l nd =
     (let stop = (\<lambda>r h' nd'. \<lparr>sv_result = r, sv_sent = None, sv_handle = h', sv_node = nd', sv_limits = l, sv_child = None\<rparr>) in
      case rbind (cn_nodelay cn) (\<lambda>_. cn_preface cn) of
        Inl e \<Rightarrow> stop (Inl e) h nd
      | Inr preface \<Rightarrow>
          (case accept_preface preface h of
             (Inl e, h1) \<Rightarrow> stop (Inl e) h1 nd
           | (Inr c, h1) \<Rightarrow>
               if c \<noteq> Authenticated then stop (Inr ()) h1 nd
               else (let nd1 = cn_others cn 0 nd in
                 case tls_accept lb (fst nd1) (cn_handshake cn) of
                   Inl e \<Rightarrow> stop (Inl e) h1 nd1
                 | Inr peer \<Rightarrow>
                     (let nd2 = cn_others cn 1 nd1 in
                      case receive_request cn of
                        Inl e \<Rightarrow> stop (Inl e) h1 nd2
                      | Inr req \<Rightarrow>
                          (case dispatch cx env pin peer req l nd2 of
                             (r, nd3, l3, ch) \<Rightarrow>
                               (case rbind (write_frame (cr_to_vec (cx_crypto cx) (response_of r))) (\<lambda>f.
                                     rbind (cn_write cn) (\<lambda>_. Inr f)) of
                                  Inl e \<Rightarrow> \<lparr>sv_result = Inl e, sv_sent = None, sv_handle = h1, sv_node = nd3, sv_limits = l3, sv_child = ch\<rparr>
                                | Inr f \<Rightarrow> \<lparr>sv_result = Inr (), sv_sent = Some f, sv_handle = h1, sv_node = nd3, sv_limits = l3,
                                    sv_child = ch\<rparr>))))))"

section \<open>Calling\<close>

record dialled =
  di_connect :: "unit res"
  di_handshake :: handshake
  di_write :: "unit res"
  di_timeout :: bool
  di_input :: bytes
  di_parse :: "bytes \<Rightarrow> string + json"

definition mesh_call :: "tls_lib \<Rightarrow> crypto \<Rightarrow> dialled \<Rightarrow> bytes \<Rightarrow> bytes \<Rightarrow> json \<Rightarrow> json res" where
  "mesh_call lb cr di sk expected_pk req =
     (if di_timeout di then Inl Unreachable
      else rbind (di_connect di) (\<lambda>_.
           rbind (tls_connect lb sk expected_pk (di_handshake di)) (\<lambda>_.
           rbind (write_frame (cr_to_vec cr req)) (\<lambda>_.
           rbind (di_write di) (\<lambda>_.
           rbind (read_frame (di_input di)) (\<lambda>(d, _).
           case di_parse di d of Inl m \<Rightarrow> Inl (Json m) | Inr v \<Rightarrow> call_response v))))))"

lemma call_response_of: "call_response (response_of r) = (case r of Inr v \<Rightarrow> call_response v | Inl e \<Rightarrow> Inl (remote_error e))"
  by (simp add: response_of_def errors_cross_the_mesh split: sum.splits)

text \<open>How a connection can end: nothing was done for it, or one request of an accepted peer was dispatched.\<close>

lemma serve_conn_cases:
  assumes "serve_conn lb cx env pin cn h l nd = sv"
  obtains (refused) "sv_node sv = nd \<or> sv_node sv = cn_others cn 0 nd \<or> sv_node sv = cn_others cn 1 (cn_others cn 0 nd)"
      "sv_child sv = None" "sv_sent sv = None" "sv_limits sv = l"
  | (handled) preface peer req r nd3 l3 ch where "cn_preface cn = Inr preface" "fst (accept_preface preface h) = Inr Authenticated"
      "tls_accept lb (fst (cn_others cn 0 nd)) (cn_handshake cn) = Inr peer" "receive_request cn = Inr req"
      "dispatch cx env pin peer req l (cn_others cn 1 (cn_others cn 0 nd)) = (r, nd3, l3, ch)"
      "sv_node sv = nd3" "sv_limits sv = l3" "sv_child sv = ch"
      "\<And>f. sv_sent sv = Some f \<Longrightarrow> write_frame (cr_to_vec (cx_crypto cx) (response_of r)) = Inr f"
proof -
  let ?nd1 = "cn_others cn 0 nd" and ?nd2 = "cn_others cn 1 (cn_others cn 0 nd)"
  consider (stop) "sv_node sv = nd \<or> sv_node sv = ?nd1 \<or> sv_node sv = ?nd2" "sv_child sv = None" "sv_sent sv = None" "sv_limits sv = l"
    | (go) preface peer req where "cn_preface cn = Inr preface" "fst (accept_preface preface h) = Inr Authenticated"
      "tls_accept lb (fst ?nd1) (cn_handshake cn) = Inr peer" "receive_request cn = Inr req"
      "sv = (case dispatch cx env pin peer req l ?nd2 of
         (r, nd3, l3, ch) \<Rightarrow>
           (case rbind (write_frame (cr_to_vec (cx_crypto cx) (response_of r))) (\<lambda>f. rbind (cn_write cn) (\<lambda>_. Inr f)) of
              Inl e \<Rightarrow> \<lparr>sv_result = Inl e, sv_sent = None, sv_handle = snd (accept_preface preface h), sv_node = nd3,
                sv_limits = l3, sv_child = ch\<rparr>
            | Inr f \<Rightarrow> \<lparr>sv_result = Inr (), sv_sent = Some f, sv_handle = snd (accept_preface preface h), sv_node = nd3,
                sv_limits = l3, sv_child = ch\<rparr>))"
    using assms unfolding serve_conn_def Let_def
    by (auto simp: result_simps split: sum.splits prod.splits if_splits)
  then show thesis
  proof cases
    case stop
    then show ?thesis by (rule refused)
  next
    case go
    obtain r nd3 l3 ch where d: "dispatch cx env pin peer req l ?nd2 = (r, nd3, l3, ch)" by (metis prod.exhaust)
    show ?thesis
      by (rule handled [OF go(1-4) d]) (use go(5) d in \<open>auto simp: result_simps split: sum.splits\<close>)
  qed
qed

text \<open>With any operations on the pinned directory that keep what the mesh relies on.\<close>

context pin_operations
begin

lemma connection_scope:
  assumes cfg: "server_config lb s0 = Inr cfg"
    and rustls: "\<And>se. cn_handshake cn = HsDone se \<Longrightarrow> completed cfg s1 msg se"
    and der: "\<And>pk spki. td_to_der lb pk = Inr spki \<Longrightarrow> td_of_der lb spki = Inr pk"
    and run: "serve_conn lb cx env pin cn h l nd = sv"
  shows "((sv_node sv = nd \<or> sv_node sv = cn_others cn 0 nd \<or> sv_node sv = cn_others cn 1 (cn_others cn 0 nd)) \<and>
      sv_child sv = None \<and> sv_sent sv = None \<and> sv_limits sv = l) \<or>
    (\<exists>peer \<in> set (st_peers (fst (cn_others cn 0 nd))).
      proved lb msg (p_owner_pk peer) \<and> (\<exists>q \<in> set (st_peers s1). p_owner_pk q = p_owner_pk peer) \<and>
      authority (fst (sv_node sv)) = authority (fst (cn_others cn 1 (cn_others cn 0 nd))) \<and>
      started_for (p_name peer) (fst (cn_others cn 1 (cn_others cn 0 nd))) (se_now (me_submit env)) (sv_child sv))"
  using run
proof (cases rule: serve_conn_cases)
  case refused
  then show ?thesis by blast
next
  case (handled preface peer req r nd3 l3 ch)
  obtain se where se: "cn_handshake cn = HsDone se"
    using handled(3) by (cases "cn_handshake cn") (auto simp: tls_accept_def)
  note p = accepted_proved [OF cfg rustls [OF se] handled(3) [unfolded se] der]
  have "authority (fst nd3) = authority (fst (cn_others cn 1 (cn_others cn 0 nd))) \<and>
      started_for (p_name peer) (fst (cn_others cn 1 (cn_others cn 0 nd))) (se_now (me_submit env)) ch"
    using dispatch_scope [of cx env peer req l "fst (cn_others cn 1 (cn_others cn 0 nd))"
        "snd (cn_others cn 1 (cn_others cn 0 nd))" r "fst nd3" "snd nd3" l3 ch] handled(5) by simp
  with p handled(6,8) show ?thesis by metis
qed

end

text \<open>C6: Whatever arrives on a connection, it acts only as a paired machine that proved its key: unless the
  TLS session was completed with the server's verifier, negotiated Clix and presented exactly the key of
  a machine that is paired now and was when it was verified, with an Ed25519 signature over this
  handshake under that key, nothing is dispatched, answered or started and the store is as other tasks
  left it.  What is dispatched changes no permission, pairing or identity, and a process it starts runs
  in that machine's name.\<close>

theorem connection_acts_as_paired_machine:
  assumes "server_config lb s0 = Inr cfg"
    and "\<And>se. cn_handshake cn = HsDone se \<Longrightarrow> completed cfg s1 msg se"
    and "\<And>pk spki. td_to_der lb pk = Inr spki \<Longrightarrow> td_of_der lb spki = Inr pk"
    and "serve_conn lb cx env (mesh_pin (undisturbed py) t) cn h l nd = sv"
  shows "((sv_node sv = nd \<or> sv_node sv = cn_others cn 0 nd \<or> sv_node sv = cn_others cn 1 (cn_others cn 0 nd)) \<and>
      sv_child sv = None \<and> sv_sent sv = None \<and> sv_limits sv = l) \<or>
    (\<exists>peer \<in> set (st_peers (fst (cn_others cn 0 nd))).
      proved lb msg (p_owner_pk peer) \<and> (\<exists>q \<in> set (st_peers s1). p_owner_pk q = p_owner_pk peer) \<and>
      authority (fst (sv_node sv)) = authority (fst (cn_others cn 1 (cn_others cn 0 nd))) \<and>
      started_for (p_name peer) (fst (cn_others cn 1 (cn_others cn 0 nd))) (se_now (me_submit env)) (sv_child sv))"
  by (rule served_pin.connection_scope [OF assms])


end
