(* ===== verification/Clix_Daemon.thy ===== *)
theory Clix_Daemon
  imports Clix_Pin_Owner Clix_Pair
begin

text \<open>
  \<open>src/daemon.rs\<close> and \<open>src/paths.rs\<close>: where the state and the socket are, what the command line does with a
  command, and the start of the sidecar up to the loops it serves.  Outcomes of system calls are
  parameters; the loops themselves are those of the other theories.
\<close>

section \<open>Paths\<close>

text \<open>The environment's variables, those that are Unicode.\<close>

type_synonym vars = "string \<Rightarrow> string option"

definition set_var :: "vars \<Rightarrow> string \<Rightarrow> string option" where
  "set_var vs k = Option.bind (vs k) (\<lambda>t. if t = [] then None else Some t)"

text \<open>\<open>ProjectDirs\<close>: no project directories, or their state directory, if the platform has one.\<close>

definition state_dir :: "vars \<Rightarrow> string option option \<Rightarrow> string res" where
  "state_dir vs dirs = (case set_var vs ''CLIX_HOME'' of
       Some home \<Rightarrow> Inr home
     | None \<Rightarrow> rbind (ok_or dirs (Io ''cannot determine clix state directory'')) (\<lambda>d.
         ok_or d (Io ''cannot determine clix state directory'')))"

definition state_file :: "vars \<Rightarrow> string option option \<Rightarrow> string res" where
  "state_file vs dirs = rbind (state_dir vs dirs) (\<lambda>d. Inr (path_join d ''state.json''))"

definition socket_path :: "vars \<Rightarrow> string res" where
  "socket_path vs = (case set_var vs ''CLIX_SOCK'' of
       Some sock \<Rightarrow> Inr sock
     | None \<Rightarrow> (case set_var vs ''XDG_RUNTIME_DIR'' of
         Some dir \<Rightarrow> Inr (path_join dir ''clix.sock'')
       | None \<Rightarrow> Inl (Io ''XDG_RUNTIME_DIR is not set (or set CLIX_SOCK)'')))"

section \<open>Commands\<close>

text \<open>One exchange with the sidecar: connecting, sending and the lines that come back.\<close>

record exchange_env =
  xe_connect :: "connect_kind option"
  xe_sent :: "unit res"
  xe_lines :: "string res list"

record console =
  co_vars :: vars
  co_host :: host
  co_terminal :: terminal
  co_parse :: "string \<Rightarrow> string + json"
  co_exchange :: "nat \<Rightarrow> exchange_env"
  co_export :: export_client
  co_export_lines :: "bytes res list"
  co_daemon :: "unit res"
  co_install :: "unit res"

definition send_to :: "console \<Rightarrow> nat \<Rightarrow> json \<Rightarrow> string list \<times> json res" where
  "send_to co k req = (let x = co_exchange co k in
     client_send (co_parse co) (xe_connect x) (xe_sent x) (xe_lines x) req)"

definition with_name :: "string option \<Rightarrow> (string \<times> json) list \<Rightarrow> json" where
  "with_name name kvs = JObj (kvs @ (case name of Some n \<Rightarrow> [(''name'', JStr n)] | None \<Rightarrow> []))"

text \<open>The requests sent, and what is printed; the messages shown while waiting go to standard error.\<close>

definition dispatch_pair :: "console \<Rightarrow> string option \<Rightarrow> string option \<Rightarrow> json list \<times> emitted" where
  "dispatch_pair co given name =
     (case socket_path (co_vars co) of
        Inl e \<Rightarrow> ([], [], [], Inl e)
      | Inr _ \<Rightarrow>
          (case given of
             None \<Rightarrow>
               (let req = with_name name [(''op'', JStr ''pair_start'')]; await = JObj [(''op'', JStr ''pair_await'')] in
                case send_to co 0 req of
                  (shown, Inl e) \<Rightarrow> ([req], [], lns shown, Inl e)
                | (shown, Inr v) \<Rightarrow>
                    (case send_to co 1 await of
                       (shown', r) \<Rightarrow> ([req, await], ln (''pair with: '' @ text_or [] (jindex v ''phrase'')),
                         lns (shown @ shown'), rbind r (\<lambda>_. Inr ()))))
           | Some ph \<Rightarrow>
               (let base = with_name name [(''op'', JStr ''pair_join''), (''phrase'', JStr ph)];
                    req = (case (set_var (co_vars co) ''CLIX_PAIR_ADDR'', base) of
                       (Some addr, JObj kvs) \<Rightarrow> JObj (kvs @ [(''addr'', JStr addr)]) | _ \<Rightarrow> base) in
                case send_to co 0 req of (shown, r) \<Rightarrow> ([req], [], lns shown, rbind r (\<lambda>_. Inr ())))))"

fun is_export :: "cmd \<Rightarrow> bool" where
  "is_export (CmdPin (PinRecovery (RecoveryExport i v t))) \<longleftrightarrow> True"
| "is_export _ \<longleftrightarrow> False"

definition dispatch_export :: "console \<Rightarrow> cmd \<Rightarrow> json list \<times> emitted" where
  "dispatch_export co c =
     (case rbind (socket_path (co_vars co)) (\<lambda>_. rpc_from_cmd (co_host co) c) of
        Inl e \<Rightarrow> ([], [], [], Inl e)
      | Inr req \<Rightarrow> (case client_export (co_export co) (co_export_lines co) of (r, out) \<Rightarrow> ([req], out, [], r)))"

definition dispatch_rpc :: "console \<Rightarrow> cmd \<Rightarrow> json list \<times> emitted" where
  "dispatch_rpc co c =
     (case rbind (rpc_from_cmd (co_host co) c) (\<lambda>req. rbind (socket_path (co_vars co)) (\<lambda>_. Inr req)) of
        Inl e \<Rightarrow> ([], [], [], Inl e)
      | Inr req \<Rightarrow>
          (case send_to co 0 req of
             (shown, Inl e) \<Rightarrow> ([req], [], lns shown, Inl e)
           | (shown, Inr v) \<Rightarrow> (case emit_rpc (co_terminal co) c v of (out, err, r) \<Rightarrow> ([req], out, lns shown @ err, r))))"

definition client_dispatch :: "console \<Rightarrow> cmd \<Rightarrow> json list \<times> emitted" where
  "client_dispatch co c = (case c of
       CmdDaemon \<Rightarrow> ([], [], [], co_daemon co)
     | CmdInstall \<Rightarrow> ([], [], [], co_install co)
     | CmdPair given name \<Rightarrow> dispatch_pair co given name
     | _ \<Rightarrow> if is_export c then dispatch_export co c else dispatch_rpc co c)"

section \<open>Starting\<close>

text \<open>\<open>bo_answers\<close>: whether a sidecar answers on the socket that is there.\<close>

record boot_env =
  bo_sock :: string
  bo_parent :: "unit res"
  bo_exists :: bool
  bo_answers :: bool
  bo_remove :: "unit res"
  bo_bind :: "unit res"
  bo_mode :: "unit res"

definition prepare_socket_path :: "boot_env \<Rightarrow> unit res" where
  "prepare_socket_path bo = rbind (bo_parent bo) (\<lambda>_.
     if bo_exists bo then (if bo_answers bo then Inl (Io (''already running at '' @ bo_sock bo)) else bo_remove bo)
     else Inr ())"

text \<open>What is served: the owner's socket only, or the network, the tray, notifications and the dispatcher too.\<close>

datatype service = OwnerOnly | Everything

definition serve_inner :: "ctx \<Rightarrow> pair_env \<Rightarrow> boot_env \<Rightarrow> node \<Rightarrow> service res \<times> node" where
  "serve_inner cx pe bo nd =
     (case rbind (prepare_socket_path bo) (\<lambda>_. rbind (bo_bind bo) (\<lambda>_. bo_mode bo)) of
        Inl e \<Rightarrow> (Inl e, nd)
      | Inr _ \<Rightarrow>
          (case repair_body_name cx nd of
             (Inl e, nd1) \<Rightarrow> (Inl e, nd1)
           | (Inr _, nd1) \<Rightarrow>
               (case validate_store (cx_crypto cx) pe (fst nd1) of
                  Inl e \<Rightarrow> (Inl e, nd1)
                | Inr _ \<Rightarrow> (case start_recovery cx nd1 of
                    (Inl e, nd2) \<Rightarrow> (Inr OwnerOnly, nd2)
                  | (Inr _, nd2) \<Rightarrow> (Inr Everything, nd2)))))"

text \<open>\<open>run_daemon\<close>: the runtime, the state directory, its lock and the store, then serving.\<close>

record daemon_env =
  dn_runtime :: "unit res"
  dn_dirs :: "string option option"
  dn_lock :: "unit res"
  dn_open :: "string \<Rightarrow> node res"
  dn_boot :: boot_env

definition run_daemon :: "ctx \<Rightarrow> pair_env \<Rightarrow> vars \<Rightarrow> daemon_env \<Rightarrow> (service \<times> node) res" where
  "run_daemon cx pe vs dn =
     rbind (dn_runtime dn) (\<lambda>_.
     rbind (state_dir vs (dn_dirs dn)) (\<lambda>dir.
     rbind (dn_lock dn) (\<lambda>_.
     rbind (dn_open dn dir) (\<lambda>nd.
     rbind (socket_path vs) (\<lambda>sock.
     case serve_inner cx pe ((dn_boot dn)\<lparr>bo_sock := sock\<rparr>) nd of
       (Inl e, _) \<Rightarrow> Inl e
     | (Inr service, nd') \<Rightarrow> Inr (service, nd'))))))"

text \<open>The owner loop: a connection is handled by a task of its own, an interrupted accept is tried again,
  any other error ends the loop.\<close>

datatype accepted = AcceptConn | AcceptInterrupted | AcceptFailed clix_error

fun local_loop :: "accepted list \<Rightarrow> nat \<times> clix_error option" where
  "local_loop [] = (0, None)"
| "local_loop (AcceptConn # as) = (case local_loop as of (n, e) \<Rightarrow> (Suc n, e))"
| "local_loop (AcceptInterrupted # as) = local_loop as"
| "local_loop (AcceptFailed e # as) = (0, Some e)"

section \<open>A start serves a sound state or nothing\<close>

lemma stopped_update: "st_write_error (fst nd) \<noteq> None \<Longrightarrow> \<exists>e. update cx edit nd = (Inl e, nd)"
  by (cases nd) (auto simp: update_def update_next_def ensure_writable_def split: option.splits sum.splits)

lemma validate_store_name: "validate_store cr pe s = Inr () \<Longrightarrow> validate_name (st_body_name s) = Inr ()"
  by (auto simp: validate_store_def result_simps)


end
