(* ===== verification/Clix_Address.thy ===== *)
theory Clix_Address
  imports Clix_Daemon Clix_Transport "HOL-Library.AList" "HOL-Library.Multiset"
begin

text \<open>
  Where a machine listens and whom it can dial: \<open>src/tailscale.rs\<close>, and the listener of \<open>src/mesh.rs\<close>.  The
  tailscale command, sockets and serde's parse are parameters; a \<open>HashMap\<close> is iterated in an order of
  its own.
\<close>

section \<open>The tailscale status\<close>

definition tailscale_is_off :: clix_error where
  "tailscale_is_off = Io ''Tailscale is off. Start it, then pair.''"

text \<open>\<open>Ipv4Addr\<close>: four decimal octets without leading zeros.\<close>

definition octet_ok :: "string \<Rightarrow> bool" where
  "octet_ok p \<longleftrightarrow> p \<noteq> [] \<and> length p \<le> 3 \<and> list_all is_digit p \<and> (length p = 1 \<or> hd p \<noteq> CHR ''0'') \<and> digits_value 0 p \<le> 255"

definition ipv4_ok :: "string \<Rightarrow> bool" where
  "ipv4_ok t \<longleftrightarrow> (let ps = split_char CHR ''.'' t in length ps = 4 \<and> list_all octet_ok ps)"

definition first_ipv4 :: "string list \<Rightarrow> string option" where
  "first_ipv4 ips = List.find ipv4_ok ips"

record tail_node =
  tn_host :: string
  tn_ips :: "string list option"
  tn_online :: bool

record tail_raw =
  tr_state :: string
  tr_self :: "tail_node option"
  tr_peer :: "(string \<times> tail_node) list option"

definition tail_node_of_json :: "json \<Rightarrow> tail_node option" where
  "tail_node_of_json v =
     Option.bind (Clix_Json.fields 0 [''HostName'', ''TailscaleIPs'', ''Online''] v) (\<lambda>m.
     Option.bind (fld_default m ''HostName'' as_str []) (\<lambda>h.
     Option.bind (fld_default m ''TailscaleIPs'' (as_opt (as_list as_str)) None) (\<lambda>ips.
     Option.bind (fld_default m ''Online'' as_bool False) (\<lambda>on.
     Some \<lparr>tn_host = h, tn_ips = ips, tn_online = on\<rparr>))))"

text \<open>A map: of two members with one key the later wins.\<close>

definition tail_peers_of_json :: "json \<Rightarrow> (string \<times> tail_node) list option" where
  "tail_peers_of_json v = (case v of
       JObj kvs \<Rightarrow> map_option (\<lambda>ns. fold (\<lambda>(k, n). AList.update k n) ns [])
         (collect (\<lambda>(k, x). map_option (Pair k) (tail_node_of_json x)) kvs)
     | _ \<Rightarrow> None)"

definition tail_raw_of_json :: "json \<Rightarrow> tail_raw option" where
  "tail_raw_of_json v =
     Option.bind (Clix_Json.fields 3 [''BackendState'', ''Self'', ''Peer''] v) (\<lambda>m.
     Option.bind (fld m ''BackendState'' as_str) (\<lambda>st.
     Option.bind (fld_opt m ''Self'' tail_node_of_json) (\<lambda>self.
     Option.bind (fld_opt m ''Peer'' tail_peers_of_json) (\<lambda>ps.
     Some \<lparr>tr_state = st, tr_self = self, tr_peer = ps\<rparr>))))"

record peer_addr =
  pa_name :: string
  pa_ipv4 :: string

record tail_status =
  tl_self_name :: string
  tl_self_ipv4 :: string
  tl_peers :: "peer_addr list"

record tail_env =
  te_parse :: "string \<Rightarrow> string + json"
  te_decode_error :: "json \<Rightarrow> string"
  te_order :: "(string \<times> tail_node) list \<Rightarrow> (string \<times> tail_node) list"
  te_output :: "string \<Rightarrow> (bool \<times> string option) option"

definition ips_of :: "tail_node \<Rightarrow> string list" where
  "ips_of n = (case tn_ips n of Some ips \<Rightarrow> ips | None \<Rightarrow> [])"

text \<open>A node that can be dialled: online, with an address, and not this machine.\<close>

definition dialable :: "string \<Rightarrow> tail_node \<Rightarrow> peer_addr option" where
  "dialable self n =
     (if \<not> tn_online n then None
      else Option.bind (first_ipv4 (ips_of n)) (\<lambda>ip.
           if ip = self then None else Some \<lparr>pa_name = tn_host n, pa_ipv4 = ip\<rparr>))"

definition parse_status :: "tail_env \<Rightarrow> string \<Rightarrow> tail_status res" where
  "parse_status te text =
     rbind (case te_parse te text of Inl m \<Rightarrow> Inl (Json m)
       | Inr v \<Rightarrow> ok_or (tail_raw_of_json v) (Json (te_decode_error te v))) (\<lambda>raw.
     if tr_state raw \<noteq> ''Running'' then Inl tailscale_is_off
     else rbind (ok_or (tr_self raw) tailscale_is_off) (\<lambda>self.
          rbind (ok_or (first_ipv4 (ips_of self)) tailscale_is_off) (\<lambda>ip.
          Inr \<lparr>tl_self_name = tn_host self, tl_self_ipv4 = ip,
            tl_peers = sort_key pa_name (List.map_filter (\<lambda>(_, n). dialable ip n)
              (te_order te (case tr_peer raw of Some ps \<Rightarrow> ps | None \<Rightarrow> [])))\<rparr>)))"

definition tailscale_bin :: "vars \<Rightarrow> string" where
  "tailscale_bin vs = (case set_var vs ''CLIX_TAILSCALE'' of Some b \<Rightarrow> b | None \<Rightarrow> ''tailscale'')"

text \<open>The command's success and its output, if it ran and the output is UTF-8.\<close>

definition status_from :: "tail_env \<Rightarrow> string \<Rightarrow> tail_status res" where
  "status_from te bin =
     rbind (ok_or (te_output te bin) tailscale_is_off) (\<lambda>(success, stdout).
     if \<not> success then Inl tailscale_is_off
     else rbind (ok_or stdout tailscale_is_off) (parse_status te))"

definition tailscale_status :: "tail_env \<Rightarrow> vars \<Rightarrow> peer_addr list res" where
  "tailscale_status te vs = rbind (status_from te (tailscale_bin vs)) (\<lambda>st. Inr (tl_peers st))"

definition mesh_port :: "vars \<Rightarrow> nat" where
  "mesh_port vs = (case Option.bind (vs ''CLIX_PORT'') (parse_uint 65535) of
       Some p \<Rightarrow> if p \<noteq> 0 then p else 7421
     | None \<Rightarrow> 7421)"

definition mesh_bind_addr :: "tail_env \<Rightarrow> vars \<Rightarrow> string res" where
  "mesh_bind_addr te vs = rbind (status_from te (tailscale_bin vs)) (\<lambda>st.
     Inr (tl_self_ipv4 st @ '':'' @ decimal (mesh_port vs)))"

definition listen_addr :: "tail_env \<Rightarrow> vars \<Rightarrow> string res" where
  "listen_addr te vs = (case set_var vs ''CLIX_MESH_BIND'' of Some b \<Rightarrow> Inr b | None \<Rightarrow> mesh_bind_addr te vs)"

section \<open>Listening\<close>

text \<open>\<open>bind\<close>: the address the listener got.  \<open>run\<close>: the accepted connections until accepting fails.\<close>

record attempt =
  at_tail :: tail_env
  at_vars :: vars
  at_bind :: "string \<Rightarrow> string res"
  at_store :: store
  at_accepted :: nat
  at_ended :: clix_error

definition mesh_run :: "tls_lib \<Rightarrow> store \<Rightarrow> nat \<Rightarrow> clix_error \<Rightarrow> nat \<times> clix_error" where
  "mesh_run lb s n ended_by = (case server_config lb s of Inl e \<Rightarrow> (0, e) | Inr _ \<Rightarrow> (n, ended_by))"

text \<open>One attempt: what the handle shows while it lasts, how many connections it took, how it ended.\<close>

definition mesh_attempt :: "tls_lib \<Rightarrow> attempt \<Rightarrow> mesh_handle \<Rightarrow> mesh_handle \<times> nat \<times> clix_error" where
  "mesh_attempt lb at h = (case rbind (listen_addr (at_tail at) (at_vars at)) (at_bind at) of
       Inl e \<Rightarrow> (h, 0, e)
     | Inr addr \<Rightarrow> (set_addr addr h, mesh_run lb (at_store at) (at_accepted at) (at_ended at)))"

text \<open>\<open>run_available\<close>: attempts for ever; a message is printed when the error is not the last one printed.\<close>

definition availability_step :: "tls_lib \<Rightarrow> attempt \<Rightarrow> mesh_handle \<times> string \<Rightarrow> (mesh_handle \<times> string) \<times> string list" where
  "availability_step lb at st = (case st of (h, previous) \<Rightarrow>
     (case mesh_attempt lb at h of (h1, _, e) \<Rightarrow>
        ((set_addr [] h1, error_text e),
         if previous \<noteq> error_text e
         then [''mesh unavailable: '' @ error_text e @ ''; local owner commands remain available''] else [])))"

fun run_available :: "tls_lib \<Rightarrow> attempt list \<Rightarrow> mesh_handle \<times> string \<Rightarrow> (mesh_handle \<times> string) \<times> string list" where
  "run_available lb [] st = (st, [])"
| "run_available lb (at # ats) st = (case availability_step lb at st of (st1, out) \<Rightarrow>
     (case run_available lb ats st1 of (st2, out') \<Rightarrow> (st2, out @ out')))"

section \<open>The status lists exactly the machines that can be dialled\<close>

lemma mset_map_filter: "mset (List.map_filter f xs) = image_mset (the \<circ> f) (filter_mset (\<lambda>x. f x \<noteq> None) (mset xs))"
  by (induction xs) (auto simp: List.map_filter_def split: option.splits)

lemma octets_ok: "ipv4_ok t \<Longrightarrow> length (split_char CHR ''.'' t) = 4"
  by (simp add: ipv4_ok_def Let_def)

text \<open>The machines offered for pairing are exactly the online nodes of the tailnet that have an IPv4
  address other than this machine's, each under its first one, ordered by name, whatever order the map
  is iterated in; nothing is offered unless tailscale runs and this machine has an address.\<close>

theorem status_lists_dialable:
  assumes "parse_status te text = Inr st" and order: "\<And>xs. mset (te_order te xs) = mset xs"
  shows "\<exists>v raw self. te_parse te text = Inr v \<and> tail_raw_of_json v = Some raw \<and> tr_state raw = ''Running'' \<and>
    tr_self raw = Some self \<and> first_ipv4 (ips_of self) = Some (tl_self_ipv4 st) \<and> ipv4_ok (tl_self_ipv4 st) \<and>
    sorted (map pa_name (tl_peers st)) \<and>
    mset (tl_peers st) = mset (List.map_filter (\<lambda>(_, n). dialable (tl_self_ipv4 st) n)
      (case tr_peer raw of Some ps \<Rightarrow> ps | None \<Rightarrow> [])) \<and>
    (\<forall>p \<in> set (tl_peers st). ipv4_ok (pa_ipv4 p) \<and> pa_ipv4 p \<noteq> tl_self_ipv4 st)"
proof -
  from assms(1) obtain v raw self ip where steps: "te_parse te text = Inr v" "tail_raw_of_json v = Some raw"
      "tr_state raw = ''Running''" "tr_self raw = Some self" "first_ipv4 (ips_of self) = Some ip"
      and st: "tl_self_ipv4 st = ip" "tl_peers st = sort_key pa_name (List.map_filter (\<lambda>(_, n). dialable ip n)
        (te_order te (case tr_peer raw of Some ps \<Rightarrow> ps | None \<Rightarrow> [])))"
    unfolding parse_status_def by (auto simp: result_simps split: sum.splits if_splits)
  have found: "first_ipv4 ips = Some a \<Longrightarrow> ipv4_ok a" for ips a
    using find_Some_set [of ipv4_ok ips a] by (simp add: first_ipv4_def)
  have "\<forall>p \<in> set (tl_peers st). ipv4_ok (pa_ipv4 p) \<and> pa_ipv4 p \<noteq> ip"
    using found by (auto simp: st(2) List.map_filter_def dialable_def split: if_splits option.splits bind_splits)
  moreover have "mset (tl_peers st) = mset (List.map_filter (\<lambda>(_, n). dialable ip n) (case tr_peer raw of Some ps \<Rightarrow> ps | None \<Rightarrow> []))"
    by (simp add: st(2) mset_map_filter order)
  moreover have "sorted (map pa_name (tl_peers st))" by (simp add: st(2))
  ultimately show ?thesis using steps st(1) found by blast
qed

text \<open>While no listener is up the handle shows no address.\<close>

lemma available_addr: "run_available lb (at # ats) st = (st', out) \<Longrightarrow> mh_addr (fst st') = []"
proof (induction ats arbitrary: at st out)
  case Nil
  then show ?case by (auto simp: availability_step_def set_addr_def split: prod.splits)
next
  case (Cons b ats)
  from Cons.prems obtain st1 out1 where "run_available lb (b # ats) st1 = (st', out1)"
    by (simp add: prod.case_eq_if) (metis prod.collapse)
  then show ?case by (rule Cons.IH)
qed

end
