(* ===== verification/Clix_Install.thy ===== *)
theory Clix_Install
  imports Clix_Daemon
begin

text \<open>
  \<open>src/install.rs\<close>: the systemd unit of the sidecar and how it is enabled.  What systemd reads from the unit
  is written out for the part the program relies on, the quoting of the command line.
\<close>

section \<open>Texts\<close>

definition newline :: string where "newline = [CHR 0x0A]"

definition UNIT_TEMPLATE :: string where
  "UNIT_TEMPLATE = concat (map (\<lambda>l. l @ newline)
     [''[Unit]'', ''Description=Clix sidecar'', [], ''[Service]'', ''ExecStart=/usr/bin/clix daemon'', ''Restart=on-failure'',
      ''RestartSec=2'', [], ''[Install]'', ''WantedBy=default.target''])"

definition DEFAULT_EXE :: string where "DEFAULT_EXE = ''/usr/bin/clix''"

text \<open>\<open>str::replace\<close>, for a pattern that is not empty.\<close>

function replace_all :: "string \<Rightarrow> string \<Rightarrow> string \<Rightarrow> string" where
  "replace_all pat new [] = []"
| "replace_all pat new (c # cs) =
     (if pat \<noteq> [] \<and> take (length pat) (c # cs) = pat then new @ replace_all pat new (drop (length pat - 1) cs)
      else c # replace_all pat new cs)"
  by pat_completeness auto
termination by (relation "measure (\<lambda>(pat, new, s). length s)") auto

definition must_quote :: "string \<Rightarrow> bool" where
  "must_quote path \<longleftrightarrow> list_ex (\<lambda>i. drop_ws (drop i path) \<noteq> None) [0..<length path] \<or>
     list_ex (\<lambda>c. c = CHR 0x22 \<or> c = CHR 0x5C \<or> c = CHR 0x27) path"

definition systemd_quote :: "string \<Rightarrow> string" where
  "systemd_quote path =
     (if must_quote path
      then [CHR 0x22] @ replace_all [CHR 0x22] [CHR 0x5C, CHR 0x22] (replace_all [CHR 0x5C] [CHR 0x5C, CHR 0x5C] path) @ [CHR 0x22]
      else path)"

section \<open>Installing\<close>

text \<open>\<open>is_systemctl\<close>: whether the command could be run (a text if not) and succeeded; \<open>is_ready\<close>: the probes of
  the sidecar before the deadline.\<close>

record install_env =
  is_vars :: vars
  is_exe :: "string option res"
  is_mkdir :: "string \<Rightarrow> unit res"
  is_write :: "string \<Rightarrow> string \<Rightarrow> unit res"
  is_systemctl :: "string \<Rightarrow> string list \<Rightarrow> string + bool"
  is_loginctl :: "string \<Rightarrow> (bool \<times> string) option"
  is_ready :: "bool list"

definition systemd_dir :: "vars \<Rightarrow> string res" where
  "systemd_dir vs = (case set_var vs ''CLIX_SYSTEMD_DIR'' of
       Some d \<Rightarrow> Inr d
     | None \<Rightarrow> (case set_var vs ''XDG_CONFIG_HOME'' of
         Some d \<Rightarrow> Inr (path_join d ''systemd/user'')
       | None \<Rightarrow> (case set_var vs ''HOME'' of
           Some d \<Rightarrow> Inr (path_join d ''.config/systemd/user'')
         | None \<Rightarrow> Inl (Io ''cannot determine systemd user directory''))))"

text \<open>The path of the running program, \<open>None\<close> if it is not UTF-8.\<close>

definition current_bin :: "install_env \<Rightarrow> string res" where
  "current_bin ie = rbind (is_exe ie) (\<lambda>exe. ok_or exe (Io ''clix path is not utf-8''))"

definition unit_text :: "install_env \<Rightarrow> string res" where
  "unit_text ie = rbind (current_bin ie) (\<lambda>exe. Inr (replace_all DEFAULT_EXE (systemd_quote exe) UNIT_TEMPLATE))"

definition write_unit :: "install_env \<Rightarrow> unit res" where
  "write_unit ie =
     rbind (systemd_dir (is_vars ie)) (\<lambda>dir.
     rbind (is_mkdir ie dir) (\<lambda>_.
     rbind (unit_text ie) (\<lambda>t. is_write ie (path_join dir ''clix.service'') t)))"

definition dir_overridden :: "vars \<Rightarrow> bool" where
  "dir_overridden vs \<longleftrightarrow> set_var vs ''CLIX_SYSTEMD_DIR'' \<noteq> None"

definition join_words :: "string list \<Rightarrow> string" where
  "join_words ws = (case ws of [] \<Rightarrow> [] | w # r \<Rightarrow> w @ concat (map (\<lambda>x. '' '' @ x) r))"

definition run_systemctl :: "install_env \<Rightarrow> string list \<Rightarrow> unit res" where
  "run_systemctl ie args =
     (let bin = (case is_vars ie ''CLIX_SYSTEMCTL'' of Some b \<Rightarrow> b | None \<Rightarrow> ''systemctl'')
      in case is_systemctl ie bin (''--user'' # args) of
           Inl m \<Rightarrow> Inl (Io (''systemctl: '' @ m))
         | Inr success \<Rightarrow> if success then Inr () else Inl (Io (''systemctl --user '' @ join_words args @ '' failed'')))"

definition enable_now :: "install_env \<Rightarrow> unit res" where
  "enable_now ie =
     (if dir_overridden (is_vars ie) then Inr ()
      else rbind (run_systemctl ie [''daemon-reload'']) (\<lambda>_. run_systemctl ie [''enable'', ''--now'', ''clix.service'']))"

definition linger_enabled :: "install_env \<Rightarrow> bool option" where
  "linger_enabled ie =
     Option.bind (is_vars ie ''USER'') (\<lambda>user.
     Option.bind (is_loginctl ie user) (\<lambda>(success, out).
     if \<not> success then None
     else if trim out = ''yes'' then Some True else if trim out = ''no'' then Some False else None))"

text \<open>The note printed when the user does not linger.\<close>

definition advise_linger :: "install_env \<Rightarrow> string list" where
  "advise_linger ie =
     (if linger_enabled ie = Some True then []
      else let target = (case set_var (is_vars ie) ''USER'' of Some u \<Rightarrow> '' '' @ u | None \<Rightarrow> [])
           in [''Note: enable lingering so Clix keeps running without an active login session (needed on a headless server):'',
               ''    loginctl enable-linger'' @ target])"

definition install :: "install_env \<Rightarrow> string list \<times> unit res" where
  "install ie =
     (case rbind (write_unit ie) (\<lambda>_. enable_now ie) of
        Inl e \<Rightarrow> ([], Inl e)
      | Inr _ \<Rightarrow>
          if dir_overridden (is_vars ie) then ([], Inr ())
          else (advise_linger ie, rbind (socket_path (is_vars ie)) (\<lambda>_.
            if list_ex (\<lambda>ready. ready) (is_ready ie) then Inr ()
            else Inl (Io ''Clix did not become ready. Inspect journalctl --user -u clix.service''))))"

section \<open>The unit runs this program\<close>

text \<open>How systemd reads the program's path at the start of a command line: quoted, with backslash escapes of
  a quote or a backslash, or up to the first space.  Specifiers (\<open>%\<close>) are expanded afterwards.\<close>

fun read_quoted :: "string \<Rightarrow> (string \<times> string) option" where
  "read_quoted [] = None"
| "read_quoted (c # cs) =
     (if c = CHR 0x22 then Some ([], cs)
      else if c = CHR 0x5C then (case cs of d # ds \<Rightarrow>
          if d = CHR 0x22 \<or> d = CHR 0x5C then map_option (\<lambda>(w, r). (d # w, r)) (read_quoted ds) else None
        | [] \<Rightarrow> None)
      else map_option (\<lambda>(w, r). (c # w, r)) (read_quoted cs))"

definition read_program :: "string \<Rightarrow> (string \<times> string) option" where
  "read_program line = (case line of
       [] \<Rightarrow> None
     | c # cs \<Rightarrow> if c = CHR 0x22 then read_quoted cs
         else Some (takeWhile (\<lambda>x. x \<noteq> CHR '' '') line, dropWhile (\<lambda>x. x \<noteq> CHR '' '') line))"

definition split_lines :: "string \<Rightarrow> string list" where
  "split_lines s = split_char (CHR 0x0A) s"

text \<open>Specifiers: \<open>%%\<close> is a percent sign, any other one stands for a text of the system's.\<close>

fun expand :: "(char \<Rightarrow> string) \<Rightarrow> string \<Rightarrow> string" where
  "expand spec (c # d # s) =
     (if c = CHR ''%'' then (if d = CHR ''%'' then [d] else spec d) @ expand spec s else c # expand spec (d # s))"
| "expand spec s = s"

definition runs :: "(char \<Rightarrow> string) \<Rightarrow> string \<Rightarrow> (string \<times> string) option" where
  "runs spec line = map_option (\<lambda>(program, rest). (expand spec program, rest)) (read_program line)"

lemma expand_plain: "CHR ''%'' \<notin> set s \<Longrightarrow> expand spec s = s"
  by (induction spec s rule: expand.induct) auto

text \<open>The command lines of a unit.\<close>

definition exec_lines :: "string \<Rightarrow> string list" where
  "exec_lines t = List.map_filter (\<lambda>l. if take 10 l = ''ExecStart='' then Some (drop 10 l) else None) (split_lines t)"

definition escape :: "char \<Rightarrow> string" where
  "escape c = (if c = CHR 0x5C then [CHR 0x5C, CHR 0x5C] else if c = CHR 0x22 then [CHR 0x5C, CHR 0x22] else [c])"

lemma replace_char: "replace_all [a] new s = concat (map (\<lambda>c. if c = a then new else [c]) s)"
proof (induction s)
  case (Cons c s)
  then show ?case by (cases "c = a") simp_all
qed simp

lemma replace_escapes:
  "replace_all [CHR 0x22] [CHR 0x5C, CHR 0x22] (replace_all [CHR 0x5C] [CHR 0x5C, CHR 0x5C] s) = concat (map escape s)"
  unfolding replace_char
proof (induction s)
  case (Cons c s)
  then show ?case by (simp add: escape_def)
qed simp

lemma read_escape: "read_quoted (escape c @ s) = map_option (\<lambda>(w, r). (c # w, r)) (read_quoted s)"
  by (simp add: escape_def)

lemma read_escaped:
  "read_quoted (replace_all [CHR 0x22] [CHR 0x5C, CHR 0x22] (replace_all [CHR 0x5C] [CHR 0x5C, CHR 0x5C] s) @ CHR 0x22 # rest) =
     Some (s, rest)"
  unfolding replace_escapes
proof (induction s)
  case (Cons c s)
  then show ?case by (simp add: read_escape del: read_quoted.simps)
qed simp

lemma unquoted_plain:
  assumes "\<not> must_quote s"
  shows "takeWhile (\<lambda>x. x \<noteq> CHR '' '') (s @ '' daemon'') = s \<and> dropWhile (\<lambda>x. x \<noteq> CHR '' '') (s @ '' daemon'') = '' daemon'' \<and>
    (s \<noteq> [] \<longrightarrow> hd s \<noteq> CHR 0x22)"
proof -
  have "CHR '' '' \<notin> set s"
  proof
    assume "CHR '' '' \<in> set s"
    then obtain i where "i < length s" "s ! i = CHR '' ''" by (auto simp: in_set_conv_nth)
    then have "drop i s = CHR '' '' # drop (Suc i) s" using Cons_nth_drop_Suc by metis
    then have "drop_ws (drop i s) \<noteq> None" by (simp add: ws1_def)
    with assms \<open>i < length s\<close> show False by (auto simp: must_quote_def list_ex_iff)
  qed
  moreover have "\<forall>c \<in> set s. c \<noteq> CHR 0x22" using assms by (auto simp: must_quote_def list_ex_iff)
  moreover have "\<forall>x \<in> set s. x \<noteq> CHR '' ''" using calculation(1) by metis
  ultimately show ?thesis by (cases "s = []") (simp_all add: takeWhile_append2 dropWhile_append2)
qed

lemma read_systemd_quote: "s \<noteq> [] \<Longrightarrow> read_program (systemd_quote s @ '' daemon'') = Some (s, '' daemon'')"
  using unquoted_plain [of s] read_escaped [of s "'' daemon''"]
  by (cases s) (auto simp: systemd_quote_def read_program_def)

text \<open>\<open>%\<close> is a specifier of systemd's, and the quoting does not escape it: another path is run.\<close>

lemma percent_expanded:
  "runs (\<lambda>_. ''root'') (systemd_quote ''/opt/%u/clix'' @ '' daemon'') = Some (''/opt/root/clix'', '' daemon'')"
  by (simp add: runs_def systemd_quote_def must_quote_def read_program_def ws1_def ws2_def ws3_def upt_rec)

lemma template_parts:
  "replace_all DEFAULT_EXE new UNIT_TEMPLATE =
     ''[Unit]'' @ newline @ ''Description=Clix sidecar'' @ newline @ newline @ ''[Service]'' @ newline @ ''ExecStart='' @ new @
     '' daemon'' @ newline @ ''Restart=on-failure'' @ newline @ ''RestartSec=2'' @ newline @ newline @ ''[Install]'' @ newline @
     ''WantedBy=default.target'' @ newline"
  by (simp add: DEFAULT_EXE_def UNIT_TEMPLATE_def newline_def)

lemma quoted_chars: "c \<in> set (systemd_quote s) \<Longrightarrow> c \<in> set s \<or> c = CHR 0x22 \<or> c = CHR 0x5C"
  unfolding systemd_quote_def replace_escapes by (auto simp: escape_def split: if_splits)

lemma exec_lines_skip:
  "CHR 0x0A \<notin> set a \<Longrightarrow> take 10 a \<noteq> ''ExecStart='' \<Longrightarrow> exec_lines (a @ newline @ b) = exec_lines b"
  by (simp add: exec_lines_def split_lines_def newline_def split_char_append split_char_no_sep List.map_filter_def)

lemma exec_lines_exec:
  "CHR 0x0A \<notin> set a \<Longrightarrow> exec_lines (''ExecStart='' @ a @ newline @ b) = a # exec_lines b"
proof -
  assume "CHR 0x0A \<notin> set a"
  then have "split_lines ((''ExecStart='' @ a) @ CHR 0x0A # b) = (''ExecStart='' @ a) # split_lines b"
    by (simp only: split_lines_def split_char_append) (simp add: split_char_no_sep)
  then show ?thesis by (simp add: exec_lines_def newline_def List.map_filter_def)
qed

lemma unit_exec_lines:
  assumes "CHR 0x0A \<notin> set new"
  shows "exec_lines (replace_all DEFAULT_EXE new UNIT_TEMPLATE) = [new @ '' daemon'']"
proof -
  have last_empty: "exec_lines (''WantedBy=default.target'' @ newline) = []"
    using exec_lines_skip [of "''WantedBy=default.target''" "[]"] by (simp add: exec_lines_def split_lines_def List.map_filter_def)
  have "CHR 0x0A \<notin> set (new @ '' daemon'')" using assms by simp
  note exec = exec_lines_exec [OF this]
  have blank: "exec_lines (newline @ b) = exec_lines b" for b using exec_lines_skip [of "[]" b] by simp
  have plain: "exec_lines (''[Unit]'' @ newline @ b) = exec_lines b"
    "exec_lines (''Description=Clix sidecar'' @ newline @ b) = exec_lines b"
    "exec_lines (''[Service]'' @ newline @ b) = exec_lines b"
    "exec_lines (''Restart=on-failure'' @ newline @ b) = exec_lines b"
    "exec_lines (''RestartSec=2'' @ newline @ b) = exec_lines b"
    "exec_lines (''[Install]'' @ newline @ b) = exec_lines b" for b
    by (rule exec_lines_skip, simp, simp)+
  show ?thesis unfolding template_parts plain blank exec [unfolded append_assoc] last_empty ..
qed


end
