(* ===== verification/Clix_Desktop.thy ===== *)
theory Clix_Desktop
  imports Clix_Install
begin

text \<open>
  \<open>src/tray.rs\<close> and \<open>src/notify.rs\<close>: the tray's texts and menu, the notification loop and the decisions either
  sends.  Showing a menu or a notification is the desktop's; what is shown, how often, and what a chosen
  action does to the store is modelled.
\<close>

section \<open>The tray\<close>

definition tray_tooltip :: "store \<Rightarrow> string" where
  "tray_tooltip s =
     (if st_requests s = [] then
        (case List.find (\<lambda>j. j_status j = Running) (rev (st_jobs s)) of
           Some j \<Rightarrow> (case j_argv j of [] \<Rightarrow> ''?'' | tool # _ \<Rightarrow> tool) @ '' from '' @ j_from j
         | None \<Rightarrow> ''Clix is running'')
      else if length (st_requests s) = 1 then ''1 request''
      else decimal (length (st_requests s)) @ '' requests'')"

text \<open>A menu entry and what activating it does.\<close>

datatype tray_action = Decide string decision | Quit | Nothing

datatype menu_item = StandardItem string bool tray_action | SubMenu string bool "menu_item list"

fun item_enabled :: "menu_item \<Rightarrow> bool" where
  "item_enabled (StandardItem l e a) \<longleftrightarrow> e"
| "item_enabled (SubMenu l e sub) \<longleftrightarrow> e"

definition menu_label :: "string \<Rightarrow> string" where
  "menu_label s = replace_all ''_'' ''__'' s"

definition pending_items_empty :: "menu_item list" where
  "pending_items_empty = [StandardItem ''No pending requests'' False Nothing]"

definition native_choices :: "(string \<times> string) list" where
  "native_choices = [(''once'', ''Allow once''), (''allow'', ''Allow this machine''), (''deny'', ''Deny'')]"

text \<open>Every action of the menu is known; an unknown one would stop the program.\<close>

definition choice_item :: "request \<Rightarrow> string \<times> string \<Rightarrow> menu_item" where
  "choice_item r c = (case c of (action, label) \<Rightarrow>
     StandardItem label True (case from_action action of Inr d \<Rightarrow> Decide (r_id r) d | Inl e \<Rightarrow> Nothing))"

definition pending_items :: "store \<Rightarrow> menu_item list" where
  "pending_items s =
     (if st_requests s = [] then pending_items_empty
      else map (\<lambda>r. SubMenu (menu_label (r_from r @ '' wants '' @ r_tool r)) True (map (choice_item r) native_choices))
             (st_requests s))"

definition hands_items :: "store \<Rightarrow> menu_item list" where
  "hands_items s = map (\<lambda>g. StandardItem (menu_label (g_tool g)) False Nothing) (st_grants s)"

text \<open>The menu of a store, or of none once the sidecar has dropped it.\<close>

definition tray_menu :: "store option \<Rightarrow> menu_item list" where
  "tray_menu so = (case (case so of Some s \<Rightarrow> (pending_items s, hands_items s) | None \<Rightarrow> (pending_items_empty, [])) of
     (asked, granted) \<Rightarrow>
       [SubMenu (''Pending'' @ ellipsis) (list_ex item_enabled asked) asked,
        SubMenu ''Grants'' (granted \<noteq> []) granted,
        StandardItem ''Quit daemon'' True Quit])"

definition tray_icon :: bytes where
  "tray_icon = concat (map (\<lambda>y. concat (map (\<lambda>x.
     if 3 \<le> x \<and> x < 13 \<and> 3 \<le> y \<and> y < 13 then [0xff, 0x2a, 0x9d, 0x8f] else [0, 0, 0, 0]) [0..<16])) [0..<(16::nat)])"

text \<open>A refused decision is reported on standard error.\<close>

definition tray_decide :: "ctx \<Rightarrow> host \<Rightarrow> string \<Rightarrow> decision \<Rightarrow> node \<Rightarrow> node" where
  "tray_decide cx h i d nd = snd (update cx (decide h i d) nd)"

text \<open>\<open>None\<close>: the process ends.\<close>

definition activate :: "ctx \<Rightarrow> host \<Rightarrow> tray_action \<Rightarrow> node \<Rightarrow> node option" where
  "activate cx h a nd = (case a of
       Decide i d \<Rightarrow> Some (tray_decide cx h i d nd) | Quit \<Rightarrow> None | Nothing \<Rightarrow> Some nd)"

section \<open>Whether there is a desktop\<close>

text \<open>The entries of a directory that could be read, each with its name unless reading it failed.\<close>

record desktop =
  dt_vars :: vars
  dt_runtime :: "string option list option"
  dt_x11 :: "string option list option"

definition display_present :: "desktop \<Rightarrow> bool" where
  "display_present dt \<longleftrightarrow>
     set_var (dt_vars dt) ''DISPLAY'' \<noteq> None \<or> set_var (dt_vars dt) ''WAYLAND_DISPLAY'' \<noteq> None \<or>
     (dt_vars dt ''XDG_RUNTIME_DIR'' \<noteq> None \<and>
      (case dt_runtime dt of None \<Rightarrow> False
       | Some es \<Rightarrow> list_ex (\<lambda>e. case e of None \<Rightarrow> False
           | Some name \<Rightarrow> take 8 name = ''wayland-'' \<and> \<not> ends_with ''.lock'' name) es)) \<or>
     (case dt_x11 dt of None \<Rightarrow> False | Some es \<Rightarrow> es \<noteq> [])"

definition notify_enabled :: "desktop \<Rightarrow> bool" where
  "notify_enabled dt \<longleftrightarrow> dt_vars dt ''CLIX_NOTIFY'' \<noteq> Some ''0'' \<and> display_present dt"

definition tray_enabled :: "desktop \<Rightarrow> bool" where
  "tray_enabled dt \<longleftrightarrow> (case dt_vars dt ''CLIX_TRAY'' of
     Some v \<Rightarrow> if v = ''0'' then False else display_present dt | None \<Rightarrow> display_present dt)"

section \<open>Notifications\<close>

text \<open>A round of the loop: the requests pending, whether a hook is set, the desktop and whether showing
  succeeds, each when the request's turn comes.\<close>

record notify_round =
  nr_pending :: "request list"
  nr_hook :: "request \<Rightarrow> bool"
  nr_desktop :: "request \<Rightarrow> desktop"
  nr_shown :: "request \<Rightarrow> bool"

datatype notify_event = Hooked request | Shown request | NotShown request

type_synonym notify_state = "string set \<times> string set"

definition notify_one :: "notify_round \<Rightarrow> request \<Rightarrow> notify_state \<Rightarrow> notify_state \<times> notify_event list" where
  "notify_one nr r st = (case st of (observed, delivered) \<Rightarrow>
     (let hooked = (if r_id r \<notin> observed \<and> nr_hook nr r then [Hooked r] else []);
          observed' = insert (r_id r) observed
      in if r_id r \<notin> delivered \<and> notify_enabled (nr_desktop nr r)
         then if nr_shown nr r then ((observed', insert (r_id r) delivered), hooked @ [Shown r])
              else ((observed', delivered), hooked @ [NotShown r])
         else ((observed', delivered), hooked)))"

fun notify_all :: "notify_round \<Rightarrow> request list \<Rightarrow> notify_state \<Rightarrow> notify_state \<times> notify_event list" where
  "notify_all nr [] st = (st, [])"
| "notify_all nr (r # rs) st =
     (case notify_one nr r st of (st1, ev) \<Rightarrow> case notify_all nr rs st1 of (st2, evs) \<Rightarrow> (st2, ev @ evs))"

definition notify_step :: "notify_round \<Rightarrow> notify_state \<Rightarrow> notify_state \<times> notify_event list" where
  "notify_step nr st = (case st of (observed, delivered) \<Rightarrow>
     (let ids = r_id ` set (nr_pending nr)
      in notify_all nr (nr_pending nr) (observed \<inter> ids, delivered \<inter> ids)))"

fun notify_run :: "notify_round list \<Rightarrow> notify_state \<Rightarrow> notify_state \<times> notify_event list" where
  "notify_run [] st = (st, [])"
| "notify_run (nr # nrs) st =
     (case notify_step nr st of (st1, ev) \<Rightarrow> case notify_run nrs st1 of (st2, evs) \<Rightarrow> (st2, ev @ evs))"

text \<open>What a notification offers, and what its answer does; the sidecar may have stopped meanwhile.\<close>

definition ACTIONS :: "string list" where "ACTIONS = [''once'', ''allow'', ''deny'']"

definition notification_buttons :: "(string \<times> string) list" where
  "notification_buttons = [(''default'', ''Allow once''), (''once'', ''Allow once''), (''allow'', ''Allow''), (''deny'', ''Deny'')]"

definition notification_text :: "request \<Rightarrow> string" where
  "notification_text r = r_from r @ '' wants '' @ r_tool r @ '' on this machine''"

definition notification_action :: "ctx \<Rightarrow> host \<Rightarrow> request \<Rightarrow> string \<Rightarrow> node \<Rightarrow> node" where
  "notification_action cx h r action nd =
     (case from_action action of Inl e \<Rightarrow> nd | Inr d \<Rightarrow> tray_decide cx h (r_id r) d nd)"

section \<open>A decision taken outside the command line\<close>

lemma native_decisions: "from_action action = Inr d \<Longrightarrow> d = Deny \<or> d = Allow Requester (action \<noteq> ''allow'') None None"
  by (auto simp: from_action_def split: if_splits)

text \<open>What a native decision did: nothing but, at most, a recorded failure to write; or what its label says, to the request it names.\<close>

definition decided_only :: "string \<Rightarrow> decision \<Rightarrow> store \<Rightarrow> store \<Rightarrow> bool" where
  "decided_only i d s s' \<longleftrightarrow>
     s' = s \<or> (\<exists>e. s' = s\<lparr>st_write_error := Some e\<rparr>) \<or>
     (\<exists>req \<in> set (st_requests s). r_id req = i \<and> st_peers s' = st_peers s \<and> st_owner_sk s' = st_owner_sk s \<and>
        (case d of
           Deny \<Rightarrow> st_grants s' = st_grants s \<and> st_requests s' = remove_first (\<lambda>r. r_id r = i) (st_requests s)
         | Allow sc once until sched \<Rightarrow>
             (\<exists>g. st_grants s' = filter (\<lambda>x. g_tool x \<noteq> tool_key (r_tool req)) (st_grants s) @ [g] \<and>
               g_tool g = tool_key (r_tool req) \<and> g_allow_from g = Some [r_from req] \<and> g_once g = once \<and>
               st_requests s' = filter (\<lambda>r. tool_key (r_tool r) \<noteq> tool_key (r_tool req)) (st_requests s))))"

lemma native_decide:
  assumes "from_action action = Inr d" and "update cx (decide h i d) (s, disk) = (r, s', disk')"
  shows "decided_only i d s s'"
  using assms(2)
proof (cases rule: update_steps)
  case (saved v)
  with assms(2) obtain n where n: "decide h i d s = Inr (v, n)" and out: "outcome s' = outcome n"
    by (metis update_ok)
  have same: "st_grants s' = st_grants n" "st_requests s' = st_requests n" "st_peers s' = st_peers n"
    "st_owner_sk s' = st_owner_sk n"
    using out by (metis outcome_sel)+
  from native_decisions [OF assms(1)] show ?thesis
  proof
    assume d: "d = Deny"
    with n show ?thesis
      by (auto simp: decided_only_def decide_def same split: option.splits if_splits dest!: find_Some_set)
  next
    assume d: "d = Allow Requester (action \<noteq> ''allow'') None None"
    from n [unfolded d] show ?thesis
    proof (rule decide_allow)
      fix req allow g
      assume "req \<in> set (st_requests s)" "r_id req = i" "n = commit_grant g s" "allow = (case Requester of Requester \<Rightarrow> [r_from req] | Bodies bs \<Rightarrow> bs)"
        and b: "build_grant h s (r_tool req) allow (action \<noteq> ''allow'') None None None = Inr g"
      with build_grant_ok [OF b] show ?thesis
        unfolding decided_only_def d by (auto simp: same commit_grant_def invalidate_requests_def intro!: bexI [of _ req])
    qed
  qed
qed (auto simp: decided_only_def)

lemma stale_decide:
  assumes "update cx (decide h i d) (s, disk) = (r, s', disk')"
  shows "i \<notin> r_id ` set (st_requests s) \<longrightarrow> s' = s \<and> disk' = disk"
proof
  assume "i \<notin> r_id ` set (st_requests s)"
  then have "List.find (\<lambda>r. r_id r = i) (st_requests s) = None" by (auto simp: find_None_set)
  then have "\<exists>e. decide h i d s = Inl e" by (auto simp: decide_def)
  then have "\<exists>e. update_next cx (decide h i d) s = Inl e" by (cases "ensure_writable s") (auto simp: update_next_def)
  with assms show "s' = s \<and> disk' = disk" by (auto simp: update_def)
qed

lemma choice_decides:
  "StandardItem label e (Decide i d) = choice_item req (action, lbl) \<Longrightarrow> from_action action = Inr d \<and> i = r_id req \<and> label = lbl"
  by (auto simp: choice_item_def split: sum.splits)


text \<open>The same of a notification's answer, whatever it is.\<close>

lemma notification_decides:
  assumes "notification_action cx h req action (s, disk) = (s', disk')"
  shows "s' = s \<or> (\<exists>d. from_action action = Inr d \<and> decided_only (r_id req) d s s')"
proof (cases "from_action action")
  case (Inr d)
  with assms obtain r where "update cx (decide h (r_id req) d) (s, disk) = (r, s', disk')"
    by (simp add: notification_action_def tray_decide_def) (metis prod.collapse)
  from native_decide [OF Inr this] Inr show ?thesis by blast
qed (use assms in \<open>simp add: notification_action_def\<close>)

section \<open>A request is announced once\<close>

definition hooks_for :: "string \<Rightarrow> notify_event list \<Rightarrow> nat" where
  "hooks_for i evs = length (filter (\<lambda>ev. case ev of Hooked r \<Rightarrow> r_id r = i | _ \<Rightarrow> False) evs)"

definition shows_for :: "string \<Rightarrow> notify_event list \<Rightarrow> nat" where
  "shows_for i evs = length (filter (\<lambda>ev. case ev of Shown r \<Rightarrow> r_id r = i | _ \<Rightarrow> False) evs)"

lemma for_simps [simp]:
  "hooks_for i [] = 0" "shows_for i [] = 0"
  "hooks_for i (a @ b) = hooks_for i a + hooks_for i b" "shows_for i (a @ b) = shows_for i a + shows_for i b"
  by (simp_all add: hooks_for_def shows_for_def)

text \<open>Whether an identifier can be shown in a round.\<close>

definition showable :: "string \<Rightarrow> notify_round \<Rightarrow> bool" where
  "showable i nr \<longleftrightarrow> (\<exists>r \<in> set (nr_pending nr). r_id r = i \<and> notify_enabled (nr_desktop nr r) \<and> nr_shown nr r)"

definition hookable :: "string \<Rightarrow> notify_round \<Rightarrow> bool" where
  "hookable i nr \<longleftrightarrow> (\<exists>r \<in> set (nr_pending nr). r_id r = i \<and> nr_hook nr r)"

definition asks :: "string \<Rightarrow> notify_round \<Rightarrow> bool" where
  "asks i nr \<longleftrightarrow> i \<in> r_id ` set (nr_pending nr)"

lemma notify_one_own:
  assumes "notify_one nr r (obs, del) = ((obs', del'), evs)"
  shows "r_id r \<in> obs' \<and> (r_id r \<in> del' \<longleftrightarrow> r_id r \<in> del \<or> notify_enabled (nr_desktop nr r) \<and> nr_shown nr r) \<and>
    hooks_for (r_id r) evs = (if r_id r \<notin> obs \<and> nr_hook nr r then 1 else 0) \<and>
    shows_for (r_id r) evs = (if r_id r \<notin> del \<and> notify_enabled (nr_desktop nr r) \<and> nr_shown nr r then 1 else 0)"
  using assms by (auto simp: notify_one_def Let_def hooks_for_def shows_for_def split: if_splits)

lemma notify_one_other:
  assumes "notify_one nr r (obs, del) = ((obs', del'), evs)" and "i \<noteq> r_id r"
  shows "(i \<in> obs' \<longleftrightarrow> i \<in> obs) \<and> (i \<in> del' \<longleftrightarrow> i \<in> del) \<and> hooks_for i evs = 0 \<and> shows_for i evs = 0"
  using assms by (auto simp: notify_one_def Let_def hooks_for_def shows_for_def split: if_splits)

lemma notify_all_other:
  assumes "notify_all nr rs (obs, del) = ((obs', del'), evs)" and "i \<notin> r_id ` set rs"
  shows "(i \<in> obs' \<longleftrightarrow> i \<in> obs) \<and> (i \<in> del' \<longleftrightarrow> i \<in> del) \<and> hooks_for i evs = 0 \<and> shows_for i evs = 0"
  using assms
proof (induction rs arbitrary: obs del evs)
  case (Cons r rs)
  then show ?case
    by (auto split: prod.splits dest!: notify_one_other [of nr r obs del _ _ _ i])
qed simp

lemma notify_all_own:
  assumes "notify_all nr rs (obs, del) = ((obs', del'), evs)" and "distinct (map r_id rs)" and "r \<in> set rs"
  shows "r_id r \<in> obs' \<and> (r_id r \<in> del' \<longleftrightarrow> r_id r \<in> del \<or> notify_enabled (nr_desktop nr r) \<and> nr_shown nr r) \<and>
    hooks_for (r_id r) evs = (if r_id r \<notin> obs \<and> nr_hook nr r then 1 else 0) \<and>
    shows_for (r_id r) evs = (if r_id r \<notin> del \<and> notify_enabled (nr_desktop nr r) \<and> nr_shown nr r then 1 else 0)"
  using assms
proof (induction rs arbitrary: obs del evs)
  case (Cons q rs)
  obtain obs1 del1 ev1 evs2 where one: "notify_one nr q (obs, del) = ((obs1, del1), ev1)"
    and rest: "notify_all nr rs (obs1, del1) = ((obs', del'), evs2)" and evs: "evs = ev1 @ evs2"
    using Cons.prems(1) by (auto split: prod.splits)
  show ?case
  proof (cases "q = r")
    case True
    then have "r_id r \<notin> r_id ` set rs" using Cons.prems(2) by simp
    from notify_all_other [OF rest this] notify_one_own [OF one] show ?thesis by (simp add: evs True)
  next
    case False
    with Cons.prems have r: "r \<in> set rs" by simp
    with Cons.prems(2) have r2: "r_id r \<noteq> r_id q" by (metis distinct.simps(2) image_eqI list.map(2) list.set_map)
    from Cons.IH [OF rest _ r] Cons.prems(2) notify_one_other [OF one r2] show ?thesis by (simp add: evs)
  qed
qed simp

lemma notify_step_own:
  assumes "notify_step nr (obs, del) = ((obs', del'), evs)" and "distinct (map r_id (nr_pending nr))" and "asks i nr"
  shows "i \<in> obs' \<and> (i \<in> del' \<longleftrightarrow> i \<in> del \<or> showable i nr) \<and>
    hooks_for i evs = (if i \<notin> obs \<and> hookable i nr then 1 else 0) \<and>
    shows_for i evs = (if i \<notin> del \<and> showable i nr then 1 else 0)"
proof -
  from assms(3) obtain r where r: "r \<in> set (nr_pending nr)" "i = r_id r" by (auto simp: asks_def)
  have "q = r" if "q \<in> set (nr_pending nr)" "r_id q = r_id r" for q
    using assms(2) that r(1) by (auto simp: distinct_map dest: inj_onD)
  then have "showable i nr \<longleftrightarrow> notify_enabled (nr_desktop nr r) \<and> nr_shown nr r" "hookable i nr \<longleftrightarrow> nr_hook nr r"
    using r by (auto simp: showable_def hookable_def)
  moreover have "notify_all nr (nr_pending nr) (obs \<inter> r_id ` set (nr_pending nr), del \<inter> r_id ` set (nr_pending nr)) = ((obs', del'), evs)"
    using assms(1) by (simp add: notify_step_def Let_def)
  ultimately show ?thesis using notify_all_own [OF _ assms(2) r(1)] r by fastforce
qed

lemma notify_step_none:
  assumes "notify_step nr (obs, del) = ((obs', del'), evs)" and "\<not> asks i nr"
  shows "i \<notin> obs' \<and> i \<notin> del' \<and> hooks_for i evs = 0 \<and> shows_for i evs = 0"
  using assms notify_all_other [of nr "nr_pending nr" "obs \<inter> r_id ` set (nr_pending nr)" "del \<inter> r_id ` set (nr_pending nr)" obs' del' evs i]
  by (auto simp: notify_step_def Let_def asks_def)

lemma notify_run_none:
  assumes "notify_run nrs (obs, del) = ((obs', del'), evs)" and "\<forall>nr \<in> set nrs. \<not> asks i nr" and "i \<notin> obs \<and> i \<notin> del"
  shows "i \<notin> obs' \<and> i \<notin> del' \<and> hooks_for i evs = 0 \<and> shows_for i evs = 0"
  using assms
proof (induction nrs arbitrary: obs del evs)
  case (Cons nr nrs)
  obtain obs1 del1 ev1 evs2 where one: "notify_step nr (obs, del) = ((obs1, del1), ev1)"
    and rest: "notify_run nrs (obs1, del1) = ((obs', del'), evs2)" and evs: "evs = ev1 @ evs2"
    using Cons.prems(1) by (auto split: prod.splits)
  have "\<not> asks i nr" using Cons.prems(2) by simp
  from notify_step_none [OF one this] Cons.IH [OF rest] Cons.prems(2) show ?case by (simp add: evs)
qed simp

lemma notify_run_after:
  assumes "notify_run nrs (obs, del) = ((obs', del'), evs)" and "\<forall>nr \<in> set nrs. \<not> asks i nr"
  shows "hooks_for i evs = 0 \<and> shows_for i evs = 0"
proof (cases nrs)
  case (Cons nr r)
  with assms obtain obs1 del1 ev1 evs2 where one: "notify_step nr (obs, del) = ((obs1, del1), ev1)"
    and rest: "notify_run r (obs1, del1) = ((obs', del'), evs2)" and evs: "evs = ev1 @ evs2"
    by (auto split: prod.splits)
  have "\<not> asks i nr" "\<forall>nr \<in> set r. \<not> asks i nr" using assms(2) Cons by simp_all
  with notify_step_none [OF one] notify_run_none [OF rest] show ?thesis by (simp add: evs)
qed (use assms in simp)

lemma notify_run_own:
  assumes "notify_run nrs (obs, del) = ((obs', del'), evs)"
    and "\<forall>nr \<in> set nrs. asks i nr \<and> distinct (map r_id (nr_pending nr))"
  shows "hooks_for i evs = (if i \<notin> obs \<and> nrs \<noteq> [] \<and> hookable i (hd nrs) then 1 else 0) \<and>
    shows_for i evs = (if i \<notin> del \<and> (\<exists>nr \<in> set nrs. showable i nr) then 1 else 0)"
  using assms
proof (induction nrs arbitrary: obs del evs)
  case (Cons nr nrs)
  obtain obs1 del1 ev1 evs2 where one: "notify_step nr (obs, del) = ((obs1, del1), ev1)"
    and rest: "notify_run nrs (obs1, del1) = ((obs', del'), evs2)" and evs: "evs = ev1 @ evs2"
    using Cons.prems(1) by (auto split: prod.splits)
  have "asks i nr" "distinct (map r_id (nr_pending nr))" using Cons.prems(2) by simp_all
  from notify_step_own [OF one this(2,1)] Cons.IH [OF rest] Cons.prems(2) show ?case by (auto simp: evs)
qed simp

lemma notify_run_append:
  "notify_run (a @ b) st = (case notify_run a st of (st1, ev) \<Rightarrow> case notify_run b st1 of (st2, evs) \<Rightarrow> (st2, ev @ evs))"
  by (induction a arbitrary: st) (auto split: prod.splits)

text \<open>C38: 
  C99: from the start of the sidecar, a request that is pending through some rounds and not before or after is
  passed to the hook exactly once if one is set when it is first seen, and shown on the desktop exactly once if in
  some round notifications are enabled and showing succeeds: a failure is retried in the next round, a success is
  never repeated, and requests that come and go beside it make no difference.
\<close>

theorem request_notified_once:
  assumes "\<forall>nr \<in> set before \<union> set after. \<not> asks i nr" and "\<forall>nr \<in> set during. asks i nr \<and> distinct (map r_id (nr_pending nr))"
  shows "shows_for i (snd (notify_run (before @ during @ after) ({}, {}))) = (if \<exists>nr \<in> set during. showable i nr then 1 else 0) \<and>
    hooks_for i (snd (notify_run (before @ during @ after) ({}, {}))) = (if during \<noteq> [] \<and> hookable i (hd during) then 1 else 0)"
proof -
  obtain o1 d1 e1 where 1: "notify_run before ({}, {}) = ((o1, d1), e1)" by (metis prod.exhaust)
  obtain o2 d2 e2 where 2: "notify_run during (o1, d1) = ((o2, d2), e2)" by (metis prod.exhaust)
  obtain o3 d3 e3 where 3: "notify_run after (o2, d2) = ((o3, d3), e3)" by (metis prod.exhaust)
  have "\<forall>nr \<in> set before. \<not> asks i nr" "\<forall>nr \<in> set after. \<not> asks i nr" using assms(1) by auto
  with notify_run_none [OF 1] notify_run_own [OF 2 assms(2)] notify_run_after [OF 3] show ?thesis
    by (simp add: notify_run_append 1 2 3)
qed

end
