(* ===== verification/Clix_Witness.thy ===== *)
theory Clix_Witness
  imports Clix_Single_Use Clix_Dispatch "HOL-Library.Code_Target_Nat"
begin

text \<open>
  Every property with a hypothesis applied at a concrete state: a machine \<open>m\<close> that granted \<open>ls\<close>
  and is paired with \<open>p\<close>.  The third-party functions are instantiated by small concrete ones (a
  constant digest, signatures that always verify, and, where injectivity matters, a prefix-free
  JSON encoding).
\<close>

section \<open>A concrete machine\<close>

definition toy_crypto :: crypto where
  "toy_crypto = \<lparr>cr_sha256 = (\<lambda>_. replicate 32 0), cr_to_vec = (\<lambda>_. []), cr_public = (\<lambda>_. replicate 32 0),
     cr_key_ok = (\<lambda>_. True), cr_sign = (\<lambda>_ _. replicate 64 0), cr_verify = (\<lambda>_ _ _. True)\<rparr>"

definition good_save :: save_env where
  "good_save = \<lparr>sv_private_dir = Inr (), sv_tmp_id = Inr ''t'', sv_create = Inr (), sv_write = Inr (),
     sv_sync = Inr (), sv_rename = Inr (), sv_sync_dir = Inr ()\<rparr>"

definition toy_ctx :: ctx where
  "toy_ctx = \<lparr>cx_crypto = toy_crypto, cx_io = \<lparr>io_chunks = (\<lambda>_. [[0]]), io_string = (\<lambda>_. [])\<rparr>,
     cx_new_id = Inr ''epoch'', cx_save = good_save\<rparr>"

text \<open>The disk is full: writing the temporary file fails.\<close>

definition full_ctx :: ctx where
  "full_ctx = toy_ctx\<lparr>cx_save := good_save\<lparr>sv_write := Inl (Io ''no space left on device'')\<rparr>\<rparr>"

definition ls_grant :: grant where
  "ls_grant = \<lparr>g_tool = ''ls'', g_binary = ''/bin/ls'', g_allow_from = Some [''p''], g_once = True, g_until = None,
     g_schedule = None, g_reservation = None, g_args = None\<rparr>"

definition toy_peer :: peer where
  "toy_peer = \<lparr>p_name = ''p'', p_owner_pk = replicate 32 0, p_addr = Some ''h:1''\<rparr>"

definition toy_store :: store where
  "toy_store = (fresh_store ''/d'' ''m'' (replicate 32 0))\<lparr>st_grants := [ls_grant], st_peers := [toy_peer],
     st_history := default_history\<lparr>hs_initialized := True, hs_epoch := ''e''\<rparr>\<rparr>"

definition toy_node :: node where
  "toy_node = (toy_store, Some (durable toy_store))"

definition toy_now :: local_now where
  "toy_now = \<lparr>now_instant = 0, now_weekday = Mon, now_day = 1, now_time = 0\<rparr>"

definition toy_env :: submit_env where
  "toy_env = \<lparr>se_now = toy_now, se_request_id = Inr ''r1''\<rparr>"

definition toy_job :: "job_status \<Rightarrow> job" where
  "toy_job st = \<lparr>j_id = ''j1'', j_body = ''m'', j_argv = [''ls''], j_from = ''p'', j_status = st,
     j_stdout = [], j_stderr = []\<rparr>"

text \<open>The machine \<open>p\<close> asks for \<open>ls\<close>: one process starts.\<close>

definition toy_start :: "json res \<times> node \<times> limits \<times> child option" where
  "toy_start = submit_inner toy_ctx toy_env ''p'' [''ls''] ''j1'' None default_limits toy_node"

definition toy_child :: child where
  "toy_child = \<lparr>ch_grant = ls_grant, ch_job = toy_job Running\<rparr>"

lemma toy_start_child: "snd (snd (snd toy_start)) = Some toy_child"
  by code_simp

lemma toy_start_node:
  obtains r s d l where "submit_inner toy_ctx toy_env ''p'' [''ls''] ''j1'' None default_limits
    (toy_store, Some (durable toy_store)) = (r, (s, d), l, Some toy_child)"
  using toy_start_child unfolding toy_start_def toy_node_def by (metis prod.collapse)

section \<open>Running\<close>

text \<open>The machine starts the job that \<open>p\<close> submitted.\<close>

lemma toy_run:
  obtains w where "reachable (boot toy_node) [Submitted (Some toy_child)] w" "w_started w = [''j1'']"
proof -
  obtain r s d l where a: "submit_inner toy_ctx toy_env ''p'' [''ls''] ''j1'' None default_limits
    (toy_store, Some (durable toy_store)) = (r, (s, d), l, Some toy_child)" by (rule toy_start_node)
  let ?base = "boot toy_node"
  let ?w = "?base\<lparr>w_node := (s, d), w_limits := l, w_children := w_children ?base @ [toy_child],
    w_started := w_started ?base @ [''j1'']\<rparr>"
  from a have a': "submit_inner toy_ctx toy_env ''p'' [''ls''] ''j1'' None (w_limits ?base) (w_node ?base) =
      (r, (s, d), l, Some toy_child)"
    by (simp add: boot_def toy_node_def)
  have "step ?base (Submitted (Some toy_child)) ?w"
    using step.submit [OF a'] by (simp add: toy_child_def toy_job_def)
  then have "reachable ?base ([] @ [Submitted (Some toy_child)]) ?w" by (rule reachable.steps [OF reachable.start])
  then show thesis by (intro that [of ?w]) (simp_all add: boot_def)
qed

theorem at_most_one_process_per_job_witness:
  "\<exists>evs w. reachable (boot toy_node) evs w \<and> w_started w = [''j1''] \<and> disk_spent (snd (w_node w)) ''j1''"
proof -
  obtain w where w: "reachable (boot toy_node) [Submitted (Some toy_child)] w" "w_started w = [''j1'']" by (rule toy_run)
  with at_most_one_process_per_job [OF w(1)] show ?thesis by (intro exI [of _ w] exI) auto
qed

theorem single_use_grant_used_once_witness:
  "\<exists>w. reachable (boot toy_node) [Submitted (Some toy_child)] w \<and> closed ''ls'' (st_grants (fst (w_node w))) \<and>
     on_disk (closed ''ls'') (snd (w_node w)) \<and> (\<forall>now. isl (decide_run now (fst (w_node w)) ''p'' [''ls'']))"
proof -
  obtain w where w: "reachable (boot (toy_store, Some (durable toy_store))) [Submitted (Some toy_child)] w"
    using toy_run unfolding toy_node_def by blast
  have "find_grant toy_store ''ls'' = Some ls_grant" "g_once ls_grant" "grants_wf toy_store"
    by (simp_all add: find_grant_def grants_wf_def toy_store_def ls_grant_def)
  moreover have "starts ''ls'' (Submitted (Some toy_child))" by (simp add: of_tool_def toy_child_def ls_grant_def)
  ultimately have "closed ''ls'' (st_grants (fst (w_node w))) \<and> on_disk (closed ''ls'') (snd (w_node w)) \<and>
      (\<forall>now from argv g'. decide_run now (fst (w_node w)) from argv = Inr g' \<longrightarrow> g_tool g' \<noteq> ''ls'')"
    using single_use_grant_used_once [OF w, of "''ls''" ls_grant] by (simp add: undecided_def)
  moreover have "g_tool g = ''ls''" if "decide_run now (fst (w_node w)) ''p'' [''ls''] = Inr g" for now g
    using that by (auto simp: decide_run_def result_simps dest!: check_at_find)
  ultimately show ?thesis using w unfolding toy_node_def by (metis isl_def sum.exhaust)
qed

theorem execution_slots_conserved_witness:
  "l_children (w_limits (boot toy_node)) + length (w_children (boot toy_node)) = CHILDREN"
  using execution_slots_conserved [OF reachable.start, of toy_node] by simp


theorem started_run_is_authorised_witness:
  "\<exists>s d. core_of s ''j1'' = Some (toy_job Running) \<and> d = Some (durable s) \<and>
     find_grant s ''ls'' = Some (ls_grant\<lparr>g_reservation := Some ''j1''\<rparr>)"
proof -
  obtain r s d l where a: "submit_inner toy_ctx toy_env ''p'' [''ls''] ''j1'' None default_limits
    (toy_store, Some (durable toy_store)) = (r, (s, d), l, Some toy_child)" by (rule toy_start_node)
  from started_run_is_authorised [OF a] show ?thesis
    by (intro exI [of _ s] exI [of _ d]) (simp add: toy_child_def ls_grant_def)
qed

definition toy_process :: process where
  "toy_process = \<lparr>ps_spawn = Inr (), ps_stdout = Inr [104, 105], ps_stderr = Inr [], ps_stderr_first = False,
     ps_wait = Inr \<lparr>ex_code = Some 0, ex_signal = None\<rparr>\<rparr>"

definition toy_output :: run_outcome where
  "toy_output = Exited \<lparr>ex_code = Some 0, ex_signal = None\<rparr> [104, 105] [] None"

theorem run_stays_inside_grant_witness:
  "check_args ls_grant [''ls''] = Inr () \<and> (\<exists>cmd :: exec_command. cmd_program cmd = g_binary ls_grant \<and> cmd_args cmd = [])"
proof -
  have "run_async (\<lambda>_. toy_process) ls_grant [''ls''] = Exited \<lparr>ex_code = Some 0, ex_signal = None\<rparr> [104, 105] [] None"
    by code_simp
  from run_stays_inside_grant [OF this] show ?thesis by auto
qed

text \<open>The completion of that run: saved, and with the disk full.\<close>

definition running_store :: store where
  "running_store = toy_store\<lparr>st_jobs := [toy_job Running], st_grants := [ls_grant\<lparr>g_reservation := Some ''j1''\<rparr>]\<rparr>"

theorem completion_settles_job_and_grant_witness:
  "\<exists>s d. finish toy_ctx toy_child toy_output (running_store, None) = (Inr (), s, d) \<and> find_grant s ''ls'' = None"
proof -
  have "fst (finish toy_ctx toy_child toy_output (running_store, None)) = Inr ()" by code_simp
  then obtain s d where f: "finish toy_ctx toy_child toy_output (running_store, None) = (Inr (), s, d)"
    by (metis prod.collapse)
  have "grants_wf running_store" by (simp add: grants_wf_def running_store_def)
  from completion_settles_job_and_grant [OF f this] f show ?thesis
    by (intro exI [of _ s] exI [of _ d])
      (simp add: running_store_def find_grant_def toy_child_def toy_job_def toy_output_def ls_grant_def)
qed

theorem lost_completion_keeps_reservation_witness:
  "\<exists>s d l. complete full_ctx toy_child toy_output default_limits (running_store, None) = ((s, d), l) \<and>
     st_grants s = [ls_grant\<lparr>g_reservation := Some ''j1''\<rparr>]"
proof -
  have "isl (fst (finish full_ctx toy_child toy_output (running_store, None)))" by code_simp
  then obtain e s1 d1 where f: "finish full_ctx toy_child toy_output (running_store, None) = (Inl e, s1, d1)"
    by (metis isl_def prod.collapse)
  obtain s d l where c: "complete full_ctx toy_child toy_output default_limits (running_store, None) = ((s, d), l)"
    by (metis surj_pair)
  from lost_completion_keeps_reservation [OF f c] c show ?thesis by (auto simp: running_store_def)
qed

section \<open>The mesh\<close>

definition toy_mesh_env :: mesh_env where
  "toy_mesh_env = \<lparr>me_submit = toy_env, me_random = Inr (replicate 16 0), me_request_id = Inr ''r2'', me_decode_error = (\<lambda>_. [])\<rparr>"

definition no_pin :: pin_rpc where
  "no_pin op p req nd = (Inl NoDaemon, nd)"

definition toy_dispatch :: "json res \<times> node \<times> limits \<times> child option" where
  "toy_dispatch = dispatch toy_ctx toy_mesh_env no_pin toy_peer (exec_query None (toy_job Queued)) default_limits toy_node"

lemma toy_dispatch_child: "snd (snd (snd toy_dispatch)) = Some toy_child"
  by code_simp

lemma toy_dispatch_node:
  obtains r s d l where "dispatch toy_ctx toy_mesh_env no_pin toy_peer (exec_query None (toy_job Queued)) default_limits
    (toy_store, Some (durable toy_store)) = (r, (s, d), l, Some toy_child)"
  using toy_dispatch_child unfolding toy_dispatch_def toy_node_def by (metis prod.collapse)

theorem delivered_run_is_the_sent_run_witness:
  "\<exists>nd l. dispatch toy_ctx toy_mesh_env no_pin toy_peer (exec_query None (toy_job Queued)) default_limits toy_node =
     (fst toy_dispatch, nd, l, Some toy_child) \<and> j_argv (ch_job toy_child) = [''ls'']"
proof -
  obtain r s d l where a: "dispatch toy_ctx toy_mesh_env no_pin toy_peer (exec_query None (toy_job Queued)) default_limits
    (toy_store, Some (durable toy_store)) = (r, (s, d), l, Some toy_child)" by (rule toy_dispatch_node)
  have "j_argv (ch_job toy_child) = j_argv (toy_job Queued)"
    using delivered_run_is_the_sent_run [of None "toy_job Queued" toy_ctx toy_mesh_env no_pin toy_peer default_limits
      "(toy_store, Some (durable toy_store))" r "(s, d)" l toy_child] a by simp
  with a show ?thesis by (auto simp: toy_dispatch_def toy_node_def toy_job_def)
qed

theorem frame_roundtrip_witness:
  "\<exists>f. write_frame [1, 2, 3] = Inr f \<and> read_frame (f @ [9]) = Inr ([1, 2, 3], [9])"
  using frame_roundtrip [of "[1, 2, 3]" "[9]" "[]"] by (simp add: MESH_FRAME_BYTES_def)

section \<open>Deliveries and the dispatcher\<close>

theorem failed_delivery_claims_no_outcome_witness:
  "\<exists>s d. delivery_failed toy_ctx ''j1'' Unreachable (running_store, None) = (Inr (), s, d) \<and>
     (\<exists>c. core_of s ''j1'' = Some c \<and> j_status c = Running)"
proof -
  have "fst (delivery_failed toy_ctx ''j1'' Unreachable (running_store, None)) = Inr ()" by code_simp
  then obtain s d where a: "delivery_failed toy_ctx ''j1'' Unreachable (running_store, None) = (Inr (), s, d)"
    by (metis prod.collapse)
  from failed_delivery_claims_no_outcome [OF a] a show ?thesis
    by (auto simp: running_store_def toy_job_def find_job_def)
qed

definition busy_dispatcher :: dispatcher where
  "busy_dispatcher = \<lparr>dp_active = map (\<lambda>n. replicate n CHR ''x'') [0..<DISPATCH - 1], dp_next = Map.empty, dp_cursor = []\<rparr>"

definition two_peers :: store where
  "two_peers = toy_store\<lparr>st_peers := [toy_peer, toy_peer\<lparr>p_name := ''q''\<rparr>]\<rparr>"

lemma two_peers_work: "dispatch_candidates two_peers =
    [(''history:p'', HistoryWork toy_peer), (''history:q'', HistoryWork (toy_peer\<lparr>p_name := ''q''\<rparr>))]"
  by code_simp

lemma busy_round: "snd (dispatch_round 5 2 two_peers busy_dispatcher) = [(''history:p'', HistoryWork toy_peer)]"
  by code_simp

lemma busy_round_pair:
  obtains d where "dispatch_round 5 2 two_peers busy_dispatcher = (d, [(''history:p'', HistoryWork toy_peer)])"
  using busy_round by (metis prod.collapse)

theorem dispatch_bounded_witness:
  "\<exists>d. dispatch_round 5 2 two_peers busy_dispatcher = (d, [(''history:p'', HistoryWork toy_peer)]) \<and> dispatcher_ok d"
proof -
  obtain d where a: "dispatch_round 5 2 two_peers busy_dispatcher = (d, [(''history:p'', HistoryWork toy_peer)])"
    by (rule busy_round_pair)
  have "dispatcher_ok busy_dispatcher" by code_simp
  moreover have "distinct (map fst (dispatch_candidates two_peers))" by (simp add: two_peers_work)
  ultimately show ?thesis using dispatch_bounded [OF a] a by blast
qed

theorem dispatch_fair_witness:
  "\<exists>d. dispatch_round 5 2 two_peers busy_dispatcher = (d, [(''history:p'', HistoryWork toy_peer)]) \<and>
     turn two_peers d ''history:q'' < turn two_peers busy_dispatcher ''history:q''"
proof -
  obtain d where a: "dispatch_round 5 2 two_peers busy_dispatcher = (d, [(''history:p'', HistoryWork toy_peer)])"
    by (rule busy_round_pair)
  have r: "ready 5 (dp_active busy_dispatcher) (dp_next busy_dispatcher) ''history:q''" by code_simp
  have "DISPATCH \<le> length (dp_active d) \<and>
      turn two_peers d ''history:q'' + length [(''history:p'', HistoryWork toy_peer)] \<le> turn two_peers busy_dispatcher ''history:q''"
    by (rule dispatch_fair [OF a _ _ r]) (simp_all add: two_peers_work)
  with a show ?thesis by auto
qed

section \<open>The store\<close>

theorem memory_matches_disk_witness:
  "let nd = foldl (\<lambda>u edit. snd (update toy_ctx edit u)) toy_node [\<lambda>s. Inr ((), s)] in
     node_failed nd \<or> snd nd = Some (durable (fst nd))"
  using memory_matches_disk [of toy_node toy_ctx "[\<lambda>s. Inr ((), s)]"] by (simp add: toy_node_def Let_def)

theorem failed_update_changes_nothing_witness:
  "\<exists>e s d. update full_ctx (\<lambda>s. Inr ((), s)) (running_store, None) = (Inl e, s, d) \<and> st_jobs s = st_jobs running_store"
proof -
  have "isl (fst (update full_ctx (\<lambda>s. Inr ((), s)) (running_store, None)))" by code_simp
  then obtain e s d where a: "update full_ctx (\<lambda>s. Inr ((), s)) (running_store, None) = (Inl e, s, d)"
    by (metis isl_def prod.collapse)
  from failed_update_changes_nothing [OF a] a show ?thesis by auto
qed

theorem start_leaves_nothing_running_witness:
  "\<exists>s d r. start_recovery toy_ctx (running_store, None) = (r, s, d) \<and> st_jobs s \<noteq> [] \<and>
     \<not> list_ex (local_running s) (st_jobs s)"
proof -
  obtain r s d where a: "start_recovery toy_ctx (running_store, None) = (r, s, d)" by (metis surj_pair)
  from start_leaves_nothing_running [OF a] a show ?thesis
    by (intro exI [of _ s] exI [of _ d] exI [of _ r]) (auto simp: running_store_def dest: list_all2_lengthD)
qed

lemma empty_ledger: "ledger_wf cr toy_store" "ledger_wf cr running_store"
  by (simp_all add: ledger_wf_def hist_wf_def toy_store_def running_store_def default_history_def bt_ok_def)

theorem update_append_only_witness:
  "\<exists>s d. update toy_ctx (\<lambda>s. Inr ((), s)) toy_node = (Inr (), s, d) \<and> ledger_le toy_store s"
proof -
  have "fst (update toy_ctx (\<lambda>s. Inr ((), s)) toy_node) = Inr ()" by code_simp
  then obtain s d where a: "update toy_ctx (\<lambda>s. Inr ((), s)) (toy_store, Some (durable toy_store)) = (Inr (), s, d)"
    unfolding toy_node_def by (metis prod.collapse)
  have "filed_certificates (st_history toy_store) = {}"
    by (simp add: filed_certificates_def toy_store_def default_history_def)
  then have "published_bound toy_store" "collision_free (cx_crypto toy_ctx) (known_certificates (cx_crypto toy_ctx) toy_store)"
    by (simp_all add: published_bound_def collision_free_def known_certificates_def fresh_certificates_def toy_store_def
        fresh_store_def)
  from update_append_only [OF a refl empty_ledger(1) ledger.le_refl this] a show ?thesis
    unfolding toy_node_def by blast
qed

section \<open>Signed history\<close>

definition toy_cert :: "body_id \<Rightarrow> body_id \<Rightarrow> certificate" where
  "toy_cert origin runner = \<lparr>c_invocation = \<lparr>i_id = ''j1'', i_from = origin, i_origin_key = replicate 32 0, i_body = runner,
     i_runner_key = replicate 32 0, i_argv = [''ls''], i_retry_of = None, i_legacy_observer = None\<rparr>,
     c_signature = replicate 64 0\<rparr>"

definition toy_key :: string where
  "toy_key = replicate 64 CHR ''0''"

definition toy_fact :: "job_status \<Rightarrow> role \<Rightarrow> signed_fact" where
  "toy_fact st r = \<lparr>sf_fact = \<lparr>f_invocation = toy_key, f_role = r, f_revision = 1, f_status = st,
     f_stdout = \<lparr>or_bytes = 0, or_sha256 = toy_key\<rparr>, f_stderr = \<lparr>or_bytes = 0, or_sha256 = toy_key\<rparr>\<rparr>,
     sf_signature = replicate 64 0\<rparr>"

definition toy_published :: published where
  "toy_published = \<lparr>pub_record = \<lparr>rec_certificate = toy_cert ''m'' ''p'', rec_origin = None,
     rec_runner = Some (toy_fact (Done 0) Runner)\<rparr>, pub_output = None, pub_change = 7\<rparr>"

theorem admission_binds_once_witness:
  "\<exists>s. bind_admission toy_crypto (toy_cert ''p'' ''m'') toy_store = Inr s \<and> st_job_certificates s ''j1'' = Some toy_key"
proof -
  have "isl (bind_admission toy_crypto (toy_cert ''p'' ''m'') toy_store) = False" by code_simp
  then obtain s where a: "bind_admission toy_crypto (toy_cert ''p'' ''m'') toy_store = Inr s"
    by (metis sum.collapse(2))
  have "invocation_hash toy_crypto (toy_cert ''p'' ''m'') = toy_key" by code_simp
  with admission_binds_once [OF a empty_ledger(1)] a show ?thesis by (auto simp: toy_cert_def)
qed


lemma toy_ingest:
  obtains s where "ingest toy_crypto toy_published toy_store = Inr (True, s)"
proof -
  have "(case ingest toy_crypto toy_published toy_store of Inl _ \<Rightarrow> False | Inr (b, _) \<Rightarrow> b)" by code_simp
  then show thesis using that by (auto split: sum.splits prod.splits)
qed

theorem ingest_idempotent_witness:
  "\<exists>s. ingest toy_crypto toy_published toy_store = Inr (True, s) \<and> ingest toy_crypto toy_published s = Inr (False, s)"
proof -
  obtain s where a: "ingest toy_crypto toy_published toy_store = Inr (True, s)" by (rule toy_ingest)
  from ingest_idempotent [OF a empty_ledger(1)] a show ?thesis by blast
qed

definition toy_entry :: entry where
  "toy_entry = \<lparr>e_record = pub_record toy_published, e_change = 1, e_output = None\<rparr>"

definition one_entry :: store where
  "one_entry = toy_store\<lparr>st_history := \<lparr>hs_initialized = True, hs_epoch = ''e'', hs_clock = 1, hs_trust = [],
     hs_entries = [(toy_key, toy_entry)], hs_peers = Map.empty\<rparr>\<rparr>"

lemma one_entry_wf: "ledger_wf toy_crypto one_entry"
proof -
  have "invocation_hash toy_crypto (rec_certificate (e_record toy_entry)) = toy_key" by code_simp
  then show ?thesis
    by (auto simp: ledger_wf_def hist_wf_def one_entry_def bt_ok_def bt_get_def toy_entry_def)
qed

lemma one_entry_page:
  obtains p where "page toy_crypto one_entry [] 0 None = Inr p" "page_reset p" "page_next p = 1"
proof -
  have "(case page toy_crypto one_entry [] 0 None of Inl _ \<Rightarrow> False | Inr p \<Rightarrow> page_reset p \<and> page_next p = 1)"
    by code_simp
  then show thesis using that by (auto split: sum.splits)
qed

theorem page_accepted_by_reader_witness:
  "\<exists>p. page toy_crypto one_entry [] 0 None = Inr p \<and> page_boundary_ok default_progress p"
proof -
  obtain p where a: "page toy_crypto one_entry [] 0 None = Inr p" by (rule one_entry_page)
  have "hs_epoch (st_history one_entry) \<noteq> []" by (simp add: one_entry_def)
  from page_accepted_by_reader [OF one_entry_wf this, of default_progress None p] a show ?thesis
    by (auto simp: default_progress_def)
qed

definition waiting_store :: store where
  "waiting_store = toy_store\<lparr>st_jobs := [(toy_job WaitingBody)\<lparr>j_from := ''m'', j_body := ''p''\<rparr>],
     st_job_certificates := [''j1'' \<mapsto> toy_key]\<rparr>"

theorem runner_reply_settles_one_job_witness:
  "\<exists>j s. accept_runner_reply toy_crypto ''p'' toy_published waiting_store = Inr (Some j, s) \<and> j_body j = ''p'' \<and>
     st_grants s = st_grants waiting_store"
proof -
  have "(case accept_runner_reply toy_crypto ''p'' toy_published waiting_store of Inl _ \<Rightarrow> False | Inr (v, _) \<Rightarrow> v \<noteq> None)"
    by code_simp
  then obtain j s where a: "accept_runner_reply toy_crypto ''p'' toy_published waiting_store = Inr (Some j, s)"
    by (auto split: sum.splits prod.splits)
  from runner_reply_settles_one_job [OF a] a show ?thesis by blast
qed

section \<open>Storage\<close>

definition noisy_store :: store where
  "noisy_store = one_entry\<lparr>st_jobs := [(toy_job (Done 0))\<lparr>j_from := ''m'', j_body := ''p'', j_stdout := [1, 2, 3]\<rparr>],
     st_job_certificates := [''j1'' \<mapsto> toy_key]\<rparr>"

lemma noisy_wf: "jobs_wf noisy_store" "ledger_wf toy_crypto noisy_store"
  using one_entry_wf by (simp_all add: jobs_wf_def noisy_store_def ledger_wf_def)

theorem prune_keeps_receipts_witness:
  "\<exists>s. prune 0 noisy_store = Inr (3, s) \<and> retained s = retained noisy_store \<and> output_bytes s = 0"
proof -
  have "(case prune 0 noisy_store of Inl _ \<Rightarrow> False | Inr (n, s) \<Rightarrow> n = 3 \<and> output_bytes s = 0)" by code_simp
  then obtain s where a: "prune 0 noisy_store = Inr (3, s)" "output_bytes s = 0" by (auto split: sum.splits prod.splits)
  from prune_keeps_receipts [OF a(1) noisy_wf] a show ?thesis by blast
qed


section \<open>Grants and requests\<close>

theorem check_at_ok_iff_witness:
  "check_at toy_store ''ls'' ''p'' toy_now = Inr ls_grant"
  using check_at_ok_iff [of toy_store "''ls''" "''p''" toy_now ls_grant]
  by (simp add: find_grant_def toy_store_def ls_grant_def)

definition toy_host :: host where
  "toy_host = \<lparr>host_path = ''/bin'', host_cwd = Inr ''/'',
     host_metadata = (\<lambda>p. if p = ''/bin/ls'' \<or> p = ''/bin/cat'' then Some (True, 493) else None)\<rparr>"

theorem remove_grant_revokes_witness:
  "\<exists>s. remove_grant toy_host ''ls'' toy_store = Inr ((), s) \<and>
     (\<exists>t. \<forall>who now. check_at s t who now = Inl (NotAdded t (st_body_name toy_store)))"
proof -
  have "\<not> isl (remove_grant toy_host ''ls'' toy_store)" by code_simp
  then obtain s where a: "remove_grant toy_host ''ls'' toy_store = Inr ((), s)" by (metis sum.collapse(2) old.unit.exhaust prod.collapse)
  have "grants_wf toy_store" by (simp add: grants_wf_def toy_store_def)
  from remove_grant_revokes [OF this a] a show ?thesis by blast
qed

theorem build_grant_sound_witness:
  "\<exists>g. build_grant toy_host toy_store ''cat'' [''p''] True None None None = Inr g \<and> g_once g \<and> g_schedule g = None"
proof -
  have "\<not> isl (build_grant toy_host toy_store ''cat'' [''p''] True None None None)" by code_simp
  then obtain g where a: "build_grant toy_host toy_store ''cat'' [''p''] True None None None = Inr g"
    by (metis sum.collapse(2))
  moreover from a have "g_once g" by (auto simp: build_grant_def rbind_Inr_iff)
  moreover have "\<not> (g_once g \<and> g_schedule g \<noteq> None)" using build_grant_sound [OF a] by simp
  ultimately show ?thesis by auto
qed

definition asked_store :: store where
  "asked_store = toy_store\<lparr>st_requests := [\<lparr>r_id = ''q1'', r_from = ''p'', r_tool = ''cat'', r_once_suggested = True\<rparr>]\<rparr>"

theorem approval_preserves_grants_witness:
  "\<exists>g s. decide toy_host ''q1'' (Allow Requester True None None) asked_store = Inr (g, s) \<and>
     (\<exists>new. find_grant s ''ls'' = Some new \<and> same_permission ls_grant new)"
proof -
  have "\<not> isl (decide toy_host ''q1'' (Allow Requester True None None) asked_store)" by code_simp
  then obtain g s where a: "decide toy_host ''q1'' (Allow Requester True None None) asked_store = Inr (g, s)"
    by (metis sum.collapse(2) prod.collapse)
  have "find_grant asked_store ''ls'' = Some ls_grant"
    by (simp add: find_grant_def asked_store_def toy_store_def ls_grant_def)
  with approval_preserves_grants [OF a] a show ?thesis by blast
qed

theorem redelivered_request_changes_nothing_witness:
  "\<exists>req s. receive (Inr ''q1'') ''p'' ''cat'' (Some ''d1'') toy_store = Inr (req, s) \<and>
     receive (Inr ''q2'') ''p'' ''cat'' (Some ''d1'') s = Inr (req, s)"
proof -
  have "\<not> isl (receive (Inr ''q1'') ''p'' ''cat'' (Some ''d1'') toy_store)" by code_simp
  then obtain req s where a: "receive (Inr ''q1'') ''p'' ''cat'' (Some ''d1'') toy_store = Inr (req, s)"
    by (metis sum.collapse(2) prod.collapse)
  from redelivered_request_changes_nothing [OF a refl] a show ?thesis by blast
qed

theorem page_roundtrip_witness:
  "page_of_json (page_json \<lparr>page_epoch = ''e'', page_reset = True, page_high = 9, page_next = 7, page_complete = False,
     page_entries = [toy_published]\<rparr>) \<noteq> None"
proof -
  have "page_fits \<lparr>page_epoch = ''e'', page_reset = True, page_high = 9, page_next = 7, page_complete = False,
     page_entries = [toy_published]\<rparr>"
    by (simp add: page_fits_def published_fits_def record_fits_def fact_fits_def toy_published_def toy_fact_def u64_max_def)
  from page_roundtrip [OF this] show ?thesis by simp
qed

section \<open>A prefix-free JSON encoding\<close>

definition enc_nat :: "nat \<Rightarrow> bytes" where
  "enc_nat n = replicate n 1 @ [0]"

definition enc_str :: "string \<Rightarrow> bytes" where
  "enc_str s = concat (map (\<lambda>c. [1, of_nat (of_char c)]) s) @ [0]"

fun enc :: "json \<Rightarrow> bytes" where
  "enc JNull = [0]"
| "enc (JBool b) = [1, if b then 1 else 0]"
| "enc (JInt i) = 2 # (if i < 0 then 1 else 0) # enc_nat (nat \<bar>i\<bar>)"
| "enc (JFloat s) = 3 # enc_str s"
| "enc (JStr s) = 4 # enc_str s"
| "enc (JArr xs) = 5 # concat (map (\<lambda>x. 1 # enc x) xs) @ [0]"
| "enc (JObj kvs) = 6 # concat (map (\<lambda>kv. 1 # enc_str (fst kv) @ enc (snd kv)) kvs) @ [0]"

lemma enc_nat_prefix: "enc_nat n @ r = enc_nat m @ r' \<Longrightarrow> n = m \<and> r = r'"
proof (induction n arbitrary: m)
  case 0
  then show ?case by (cases m) (simp_all add: enc_nat_def)
next
  case (Suc n)
  then show ?case by (cases m) (auto simp: enc_nat_def)
qed

lemma byte_of_char_inj: "(of_nat (of_char c) :: byte) = of_nat (of_char d) \<longleftrightarrow> c = d"
proof -
  have "unat (of_nat (of_char x) :: byte) = of_char x" for x
    using nat_of_char_less_256 [of x] by (simp add: unat_of_nat)
  then show ?thesis by (metis of_char_eq_iff)
qed

lemma enc_list_prefix:
  assumes "\<And>x y r r'. x \<in> set xs \<Longrightarrow> f x @ r = f y @ r' \<Longrightarrow> x = y \<and> r = r'"
    and "concat (map (\<lambda>x. (1 :: byte) # f x) xs) @ 0 # r = concat (map (\<lambda>x. 1 # f x) ys) @ 0 # r'"
  shows "xs = ys \<and> r = r'"
  using assms
proof (induction xs arbitrary: ys)
  case Nil
  then show ?case by (cases ys) auto
next
  case (Cons x xs)
  then obtain y ys' where ys: "ys = y # ys'" by (cases ys) auto
  with Cons.prems(2) have "f x @ (concat (map (\<lambda>x. 1 # f x) xs) @ 0 # r) = f y @ (concat (map (\<lambda>x. 1 # f x) ys') @ 0 # r')"
    by simp
  from Cons.prems(1) [OF _ this] have "x = y"
    "concat (map (\<lambda>x. 1 # f x) xs) @ 0 # r = concat (map (\<lambda>x. 1 # f x) ys') @ 0 # r'" by simp_all
  moreover from Cons.IH [OF Cons.prems(1) this(2)] have "xs = ys' \<and> r = r'" by simp
  ultimately show ?case by (simp add: ys)
qed

lemma enc_str_prefix: "enc_str s @ r = enc_str t @ r' \<Longrightarrow> s = t \<and> r = r'"
  using enc_list_prefix [of s "\<lambda>c. [of_nat (of_char c)]" r t r'] by (simp add: enc_str_def byte_of_char_inj)

lemma enc_prefix: "enc a @ r = enc b @ r' \<Longrightarrow> a = b \<and> r = r'"
proof (induction a arbitrary: b r r' rule: enc.induct)
  case (3 i)
  then show ?case by (cases b) (auto dest!: enc_nat_prefix split: if_splits)
next
  case (6 xs)
  then obtain ys where b: "b = JArr ys" by (cases b) auto
  from enc_list_prefix [of xs enc r ys r'] 6 b show ?case by simp
next
  case (7 xs)
  then obtain ys where b: "b = JObj ys" by (cases b) auto
  have "kv = kv' \<and> r = r'" if "kv \<in> set xs"
    and "(enc_str (fst kv) @ enc (snd kv)) @ r = (enc_str (fst kv') @ enc (snd kv')) @ r'" for kv kv' r r'
  proof -
    from that(2) have "enc_str (fst kv) @ (enc (snd kv) @ r) = enc_str (fst kv') @ (enc (snd kv') @ r')" by simp
    from enc_str_prefix [OF this] 7(1) [of kv] that(1) show ?thesis by (auto simp: prod_eq_iff)
  qed
  from enc_list_prefix [of xs "\<lambda>kv. enc_str (fst kv) @ enc (snd kv)" r ys r', OF this] 7(2) b show ?case by simp
next
  case 1
  then show ?case by (cases b) simp_all
next
  case (2 v)
  then show ?case by (cases b) (auto split: if_splits)
next
  case (4 s)
  then show ?case by (cases b) (auto dest!: enc_str_prefix)
next
  case (5 s)
  then show ?case by (cases b) (auto dest!: enc_str_prefix)
qed

definition enc_crypto :: crypto where
  "enc_crypto = toy_crypto\<lparr>cr_to_vec := enc\<rparr>"

lemma enc_crypto_ok: "crypto_ok enc_crypto"
  using enc_prefix [of _ "[]" _ "[]"] by (auto simp: crypto_ok_def enc_crypto_def toy_crypto_def inj_def)

definition runner_entry :: entry where
  "runner_entry = \<lparr>e_record = \<lparr>rec_certificate = toy_cert ''p'' ''m'', rec_origin = None, rec_runner = None\<rparr>,
     e_change = 1, e_output = None\<rparr>"

definition runner_store :: store where
  "runner_store = toy_store\<lparr>st_history := \<lparr>hs_initialized = True, hs_epoch = ''e'', hs_clock = 1, hs_trust = [],
     hs_entries = [(toy_key, runner_entry)], hs_peers = Map.empty\<rparr>\<rparr>"

theorem runner_fact_validates_witness:
  "\<exists>s. \<exists>f :: signed_fact. publish_fact enc_crypto toy_key (toy_job Running) Runner None Running runner_store = Inr s \<and>
     validate_fact enc_crypto s (toy_cert ''p'' ''m'') f Runner = Inr ()"
proof -
  have "(case publish_fact enc_crypto toy_key (toy_job Running) Runner None Running runner_store of
      Inl _ \<Rightarrow> False | Inr s \<Rightarrow> hs_clock (st_history s) = 2 \<and>
        map_option (\<lambda>e. rec_certificate (e_record e)) (bt_get (hs_entries (st_history s)) toy_key) = Some (toy_cert ''p'' ''m''))"
    by code_simp
  then obtain s where a: "publish_fact enc_crypto toy_key (toy_job Running) Runner None Running runner_store = Inr s"
    and c: "hs_clock (st_history s) = 2"
      "map_option (\<lambda>e. rec_certificate (e_record e)) (bt_get (hs_entries (st_history s)) toy_key) = Some (toy_cert ''p'' ''m'')"
    by (auto split: sum.splits)
  have s: "s \<noteq> runner_store" using c(1) by (auto simp: runner_store_def)
  have k: "toy_key = invocation_hash enc_crypto (rec_certificate (e_record runner_entry))" by code_simp
  have e: "bt_get (hs_entries (st_history runner_store)) toy_key = Some runner_entry"
    by (simp add: runner_store_def bt_get_def)
  have o: "length (st_owner_sk runner_store) = 32" "j_id (toy_job Running) \<notin> st_output_pruned runner_store"
    by (simp_all add: runner_store_def toy_store_def fresh_store_def)
  have i: "i_runner_key (c_invocation (rec_certificate (e_record runner_entry))) = cr_public enc_crypto (st_owner_sk runner_store)"
    "i_legacy_observer (c_invocation (rec_certificate (e_record runner_entry))) = None"
    by (simp_all add: runner_entry_def toy_cert_def enc_crypto_def toy_crypto_def)
  have j: "runner_status Running" "limits_status Running = Inr ()"
    "length (j_stdout (toy_job Running)) \<le> STREAM_BYTES" "length (j_stderr (toy_job Running)) \<le> STREAM_BYTES"
    by (simp_all add: runner_status_def toy_job_def)
  from runner_fact_validates [OF enc_crypto_ok o(1) a s e k i j o(2)] c(2) obtain f where
    "\<forall>s''. validate_fact enc_crypto s'' (toy_cert ''p'' ''m'') f Runner = Inr ()" by auto
  with a show ?thesis by metis
qed

end
