(* ===== verification/Clix_Witness_Sync.thy ===== *)
theory Clix_Witness_Sync
  imports Clix_Witness Clix_View Clix_Sync
begin

text \<open>
  The properties of the projected views and of the network side of replication applied at concrete
  machines.
\<close>

section \<open>Views and replication\<close>

text \<open>A machine with an entry in its history and a local run whose outcome was never saved.\<close>

definition unsaved_store :: store where
  "unsaved_store = one_entry\<lparr>st_jobs := [toy_job (Uncertain ''w'')]\<rparr>"

theorem uncertain_never_shown_running_witness:
  "\<exists>v \<in> set (projected_views toy_crypto unsaved_store None). is_uncertain (j_status (vw_job v))"
proof -
  have "\<exists>v \<in> set (projected_views toy_crypto unsaved_store None).
      group_of toy_crypto v = local_group toy_crypto unsaved_store (toy_job (Uncertain ''w'')) \<and>
      is_uncertain (j_status (vw_job v))"
    by (rule uncertain_never_shown_running)
      (simp_all add: unsaved_store_def one_entry_def toy_store_def fresh_store_def toy_job_def selected_job_def)
  then show ?thesis by blast
qed

theorem verified_result_shown_witness:
  "\<exists>v \<in> set (projected_views toy_crypto one_entry (Some ''j1'')). vw_provenance v = ''verified runner result'' \<and>
    vw_invocation v = Some toy_key"
proof -
  have k: "invocation_hash toy_crypto (rec_certificate (e_record toy_entry)) = toy_key" by code_simp
  have "\<exists>v \<in> set (projected_views toy_crypto one_entry (Some ''j1'')). \<exists>e' f'. group_of toy_crypto v = entry_group toy_crypto toy_entry \<and>
    vw_provenance v = ''verified runner result'' \<and>
    e' \<in> set (bt_values (hs_entries (st_history one_entry))) \<and> entry_group toy_crypto e' = entry_group toy_crypto toy_entry \<and>
    i_legacy_observer (c_invocation (rec_certificate (e_record e'))) = None \<and> rec_runner (e_record e') = Some f' \<and>
    vw_invocation v = Some (invocation_hash toy_crypto (rec_certificate (e_record e'))) \<and>
    vw_stdout v = f_stdout (sf_fact f') \<and> vw_stderr v = f_stderr (sf_fact f') \<and>
    (j_status (vw_job v) = f_status (sf_fact f') \<or>
     vw_local_warning v = Some local_warning_text \<and> is_uncertain (j_status (vw_job v)))"
    by (rule verified_result_shown [of _ _ _ "toy_fact (Done 0) Runner"])
      (simp_all add: one_entry_def bt_values_def toy_entry_def toy_published_def selected_entry_def toy_cert_def)
  then show ?thesis using k by (auto simp: one_entry_def bt_values_def)
qed

text \<open>A fresh machine \<open>m\<close> syncs with \<open>p\<close>, whose history has one entry; the JSON text encoding of the
  queries plays no role.\<close>

definition sync_store :: store where
  "sync_store = toy_store\<lparr>st_history := (st_history toy_store)\<lparr>hs_trust := trust_hash toy_crypto toy_store\<rparr>\<rparr>"

definition sync_env :: deliver_env where
  "sync_env = \<lparr>de_call = (\<lambda>k addr pk q. dispatch_page toy_ctx q one_entry), de_others = (\<lambda>k nd. nd),
     de_decode_error = (\<lambda>_. [])\<rparr>"

lemma sync_store_ready: "sync_ready toy_crypto sync_store"
proof -
  have "trust_hash toy_crypto sync_store = hs_trust (st_history sync_store)" by (simp add: sync_store_def)
  moreover have "ledger_wf toy_crypto sync_store \<and> hs_initialized (st_history sync_store) \<and> st_jobs sync_store = []"
    by (simp add: sync_store_def ledger_wf_def hist_wf_def toy_store_def fresh_store_def default_history_def bt.ok_emp)
  ultimately show ?thesis by (simp add: sync_ready_def)
qed

lemma toy_ctx_crypto [simp]: "cx_crypto toy_ctx = toy_crypto"
  by (simp add: toy_ctx_def)

lemma one_entry_served: "served_fits one_entry"
  by (simp add: served_fits_def one_entry_def bt_values_def toy_entry_def toy_published_def record_fits_def
      toy_fact_def fact_fits_def u64_max_def)

theorem sync_copies_honest_history_witness:
  "\<exists>s d. sync_peer toy_ctx sync_env (\<lambda>_. 0) toy_peer (sync_store, None) = (Inr (), s, d) \<and>
     knows toy_crypto s (e_record toy_entry)"
proof -
  have "(case sync_peer toy_ctx sync_env (\<lambda>_. 0) toy_peer (sync_store, None) of (r, s, d) \<Rightarrow>
      r = Inr () \<and> (let g = progress_of s ''p'' in pg_complete g \<and> pg_epoch g = ''e'' \<and> pg_high g = 1) \<and>
      authors_known toy_crypto s (rec_certificate (e_record toy_entry)))"
    by code_simp
  then obtain s d where a: "sync_peer toy_ctx sync_env (\<lambda>_. 0) toy_peer (sync_store, None) = (Inr (), s, d)"
    and g: "let g = progress_of s ''p'' in pg_complete g \<and> pg_epoch g = ''e'' \<and> pg_high g = 1"
    and k: "authors_known toy_crypto s (rec_certificate (e_record toy_entry))"
    by (auto split: prod.splits)
  have p: "p_name toy_peer = ''p''" by (simp add: toy_peer_def)
  have "scanning (cx_crypto toy_ctx) one_entry (p_name toy_peer) s \<and>
    (let g = progress_of s (p_name toy_peer) in
     pg_complete g \<and> pg_epoch g = hs_epoch (st_history one_entry) \<and> pg_high g = hs_clock (st_history one_entry) \<longrightarrow>
     (\<forall>e \<in> set (bt_values (hs_entries (st_history one_entry))).
        authors_known (cx_crypto toy_ctx) s (rec_certificate (e_record e)) \<longrightarrow> knows (cx_crypto toy_ctx) s (e_record e)))"
    by (rule sync_copies_honest_history [OF a, where cxS = toy_ctx])
      (simp_all add: sync_store_ready sync_env_def one_entry_wf one_entry_served,
       simp add: sync_store_def toy_store_def fresh_store_def default_history_def one_entry_def)
  with a g k show ?thesis by (auto simp: p Let_def one_entry_def bt_values_def)
qed


end
