(* ===== verification/Clix_Witness_Pair.thy ===== *)
theory Clix_Witness_Pair
  imports Clix_Witness Clix_Pair
begin

text \<open>The pairing properties applied at concrete machines.\<close>

text \<open>The machine \<open>q\<close> pairs with \<open>m\<close>: a session key anyone can finish and a constant tag, two decodable
  payloads, and a wire whose last write fails in the second case.\<close>

definition lone_store :: store where
  "lone_store = toy_store\<lparr>st_peers := []\<rparr>"

definition q_identity :: pair_identity where
  "q_identity = \<lparr>id_name = ''q'', id_owner_pk = replicate 32 1, id_addr = Some ''q:1''\<rparr>"

definition m_identity :: pair_identity where
  "m_identity = \<lparr>id_name = ''m'', id_owner_pk = replicate 32 0, id_addr = Some ''m:1''\<rparr>"

definition pair_toy :: pair_env where
  "pair_toy = \<lparr>pe_start_a = (\<lambda>_. [1]), pe_start_b = (\<lambda>_. [2]), pe_finish = Some, pe_mac = (\<lambda>_ _. replicate 32 0),
     pe_weak = (\<lambda>_. False), pe_parse = (\<lambda>b. if b = [1] then Some (identity_json q_identity)
       else Some (confirmation_json \<lparr>cf_joiner = q_identity, cf_listener = m_identity\<rparr>)), pe_commands = [''status'']\<rparr>"

definition pair_wire :: "bool \<Rightarrow> wire" where
  "pair_wire last_ok = \<lparr>wi_read = (\<lambda>k. if k = 0 then Inr [7] else if k = 1 then Inr (replicate 32 0 @ [1])
       else Inr (replicate 32 0 @ [2])),
     wi_write = (\<lambda>k _. if k = 2 \<and> \<not> last_ok then Inl Unreachable else Inr ()),
     wi_others = (\<lambda>_ nd. nd), wi_remote_addr = None\<rparr>"

lemma pair_wire_others [simp]: "wi_others (pair_wire b) k nd = nd"
  by (simp add: pair_wire_def)



theorem discovery_trusts_at_most_one_witness:
  "\<exists>new. length new \<le> 1 \<and> trusts_more lone_store
     (fst (snd (pair_join_any toy_ctx pair_toy (\<lambda>p nd. (Inr (), nd))
        [(''a'', Inl Unreachable), (''b'', Inr (pair_wire False)), (''c'', Inr (pair_wire True))] [] ''m:1'' None (lone_store, None)))) new"
proof -
  obtain r nd where a: "pair_join_any toy_ctx pair_toy (\<lambda>p nd. (Inr (), nd))
        [(''a'', Inl Unreachable), (''b'', Inr (pair_wire False)), (''c'', Inr (pair_wire True))] [] ''m:1'' None
        (lone_store, None) = (r, nd)" by (metis surj_pair)
  have "\<exists>new. length new \<le> 1 \<and> trusts_more (fst (lone_store, None :: store option)) (fst nd) new"
    by (rule discovery_trusts_at_most_one [OF a]) auto
  with a show ?thesis by simp
qed

end
