(* ===== verification/Clix_Witness_Rpc.thy ===== *)
theory Clix_Witness_Rpc
  imports Clix_Witness Clix_Rpc
begin

text \<open>The owner-socket properties applied at a concrete machine, request and environment.\<close>

definition rpc_env :: owner_env where
  "rpc_env = \<lparr>ow_host = toy_host,
     ow_pair = \<lparr>pe_start_a = (\<lambda>b. b), pe_start_b = (\<lambda>b. b), pe_finish = Some, pe_mac = (\<lambda>_ b. b), pe_weak = (\<lambda>_. False),
       pe_parse = (\<lambda>_. None), pe_commands = []\<rparr>,
     ow_now = 0, ow_random = Inr (replicate 16 0), ow_debug = (\<lambda>s. s), ow_show = (\<lambda>_. []), ow_decode_error = (\<lambda>_. []),
     ow_parse = (\<lambda>s. Inl s), ow_others = (\<lambda>k nd. if k = 4 then ((fst nd)\<lparr>st_jobs := map (\<lambda>j. j\<lparr>j_status := Done 3, j_stdout := [104]\<rparr>)
       (st_jobs (fst nd))\<rparr>, snd nd) else nd),
     ow_polls = 3, ow_write = (\<lambda>_. Inr ()), ow_pin_root = Inr (), ow_pin = (\<lambda>_ nd. (Inl NoDaemon, nd)),
     ow_export = (\<lambda>_ _. Inr ()), ow_phrase = ''a-b-c'', ow_dial = (\<lambda>_. Inl Unreachable), ow_online = [],
     ow_sync = (\<lambda>_ nd. (Inr (), nd)), ow_listened = None\<rparr>"

definition toy_calendar :: calendar where
  "toy_calendar = \<lparr>ca_now = 0, ca_today = (\<lambda>m. Some (int m * 60 * ns_per_sec)), ca_tomorrow = None\<rparr>"

definition ls_cli :: grant_cli where
  "ls_cli = \<lparr>gc_allow = [''p''], gc_all = False, gc_server = False, gc_once = False, gc_for = Some ''2h'', gc_until = None,
     gc_days = [''Sat'', '' sun''], gc_dates = [''31''], gc_from = Some ''9am'', gc_to = Some ''5pm'', gc_weekdays = False,
     gc_only = [''-l /tmp'']\<rparr>"

definition ls_narrow :: grant_narrow where
  "ls_narrow = \<lparr>gn_allow = [''p''], gn_once = False, gn_for = Some 7200, gn_until = None, gn_days = [''sat'', ''sun''],
     gn_dates = [31], gn_from = Some ''9am'', gn_to = Some ''5pm'', gn_weekdays = False, gn_args = Some [[''-l'', ''/tmp'']],
     gn_all = False\<rparr>"

lemma ls_parsed: "parse_grant_cli toy_calendar ls_cli False True = Some (Inr ls_narrow)"
  by code_simp

definition ls_request :: json where
  "ls_request = JObj ([(''op'', JStr ''add''), (''tool'', JStr ''/bin/ls'')] @ narrow_fields ls_narrow @
     [(''args'', JArr [strs_json [''-l'', ''/tmp'']])])"


definition run_request :: json where
  "run_request = JObj [(''op'', JStr ''exec''), (''body'', JStr ''p''), (''argv'', strs_json [''ls'']), (''no_wait'', JBool False)]"

lemma run_answered:
  obtains v l nd where "rpc_exec rpc_env toy_ctx run_request default_limits toy_node = (Answered, [v], l, nd)"
proof -
  have "(case rpc_exec rpc_env toy_ctx run_request default_limits toy_node of (r, out, l, nd) \<Rightarrow> r = Answered \<and> length out = 1)"
    by code_simp
  then show thesis using that by (auto simp: length_Suc_conv split: prod.splits)
qed

definition plain_terminal :: terminal where
  "plain_terminal = \<lparr>tm_out = (\<lambda>_. Inr ()), tm_err = (\<lambda>_. Inr ()), tm_pretty = (\<lambda>_. []), tm_compact = (\<lambda>_. []), tm_debug = (\<lambda>s. s),
     tm_when = (\<lambda>_. []), tm_read_grant = (\<lambda>_. None), tm_read_view = (\<lambda>_. None), tm_decode_error = (\<lambda>_. [])\<rparr>"

theorem exec_shows_saved_outcome_witness:
  "\<exists>v j. (\<exists>l nd. rpc_exec rpc_env toy_ctx run_request default_limits toy_node = (Answered, [v], l, nd)) \<and>
     snd (client_receive (\<lambda>_. Inr v) True False [Inr []]) = Inr (exec_json j) \<and> is_terminal (j_status j)"
proof -
  obtain v l nd where a: "rpc_exec rpc_env toy_ctx run_request default_limits toy_node = (Answered, [v], l, nd)"
    by (rule run_answered)
  have "flag run_request ''no_wait'' False = False" by code_simp
  moreover have "\<forall>w \<in> set [v]. (\<lambda>_. Inr v) ((\<lambda>_. []) w) = Inr w" by simp
  moreover have "\<forall>bs. tm_out plain_terminal bs = Inr () \<and> tm_err plain_terminal bs = Inr ()"
    by (simp add: plain_terminal_def)
  ultimately obtain j where "is_terminal (j_status j)"
    "snd (client_receive (\<lambda>_. Inr v) True False (map (\<lambda>_. Inr []) [v])) = Inr (exec_json j)"
    using exec_shows_saved_outcome [OF a, of "\<lambda>_. Inr v" "\<lambda>_. []" plain_terminal] by blast
  then have "is_terminal (j_status j) \<and> snd (client_receive (\<lambda>_. Inr v) True False [Inr []]) = Inr (exec_json j)"
    by (simp only: list.map simp_thms)
  with a show ?thesis by blast
qed

definition zero_id :: string where
  "zero_id = uuid_text (uuid_bits (replicate 16 0))"

definition run_accepted :: "job res \<times> node" where
  "run_accepted = exec_accept rpc_env toy_ctx ''p'' [''ls''] toy_node"

theorem exec_wait_ends_witness:
  "\<exists>out nd. rpc_exec rpc_env toy_ctx run_request default_limits toy_node = (Answered, out, default_limits, nd)"
proof -
  have "\<not> isl (fst run_accepted)" by code_simp
  then obtain row nd1 where acc: "run_accepted = (Inr row, nd1)" by (metis prod.collapse sum.collapse(2))
  have "map_sum (\<lambda>_. ()) j_id (fst run_accepted) = Inr zero_id" by code_simp
  then have row: "j_id row = zero_id" by (simp only: acc fst_conv map_sum.simps sum.inject)
  have "readable rpc_env (snd run_accepted) 2 zero_id 0"
    "readable rpc_env (snd run_accepted) 2 zero_id 1"
    "settled rpc_env (snd run_accepted) 2 zero_id 1"
    by (code_simp, code_simp, code_simp)
  then have "\<forall>u \<le> 1. readable rpc_env nd1 2 (j_id row) u" "settled rpc_env nd1 2 (j_id row) 1"
    by (auto simp: acc row le_Suc_eq One_nat_def)
  moreover have "exec_request rpc_env run_request = Inr (''p'', [''ls''])" by code_simp
  ultimately obtain r out nd where a: "rpc_exec rpc_env toy_ctx run_request default_limits toy_node = (r, out, default_limits, nd)"
    using exec_wait_ends [of rpc_env run_request "''p''" "[''ls'']" toy_ctx toy_node row nd1 default_limits 1] acc
    by (auto simp: run_accepted_def rpc_env_def default_limits_def OWNER_WAITERS_def)
  moreover have "r = Answered" using a run_answered by (metis prod.inject)
  ultimately show ?thesis by blast
qed

definition retry_store :: store where
  "retry_store = toy_store\<lparr>st_jobs := [toy_job (Uncertain ''lost'')\<lparr>j_body := ''p'', j_from := ''m''\<rparr>]\<rparr>"

theorem retry_is_new_attempt_witness:
  "\<exists>v nd i. rpc_job_retry rpc_env toy_ctx (JObj [(''job_id'', JStr ''j1'')]) (retry_store, None) = (Inr v, nd) \<and>
     st_retry_links (fst nd) i = Some ''j1'' \<and> length (st_jobs (fst nd)) = 2"
proof -
  have "\<not> isl (fst (rpc_job_retry rpc_env toy_ctx (JObj [(''job_id'', JStr ''j1'')]) (retry_store, None)))" by code_simp
  then obtain v nd where a: "rpc_job_retry rpc_env toy_ctx (JObj [(''job_id'', JStr ''j1'')]) (retry_store, None) = (Inr v, nd)"
    by (metis prod.collapse sum.collapse(2))
  from retry_is_new_attempt [OF a] obtain old i where "st_retry_links (fst nd) i = Some (j_id old)" "old \<in> set (st_jobs retry_store)"
    "map job_core (st_jobs (fst nd)) = map job_core (st_jobs (fst (ow_others rpc_env 0 (retry_store, None)))) @
      [\<lparr>j_id = i, j_body = j_body old, j_argv = j_argv old, j_from = j_from old, j_status = Queued, j_stdout = [], j_stderr = []\<rparr>]"
    by auto
  moreover have "length (st_jobs (fst (ow_others rpc_env 0 (retry_store, None)))) = 1"
    by (simp add: rpc_env_def retry_store_def)
  ultimately have "length (map job_core (st_jobs (fst nd))) = 2" "st_retry_links (fst nd) i = Some ''j1''"
    by (simp_all only: length_append length_map list.size) (simp_all add: retry_store_def toy_job_def)
  then show ?thesis using a by (metis length_map)
qed

text \<open>The panic of the duration parser, as \<open>--for 2\<close> followed by an e with an accent triggers it.\<close>

lemma duration_panics_inside_character: "parse_duration (''2'' @ [CHR 0xC3, CHR 0xA9]) = None"
  by code_simp

end
