(* ===== verification/Clix_Witness_Pin.thy ===== *)
theory Clix_Witness_Pin
  imports Clix_Witness Clix_Scan Clix_Pin_Owner
begin

text \<open>
  The properties of the pinned directory applied at concrete trees: a file \<open>a\<close> that a paired machine
  replaces, and a recovery directory with one retained version.  The digest keeps short contents apart.
\<close>

section \<open>A concrete directory\<close>

definition pin_crypto :: crypto where
  "pin_crypto = toy_crypto\<lparr>cr_sha256 := (\<lambda>b. take 32 (b @ replicate 32 0))\<rparr>"

definition toy_file :: "bytes \<Rightarrow> 32 word \<Rightarrow> pin_file" where
  "toy_file b m = \<lparr>pf_bytes = b, pf_mode = m, pf_dev = 1, pf_ino = 2, pf_mtime = (0, 0), pf_ctime = (0, 0)\<rparr>"

text \<open>The recovery directory of the resolution holds one receipt, the text \<open>{\<close>, and its version.\<close>

definition kept_receipt :: receipt where
  "kept_receipt = \<lparr>rc_path = ''a'', rc_expected = Some (fingerprint pin_crypto [1, 2] 420), rc_replacement = None,
     rc_version = ''v'', rc_state = RsRetained, rc_source = None, rc_discard_token = None\<rparr>"

definition toy_receipt_io :: "nat \<Rightarrow> receipt_io" where
  "toy_receipt_io k = \<lparr>ri_random = Inr (replicate 16 (of_nat k + 2)), ri_create = Inr (), ri_write = None,
     ri_rename = Inr (), ri_sync = Inr ()\<rparr>"

definition toy_pin :: pin_env where
  "toy_pin = \<lparr>pv_crypto = pin_crypto, pv_host = toy_host, pv_canonical = (\<lambda>_. None), pv_errno = (\<lambda>e. e),
     pv_encode = (\<lambda>_. [123]), pv_parse = (\<lambda>b. if b = [123] then Some (receipt_json kept_receipt) else None),
     pv_parse_error = (\<lambda>_. []), pv_torn = (\<lambda>_. False), pv_other_size = 0, pv_open = Inr (), pv_lock = Inr (),
     pv_random = Inr (replicate 16 1), pv_parent = None, pv_receipt = toy_receipt_io, pv_stage = None,
     pv_new_file = toy_file, pv_ctime = (\<lambda>_. (1, 0)), pv_sync = Inr (), pv_previous = Inr (), pv_unlink = Inr (),
     pv_final = Inr (), pv_others = (\<lambda>t. t)\<rparr>"

definition old_fp :: fingerprint where "old_fp = fingerprint pin_crypto [104, 105] 420"
definition new_fp :: fingerprint where "new_fp = fingerprint pin_crypto [98, 121, 101] 420"

definition toy_tree :: pin_tree where
  "toy_tree = \<lparr>pt_path = ''/r'', pt_entries = [(''a'', Reg (toy_file [104, 105] 420)), (''d'', Dir [(''b'', Reg (toy_file [7] 493))])],
     pt_recovery = Some []\<rparr>"

definition replace_a :: change where
  "replace_a = \<lparr>pc_path = ''a'', pc_expected = Some old_fp, pc_new = Some new_fp, pc_to_remote = False\<rparr>"

section \<open>Planning, publishing and scanning\<close>

text \<open>The paired machine changed \<open>a\<close>, this one added \<open>c\<close>.\<close>

theorem plan_merges_witness:
  "\<exists>cs m. plan [(''a'', old_fp), (''c'', new_fp)] [(''a'', new_fp)] [(''a'', old_fp)] ''m'' ''p'' = Inr (cs, m) \<and>
     bt_get m ''a'' = Some new_fp \<and> bt_get m ''c'' = Some new_fp \<and> distinct (map pc_path cs)"
proof -
  have "\<not> isl (plan [(''a'', old_fp), (''c'', new_fp)] [(''a'', new_fp)] [(''a'', old_fp)] ''m'' ''p'')" by code_simp
  then obtain cs m where p: "plan [(''a'', old_fp), (''c'', new_fp)] [(''a'', new_fp)] [(''a'', old_fp)] ''m'' ''p'' = Inr (cs, m)"
    by (metis sum.collapse(2) prod.collapse)
  have "old_fp \<noteq> new_fp" by code_simp
  with plan_merges [OF p] p show ?thesis by (auto simp: bt_get_def merged_version_def)
qed

lemma replace_a_runs:
  obtains name t' where "apply_locked toy_pin replace_a (Some [98, 121, 101]) toy_store [] toy_tree = (Inr (Some name), t')"
proof -
  have "case apply_locked toy_pin replace_a (Some [98, 121, 101]) toy_store [] toy_tree of
      (Inr (Some name), t') \<Rightarrow> True | _ \<Rightarrow> False" by code_simp
  then show thesis using that by (auto split: prod.splits sum.splits option.splits)
qed

theorem publication_replaces_witness:
  "\<exists>version t'. node_at (pt_entries (before_rename toy_pin replace_a (Some [98, 121, 101]) [] toy_tree)) [''a''] =
       Some (Reg (toy_file [104, 105] 420)) \<and>
     displaced toy_pin replace_a version (before_rename toy_pin replace_a (Some [98, 121, 101]) [] toy_tree) t' \<and>
     (\<exists>f. node_at (pt_entries t') [''a''] = Some (Reg f) \<and> fingerprint pin_crypto (pf_bytes f) (pf_mode f) = new_fp)"
proof -
  obtain name t' where run: "apply_locked toy_pin replace_a (Some [98, 121, 101]) toy_store [] toy_tree = (Inr (Some name), t')"
    by (rule replace_a_runs)
  have a: "parts ''a'' = [''a'']" by code_simp
  have "node_at (pt_entries (before_rename toy_pin replace_a (Some [98, 121, 101]) [] toy_tree)) [''a''] =
       Some (Reg (toy_file [104, 105] 420))" by code_simp
  moreover from publication_replaces [OF run] obtain version where
      "displaced toy_pin replace_a version (before_rename toy_pin replace_a (Some [98, 121, 101]) [] toy_tree) t' \<and>
       (\<exists>f. node_at (pt_entries t') [''a''] = Some (Reg f) \<and> fingerprint pin_crypto (pf_bytes f) (pf_mode f) = new_fp)"
    by (auto simp: toy_pin_def toy_file_def replace_a_def a)
  ultimately show ?thesis by blast
qed

text \<open>The same change when the last receipt cannot be written: the replaced version is there all the same.\<close>

definition torn_pin :: pin_env where
  "torn_pin = toy_pin\<lparr>pv_receipt := (\<lambda>k. if k = 0 then toy_receipt_io 0
     else (toy_receipt_io k)\<lparr>ri_write := Some ([123], Io ''no space left on device'')\<rparr>)\<rparr>"


theorem scan_exact_witness:
  "\<exists>m. scan_tree toy_pin toy_tree = Inr m \<and> bt_get m ''d/b'' = Some (fingerprint pin_crypto [7] 493)"
proof -
  have "\<not> isl (scan_tree toy_pin toy_tree)" by code_simp
  then obtain m where m: "scan_tree toy_pin toy_tree = Inr m" by (metis sum.collapse(2))
  have ok: "entries_ok (pt_entries toy_tree)" by code_simp
  have "normal (parts ''d/b'') = parts ''d/b'' \<and> \<not> excluded ''d/b'' \<and>
      file_at (pt_entries toy_tree) (parts ''d/b'') = Some (toy_file [7] 493)" by code_simp
  with scan_exact [OF m ok] m show ?thesis by (auto simp: toy_file_def toy_pin_def)
qed


end
