(* ===== verification/Clix_Witness_Recovery.thy ===== *)
theory Clix_Witness_Recovery
  imports Clix_Witness_Pin Clix_Listing
begin

text \<open>
  Synchronisation, conflicts, recovery and export applied at concrete machines.
\<close>

section \<open>Synchronising\<close>

definition pin_store :: store where
  "pin_store = toy_store\<lparr>st_pin_enabled := True,
     st_pin_index := (st_pin_index toy_store)\<lparr>pi_peers := [pin_key (replicate 32 0) \<mapsto> [(''a'', old_fp)]]\<rparr>\<rparr>"

definition one_file :: pin_tree where
  "one_file = \<lparr>pt_path = ''/r'', pt_entries = [(''a'', Reg (toy_file [104, 105] 420))], pt_recovery = Some []\<rparr>"

definition pin_state :: pin_host where
  "pin_state = ((pin_store, None), one_file)"

text \<open>The paired machine lists a new file \<open>c\<close>, delivers it and accepts the commit.\<close>

definition toy_sync :: pin_sync_env where
  "toy_sync = \<lparr>py_ctx = toy_ctx, py_pin = (\<lambda>_. toy_pin),
     py_call = (\<lambda>i addr pk q.
       if q = pin_list_query then Inr (JObj [(''files'', manifest_json [(''a'', old_fp), (''c'', new_fp)]), (''baseline'', manifest_json [(''a'', old_fp)])])
       else if jstr q ''op'' = Some ''pin_get'' then Inr (JObj [(''content'', JStr (hex [98, 121, 101]))])
       else Inr (JObj [(''ok'', JBool True)])),
     py_others = (\<lambda>_ _ h. h), py_now = 5, py_dir = (None, None), py_decode_error = (\<lambda>_. [])\<rparr>"

lemma toy_sync_runs: obtains h' where "sync_with_peer toy_sync ''h:1'' ''p'' pin_state = (Inr (), h')"
proof -
  have "fst (sync_with_peer toy_sync ''h:1'' ''p'' pin_state) = Inr ()" by code_simp
  then show thesis using that by (metis prod.collapse)
qed


definition put_a :: json where
  "put_a = pin_put_query replace_a (Some [98, 121, 101])"


text \<open>Both machines changed \<open>a\<close>.\<close>

theorem conflict_report_exact_witness:
  "\<nexists>x. rbind (common_baseline [] [] [(''a'', old_fp)] [(''a'', new_fp)]) (\<lambda>old. plan [(''a'', old_fp)] [(''a'', new_fp)] old ''m'' ''p'') = Inr x"
proof -
  let ?remote = "\<lparr>li_files = [(''a'', new_fp)], li_baseline = []\<rparr>"
  have paths: "\<forall>p \<in> set (conflict_paths [(''a'', old_fp)] (li_files ?remote) [] (li_baseline ?remote)). valid_path p = Inr ()" by code_simp
  have "cf_conflicts (report_conflicts pin_crypto toy_peer ''p'' [(''a'', old_fp)] ?remote []) \<noteq> []" by code_simp
  with conflict_report_exact [OF paths, of "''m''" "''p''" pin_crypto toy_peer "''p''"] show ?thesis by simp
qed

section \<open>Recovery\<close>

definition toy_recovery :: recovery_env where
  "toy_recovery = \<lparr>re_pin = (\<lambda>_. toy_pin), re_others = (\<lambda>_ t. t)\<rparr>"

text \<open>A saved version no receipt owns.\<close>

definition saved_tree :: pin_tree where
  "saved_tree = one_file\<lparr>pt_recovery := Some [(''v'', Reg (toy_file [1, 2] 420))]\<rparr>"

definition token_at :: "pin_tree \<Rightarrow> string \<Rightarrow> string" where
  "token_at t i = (case inspect_entry toy_pin t i of Inr v \<Rightarrow> in_token v | Inl _ \<Rightarrow> [])"


definition kept_tree :: pin_tree where
  "kept_tree = one_file\<lparr>pt_recovery := Some [(''r.json'', Reg (toy_file [123] 384)), (''v'', Reg (toy_file [1, 2] 420))]\<rparr>"


section \<open>Listing\<close>

definition crowded_tree :: pin_tree where
  "crowded_tree = one_file\<lparr>pt_recovery := Some [(''v'', Reg (toy_file [1] 420)), (''w'', Reg (toy_file [2] 420)), (''u'', Reg (toy_file [3] 420))]\<rparr>"

theorem recovery_pages_complete_witness:
  "\<exists>ps. walk_pages 2 toy_recovery ''m'' None 2 crowded_tree = Some ps \<and>
     concat (map (\<lambda>p. map en_id (rl_entries p)) ps) = [''u'', ''v'', ''w'']"
proof -
  have "\<not> isl (fst (list_recovery_page toy_recovery ''m'' None 2 crowded_tree))" by code_simp
  then obtain p t where run: "list_recovery_page toy_recovery ''m'' None 2 crowded_tree = (Inr p, t)"
    by (metis sum.collapse(2) prod.collapse)
  have "filter (listed (re_pin toy_recovery 1) (recovery_of crowded_tree)) (sort (map fst (recovery_of crowded_tree))) = [''u'', ''v'', ''w'']"
    "distinct (map fst (recovery_of crowded_tree))" "length (recovery_of crowded_tree) div 2 = 1" by code_simp+
  moreover have "re_others toy_recovery k u = u" for k u by (simp add: toy_recovery_def)
  ultimately show ?thesis using recovery_pages_complete [OF run] by (metis Suc_1)
qed

section \<open>Export\<close>

text \<open>A short text for frames: the two counters in eight bytes each, the end mark, the bytes.\<close>

fun put_le :: "nat \<Rightarrow> nat \<Rightarrow> bytes" where
  "put_le 0 n = []"
| "put_le (Suc k) n = of_nat n # put_le k (n div 256)"

fun get_le :: "bytes \<Rightarrow> nat" where
  "get_le [] = 0"
| "get_le (b # bs) = unat b + 256 * get_le bs"

lemma length_put_le [simp]: "length (put_le k n) = k"
  by (induction k arbitrary: n) simp_all

lemma get_put_le: "get_le (put_le k n) = n mod 256 ^ k"
  by (induction k arbitrary: n) (simp_all add: unat_of_nat mod_mult2_eq)

definition frame_text :: "json \<Rightarrow> bytes" where
  "frame_text v = (case chunk_of_json (jindex v ''chunk'') of
       Some c \<Rightarrow> put_le 8 (ck_offset c) @ put_le 8 (ck_total c) @ (if ck_eof c then 1 else 0) # ck_bytes c
     | None \<Rightarrow> [])"

definition frame_parse :: "bytes \<Rightarrow> string + json" where
  "frame_parse b = Inr (chunk_frame \<lparr>ck_offset = get_le (take 8 b), ck_total = get_le (take 8 (drop 8 b)),
     ck_bytes = butlast (drop 17 b), ck_eof = (b ! 16 = 1)\<rparr>)"

definition toy_client :: export_client where
  "toy_client = \<lparr>xc_connect = None, xc_sent = Inr (), xc_parse = frame_parse, xc_decode_error = (\<lambda>_. []),
     xc_output = (\<lambda>_. Inr ()), xc_flush = Inr ()\<rparr>"

lemma frame_travels:
  assumes "ck_offset c \<le> u64_max" "ck_total c \<le> u64_max" "length (ck_bytes c) \<le> 65536"
  shows "frame_parse (frame_text (chunk_frame c) @ [10]) = Inr (chunk_frame c) \<and> length (frame_text (chunk_frame c)) < FRAME_BYTES"
proof -
  have "frame_text (chunk_frame c) = put_le 8 (ck_offset c) @ put_le 8 (ck_total c) @ (if ck_eof c then 1 else 0) # ck_bytes c"
    using assms by (simp add: frame_text_def chunk_frame_def jindex_def chunk_round)
  moreover have "get_le (put_le 8 (ck_offset c)) = ck_offset c" "get_le (put_le 8 (ck_total c)) = ck_total c"
    using assms(1,2) by (simp_all add: get_put_le u64_max_def)
  ultimately show ?thesis using assms(3) by (cases c) (simp add: frame_parse_def FRAME_BYTES_def nth_append butlast_append)
qed

lemma toy_client_carries: "carries frame_text toy_client"
  using frame_travels by (auto simp: carries_def toy_client_def)

definition export_env :: pin_owner_env where
  "export_env = \<lparr>po_sync = toy_sync\<lparr>py_ctx := toy_ctx\<lparr>cx_crypto := pin_crypto\<rparr>\<rparr>, po_recovery = toy_recovery, po_create_root = Inr (),
     po_decode_error = (\<lambda>_. [])\<rparr>"

definition export_look :: look where
  "export_look = \<lparr>lk_pin = toy_pin, lk_root = Inr True, lk_dir = Inr (Some True), lk_tree = saved_tree, lk_source = (\<lambda>n. n)\<rparr>"

definition export_v :: json where
  "export_v = JObj [(''op'', JStr ''pin_recovery_export''), (''id'', JStr ''v''), (''version'', JStr ''retained''),
     (''token'', JStr (token_at saved_tree ''v''))]"

theorem export_arrives_whole_witness:
  "\<exists>fs h' out. serve_export export_env export_look (\<lambda>_ _. export_look) (\<lambda>_. Inr ()) export_v ((pin_store, None), saved_tree) = (fs, Inr (), h') \<and>
     client_export toy_client (lines_of frame_text fs) = (Inr (), out) \<and> length out = 2"
proof -
  let ?run = "serve_export export_env export_look (\<lambda>_ _. export_look) (\<lambda>_. Inr ()) export_v ((pin_store, None), saved_tree)"
  have "case ?run of (fs, r, h') \<Rightarrow> r = Inr ()" by code_simp
  then obtain fs h' where run: "?run = (fs, Inr (), h')" by (auto split: prod.splits)
  have req: "case export_request export_env export_v of Inr (i, token, which) \<Rightarrow> i = ''v'' \<and> which = ReadRetained | _ \<Rightarrow> False" by code_simp
  have view: "case inspect_entry toy_pin saved_tree ''v'' of Inr v \<Rightarrow> map_option rv_bytes (in_retained v) = Some 2 | _ \<Rightarrow> False" by code_simp
  have lock: "recovery_lock toy_pin saved_tree = (Inr (), saved_tree)" by code_simp
  from export_arrives_whole [OF run toy_client_carries] run req view lock show ?thesis
    by (auto simp: export_env_def toy_recovery_def u64_max_def split: sum.splits)
qed

end
