(* ===== verification/Clix_Witness_Host.thy ===== *)
theory Clix_Witness_Host
  imports Clix_Witness_Pair Clix_Witness_Recovery Clix_Address Clix_Desktop
begin

text \<open>The properties of connections, start-up, addresses, the unit and the desktop applied at concrete states.\<close>

section \<open>Connections\<close>

definition toy_tls :: tls_lib where
  "toy_tls = \<lparr>td_point = (\<lambda>_. Inr ()), td_weak = (\<lambda>_. False), td_to_der = Inr, td_of_der = Inr, td_pkcs8 = Inr,
     td_load = (\<lambda>d. Inr (Some d)), td_verify13 = (\<lambda>_ _ _. Inr ()), td_versions = Inr ()\<rparr>"

definition toy_session :: session where
  "toy_session = \<lparr>ts_certs = Some [replicate 32 0], ts_alpn = Some ALPN\<rparr>"

definition enc_ctx :: ctx where
  "enc_ctx = toy_ctx\<lparr>cx_crypto := enc_crypto\<rparr>"

definition asked_run :: json where
  "asked_run = exec_query None (toy_job Queued)"

definition toy_conn :: conn where
  "toy_conn = \<lparr>cn_nodelay = Inr (), cn_preface = Inr TLS_PREFACE, cn_handshake = HsDone toy_session, cn_others = (\<lambda>_ nd. nd),
     cn_timeout = False, cn_input = u32_bytes (length (enc asked_run)) @ enc asked_run, cn_parse = (\<lambda>_. Inr asked_run),
     cn_write = Inr ()\<rparr>"

lemma toy_conn_sel: "cn_handshake toy_conn = HsDone toy_session" "cn_others toy_conn k nd = nd" "cn_parse toy_conn d = Inr asked_run"
  by (simp_all add: toy_conn_def)

definition toy_pin_rpc :: pin_rpc where
  "toy_pin_rpc = mesh_pin (undisturbed toy_sync) one_file"

definition toy_served :: served where
  "toy_served = serve_conn toy_tls enc_ctx toy_mesh_env toy_pin_rpc toy_conn default_handle default_limits toy_node"

lemma toy_serves: "sv_child toy_served \<noteq> None \<and> sv_sent toy_served \<noteq> None"
  by code_simp

lemma toy_completed: "\<exists>cfg. server_config toy_tls toy_store = Inr cfg \<and> completed cfg toy_store [] toy_session"
proof -
  have "verify_signature toy_tls [] (replicate 32 0) \<lparr>dss_scheme = ED25519, dss_signature = []\<rparr> = Inr ()"
    by (simp add: verify_signature_def toy_tls_def)
  then show ?thesis
    by (auto simp: server_config_def identity_def toy_tls_def tls_def toy_store_def toy_peer_def fresh_store_def completed_def
        toy_session_def paired_clients_def public_key_der_def)
qed

theorem connection_acts_as_paired_machine_witness:
  "sv_child toy_served \<noteq> None \<and> proved toy_tls [] (p_owner_pk toy_peer) \<and>
     started_for ''p'' toy_store toy_now (sv_child toy_served)"
proof -
  obtain cfg where cfg: "server_config toy_tls toy_store = Inr cfg" "completed cfg toy_store [] toy_session"
    using toy_completed by blast
  have peers: "st_peers toy_store = [toy_peer]" by (simp add: toy_store_def)
  have "\<And>se. cn_handshake toy_conn = HsDone se \<Longrightarrow> completed cfg toy_store [] se" using cfg(2) by (simp add: toy_conn_sel)
  moreover have "\<And>pk spki. td_to_der toy_tls pk = Inr spki \<Longrightarrow> td_of_der toy_tls spki = Inr pk" by (simp add: toy_tls_def)
  ultimately have "\<exists>peer \<in> set (st_peers (fst (cn_others toy_conn 0 toy_node))). proved toy_tls [] (p_owner_pk peer) \<and>
      started_for (p_name peer) (fst (cn_others toy_conn 1 (cn_others toy_conn 0 toy_node))) (se_now (me_submit toy_mesh_env)) (sv_child toy_served)"
    using connection_acts_as_paired_machine [OF cfg(1), where cn = toy_conn and sv = toy_served and cx = enc_ctx and py = toy_sync and t = one_file
        and env = toy_mesh_env and h = default_handle and l = default_limits and nd = toy_node and msg = "[]" and ?s1.0 = toy_store] toy_serves
    by (auto simp: toy_served_def toy_pin_rpc_def)
  moreover have "se_now (me_submit toy_mesh_env) = toy_now" "p_name toy_peer = ''p''" "fst toy_node = toy_store"
    by (simp_all add: toy_mesh_env_def toy_env_def toy_peer_def toy_node_def)
  ultimately show ?thesis using toy_serves by (simp add: toy_conn_sel peers)
qed

definition toy_answer :: "json res" where
  "toy_answer = fst (dispatch enc_ctx toy_mesh_env toy_pin_rpc toy_peer asked_run default_limits toy_node)"

definition toy_dialled :: dialled where
  "toy_dialled = \<lparr>di_connect = Inr (), di_handshake = HsDone toy_session, di_write = Inr (), di_timeout = False,
     di_input = the (sv_sent toy_served), di_parse = (\<lambda>_. Inr (response_of toy_answer))\<rparr>"

lemma toy_sent: "write_frame (enc asked_run) = Inr (cn_input toy_conn)"
proof -
  have "length (enc asked_run) \<le> MESH_FRAME_BYTES" by code_simp
  then show ?thesis by (simp add: write_frame_def toy_conn_def)
qed

lemma toy_sent_answer: "write_frame (enc (response_of toy_answer)) = Inr (the (sv_sent toy_served))"
  by code_simp

lemma toy_dialled_sel: "di_connect toy_dialled = Inr ()" "di_handshake toy_dialled = HsDone toy_session" "di_write toy_dialled = Inr ()"
  "\<not> di_timeout toy_dialled" "di_input toy_dialled = the (sv_sent toy_served)" "di_parse toy_dialled d = Inr (response_of toy_answer)"
  by (simp_all add: toy_dialled_def)

lemma frame_inj: "write_frame a = Inr f \<Longrightarrow> write_frame b = Inr f \<Longrightarrow> a = b"
proof -
  have body: "drop 4 f = d" if "write_frame d = Inr f" for d
  proof -
    have "f = u32_bytes (length d) @ d" using that by (simp add: write_frame_def split: if_splits)
    moreover have "length (u32_bytes n) = 4" for n by (simp add: u32_bytes_def)
    ultimately show ?thesis by simp
  qed
  assume "write_frame a = Inr f" "write_frame b = Inr f"
  from body [OF this(1)] body [OF this(2)] show ?thesis by simp
qed


section \<open>Start-up\<close>

definition toy_boot :: boot_env where
  "toy_boot = \<lparr>bo_sock = ''/run/clix.sock'', bo_parent = Inr (), bo_exists = True, bo_answers = False, bo_remove = Inr (),
     bo_bind = Inr (), bo_mode = Inr ()\<rparr>"


section \<open>Addresses\<close>

definition node_json :: "string \<Rightarrow> string \<Rightarrow> json" where
  "node_json name ip = JObj [(''HostName'', JStr name), (''TailscaleIPs'', JArr [JStr ''fd7a::1'', JStr ip]), (''Online'', JBool True)]"

definition status_json :: json where
  "status_json = JObj [(''BackendState'', JStr ''Running''), (''Self'', node_json ''m'' ''100.0.0.1''),
     (''Peer'', JObj [(''k1'', node_json ''q'' ''100.0.0.2''), (''k2'', node_json ''p'' ''100.0.0.3'')])]"

definition toy_tail :: tail_env where
  "toy_tail = \<lparr>te_parse = (\<lambda>_. Inr status_json), te_decode_error = (\<lambda>_. []), te_order = rev, te_output = (\<lambda>_. None)\<rparr>"

theorem status_lists_dialable_witness:
  "\<exists>st. parse_status toy_tail [] = Inr st \<and> map pa_name (tl_peers st) = [''p'', ''q''] \<and> ipv4_ok (tl_self_ipv4 st)"
proof -
  have e: "(case parse_status toy_tail [] of Inr st \<Rightarrow> map pa_name (tl_peers st) = [''p'', ''q''] | Inl e \<Rightarrow> False)" by code_simp
  then obtain st where st: "parse_status toy_tail [] = Inr st" by (auto split: sum.splits)
  have "\<And>xs. mset (te_order toy_tail xs) = mset xs" by (simp add: toy_tail_def)
  from status_lists_dialable [OF st this] st e show ?thesis by auto
qed

section \<open>The unit\<close>

definition toy_install :: install_env where
  "toy_install = \<lparr>is_vars = (\<lambda>k. if k = ''HOME'' then Some ''/home/m'' else None), is_exe = Inr (Some ''/opt/my clix/clix''),
     is_mkdir = (\<lambda>_. Inr ()), is_write = (\<lambda>_ _. Inr ()), is_systemctl = (\<lambda>_ _. Inr True), is_loginctl = (\<lambda>_. None),
     is_ready = [False, True]\<rparr>"


section \<open>The desktop\<close>


definition quiet_desktop :: desktop where
  "quiet_desktop = \<lparr>dt_vars = (\<lambda>_. None), dt_runtime = None, dt_x11 = None\<rparr>"

definition live_desktop :: desktop where
  "live_desktop = quiet_desktop\<lparr>dt_vars := (\<lambda>k. if k = ''DISPLAY'' then Some '':0'' else None)\<rparr>"

definition toy_round :: "desktop \<Rightarrow> bool \<Rightarrow> notify_round" where
  "toy_round dt ok = \<lparr>nr_pending = st_requests asked_store, nr_hook = (\<lambda>_. True), nr_desktop = (\<lambda>_. dt), nr_shown = (\<lambda>_. ok)\<rparr>"

theorem request_notified_once_witness:
  "let rounds = [toy_round quiet_desktop True, toy_round live_desktop False, toy_round live_desktop True, toy_round live_desktop True] in
     shows_for ''q1'' (snd (notify_run rounds ({}, {}))) = 1 \<and> hooks_for ''q1'' (snd (notify_run rounds ({}, {}))) = 1"
  using request_notified_once [of "[]" "[]" "''q1''"
      "[toy_round quiet_desktop True, toy_round live_desktop False, toy_round live_desktop True, toy_round live_desktop True]"]
  by (simp add: Let_def toy_round_def asked_store_def asks_def showable_def hookable_def live_desktop_def quiet_desktop_def
      notify_enabled_def display_present_def set_var_def)

end
