(* ===== verification/Spec2Isabelle.thy ===== *)
theory Spec2Isabelle
  imports Clix_Prelude Clix_Types Clix_State Clix_Limits Clix_Grant Clix_Request Clix_Json Clix_History
    Clix_Ledger Clix_Replica Clix_Storage Clix_Store Clix_Job Clix_Exec Clix_Mesh Clix_Dispatch
    Clix_Deliver Clix_System Clix_Single_Use Clix_View Clix_Sync Clix_Pair Clix_Args Clix_Owner Clix_Rpc
    Clix_Pin Clix_Tree Clix_Publish Clix_Scan Clix_Pin_Sync Clix_Recovery Clix_Listing Clix_Recover Clix_Export
    Clix_Pin_Owner Clix_Transport Clix_Daemon Clix_Address Clix_Install Clix_Desktop
    Clix_Witness Clix_Witness_Sync Clix_Witness_Pair Clix_Witness_Rpc Clix_Witness_Pin
    Clix_Witness_Recovery Clix_Witness_Host
begin

text \<open>
  Clix lets the paired machines of one owner use tools of each other.  Every machine runs one
  sidecar.  The owner grants a tool to machines (\<open>src/grant.rs\<close>); a paired machine asks for a run
  over the mesh (\<open>src/mesh.rs\<close>); the sidecar admits it durably, runs the tool and records the
  outcome (\<open>src/exec.rs\<close>); runs and outcomes are signed and replicated between the machines
  (\<open>src/history.rs\<close>).  Everything durable is one \<open>Store\<close> (\<open>src/store.rs\<close>), replaced as a whole by
  an atomic rename, within the quotas of \<open>src/storage.rs\<close>.  Beside the tools, paired machines keep one
  directory in step (\<open>src/pin.rs\<close>): the pinned directory is merged three ways and every version a
  machine replaces stays in its recovery directory until the owner decides.

  Theories and the code they model:

    \<^item> \<open>Clix_Prelude\<close>: results (\<open>error + value\<close>), first-match updates of vectors, key-ordered maps
      (\<open>BTreeMap\<close>), decimal and hexadecimal text, checked counters; the locale \<open>ordered_map\<close>.
    \<^item> \<open>Clix_Types\<close> (\<open>error.rs\<close>, \<open>types.rs\<close>) and \<open>Clix_State\<close> (the data of \<open>history.rs\<close>,
      \<open>store.rs\<close>): errors with their texts, schedules, grants, jobs, requests, signed history, the
      store.
    \<^item> \<open>Clix_Limits\<close> (\<open>limits.rs\<close>): bounds on identifiers, arguments and results, the owner line,
      permit pools (locale \<open>permit_pool\<close>).
    \<^item> \<open>Clix_Grant\<close> (\<open>grant.rs\<close>) and \<open>Clix_Request\<close> (\<open>request.rs\<close>): owner decisions and permission
      requests.  The file system and the environment are the fields of a \<open>host\<close>.
    \<^item> \<open>Clix_Json\<close>: the JSON values that cross the mesh, written and read.
    \<^item> \<open>Clix_History\<close>, \<open>Clix_Ledger\<close>, \<open>Clix_Replica\<close> (\<open>history.rs\<close>): the operations; the ledger as
      a growing structure (locale \<open>growing\<close>); import, pages and signed answers.
    \<^item> \<open>Clix_Storage\<close> (\<open>storage.rs\<close>) and \<open>Clix_Store\<close> (\<open>store.rs\<close>, the recovery step of
      \<open>daemon.rs\<close>): quotas and pruning; opening, updating and saving with every system call's
      outcome explicit (locale \<open>durable_commit\<close>).
    \<^item> \<open>Clix_Job\<close> (\<open>job.rs\<close>), \<open>Clix_Exec\<close> (\<open>exec.rs\<close>), \<open>Clix_Mesh\<close> (\<open>mesh.rs\<close>): job rows and replies;
      admission, child process and completion; frames, replies and the operations a peer may call.
    \<^item> \<open>Clix_Dispatch\<close> and \<open>Clix_Deliver\<close> (\<open>job.rs\<close>, \<open>request.rs\<close>): the fair choice of pending work
      and the tasks that deliver it.
    \<^item> \<open>Clix_System\<close>: one machine over time as a labelled step relation with crashes and restarts;
      \<open>Clix_Single_Use\<close>: a grant for one use over that life.
    \<^item> \<open>Clix_View\<close> and \<open>Clix_Sync\<close> (\<open>history.rs\<close>): the views the owner sees of every run; copying the
      history of a paired machine page by page.
    \<^item> \<open>Clix_Pair\<close> (\<open>pair.rs\<close>, a start-up step of \<open>daemon.rs\<close>): names, the pairing state, both handshakes
      and discovery.
    \<^item> \<open>Clix_Args\<close> (\<open>cli.rs\<close>): the command line.  \<open>Clix_Owner\<close> and \<open>Clix_Rpc\<close> (\<open>local.rs\<close>, the owner side of
      \<open>pin_owner.rs\<close>): the requests it sends over the owner socket, the daemon's handlers, the
      connection, and what the client prints.
    \<^item> \<open>Clix_Pin\<close>, \<open>Clix_Tree\<close>, \<open>Clix_Publish\<close>, \<open>Clix_Scan\<close> (\<open>pin.rs\<close>): manifests and plans; the directory, its
      recovery directory and receipts; publishing a version (\<open>apply\<close>); what a scan lists.
    \<^item> \<open>Clix_Pin_Sync\<close> (\<open>pin.rs\<close>, the pin operations of \<open>mesh.rs\<close>): synchronising two trees, what a paired machine
      may call, conflicts.  \<open>Clix_Recovery\<close>, \<open>Clix_Listing\<close>, \<open>Clix_Recover\<close>, \<open>Clix_Export\<close> (\<open>pin.rs\<close>): inspecting and listing the
      recovery directory, resolving and discarding, exporting.  \<open>Clix_Pin_Owner\<close> (\<open>pin_owner.rs\<close>): the owner's
      commands, the export's stream and its client.
    \<^item> \<open>Clix_Transport\<close> (\<open>transport.rs\<close>, \<open>serve_conn\<close> and \<open>call\<close> of \<open>mesh.rs\<close>): the identities and verifiers given to
      rustls, what is checked of a finished handshake, and the two ends of a mesh call.
    \<^item> \<open>Clix_Daemon\<close> (\<open>daemon.rs\<close>, \<open>paths.rs\<close>): the dispatch of commands and the start of the sidecar.  \<open>Clix_Address\<close>
      (\<open>tailscale.rs\<close>, the listener of \<open>mesh.rs\<close>): whom to dial, where to listen.  \<open>Clix_Install\<close> (\<open>install.rs\<close>): the
      systemd unit.  \<open>Clix_Desktop\<close> (\<open>tray.rs\<close>, \<open>notify.rs\<close>): menu, notifications and what they decide.
    \<^item> \<open>Clix_Witness\<close>, \<open>Clix_Witness_Sync\<close>, \<open>Clix_Witness_Pair\<close>, \<open>Clix_Witness_Rpc\<close>, \<open>Clix_Witness_Pin\<close>,
      \<open>Clix_Witness_Recovery\<close>, \<open>Clix_Witness_Host\<close>: every property with a hypothesis applied at a concrete state.

  How state corresponds: a \<open>node\<close> is the store in memory (behind the mutex) and the one the state
  file holds; every handler of the code is a function from the node to a reply and the new node.  A
  spawned child task is a \<open>child\<close> value (its grant and job), returned by the submission and consumed
  by \<open>complete\<close>.  Permits are the counters of \<open>limits\<close>.  The pinned directory is a \<open>pin_tree\<close>, named nodes
  below a root with the recovery directory beside them, and a machine that synchronises is the pair of
  its node and its tree (\<open>pin_host\<close>).  While a network call is under way the store
  is unlocked: what other tasks do to the node meanwhile is the function \<open>de_others\<close>, and the peer's
  answers are the function \<open>de_call\<close>; \<open>wi_others\<close> and \<open>ow_others\<close> play this part at the await points of
  pairing and of the owner's handlers, \<open>py_others\<close> at those of a synchronisation; \<open>pv_others\<close>, \<open>re_others\<close> and
  the \<open>look\<close>s of an export are what other processes do to the files in between.

  Parameters and what is assumed of them: SHA-256, Ed25519 and the JSON text encoding (record
  \<open>crypto\<close>; \<open>crypto_ok\<close> states lengths, an injective encoding and that a signature made with a key
  verifies), the outcomes of system calls (\<open>save_env\<close>, \<open>process\<close>, \<open>host\<close>, random bytes), the encoding
  of the state file (\<open>io_chunks\<close>), the clock (\<open>local_now\<close>, \<open>calendar\<close>), SPAKE2 and HMAC (\<open>pair_env\<close>), what
  arrives from a pairing machine (\<open>wire\<close>), clap's parse, the system calls on the pinned directory with serde's
  text of receipts (\<open>pin_env\<close>), the key formats and the handshake of TLS (\<open>tls_lib\<close>; \<open>completed\<close> is what rustls
  promises of a session: its verifiers accepted the peer's key and its signature over this handshake), the
  output of the tailscale command (\<open>tail_env\<close>), systemd and the desktop (\<open>install_env\<close>, \<open>desktop\<close>).  The operations on the pinned directory are parameters of the mesh and of
  the owner socket (\<open>pin_rpc\<close>, locale \<open>pin_operations\<close>; \<open>ow_pin\<close>); \<open>Clix_Pin_Sync\<close> interprets the locale, \<open>owner_socket_pin\<close>
  instantiates the other.
  Reading the state file back gives the store that was written (\<open>durable\<close>).

  What the lemmas show: jobs start at most once, only when authorised and only after the admission
  is durable; a grant for one use is used once, through crashes and restarts; memory and disk agree or the store stops; completions settle their own job and grant;
  the signed ledger only grows and relays only what its authors signed; pages are complete and
  accepted; quotas hold and pruning keeps every receipt; owner decisions change exactly what they
  name; the dispatcher is bounded and fair; synchronisation only adds history and copies all of an
  honest peer's; pairing trusts nobody without a confirmation and reports what it trusted; the views
  lose no run and show a verified result; the owner's commands arrive as typed and show what is saved;
  plans merge, a publication loses no version whatever fails, a peer cannot overwrite a local edit, and
  recovery acts on exactly what the owner inspected; a connection acts only as the paired machine that proved
  its key, a mesh call returns what the other machine's dispatch returned; a start serves a sound state or
  nothing; the unit runs this program; a request is announced once and a menu entry decides its own request.

  Bounds: the recursions are structural or over finite lists, with two exceptions.  A synchronisation
  runs the 16 rounds of the code (\<open>SYNC_ROUNDS\<close>).  The waits of the owner's handlers look at the state
  \<open>ow_polls\<close> times: for a command this is how long the client stays, so the end of the looks is the
  code's own branch (\<open>Cancelled\<close>); a permission request may have no answer yet (\<open>None\<close>).  That a wait
  ends when its job is settled is \<open>exec_wait_ends\<close>.  The loop of an export terminates because every chunk
  but the last moves the offset on (\<open>export_ends\<close>).

  In the pinned directory a path is resolved as \<open>openat2\<close> does beneath the root without following links,
  directories are lists in the order the kernel returns their entries, and a file that changes while it
  is read is \<open>pv_torn\<close>.  Other processes may change files at any time between the steps, but are not taken to
  move the directories a step holds open.

  Not modelled, because they are input and output around libraries: the handshake of rustls and the loading of
  keys, D-Bus, the parse clap derives from the attributes in \<open>cli.rs\<close>, sockets and time limits (their outcomes
  are parameters), directory permissions and locks, and which of the loops of a running sidecar ends first.
\<close>

end
